(* ===== verification/Go_Base.thy ===== *)
theory Go_Base
  imports Main "HOL-Library.Word" "HOL-Library.Char_ord" "HOL-Library.List_Lexorder"
    "HOL-Library.AList" "HOL-Library.Multiset"
begin

text \<open>
  The prelude: the Go values the components share. Integers are 64-bit words read as two's
  complement, strings are byte lists, a Go map is an association list with the nil map told
  apart from the empty one, an error is its message. Below them come the functions of the Go
  standard library that the source calls on strings, the generic facts about association lists,
  and the interface of a machine with an invariant that the stateful components interpret.
\<close>

named_theorems go_defs \<open>definitions of the Go run-time operations\<close>
named_theorems map_laws \<open>laws of Go maps as association lists\<close>

subsection \<open>Integers, time, errors\<close>

text \<open>Go's int and int64 are both 64 bits wide here (the code is built for 64-bit targets).\<close>

type_synonym go_int = "64 word"

abbreviation go_lt :: "go_int \<Rightarrow> go_int \<Rightarrow> bool" where
  "go_lt a b \<equiv> sint a < sint b"

abbreviation go_le :: "go_int \<Rightarrow> go_int \<Rightarrow> bool" where
  "go_le a b \<equiv> sint a \<le> sint b"

text \<open>
  A \<open>time.Time\<close> is the number of nanoseconds since 1 January of year 1 UTC, the zero value of
  the Go type; a \<open>time.Duration\<close> is a number of nanoseconds.
\<close>

type_synonym go_time = int
type_synonym go_duration = int

definition go_second :: go_duration where "go_second = 1000000000"
definition go_minute :: go_duration where "go_minute = 60 * go_second"

text \<open>\<open>now.UnixNano()\<close>: nanoseconds since 1970, wrapping to 64 bits.\<close>

definition unix_nano :: "go_time \<Rightarrow> go_int" where
  "unix_nano t = word_of_int (t - 62135596800 * go_second)"

type_synonym go_error = string
type_synonym 'a result = "go_error + 'a"

subsection \<open>Strings\<close>

definition has_prefix :: "string \<Rightarrow> string \<Rightarrow> bool" where
  "has_prefix s p \<longleftrightarrow> take (length p) s = p"

definition trim_prefix :: "string \<Rightarrow> string \<Rightarrow> string" where
  "trim_prefix s p = (if has_prefix s p then drop (length p) s else s)"

fun contains_str :: "string \<Rightarrow> string \<Rightarrow> bool" where
  "contains_str [] sub \<longleftrightarrow> sub = []"
| "contains_str (c # s) sub \<longleftrightarrow> has_prefix (c # s) sub \<or> contains_str s sub"

text \<open>\<open>cut c s\<close> splits at the first \<open>c\<close>; \<open>split_n c n s\<close> is \<open>strings.SplitN\<close> for
  a one-byte separator and a positive count.\<close>

fun cut :: "char \<Rightarrow> string \<Rightarrow> (string \<times> string) option" where
  "cut c [] = None"
| "cut c (x # xs) =
     (if x = c then Some ([], xs)
      else map_option (\<lambda>(a, b). (x # a, b)) (cut c xs))"

fun split_n :: "char \<Rightarrow> nat \<Rightarrow> string \<Rightarrow> string list" where
  "split_n c 0 s = []"
| "split_n c (Suc 0) s = [s]"
| "split_n c (Suc (Suc n)) s =
     (case cut c s of None \<Rightarrow> [s] | Some (a, b) \<Rightarrow> a # split_n c (Suc n) b)"

lemma has_prefix_append [simp]: "has_prefix (p @ s) p"
  by (simp add: has_prefix_def)

lemma has_prefixD: "has_prefix s p \<Longrightarrow> s = p @ drop (length p) s"
  unfolding has_prefix_def by (metis append_take_drop_id)

lemma trim_prefix_append [simp]: "trim_prefix (p @ s) p = s"
  by (simp add: trim_prefix_def)

lemma contains_str_append: "contains_str (a @ sub @ b) sub"
proof (induction a)
  case Nil
  show ?case
  proof (cases "sub @ b")
    case Nil
    then show ?thesis by simp
  next
    case (Cons c s)
    then have "has_prefix (c # s) sub"
      by (metis has_prefix_append)
    with Cons show ?thesis by simp
  qed
qed simp

lemma contains_strD: "contains_str s sub \<Longrightarrow> \<exists>a b. s = a @ sub @ b"
proof (induction s)
  case (Cons c s)
  show ?case
  proof (cases "has_prefix (c # s) sub")
    case True
    then show ?thesis by (metis append_Nil has_prefixD)
  next
    case False
    with Cons obtain a b where "s = a @ sub @ b" by auto
    then have "c # s = (c # a) @ sub @ b" by simp
    then show ?thesis by blast
  qed
qed simp

lemma contains_str_iff: "contains_str s sub \<longleftrightarrow> (\<exists>a b. s = a @ sub @ b)"
  using contains_str_append contains_strD by blast

lemma cut_Some: "cut c s = Some (a, b) \<Longrightarrow> s = a @ c # b \<and> c \<notin> set a"
  by (induction s arbitrary: a b) (auto split: if_splits)

lemma cut_None: "cut c s = None \<longleftrightarrow> c \<notin> set s"
  by (induction s) auto

lemma cut_append [simp]: "c \<notin> set a \<Longrightarrow> cut c (a @ c # b) = Some (a, b)"
  by (induction a) auto

subsection \<open>White space and letter case\<close>

text \<open>
  \<open>strings.TrimSpace\<close> removes leading and trailing Unicode white space. The list holds the
  UTF-8 bytes of every rune for which \<open>unicode.IsSpace\<close> holds.
\<close>

definition space_runes :: "string list" where
  "space_runes =
     [[CHR 0x09], [CHR 0x0A], [CHR 0x0B], [CHR 0x0C], [CHR 0x0D], [CHR 0x20],
      [CHR 0xC2, CHR 0x85], [CHR 0xC2, CHR 0xA0], [CHR 0xE1, CHR 0x9A, CHR 0x80]]
     @ map (\<lambda>n. [CHR 0xE2, CHR 0x80, char_of (n :: nat)])
         [0x80, 0x81, 0x82, 0x83, 0x84, 0x85, 0x86, 0x87, 0x88, 0x89, 0x8A, 0xA8, 0xA9, 0xAF]
     @ [[CHR 0xE2, CHR 0x81, CHR 0x9F], [CHR 0xE3, CHR 0x80, CHR 0x80]]"

fun strip_front :: "nat \<Rightarrow> string list \<Rightarrow> string \<Rightarrow> string" where
  "strip_front 0 ws s = s"
| "strip_front (Suc n) ws s =
     (case find (has_prefix s) ws of
        None \<Rightarrow> s
      | Some w \<Rightarrow> strip_front n ws (drop (length w) s))"

text \<open>Every pass drops at least one byte, so the length of the string is fuel enough.\<close>

definition trim_space :: "string \<Rightarrow> string" where
  "trim_space s =
     (let t = strip_front (length s) space_runes s
      in rev (strip_front (length t) (map rev space_runes) (rev t)))"

text \<open>
  Case mapping, for comparison with ASCII text, which is the only use the code makes of it:
  \<open>strings.EqualFold\<close> also identifies the Kelvin sign with k and the long s with s, and
  \<open>strings.ToUpper\<close> also maps the dotless i to I and the long s to S; other runes outside ASCII
  never become ASCII and are kept.
\<close>

definition ascii_lower :: "char \<Rightarrow> char" where
  "ascii_lower c =
     (let n = (of_char c :: nat) in if 65 \<le> n \<and> n \<le> 90 then char_of (n + 32) else c)"

definition ascii_upper :: "char \<Rightarrow> char" where
  "ascii_upper c =
     (let n = (of_char c :: nat) in if 97 \<le> n \<and> n \<le> 122 then char_of (n - 32) else c)"

fun fold_case :: "string \<Rightarrow> string" where
  "fold_case [] = []"
| "fold_case (c # s) =
     (if c = CHR 0xC5 \<and> s \<noteq> [] \<and> hd s = CHR 0xBF then CHR ''s'' # fold_case (drop 1 s)
      else if c = CHR 0xE2 \<and> take 2 s = [CHR 0x84, CHR 0xAA] then CHR ''k'' # fold_case (drop 2 s)
      else ascii_lower c # fold_case s)"

definition equal_fold :: "string \<Rightarrow> string \<Rightarrow> bool" where
  "equal_fold s t \<longleftrightarrow> fold_case s = fold_case t"

fun to_upper :: "string \<Rightarrow> string" where
  "to_upper [] = []"
| "to_upper (c # s) =
     (if c = CHR 0xC5 \<and> s \<noteq> [] \<and> hd s = CHR 0xBF then CHR ''S'' # to_upper (drop 1 s)
      else if c = CHR 0xC4 \<and> s \<noteq> [] \<and> hd s = CHR 0xB1 then CHR ''I'' # to_upper (drop 1 s)
      else ascii_upper c # to_upper s)"

definition to_lower :: "string \<Rightarrow> string" where
  "to_lower s = map ascii_lower s"

lemma equal_fold_refl [simp]: "equal_fold s s"
  by (simp add: equal_fold_def)

lemma equal_fold_sym: "equal_fold s t \<longleftrightarrow> equal_fold t s"
  by (auto simp: equal_fold_def)

subsection \<open>Decimal numbers\<close>

definition digit_char :: "nat \<Rightarrow> char" where
  "digit_char d = char_of (48 + d)"

fun nat_dec :: "nat \<Rightarrow> string" where
  "nat_dec n = (if n < 10 then [digit_char n] else nat_dec (n div 10) @ [digit_char (n mod 10)])"

declare nat_dec.simps [simp del]

definition int_dec :: "int \<Rightarrow> string" where
  "int_dec i = (if i < 0 then ''-'' @ nat_dec (nat (- i)) else nat_dec (nat i))"

definition itoa :: "go_int \<Rightarrow> string" where
  "itoa w = int_dec (sint w)"

fun parse_digits :: "nat \<Rightarrow> string \<Rightarrow> nat option" where
  "parse_digits acc [] = Some acc"
| "parse_digits acc (c # s) =
     (let n = (of_char c :: nat)
      in if 48 \<le> n \<and> n \<le> 57 then parse_digits (10 * acc + (n - 48)) s else None)"

definition parse_nat :: "string \<Rightarrow> nat option" where
  "parse_nat s = (if s = [] then None else parse_digits 0 s)"

text \<open>\<open>strconv.Atoi\<close>: an optional sign, decimal digits, and the range of a 64-bit integer.\<close>

definition atoi :: "string \<Rightarrow> go_int option" where
  "atoi s =
     (let neg = (s \<noteq> [] \<and> hd s = CHR ''-'');
          body = (if s \<noteq> [] \<and> (hd s = CHR ''-'' \<or> hd s = CHR ''+'') then tl s else s)
      in case parse_nat body of
           None \<Rightarrow> None
         | Some n \<Rightarrow>
             if (if neg then n \<le> 2 ^ 63 else n < 2 ^ 63)
             then Some (word_of_int (if neg then - int n else int n)) else None)"

lemma of_char_digit: "d < 10 \<Longrightarrow> (of_char (digit_char d) :: nat) = 48 + d"
  by (simp add: digit_char_def)

lemma parse_digits_append:
  "parse_digits acc (s @ t) = Option.bind (parse_digits acc s) (\<lambda>a. parse_digits a t)"
  by (induction acc s rule: parse_digits.induct) (simp_all add: Let_def)

lemma nat_dec_nonempty [simp]: "nat_dec n \<noteq> []"
  by (subst nat_dec.simps) simp

lemma parse_digits_nat_dec: "parse_digits 0 (nat_dec n) = Some n"
proof (induction n rule: nat_dec.induct)
  case (1 n)
  show ?case
  proof (cases "n < 10")
    case True
    then show ?thesis by (subst nat_dec.simps) (simp add: of_char_digit)
  next
    case False
    with "1.IH" have "parse_digits 0 (nat_dec (n div 10)) = Some (n div 10)" by simp
    with False show ?thesis
      by (subst nat_dec.simps) (simp add: parse_digits_append of_char_digit)
  qed
qed

lemma parse_nat_dec [simp]: "parse_nat (nat_dec n) = Some n"
  by (simp add: parse_nat_def parse_digits_nat_dec)

lemma nat_dec_inj: "nat_dec m = nat_dec n \<longleftrightarrow> m = n"
  by (metis option.inject parse_nat_dec)

lemma nat_dec_digits: "c \<in> set (nat_dec n) \<Longrightarrow> \<exists>d<10. c = digit_char d"
proof (induction n arbitrary: c rule: nat_dec.induct)
  case (1 n)
  show ?case
  proof (cases "n < 10")
    case True
    with 1 show ?thesis by (subst (asm) (2) nat_dec.simps) auto
  next
    case False
    then have "set (nat_dec n) = insert (digit_char (n mod 10)) (set (nat_dec (n div 10)))"
      by (subst nat_dec.simps) simp
    with 1 False consider "c = digit_char (n mod 10)" | "c \<in> set (nat_dec (n div 10))" by auto
    then show ?thesis
    proof cases
      case 1
      then show ?thesis by (intro exI [of _ "n mod 10"]) simp
    next
      case 2
      with "1.IH" False show ?thesis by blast
    qed
  qed
qed

lemma digit_char_not_sign: "d < 10 \<Longrightarrow> digit_char d \<noteq> CHR ''-'' \<and> digit_char d \<noteq> CHR ''+''"
  by (auto dest!: arg_cong [where f = "of_char :: char \<Rightarrow> nat"] simp: of_char_digit)

lemma hd_nat_dec: "hd (nat_dec n) \<noteq> CHR ''-'' \<and> hd (nat_dec n) \<noteq> CHR ''+''"
proof -
  obtain d where "d < 10" "hd (nat_dec n) = digit_char d"
    using nat_dec_digits [of "hd (nat_dec n)" n] by auto
  then show ?thesis by (metis digit_char_not_sign)
qed

lemma sint_range64: "- (2 ^ 63) \<le> sint (w :: go_int) \<and> sint w < 2 ^ 63"
  using sint_ge [of w] sint_lt [of w] by simp

lemma sint_exact: "- (2 ^ 63) \<le> i \<Longrightarrow> i < 2 ^ 63 \<Longrightarrow> sint (word_of_int i :: go_int) = i"
  unfolding sint_sbintrunc' by (simp add: signed_take_bit_int_eq_self_iff)

lemma sint_plus:
  fixes x y :: go_int
  assumes "- (2 ^ 63) \<le> sint x + sint y" "sint x + sint y < 2 ^ 63"
  shows "sint (x + y) = sint x + sint y"
proof -
  have "x + y = word_of_int (sint x + sint y)" by simp
  then show ?thesis using sint_exact [OF assms] by metis
qed

lemma sint_plus_one:
  fixes x :: go_int
  assumes "sint x = i" "i < 2 ^ 63 - 1"
  shows "sint (x + 1) = i + 1"
  using sint_plus [of x 1] sint_range64 [of x] assms by simp

lemma atoi_itoa: "atoi (itoa w) = Some w"
proof (cases "sint w < 0")
  case True
  have "nat (- sint w) \<le> 2 ^ 63" using sint_range64 [of w] by (simp add: nat_le_iff)
  with True show ?thesis by (simp add: atoi_def itoa_def int_dec_def Let_def)
next
  case False
  have "nat (sint w) < 2 ^ 63" using sint_range64 [of w] False by (simp add: nat_less_iff)
  with False hd_nat_dec [of "nat (sint w)"] show ?thesis
    by (simp add: atoi_def itoa_def int_dec_def Let_def)
qed

subsection \<open>Maps\<close>

text \<open>
  A Go map is its list of entries, in the order an iteration would visit them, with one entry
  per key; \<open>None\<close> is the nil map, which Go (and \<open>reflect.DeepEqual\<close>) tells apart from the empty one.
\<close>

type_synonym ('k, 'v) go_map = "('k \<times> 'v) list option"
type_synonym string_map = "(string, string) go_map"

definition entries :: "('k, 'v) go_map \<Rightarrow> ('k \<times> 'v) list" where
  "entries m = (case m of None \<Rightarrow> [] | Some es \<Rightarrow> es)"

definition map_find :: "('k, 'v) go_map \<Rightarrow> 'k \<Rightarrow> 'v option" where
  "map_find m k = map_of (entries m) k"

definition map_has :: "('k, 'v) go_map \<Rightarrow> 'k \<Rightarrow> bool" where
  "map_has m k \<longleftrightarrow> map_find m k \<noteq> None"

text \<open>Indexing a map of strings yields the empty string for a key it does not hold.\<close>

definition map_str :: "string_map \<Rightarrow> string \<Rightarrow> string" where
  "map_str m k = (case map_find m k of None \<Rightarrow> [] | Some v \<Rightarrow> v)"

text \<open>Assignment; the code assigns only to maps it has made, never to a nil map.\<close>

definition map_put :: "'k \<Rightarrow> 'v \<Rightarrow> ('k, 'v) go_map \<Rightarrow> ('k, 'v) go_map" where
  "map_put k v m = Some (AList.update k v (entries m))"

definition map_del :: "'k \<Rightarrow> ('k, 'v) go_map \<Rightarrow> ('k, 'v) go_map" where
  "map_del k m = map_option (AList.delete k) m"

definition map_wf :: "('k, 'v) go_map \<Rightarrow> bool" where
  "map_wf m \<longleftrightarrow> distinct (map fst (entries m))"

definition sorted_keys :: "(string, 'v) go_map \<Rightarrow> string list" where
  "sorted_keys m = sort (map fst (entries m))"

text \<open>\<open>reflect.DeepEqual\<close> on two maps: both nil or neither, as many entries, and the same
  value under every key.\<close>

definition deep_equal :: "string_map \<Rightarrow> string_map \<Rightarrow> bool" where
  "deep_equal m n \<longleftrightarrow>
     (case (m, n) of
        (None, None) \<Rightarrow> True
      | (Some a, Some b) \<Rightarrow> length a = length b \<and> list_all (\<lambda>(k, v). map_of b k = Some v) a
      | _ \<Rightarrow> False)"

lemma entries_simps [simp]: "entries None = []" "entries (Some es) = es"
  by (simp_all add: entries_def)

lemma map_find_put [map_laws, simp]:
  "map_find (map_put k v m) k' = (if k' = k then Some v else map_find m k')"
  by (simp add: map_find_def map_put_def update_conv')

lemma map_find_del [map_laws, simp]:
  "map_find (map_del k m) k' = (if k' = k then None else map_find m k')"
  by (cases m) (simp_all add: map_find_def map_del_def delete_conv')

lemma map_has_put [map_laws, simp]: "map_has (map_put k v m) k' \<longleftrightarrow> k' = k \<or> map_has m k'"
  by (simp add: map_has_def)

lemma map_put_not_nil [simp]: "map_put k v m \<noteq> None" "\<exists>es. map_put k v m = Some es"
  by (simp_all add: map_put_def)

lemma map_wf_put [map_laws, simp]: "map_wf m \<Longrightarrow> map_wf (map_put k v m)"
  by (simp add: map_wf_def map_put_def distinct_update)

lemma map_wf_del [map_laws, simp]: "map_wf m \<Longrightarrow> map_wf (map_del k m)"
  by (cases m) (simp_all add: map_wf_def map_del_def distinct_delete)

lemma map_wf_empty [simp]: "map_wf None" "map_wf (Some [])"
  by (simp_all add: map_wf_def)

lemma map_has_iff: "map_has m k \<longleftrightarrow> k \<in> fst ` set (entries m)"
  by (simp add: map_has_def map_find_def map_of_eq_None_iff)

lemma set_sorted_keys [simp]: "set (sorted_keys m) = fst ` set (entries m)"
  by (simp add: sorted_keys_def)

lemma deep_equal_refl: "map_wf m \<Longrightarrow> deep_equal m m"
  by (cases m) (auto simp: deep_equal_def map_wf_def list_all_iff)

text \<open>On maps with one entry per key, structural equality is equality of the partial functions,
  and the order of iteration does not matter.\<close>

lemma deep_equal_iff:
  assumes "map_wf m" "map_wf n"
  shows "deep_equal m n \<longleftrightarrow> (m = None \<longleftrightarrow> n = None) \<and> map_find m = map_find n"
proof (cases "m = None \<or> n = None")
  case True
  then show ?thesis by (cases m; cases n) (auto simp: deep_equal_def map_find_def)
next
  case False
  then obtain a b where m: "m = Some a" and n: "n = Some b" by auto
  have d: "distinct (map fst a)" "distinct (map fst b)"
    using assms m n by (simp_all add: map_wf_def)
  have sub: "list_all (\<lambda>(k, v). map_of b k = Some v) a \<longleftrightarrow> set a \<subseteq> set b"
    using d(2) by (auto simp: list_all_iff)
  have len: "length a = card (set a)" "length b = card (set b)"
    using d by (simp_all add: distinct_card distinct_map)
  have "(length a = length b \<and> set a \<subseteq> set b) \<longleftrightarrow> set a = set b"
    using len by (metis card_subset_eq finite_set subset_refl)
  also have "\<dots> \<longleftrightarrow> map_of a = map_of b"
    using d by (metis map_of_inject_set)
  finally show ?thesis
    using m n sub by (simp add: deep_equal_def map_find_def fun_eq_iff)
qed

lemma sorted_keys_cong: "mset (entries m) = mset (entries n) \<Longrightarrow> sorted_keys m = sorted_keys n"
  unfolding sorted_keys_def by (metis mset_map properties_for_sort sorted_sort mset_sort)

lemma map_find_cong:
  assumes "mset (entries m) = mset (entries n)" "map_wf m"
  shows "map_find m = map_find n"
proof -
  have "map_wf n"
    using assms unfolding map_wf_def by (metis mset_eq_imp_distinct_iff mset_map)
  moreover have "set (entries m) = set (entries n)"
    using assms(1) by (rule mset_eq_setD)
  ultimately show ?thesis
    using assms(2) map_of_inject_set [of "entries m" "entries n"]
    by (simp add: map_find_def [abs_def] map_wf_def)
qed

subsection \<open>Machines with an invariant\<close>

text \<open>
  The contract of a component that handles one event at a time: what every handler keeps, a run
  over a list of events keeps. The actors and the lease stores interpret it.
\<close>

locale invariant_machine =
  fixes handle :: "'e \<Rightarrow> 's \<Rightarrow> 's"
    and inv :: "'s \<Rightarrow> bool"
    and admissible :: "'e \<Rightarrow> bool"
  assumes handle_inv: "inv s \<Longrightarrow> admissible e \<Longrightarrow> inv (handle e s)"
begin

lemma run_inv: "inv s \<Longrightarrow> list_all admissible es \<Longrightarrow> inv (fold handle es s)"
  by (induction es arbitrary: s) (auto intro: handle_inv)

lemma run_every_state:
  "inv s \<Longrightarrow> list_all admissible es \<Longrightarrow> inv (fold handle (take n es) s)"
  by (rule run_inv) (auto simp: list_all_iff dest: in_set_takeD)

end

end
