(* ===== verification/Json_Text.thy ===== *)
theory Json_Text
  imports Go_Base
begin

text \<open>
  JSON values and the text \<open>encoding/json\<close> writes for them. A number is kept as its text. Objects
  keep their members in the order in which they are written: the order of the fields for a struct,
  the order of the keys for a map. Strings are quoted byte by byte as the package does it (quotes
  and controls escaped, the three HTML characters escaped, bytes that are not UTF-8 replaced).
\<close>

datatype json =
  JNull
| JBool bool
| JNum string
| JStr string
| JArr "json list"
| JObj "(string \<times> json) list"

subsection \<open>UTF-8\<close>

definition in_range :: "nat \<Rightarrow> nat \<Rightarrow> char \<Rightarrow> bool" where
  "in_range lo hi c \<longleftrightarrow> lo \<le> (of_char c :: nat) \<and> (of_char c :: nat) \<le> hi"

abbreviation cont :: "char \<Rightarrow> bool" where
  "cont \<equiv> in_range 0x80 0xBF"

text \<open>The length in bytes of the rune at the front of a string, 0 if the bytes there are not the
  UTF-8 encoding of one (\<open>utf8.DecodeRune\<close>).\<close>

fun rune_len :: "string \<Rightarrow> nat" where
  "rune_len [] = 0"
| "rune_len (c # s) =
     (if in_range 0 0x7F c then 1
      else if in_range 0xC2 0xDF c then (case s of d # _ \<Rightarrow> if cont d then 2 else 0 | _ \<Rightarrow> 0)
      else if in_range 0xE0 0xEF c then
        (case s of
           d # e # _ \<Rightarrow>
             (if in_range (if c = CHR 0xE0 then 0xA0 else 0x80) (if c = CHR 0xED then 0x9F else 0xBF) d
                 \<and> cont e then 3 else 0)
         | _ \<Rightarrow> 0)
      else if in_range 0xF0 0xF4 c then
        (case s of
           d # e # f # _ \<Rightarrow>
             (if in_range (if c = CHR 0xF0 then 0x90 else 0x80) (if c = CHR 0xF4 then 0x8F else 0xBF) d
                 \<and> cont e \<and> cont f then 4 else 0)
         | _ \<Rightarrow> 0)
      else 0)"

lemma rune_len_le: "rune_len s \<le> length s"
  by (cases s) (auto split: list.splits)

lemma rune_len_Cons: "0 < rune_len (c # s) \<Longrightarrow> rune_len (c # s) - 1 \<le> length s"
  using rune_len_le [of "c # s"] by simp

declare rune_len.simps(2) [simp del]

text \<open>A string is valid UTF-8 when it is a sequence of runes.\<close>

fun utf8 :: "string \<Rightarrow> bool" where
  "utf8 [] \<longleftrightarrow> True"
| "utf8 (c # s) \<longleftrightarrow> 0 < rune_len (c # s) \<and> utf8 (drop (rune_len (c # s) - 1) s)"

declare utf8.simps(2) [simp del]

subsection \<open>Quoting\<close>

abbreviation bslash :: char where "bslash \<equiv> CHR 0x5C"
abbreviation dquote :: char where "dquote \<equiv> CHR 0x22"

definition hex_low :: "nat \<Rightarrow> char" where
  "hex_low d = (if d < 10 then char_of (48 + d) else char_of (87 + d))"

definition escape_ascii :: "char \<Rightarrow> string" where
  "escape_ascii c =
     (let n = (of_char c :: nat)
      in if c = dquote \<or> c = bslash then [bslash, c]
         else if n = 8 then [bslash, CHR ''b'']
         else if n = 12 then [bslash, CHR ''f'']
         else if n = 10 then [bslash, CHR ''n'']
         else if n = 13 then [bslash, CHR ''r'']
         else if n = 9 then [bslash, CHR ''t'']
         else if n < 32 \<or> n = 0x3C \<or> n = 0x3E \<or> n = 0x26
           then [bslash, CHR ''u'', CHR ''0'', CHR ''0'', hex_low (n div 16), hex_low (n mod 16)]
         else [c])"

definition escape_rune :: "string \<Rightarrow> string" where
  "escape_rune r =
     (if r = [CHR 0xE2, CHR 0x80, CHR 0xA8] then bslash # ''u2028''
      else if r = [CHR 0xE2, CHR 0x80, CHR 0xA9] then bslash # ''u2029''
      else case r of [c] \<Rightarrow> escape_ascii c | _ \<Rightarrow> r)"

fun escape :: "string \<Rightarrow> string" where
  "escape [] = []"
| "escape (c # s) =
     (let n = rune_len (c # s)
      in if n = 0 then bslash # ''ufffd'' @ escape s
         else escape_rune (take n (c # s)) @ escape (drop (n - 1) s))"

declare escape.simps(2) [simp del]

definition quote :: "string \<Rightarrow> string" where
  "quote s = dquote # escape s @ [dquote]"

text \<open>
  The verb \<open>%q\<close>: a Go string literal. Bytes of ASCII are written as Go writes them; those of other
  runes are kept, as Go does for printable ones.
\<close>

definition q_byte :: "char \<Rightarrow> string" where
  "q_byte c =
     (let n = (of_char c :: nat)
      in if c = dquote \<or> c = bslash then [bslash, c]
         else if 7 \<le> n \<and> n \<le> 13 then [bslash, ''abtnvfr'' ! (n - 7)]
         else if n < 32 \<or> n = 127 then [bslash, CHR ''x'', hex_low (n div 16), hex_low (n mod 16)]
         else [c])"

definition percent_q :: "string \<Rightarrow> string" where
  "percent_q s = dquote # concat (map q_byte s) @ [dquote]"

subsection \<open>Printing\<close>

fun commas :: "string list \<Rightarrow> string" where
  "commas [] = []"
| "commas [x] = x"
| "commas (x # y # zs) = x @ '','' @ commas (y # zs)"

fun json_print :: "json \<Rightarrow> string" where
  "json_print JNull = ''null''"
| "json_print (JBool b) = (if b then ''true'' else ''false'')"
| "json_print (JNum t) = t"
| "json_print (JStr s) = quote s"
| "json_print (JArr xs) = ''['' @ commas (map json_print xs) @ '']''"
| "json_print (JObj kvs) =
     ''{'' @ commas (map (\<lambda>(k, v). quote k @ '':'' @ json_print v) kvs) @ ''}''"

text \<open>How a struct field, a map and an integer are written; \<open>omitempty\<close> drops empty values.\<close>

definition opt_member :: "bool \<Rightarrow> string \<Rightarrow> json \<Rightarrow> (string \<times> json) list" where
  "opt_member present k v = (if present then [(k, v)] else [])"

definition string_member :: "string \<Rightarrow> string \<Rightarrow> (string \<times> json) list" where
  "string_member k s = opt_member (s \<noteq> []) k (JStr s)"

definition bool_member :: "string \<Rightarrow> bool \<Rightarrow> (string \<times> json) list" where
  "bool_member k b = opt_member b k (JBool b)"

definition json_string_map :: "string_map \<Rightarrow> json" where
  "json_string_map m =
     (case m of None \<Rightarrow> JNull
      | Some _ \<Rightarrow> JObj (map (\<lambda>k. (k, JStr (map_str m k))) (sorted_keys m)))"

definition json_int :: "go_int \<Rightarrow> json" where
  "json_int w = JNum (itoa w)"

subsection \<open>Reading quoted text back\<close>

text \<open>
  Reading a JSON string as the package does: \<open>unescape\<close> reads up to the closing quote and returns
  the string and the rest. Surrogate pairs become one rune; a lone surrogate and a byte that is not
  UTF-8 become the replacement rune; a control character is an error.
\<close>

definition hex_val :: "char \<Rightarrow> nat option" where
  "hex_val c =
     (let n = (of_char c :: nat)
      in if 48 \<le> n \<and> n \<le> 57 then Some (n - 48)
         else if 97 \<le> n \<and> n \<le> 102 then Some (n - 87)
         else if 65 \<le> n \<and> n \<le> 70 then Some (n - 55)
         else None)"

fun hex_value :: "nat \<Rightarrow> string \<Rightarrow> nat option" where
  "hex_value acc [] = Some acc"
| "hex_value acc (c # s) =
     (case hex_val c of None \<Rightarrow> None | Some d \<Rightarrow> hex_value (16 * acc + d) s)"

definition rune_bytes :: "nat \<Rightarrow> string" where
  "rune_bytes n =
     (if n < 0x80 then [char_of n]
      else if n < 0x800 then [char_of (0xC0 + n div 64), char_of (0x80 + n mod 64)]
      else if n < 0x10000
        then [char_of (0xE0 + n div 4096), char_of (0x80 + n div 64 mod 64), char_of (0x80 + n mod 64)]
      else [char_of (0xF0 + n div 262144), char_of (0x80 + n div 4096 mod 64),
            char_of (0x80 + n div 64 mod 64), char_of (0x80 + n mod 64)])"

abbreviation replacement_rune :: string where
  "replacement_rune \<equiv> [CHR 0xEF, CHR 0xBF, CHR 0xBD]"

text \<open>The four digits after \<open>\u\<close>, and the second half of a surrogate pair if one follows.\<close>

definition hex4 :: "string \<Rightarrow> nat option" where
  "hex4 t = (if length t < 4 then None else hex_value 0 (take 4 t))"

definition low_surrogate :: "string \<Rightarrow> nat option" where
  "low_surrogate t =
     (if take 2 t = [bslash, CHR ''u'']
      then Option.bind (hex4 (drop 2 t)) (\<lambda>m. if 0xDC00 \<le> m \<and> m < 0xE000 then Some m else None)
      else None)"

definition prepend :: "string \<Rightarrow> (string \<times> string) option \<Rightarrow> (string \<times> string) option" where
  "prepend r = map_option (\<lambda>(a, z). (r @ a, z))"

definition unescape_char :: "char \<Rightarrow> char option" where
  "unescape_char c =
     (if c = dquote \<or> c = bslash \<or> c = CHR ''/'' then Some c
      else if c = CHR ''b'' then Some (CHR 0x08)
      else if c = CHR ''f'' then Some (CHR 0x0C)
      else if c = CHR ''n'' then Some (CHR 0x0A)
      else if c = CHR ''r'' then Some (CHR 0x0D)
      else if c = CHR ''t'' then Some (CHR 0x09)
      else None)"

fun unescape :: "string \<Rightarrow> (string \<times> string) option" where
  "unescape [] = None"
| "unescape (c # s) =
     (if c = dquote then Some ([], s)
      else if c = bslash then
        (case s of
           [] \<Rightarrow> None
         | d # t \<Rightarrow>
             (if d = CHR ''u'' then
                (case hex4 t of
                   None \<Rightarrow> None
                 | Some n \<Rightarrow>
                     if 0xD800 \<le> n \<and> n < 0xE000 then
                       (case (if n < 0xDC00 then low_surrogate (drop 4 t) else None) of
                          None \<Rightarrow> prepend replacement_rune (unescape (drop 4 t))
                        | Some m \<Rightarrow>
                            prepend (rune_bytes (0x10000 + (n - 0xD800) * 0x400 + (m - 0xDC00)))
                              (unescape (drop 10 t)))
                     else prepend (rune_bytes n) (unescape (drop 4 t)))
              else case unescape_char d of
                  None \<Rightarrow> None
                | Some e \<Rightarrow> prepend [e] (unescape t)))
      else if (of_char c :: nat) < 32 then None
      else let n = rune_len (c # s)
           in if n = 0 then prepend replacement_rune (unescape s)
              else prepend (take n (c # s)) (unescape (drop (n - 1) s)))"

declare unescape.simps(2) [simp del]

subsection \<open>Quoting loses nothing\<close>

lemma hex_val_low: "d < 16 \<Longrightarrow> hex_val (hex_low d) = Some d"
  by (auto simp: hex_val_def hex_low_def)

lemma rune_len_one: "rune_len (c # s) = 1 \<Longrightarrow> (of_char c :: nat) < 128"
  by (auto simp: rune_len.simps(2) in_range_def split: if_splits list.splits)

lemma in_range_high: "in_range lo hi c \<Longrightarrow> 128 \<le> lo \<Longrightarrow> 128 \<le> (of_char c :: nat)"
  by (simp add: in_range_def)

lemma rune_len_many_all:
  "1 < rune_len (c # s) \<Longrightarrow> list_all (\<lambda>x. 128 \<le> (of_char x :: nat)) (take (rune_len (c # s)) (c # s))"
  by (auto simp: rune_len.simps(2) split: if_split_asm list.split_asm elim!: in_range_high)

lemma rune_len_many:
  "1 < rune_len (c # s) \<Longrightarrow> x \<in> set (take (rune_len (c # s)) (c # s)) \<Longrightarrow> 128 \<le> (of_char x :: nat)"
  using rune_len_many_all by (simp add: list_all_iff)

lemma take_rune: "take (rune_len (c # s)) (c # s) @ drop (rune_len (c # s) - 1) s = c # s"
  if "0 < rune_len (c # s)"
  using that by (cases "rune_len (c # s)") simp_all

lemma prepend_simps [simp]:
  "prepend r (Some (a, z)) = Some (r @ a, z)" "prepend r None = None"
  "prepend r (prepend q x) = prepend (r @ q) x" "prepend [] x = x"
  by (cases x; auto simp: prepend_def)+

text \<open>The length of a rune does not depend on what follows it.\<close>

lemma rune_len_take: "0 < rune_len (c # s) \<Longrightarrow> rune_len (take (rune_len (c # s)) (c # s) @ t) = rune_len (c # s)"
  by (auto simp: rune_len.simps(2) split: if_split_asm list.split_asm)

lemma unescape_raw:
  assumes "1 < rune_len (c # s)"
  shows "unescape (take (rune_len (c # s)) (c # s) @ t) = prepend (take (rune_len (c # s)) (c # s)) (unescape t)"
proof -
  let ?n = "rune_len (c # s)" and ?r = "take (rune_len (c # s)) (c # s)"
  have "128 \<le> (of_char c :: nat)"
    using rune_len_many [OF assms, of c] assms by (cases ?n) simp_all
  then have c: "c \<noteq> dquote" "c \<noteq> bslash" "\<not> (of_char c :: nat) < 32" by auto
  have len: "length ?r = ?n" using rune_len_le [of "c # s"] by simp
  obtain r where r: "?r = c # r" using assms by (cases ?n) simp_all
  have "rune_len (c # r @ t) = ?n" using rune_len_take [of c s t] assms r by simp
  moreover have "length r = ?n - 1" using len r by simp
  moreover have "take (length (c # r)) ((c # r) @ t) = c # r" by simp
  then have "take ?n ((c # r) @ t) = c # r" using len unfolding r by (simp only:)
  ultimately show ?thesis using c r assms by (simp add: unescape.simps(2) Let_def)
qed

lemma unescape_plain:
  "c \<noteq> dquote \<Longrightarrow> c \<noteq> bslash \<Longrightarrow> \<not> (of_char c :: nat) < 32 \<Longrightarrow> (of_char c :: nat) < 128 \<Longrightarrow>
   unescape (c # t) = prepend [c] (unescape t)"
  by (simp add: unescape.simps(2) rune_len.simps(2) in_range_def)

lemma unescape_short:
  "unescape_char d = Some e \<Longrightarrow> d \<noteq> CHR ''u'' \<Longrightarrow>
   unescape (bslash # d # t) = prepend [e] (unescape t)"
  by (simp add: unescape.simps(2))

lemma unescape_hex:
  assumes "n < 128"
  shows "unescape (bslash # CHR ''u'' # CHR ''0'' # CHR ''0'' # hex_low (n div 16) # hex_low (n mod 16) # t)
    = prepend [char_of n] (unescape t)"
proof -
  have "hex_val (CHR ''0'') = Some 0" by (simp add: hex_val_def)
  moreover have "n div 16 < 16" "n mod 16 < 16" using assms by auto
  ultimately have "hex_value 0 [CHR ''0'', CHR ''0'', hex_low (n div 16), hex_low (n mod 16)] = Some n"
    by (simp add: hex_val_low)
  with assms show ?thesis by (simp add: unescape.simps(2) rune_bytes_def hex4_def)
qed

lemma unescape_ascii:
  assumes "(of_char c :: nat) < 128"
  shows "unescape (escape_ascii c @ t) = prepend [c] (unescape t)"
proof -
  let ?n = "of_char c :: nat"
  have c: "c = char_of ?n" by simp
  have short: "?n = k \<Longrightarrow> c = char_of k" for k by (metis c)
  consider "c = dquote \<or> c = bslash" | "?n \<in> {8, 12, 10, 13, 9}"
    | "c \<noteq> dquote" "c \<noteq> bslash" "?n \<notin> {8, 12, 10, 13, 9}" by blast
  then show ?thesis
  proof cases
    case 1
    then show ?thesis by (auto simp: escape_ascii_def unescape_short unescape_char_def)
  next
    case 2
    then have "c \<in> {CHR 0x08, CHR 0x0C, CHR 0x0A, CHR 0x0D, CHR 0x09}"
      using short [of 8] short [of 12] short [of 10] short [of 13] short [of 9]
      by (auto simp: char_of_def bit_Suc_0_iff)
    then show ?thesis
      by (auto simp: escape_ascii_def unescape_short unescape_char_def)
  next
    case 3
    with unescape_hex [OF assms, of t] unescape_plain [of c t] assms show ?thesis
      by (simp add: escape_ascii_def Let_def)
  qed
qed

lemma unescape_line_sep:
  "unescape (bslash # ''u2028'' @ t) = prepend [CHR 0xE2, CHR 0x80, CHR 0xA8] (unescape t)"
  "unescape (bslash # ''u2029'' @ t) = prepend [CHR 0xE2, CHR 0x80, CHR 0xA9] (unescape t)"
proof -
  have "(char_of (226 :: nat) :: char) = CHR 0xE2" "(char_of (128 :: nat) :: char) = CHR 0x80"
    "(char_of (168 :: nat) :: char) = CHR 0xA8" "(char_of (169 :: nat) :: char) = CHR 0xA9"
    by (simp_all add: char_of_def bit_Suc_0_iff)
  then show
    "unescape (bslash # ''u2028'' @ t) = prepend [CHR 0xE2, CHR 0x80, CHR 0xA8] (unescape t)"
    "unescape (bslash # ''u2029'' @ t) = prepend [CHR 0xE2, CHR 0x80, CHR 0xA9] (unescape t)"
    by (simp_all add: unescape.simps(2) rune_bytes_def hex_val_def hex4_def)
qed

lemma unescape_replacement:
  "unescape (bslash # ''ufffd'' @ t) = prepend replacement_rune (unescape t)"
proof -
  have "(char_of (239 :: nat) :: char) = CHR 0xEF" "(char_of (191 :: nat) :: char) = CHR 0xBF"
    "(char_of (189 :: nat) :: char) = CHR 0xBD"
    by (simp_all add: char_of_def bit_Suc_0_iff)
  then show ?thesis by (simp add: unescape.simps(2) rune_bytes_def hex_val_def hex4_def)
qed

lemma unescape_rune:
  assumes "0 < rune_len (c # s)"
  shows "unescape (escape_rune (take (rune_len (c # s)) (c # s)) @ t) =
    prepend (take (rune_len (c # s)) (c # s)) (unescape t)"
proof (cases "rune_len (c # s) = 1")
  case True
  then show ?thesis using unescape_ascii [OF rune_len_one [OF True]] by (simp add: escape_rune_def)
next
  case False
  let ?r = "take (rune_len (c # s)) (c # s)"
  have many: "1 < rune_len (c # s)" using assms False by simp
  then have len: "2 \<le> length ?r" using rune_len_le [of "c # s"] by simp
  show ?thesis
  proof (cases "?r = [CHR 0xE2, CHR 0x80, CHR 0xA8] \<or> ?r = [CHR 0xE2, CHR 0x80, CHR 0xA9]")
    case True
    then show ?thesis using unescape_line_sep [of t] by (auto simp: escape_rune_def)
  next
    case False
    moreover have "?r \<noteq> [x]" for x using len by (metis One_nat_def Suc_n_not_le_n length_Cons list.size(3) numeral_2_eq_2)
    ultimately have "escape_rune ?r = ?r"
      unfolding escape_rune_def by (auto simp del: take_eq_Nil split: list.splits)
    with unescape_raw [OF many] show ?thesis by simp
  qed
qed

text \<open>What a reader of a quoted string gets: the string with every byte that is not part of a rune
  replaced; hence the string itself if it is UTF-8.\<close>

fun to_utf8 :: "string \<Rightarrow> string" where
  "to_utf8 [] = []"
| "to_utf8 (c # s) =
     (let n = rune_len (c # s)
      in if n = 0 then replacement_rune @ to_utf8 s else take n (c # s) @ to_utf8 (drop (n - 1) s))"

declare to_utf8.simps(2) [simp del]

lemma unescape_escape_any: "unescape (escape s @ dquote # z) = Some (to_utf8 s, z)"
proof (induction s rule: escape.induct)
  case 1
  then show ?case by (simp add: unescape.simps(2))
next
  case (2 c s)
  let ?n = "rune_len (c # s)"
  show ?case
  proof (cases "?n = 0")
    case True
    then have "unescape (escape (c # s) @ dquote # z) = unescape (bslash # ''ufffd'' @ escape s @ dquote # z)"
      by (simp add: escape.simps(2))
    also have "\<dots> = prepend replacement_rune (Some (to_utf8 s, z))"
      unfolding unescape_replacement using "2.IH"(1) [OF refl True] by simp
    finally show ?thesis using True by (simp add: to_utf8.simps(2))
  next
    case False
    then have n: "0 < ?n" by simp
    have "unescape (escape (c # s) @ dquote # z) =
        unescape (escape_rune (take ?n (c # s)) @ escape (drop (?n - 1) s) @ dquote # z)"
      using False by (simp add: escape.simps(2) Let_def)
    also have "\<dots> = prepend (take ?n (c # s)) (Some (to_utf8 (drop (?n - 1) s), z))"
      unfolding unescape_rune [OF n] using "2.IH"(2) [OF refl False] by simp
    finally show ?thesis using False by (simp add: to_utf8.simps(2) Let_def)
  qed
qed

lemma to_utf8_id: "utf8 s \<Longrightarrow> to_utf8 s = s"
proof (induction s rule: utf8.induct)
  case (2 c s)
  then show ?case using take_rune [of c s] by (simp add: utf8.simps(2) to_utf8.simps(2) Let_def)
qed simp

lemma unescape_escape: "utf8 s \<Longrightarrow> unescape (escape s @ dquote # z) = Some (s, z)"
  by (simp add: unescape_escape_any to_utf8_id)

lemma utf8_ascii: "list_all (\<lambda>c. (of_char c :: nat) < 128) s \<Longrightarrow> utf8 s"
  by (induction s) (auto simp: utf8.simps(2) rune_len.simps(2) in_range_def)

lemma quote_append_inj:
  "utf8 a \<Longrightarrow> utf8 b \<Longrightarrow> quote a @ x = quote b @ y \<longleftrightarrow> a = b \<and> x = y"
proof
  assume a: "utf8 a" "utf8 b" and e: "quote a @ x = quote b @ y"
  from e have "unescape (escape a @ dquote # x) = unescape (escape b @ dquote # y)"
    by (simp add: quote_def)
  then show "a = b \<and> x = y" by (simp add: unescape_escape a)
qed simp

end
