(* ===== verification/Base64.thy ===== *)
theory Base64
  imports Go_Base
begin

text \<open>
  The encodings of \<open>encoding/base64\<close> the source uses: \<open>RawURLEncoding\<close> for page tokens (no padding)
  and \<open>StdEncoding\<close>, in which \<open>encoding/json\<close> writes a byte slice (padded). Decoding reads over line
  breaks, refuses any other byte outside the alphabet and ignores the unused bits at the end, as the
  package does.
\<close>

type_synonym b64_alphabet = "char \<times> char"

abbreviation b64_url :: b64_alphabet where "b64_url \<equiv> (CHR ''-'', CHR ''_'')"
abbreviation b64_std :: b64_alphabet where "b64_std \<equiv> (CHR ''+'', CHR ''/'')"

definition b64_char :: "b64_alphabet \<Rightarrow> nat \<Rightarrow> char" where
  "b64_char a n =
     (if n < 26 then char_of (65 + n) else if n < 52 then char_of (97 + (n - 26))
      else if n < 62 then char_of (48 + (n - 52)) else if n = 62 then fst a else snd a)"

definition b64_val :: "b64_alphabet \<Rightarrow> char \<Rightarrow> nat option" where
  "b64_val a c =
     (let n = (of_char c :: nat)
      in if 65 \<le> n \<and> n \<le> 90 then Some (n - 65) else if 97 \<le> n \<and> n \<le> 122 then Some (n - 97 + 26)
         else if 48 \<le> n \<and> n \<le> 57 then Some (n - 48 + 52)
         else if c = fst a then Some 62 else if c = snd a then Some 63 else None)"

text \<open>Three bytes are four groups of six bits; a rest of one or two bytes gives two or three.\<close>

fun sextets :: "nat list \<Rightarrow> nat list" where
  "sextets [] = []"
| "sextets [a] = [a div 4, a mod 4 * 16]"
| "sextets [a, b] = [a div 4, a mod 4 * 16 + b div 16, b mod 16 * 4]"
| "sextets (a # b # c # s) =
     a div 4 # (a mod 4 * 16 + b div 16) # (b mod 16 * 4 + c div 64) # c mod 64 # sextets s"

fun octets :: "nat list \<Rightarrow> nat list option" where
  "octets [] = Some []"
| "octets [x] = None"
| "octets [x, y] = Some [x * 4 + y div 16]"
| "octets [x, y, z] = Some [x * 4 + y div 16, y mod 16 * 16 + z div 4]"
| "octets (x # y # z # w # s) =
     map_option (\<lambda>r. (x * 4 + y div 16) # (y mod 16 * 16 + z div 4) # (z mod 4 * 64 + w) # r) (octets s)"

definition b64_text :: "b64_alphabet \<Rightarrow> string \<Rightarrow> string" where
  "b64_text a s = map (b64_char a) (sextets (map of_char s))"

definition b64_bytes :: "b64_alphabet \<Rightarrow> string \<Rightarrow> string option" where
  "b64_bytes a t = Option.bind (those (map (b64_val a) t)) (\<lambda>ns. map_option (map char_of) (octets ns))"

definition line_break :: "char \<Rightarrow> bool" where
  "line_break c \<longleftrightarrow> c = CHR 0x0A \<or> c = CHR 0x0D"

text \<open>\<open>base64.RawURLEncoding\<close>.\<close>

definition raw_url_encode :: "string \<Rightarrow> string" where
  "raw_url_encode = b64_text b64_url"

definition raw_url_decode :: "string \<Rightarrow> string option" where
  "raw_url_decode t = b64_bytes b64_url (filter (\<lambda>c. \<not> line_break c) t)"

text \<open>\<open>base64.StdEncoding\<close>: the text is filled up with padding to a multiple of four, and only
  exactly that padding is accepted back.\<close>

definition std_encode :: "string \<Rightarrow> string" where
  "std_encode s = b64_text b64_std s @ replicate ((3 - length s mod 3) mod 3) (CHR ''='')"

definition std_decode :: "string \<Rightarrow> string option" where
  "std_decode t =
     (let f = filter (\<lambda>c. \<not> line_break c) t;
          data = takeWhile (\<lambda>c. c \<noteq> CHR ''='') f; pad = dropWhile (\<lambda>c. c \<noteq> CHR ''='') f
      in if (length data mod 4, pad) \<in> {(0, []), (2, ''==''), (3, ''='')} then b64_bytes b64_std data else None)"

subsection \<open>Encoding loses nothing\<close>

lemma sextets_bound: "list_all (\<lambda>n. n < 256) ns \<Longrightarrow> list_all (\<lambda>n. n < 64) (sextets ns)"
  by (induction ns rule: sextets.induct) auto

lemma join:
  fixes x y m :: nat
  assumes "y < m"
  shows "(x * m + y) div m = x" and "(x * m + y) mod m = y"
  using assms by simp_all

lemma octets_sextets: "list_all (\<lambda>n. n < 256) ns \<Longrightarrow> octets (sextets ns) = Some ns"
proof (induction ns rule: sextets.induct)
  case (4 a b c s)
  then have small: "a < 256" "b < 256" "c < 256" and tl: "octets (sextets s) = Some s" by simp_all
  then have hi: "b div 16 < 16" "c div 64 < 4" by auto
  have "a div 4 * 4 + (a mod 4 * 16 + b div 16) div 16 = a"
    unfolding join(1) [OF hi(1)] by (rule div_mult_mod_eq)
  moreover have "(a mod 4 * 16 + b div 16) mod 16 * 16 + (b mod 16 * 4 + c div 64) div 4 = b"
    unfolding join(1) [OF hi(2)] join(2) [OF hi(1)] by (rule div_mult_mod_eq)
  moreover have "(b mod 16 * 4 + c div 64) mod 4 * 64 + c mod 64 = c"
    unfolding join(2) [OF hi(2)] by (rule div_mult_mod_eq)
  ultimately show ?case by (simp add: tl)
qed (auto simp: join)

lemma b64_val_char:
  assumes "n < 64" "a \<in> {b64_url, b64_std}"
  shows "b64_val a (b64_char a n) = Some n"
proof -
  consider "n < 26" | "26 \<le> n" "n < 52" | "52 \<le> n" "n < 62" | "n = 62" | "n = 63"
    using assms(1) by linarith
  then show ?thesis using assms(2) by cases (auto simp: b64_val_def b64_char_def Let_def)
qed

lemma b64_char_alnum:
  assumes "n < 64" "a \<in> {b64_url, b64_std}"
  shows "b64_char a n \<noteq> CHR ''=''" and "\<not> line_break (b64_char a n)"
    and "b64_char a n \<noteq> CHR 0x22" and "b64_char a n \<noteq> CHR 0x5C" and "b64_char a n \<noteq> CHR 0x26"
    and "b64_char a n \<noteq> CHR 0x3C" and "b64_char a n \<noteq> CHR 0x3E"
    and "32 \<le> (of_char (b64_char a n) :: nat)" and "(of_char (b64_char a n) :: nat) < 127"
proof -
  have v: "b64_val a (b64_char a n) = Some n" by (rule b64_val_char [OF assms])
  show "b64_char a n \<noteq> CHR ''=''" "\<not> line_break (b64_char a n)"
    "b64_char a n \<noteq> CHR 0x22" "b64_char a n \<noteq> CHR 0x5C" "b64_char a n \<noteq> CHR 0x26"
    "b64_char a n \<noteq> CHR 0x3C" "b64_char a n \<noteq> CHR 0x3E"
    using v assms(2) by (auto simp: b64_val_def line_break_def)
  have "b64_val a c = Some n \<Longrightarrow> 32 \<le> (of_char c :: nat) \<and> (of_char c :: nat) < 127" for c
    using assms(2) by (auto simp: b64_val_def Let_def split: if_splits)
  from this [OF v] show "32 \<le> (of_char (b64_char a n) :: nat)" "(of_char (b64_char a n) :: nat) < 127" by auto
qed

lemma bytes_small: "list_all (\<lambda>n. n < 256) (map of_char s :: nat list)"
  by (simp add: list_all_iff)

lemma b64_text_chars:
  "c \<in> set (b64_text a s) \<Longrightarrow> \<exists>n<64. c = b64_char a n"
  using sextets_bound [OF bytes_small, of s] by (auto simp: b64_text_def list_all_iff)

lemma b64_round:
  assumes "a \<in> {b64_url, b64_std}"
  shows "b64_bytes a (b64_text a s) = Some s"
proof -
  have "those (map (b64_val a) (map (b64_char a) ns)) = Some ns" if "list_all (\<lambda>n. n < 64) ns" for ns
    using that by (induction ns) (simp_all add: b64_val_char [OF _ assms])
  from this [OF sextets_bound [OF bytes_small]] show ?thesis
    by (simp add: b64_bytes_def b64_text_def octets_sextets [OF bytes_small] o_def)
qed

lemma b64_text_no_break:
  assumes "a \<in> {b64_url, b64_std}"
  shows "filter (\<lambda>c. \<not> line_break c) (b64_text a s) = b64_text a s"
  using b64_text_chars [of _ a s] b64_char_alnum(2) [OF _ assms] by (auto simp: filter_id_conv)

lemma raw_url_round: "raw_url_decode (raw_url_encode s) = Some s"
  by (simp add: raw_url_decode_def raw_url_encode_def b64_text_no_break b64_round)

lemma length_sextets:
  "(length (sextets ns) mod 4, length ns mod 3) \<in> {(0, 0), (2, 1), (3, 2)}"
proof (induction ns rule: sextets.induct)
  case (4 a b c s)
  have "length (a # b # c # s) = length s + 3" "length (sextets (a # b # c # s)) = length (sextets s) + 4" by simp_all
  then show ?case using 4 by (simp only: mod_add_self2)
qed simp_all

lemma std_round: "std_decode (std_encode s) = Some s"
proof -
  let ?d = "b64_text b64_std s" and ?p = "replicate ((3 - length s mod 3) mod 3) (CHR ''='')"
  have ne: "c \<noteq> CHR ''=''" if "c \<in> set ?d" for c
    using b64_text_chars [OF that] b64_char_alnum(1) [of _ b64_std] by auto
  have "filter (\<lambda>c. \<not> line_break c) ?p = ?p" by (rule filter_True) (simp add: line_break_def)
  then have f: "filter (\<lambda>c. \<not> line_break c) (?d @ ?p) = ?d @ ?p"
    by (simp only: filter_append b64_text_no_break insert_iff simp_thms)
  have p: "takeWhile (\<lambda>c. c \<noteq> CHR ''='') (replicate n (CHR ''='')) = []"
    "dropWhile (\<lambda>c. c \<noteq> CHR ''='') (replicate n (CHR ''='')) = replicate n (CHR ''='')" for n
    by (cases n, simp_all)+
  have tw: "takeWhile (\<lambda>c. c \<noteq> CHR ''='') (?d @ ?p) = ?d" and dw: "dropWhile (\<lambda>c. c \<noteq> CHR ''='') (?d @ ?p) = ?p"
    by (simp_all only: takeWhile_append2 [OF ne] dropWhile_append2 [OF ne] p append_Nil2)
  have pad: "replicate 2 (CHR ''='') = ''==''" "replicate 1 (CHR ''='') = ''=''" by (simp_all add: numeral_2_eq_2)
  have "(length ?d mod 4, length s mod 3) \<in> {(0, 0), (2, 1), (3, 2)}"
    using length_sextets [of "map of_char s"] by (simp only: b64_text_def length_map)
  then have "(length ?d mod 4, ?p) \<in> {(0, []), (2, ''==''), (3, ''='')}"
    using pad by (elim insertE) simp_all
  then show ?thesis
    unfolding std_decode_def std_encode_def Let_def f tw dw by (simp only: if_True b64_round insert_iff simp_thms)
qed

end
