(* ===== verification/Json_Parse.thy ===== *)
theory Json_Parse
  imports Json_Text Base64
begin

text \<open>
  Reading JSON as \<open>encoding/json\<close> does: the grammar with its white space, the limit on nesting, and
  the round trip with the printer. The functions take fuel, one unit per call; twice the length
  of the text is always enough (\<open>parse_fuel\<close>).
\<close>

definition json_space :: "char \<Rightarrow> bool" where
  "json_space c \<longleftrightarrow> c = CHR '' '' \<or> c = CHR 0x09 \<or> c = CHR 0x0A \<or> c = CHR 0x0D"

definition skip_ws :: "string \<Rightarrow> string" where
  "skip_ws = dropWhile json_space"

definition is_digit :: "char \<Rightarrow> bool" where
  "is_digit c \<longleftrightarrow> in_range 48 57 c"

subsection \<open>Numbers\<close>

text \<open>A number is kept as its text: sign, digits without a leading zero, fraction, exponent.\<close>

definition read_frac :: "string \<Rightarrow> (string \<times> string) option" where
  "read_frac s =
     (case s of
        [] \<Rightarrow> Some ([], [])
      | c # t \<Rightarrow>
          if c = CHR ''.'' then
            (if takeWhile is_digit t = [] then None else Some (c # takeWhile is_digit t, dropWhile is_digit t))
          else Some ([], s))"

definition exp_sign :: "string \<Rightarrow> nat" where
  "exp_sign t = (if t \<noteq> [] \<and> (hd t = CHR ''+'' \<or> hd t = CHR ''-'') then 1 else 0)"

definition read_exp :: "string \<Rightarrow> (string \<times> string) option" where
  "read_exp s =
     (case s of
        [] \<Rightarrow> Some ([], [])
      | c # t \<Rightarrow>
          if c = CHR ''e'' \<or> c = CHR ''E'' then
            (let u = drop (exp_sign t) t
             in if takeWhile is_digit u = [] then None
                else Some (c # take (exp_sign t) t @ takeWhile is_digit u, dropWhile is_digit u))
          else Some ([], s))"

definition read_unsigned :: "string \<Rightarrow> (string \<times> string) option" where
  "read_unsigned s =
     (let ds = takeWhile is_digit s
      in if ds = [] then None
         else let n = (if hd ds = CHR ''0'' then 1 else length ds)
              in Option.bind (read_frac (drop n s))
                   (\<lambda>(f, r). map_option (\<lambda>(e, z). (take n s @ f @ e, z)) (read_exp r)))"

definition read_number :: "string \<Rightarrow> (string \<times> string) option" where
  "read_number s =
     (if s \<noteq> [] \<and> hd s = CHR ''-''
      then map_option (\<lambda>(a, z). (CHR ''-'' # a, z)) (read_unsigned (tl s))
      else read_unsigned s)"

subsection \<open>Values\<close>

definition literal :: "string \<Rightarrow> json \<Rightarrow> string \<Rightarrow> (json \<times> string) option" where
  "literal w j s = (if has_prefix s w then Some (j, drop (length w) s) else None)"

definition read_scalar :: "string \<Rightarrow> (json \<times> string) option" where
  "read_scalar s =
     (case s of
        [] \<Rightarrow> None
      | c # t \<Rightarrow>
          if c = dquote then map_option (apfst JStr) (unescape t)
          else if c = CHR ''t'' then literal ''true'' (JBool True) s
          else if c = CHR ''f'' then literal ''false'' (JBool False) s
          else if c = CHR ''n'' then literal ''null'' JNull s
          else map_option (apfst JNum) (read_number s))"

text \<open>A member's name and the colon.\<close>

definition read_name :: "string \<Rightarrow> (string \<times> string) option" where
  "read_name s =
     (case s of
        [] \<Rightarrow> None
      | c # t \<Rightarrow>
          if c \<noteq> dquote then None
          else Option.bind (unescape t)
                 (\<lambda>(k, r). case skip_ws r of
                    [] \<Rightarrow> None
                  | d # u \<Rightarrow> if d = CHR '':'' then Some (k, skip_ws u) else None))"

text \<open>What follows an element: the closing bracket or a comma and the next element.\<close>

definition read_next ::
  "char \<Rightarrow> (string \<Rightarrow> ('a list \<times> string) option) \<Rightarrow> 'a \<Rightarrow> string \<Rightarrow> ('a list \<times> string) option" where
  "read_next close more x r =
     (case skip_ws r of
        [] \<Rightarrow> None
      | c # t \<Rightarrow>
          if c = close then Some ([x], t)
          else if c = CHR '','' then map_option (apfst ((#) x)) (more (skip_ws t))
          else None)"

text \<open>An array or object after its opening bracket: empty, or a list of elements.\<close>

definition read_list ::
  "char \<Rightarrow> (string \<Rightarrow> ('a list \<times> string) option) \<Rightarrow> string \<Rightarrow> ('a list \<times> string) option" where
  "read_list close more t =
     (case skip_ws t of
        [] \<Rightarrow> None
      | c # z \<Rightarrow> if c = close then Some ([], z) else more (c # z))"

lemma read_next_cong [fundef_cong]:
  "r = r' \<Longrightarrow> (\<And>t. length t < length r' \<Longrightarrow> more t = more' t) \<Longrightarrow> read_next close more x r = read_next close more' x r'"
proof -
  assume *: "r = r'" "\<And>t. length t < length r' \<Longrightarrow> more t = more' t"
  have "length (skip_ws t) \<le> length t" for t
    unfolding skip_ws_def by (rule length_dropWhile_le)
  then have "skip_ws r' = c # t \<Longrightarrow> length (skip_ws t) < length r'" for c t
    by (metis Suc_le_eq length_Cons order.trans not_less_eq_eq)
  with * show ?thesis by (auto simp: read_next_def split: list.splits)
qed

lemma read_list_cong [fundef_cong]:
  "t = t' \<Longrightarrow> (\<And>u. length u \<le> length t' \<Longrightarrow> more u = more' u) \<Longrightarrow> read_list close more t = read_list close more' t'"
proof -
  assume *: "t = t'" "\<And>u. length u \<le> length t' \<Longrightarrow> more u = more' u"
  have "length (skip_ws t') \<le> length t'"
    unfolding skip_ws_def by (rule length_dropWhile_le)
  with * show ?thesis by (auto simp: read_list_def split: list.splits)
qed

fun parse_value :: "nat \<Rightarrow> nat \<Rightarrow> string \<Rightarrow> (json \<times> string) option"
  and parse_items :: "nat \<Rightarrow> nat \<Rightarrow> string \<Rightarrow> (json list \<times> string) option"
  and parse_members :: "nat \<Rightarrow> nat \<Rightarrow> string \<Rightarrow> ((string \<times> json) list \<times> string) option" where
  "parse_value 0 depth s = None"
| "parse_value (Suc n) depth s =
     (if s \<noteq> [] \<and> hd s = CHR ''['' then
        (if depth = 0 then None
         else map_option (apfst JArr) (read_list (CHR '']'') (parse_items n (depth - 1)) (tl s)))
      else if s \<noteq> [] \<and> hd s = CHR ''{'' then
        (if depth = 0 then None
         else map_option (apfst JObj) (read_list (CHR ''}'') (parse_members n (depth - 1)) (tl s)))
      else read_scalar s)"
| "parse_items 0 depth s = None"
| "parse_items (Suc n) depth s =
     (case parse_value n depth s of
        None \<Rightarrow> None
      | Some (v, r) \<Rightarrow> read_next (CHR '']'') (parse_items n depth) v r)"
| "parse_members 0 depth s = None"
| "parse_members (Suc n) depth s =
     (case read_name s of
        None \<Rightarrow> None
      | Some (k, t) \<Rightarrow>
          (case parse_value n depth t of
             None \<Rightarrow> None
           | Some (v, r) \<Rightarrow> read_next (CHR ''}'') (parse_members n depth) (k, v) r))"

text \<open>
  \<open>json_prefix\<close> is what a decoder reads from a stream: one value, whatever follows it.
  \<open>json_parse\<close> is what \<open>json.Unmarshal\<close> accepts: one value and white space. Ten thousand levels of
  nesting are accepted.
\<close>

definition json_prefix :: "string \<Rightarrow> json option" where
  "json_prefix s = map_option fst (parse_value (2 * length s + 2) 10000 (skip_ws s))"

definition json_parse :: "string \<Rightarrow> json option" where
  "json_parse s =
     (case parse_value (2 * length s + 2) 10000 (skip_ws s) of
        None \<Rightarrow> None
      | Some (j, r) \<Rightarrow> if skip_ws r = [] then Some j else None)"

subsection \<open>Reading makes progress, and the fuel is enough\<close>

lemma skip_ws_length: "length (skip_ws t) \<le> length t"
  unfolding skip_ws_def by (rule length_dropWhile_le)

lemma prepend_Some: "prepend r x = Some (a, z) \<Longrightarrow> \<exists>b. x = Some (b, z)"
  by (cases x) (auto simp: prepend_def)

lemma unescape_shrinks: "unescape t = Some (a, z) \<Longrightarrow> length z < length t"
proof (induction "length t" arbitrary: t a z rule: less_induct)
  case less
  from less.prems obtain c s where t: "t = c # s" by (cases t) auto
  have step: "unescape (drop k s) = Some (b, z) \<Longrightarrow> length z < length (c # s)" for k b
    using less.hyps [of "drop k s" b z] by (simp add: t) linarith
  show ?case
    using less.prems step [of 0] step [of 1] step [of 5] step [of 11] step [of "rune_len (c # s) - 1"]
    unfolding t unescape.simps(2)
    by (auto split: if_split_asm list.split_asm option.split_asm simp: Let_def dest!: prepend_Some)
qed

lemma takeWhile_all: "takeWhile P s @ dropWhile P s = s"
  by (rule takeWhile_dropWhile_id)

lemma read_frac_splits: "read_frac s = Some (a, z) \<Longrightarrow> a @ z = s"
  by (auto simp: read_frac_def split: list.split_asm if_split_asm)

lemma read_exp_splits: "read_exp s = Some (a, z) \<Longrightarrow> a @ z = s"
proof (cases s)
  case (Cons c t)
  moreover assume "read_exp s = Some (a, z)"
  ultimately show ?thesis
    by (auto simp: read_exp_def Let_def split: if_split_asm)
qed (simp add: read_exp_def)

lemma read_unsigned_splits:
  assumes "read_unsigned s = Some (a, z)"
  shows "a @ z = s" and "a \<noteq> []" and "is_digit (hd a)"
proof -
  let ?ds = "takeWhile is_digit s"
  let ?n = "if hd ?ds = CHR ''0'' then 1 else length ?ds"
  from assms obtain f r e where ds: "?ds \<noteq> []" and f: "read_frac (drop ?n s) = Some (f, r)"
    and e: "read_exp r = Some (e, z)" and a: "a = take ?n s @ f @ e"
    by (auto simp: read_unsigned_def Let_def bind_eq_Some_conv split: if_split_asm)
  have "f @ e @ z = drop ?n s" using read_frac_splits [OF f] read_exp_splits [OF e] by simp
  then show "a @ z = s" using a by (metis append.assoc append_take_drop_id)
  obtain c t where s: "s = c # t" "is_digit c" using ds by (cases s) (auto split: if_split_asm)
  then show "a \<noteq> []" "is_digit (hd a)" using a by auto
qed

lemma read_number_splits:
  assumes "read_number s = Some (a, z)"
  shows "a @ z = s" and "a \<noteq> []" and "is_digit (hd a) \<or> hd a = CHR ''-''"
proof -
  have "a @ z = s \<and> a \<noteq> [] \<and> (is_digit (hd a) \<or> hd a = CHR ''-'')"
  proof (cases "s \<noteq> [] \<and> hd s = CHR ''-''")
    case True
    with assms obtain b where "read_unsigned (tl s) = Some (b, z)" "a = CHR ''-'' # b"
      by (auto simp: read_number_def)
    with read_unsigned_splits [of "tl s" b z] True show ?thesis by (cases s) auto
  next
    case False
    with assms have "read_unsigned s = Some (a, z)" by (simp add: read_number_def)
    with read_unsigned_splits [of s a z] show ?thesis by blast
  qed
  then show "a @ z = s" "a \<noteq> []" "is_digit (hd a) \<or> hd a = CHR ''-''" by blast+
qed

lemma literal_shrinks: "literal w j s = Some (v, z) \<Longrightarrow> w \<noteq> [] \<Longrightarrow> length z < length s"
  by (auto simp: literal_def split: if_split_asm dest!: has_prefixD)
     (metis append_Nil diff_less has_prefixD length_0_conv length_greater_0_conv list.size(3) append_is_Nil_conv)

lemma read_scalar_shrinks: "read_scalar s = Some (v, z) \<Longrightarrow> length z < length s"
proof (cases s)
  case (Cons c t)
  assume r: "read_scalar s = Some (v, z)"
  show ?thesis
  proof (cases "c = dquote")
    case True
    with r Cons unescape_shrinks show ?thesis by (force simp: read_scalar_def)
  next
    case False
    note lit = literal_shrinks [of _ _ s v z]
    show ?thesis
    proof (cases "c \<in> {CHR ''t'', CHR ''f'', CHR ''n''}")
      case True
      with r Cons False lit [of "''true''"] lit [of "''false''"] lit [of "''null''"] show ?thesis
        by (auto simp: read_scalar_def)
    next
      case other: False
      with r Cons False obtain a where "read_number s = Some (a, z)" by (auto simp: read_scalar_def)
      from read_number_splits [OF this] show ?thesis by (cases a) auto
    qed
  qed
qed (simp add: read_scalar_def)

lemma read_name_shrinks: "read_name s = Some (k, z) \<Longrightarrow> length z < length s"
proof (cases s)
  case (Cons c t)
  assume "read_name s = Some (k, z)"
  with Cons obtain r where r: "unescape t = Some (k, r)" "c = dquote"
    "(case skip_ws r of [] \<Rightarrow> None | d # u \<Rightarrow> if d = CHR '':'' then Some (k, skip_ws u) else None) = Some (k, z)"
    by (cases "unescape t") (auto simp: read_name_def split: if_split_asm list.split_asm)
  then obtain u where u: "unescape t = Some (k, r)" "skip_ws r = CHR '':'' # u" "z = skip_ws u"
    by (cases "skip_ws r") (auto split: if_split_asm)
  then show ?thesis
    using unescape_shrinks [OF u(1)] skip_ws_length [of r] skip_ws_length [of u] Cons by simp
qed (simp add: read_name_def)

lemma read_next_shrinks:
  assumes "read_next close more x r = Some (xs, z)"
    and "\<And>t ys. length t < length r \<Longrightarrow> more t = Some (ys, z) \<Longrightarrow> length z < length t"
  shows "length z < length r"
proof -
  from assms(1) obtain c t where t: "skip_ws r = c # t" by (auto simp: read_next_def split: list.split_asm)
  with assms(1) have "z = t \<or> (\<exists>ys. more (skip_ws t) = Some (ys, z))"
    by (auto simp: read_next_def split: if_split_asm)
  then have "length z \<le> length t"
  proof
    assume "\<exists>ys. more (skip_ws t) = Some (ys, z)"
    moreover have "length (skip_ws t) < length r" using skip_ws_length [of t] skip_ws_length [of r] t by simp
    ultimately have "length z < length (skip_ws t)" using assms(2) by blast
    then show ?thesis using skip_ws_length [of t] by linarith
  qed simp
  then show ?thesis using skip_ws_length [of r] t by simp
qed

lemma read_list_shrinks:
  assumes "read_list close more t = Some (xs, z)"
    and "\<And>u ys. length u \<le> length t \<Longrightarrow> more u = Some (ys, z) \<Longrightarrow> length z < length u"
  shows "length z < length t"
proof -
  from assms(1) obtain c u where u: "skip_ws t = c # u" by (auto simp: read_list_def split: list.split_asm)
  with assms(1) have "z = u \<or> (\<exists>ys. more (c # u) = Some (ys, z))"
    by (auto simp: read_list_def split: if_split_asm)
  then have "length z < length (c # u)" using assms(2) [of "c # u"] skip_ws_length [of t] u by auto
  then show ?thesis using skip_ws_length [of t] u by simp
qed

lemma parse_shrinks:
  "parse_value n d s = Some (v, z) \<Longrightarrow> length z < length s"
  "parse_items n d s = Some (vs, z) \<Longrightarrow> length z < length s"
  "parse_members n d s = Some (ms, z) \<Longrightarrow> length z < length s"
proof (induction n d s and n d s and n d s arbitrary: v z and vs z and ms z
    rule: parse_value_parse_items_parse_members.induct)
  case (2 n d s)
  consider "s \<noteq> [] \<and> hd s = CHR ''[''" | "\<not> (s \<noteq> [] \<and> hd s = CHR ''['')" "s \<noteq> [] \<and> hd s = CHR ''{''"
    | "\<not> (s \<noteq> [] \<and> hd s = CHR ''['')" "\<not> (s \<noteq> [] \<and> hd s = CHR ''{'')" by blast
  then show ?case
  proof cases
    case 1
    with "2.prems" obtain vs where d: "d \<noteq> 0" and l: "read_list (CHR '']'') (parse_items n (d - 1)) (tl s) = Some (vs, z)"
      by (auto split: if_split_asm)
    have "length z < length (tl s)"
      by (rule read_list_shrinks [OF l]) (rule "2.IH"(1) [OF 1 d])
    then show ?thesis by simp
  next
    case 2
    with "2.prems" obtain ms where d: "d \<noteq> 0" and l: "read_list (CHR ''}'') (parse_members n (d - 1)) (tl s) = Some (ms, z)"
      by (auto split: if_split_asm)
    have "length z < length (tl s)"
      by (rule read_list_shrinks [OF l]) (rule "2.IH"(2) [OF 2 d])
    then show ?thesis by simp
  next
    case 3
    with "2.prems" have "read_scalar s = Some (v, z)" by (simp split: if_split_asm)
    then show ?thesis by (rule read_scalar_shrinks)
  qed
next
  case (4 n d s)
  from "4.prems" obtain v r where v: "parse_value n d s = Some (v, r)"
    and more: "read_next (CHR '']'') (parse_items n d) v r = Some (vs, z)"
    by (auto split: option.split_asm)
  have "length z < length r"
    by (rule read_next_shrinks [OF more]) (rule "4.IH"(2) [OF v refl])
  then show ?case using "4.IH"(1) [OF v] by simp
next
  case (6 n d s)
  from "6.prems" obtain k t v r where k: "read_name s = Some (k, t)" and v: "parse_value n d t = Some (v, r)"
    and more: "read_next (CHR ''}'') (parse_members n d) (k, v) r = Some (ms, z)"
    by (auto split: option.split_asm)
  have "length z < length r"
    by (rule read_next_shrinks [OF more]) (rule "6.IH"(2) [OF k refl v refl])
  moreover have "length r < length t" by (rule "6.IH"(1) [OF k refl v])
  ultimately show ?case using read_name_shrinks [OF k] by simp
qed simp_all

text \<open>Once there is twice as much fuel as text, more makes no difference.\<close>

lemma parse_fuel:
  "2 * length s < n \<Longrightarrow> 2 * length s < m \<Longrightarrow> parse_value n d s = parse_value m d s"
  "2 * length s + 1 < n \<Longrightarrow> 2 * length s + 1 < m \<Longrightarrow> parse_items n d s = parse_items m d s"
  "2 * length s + 1 < n \<Longrightarrow> 2 * length s + 1 < m \<Longrightarrow> parse_members n d s = parse_members m d s"
proof (induction n d s and n d s and n d s arbitrary: m and m and m
    rule: parse_value_parse_items_parse_members.induct)
  case (2 n d s)
  from "2.prems" obtain k where m: "m = Suc k" by (cases m) auto
  have small: "2 * length u + 1 < n" "2 * length u + 1 < k" if "length u \<le> length (tl s)" "s \<noteq> []" for u
    using "2.prems" that m by (cases s; simp)+
  have "read_list (CHR '']'') (parse_items n (d - 1)) (tl s) = read_list (CHR '']'') (parse_items k (d - 1)) (tl s)"
    if "s \<noteq> [] \<and> hd s = CHR ''[''" "d \<noteq> 0"
    by (rule read_list_cong [OF refl], rule "2.IH"(1) [OF that]) (use small that in auto)
  moreover have "read_list (CHR ''}'') (parse_members n (d - 1)) (tl s) = read_list (CHR ''}'') (parse_members k (d - 1)) (tl s)"
    if "\<not> (s \<noteq> [] \<and> hd s = CHR ''['')" "s \<noteq> [] \<and> hd s = CHR ''{''" "d \<noteq> 0"
    by (rule read_list_cong [OF refl], rule "2.IH"(2) [OF that]) (use small that in auto)
  ultimately show ?case by (simp add: m)
next
  case (4 n d s)
  from "4.prems" obtain k where m: "m = Suc k" by (cases m) auto
  have v: "parse_value n d s = parse_value k d s" by (rule "4.IH"(1)) (use "4.prems" m in auto)
  have "read_next (CHR '']'') (parse_items n d) x r = read_next (CHR '']'') (parse_items k d) x r"
    if p: "parse_value n d s = Some (x, r)" for x r
  proof (rule read_next_cong [OF refl], rule "4.IH"(2) [OF p refl])
    fix t assume "length t < length r"
    moreover have "length r < length s" by (rule parse_shrinks(1) [OF p])
    ultimately show "2 * length t + 1 < n" "2 * length t + 1 < k" "length t < length r" using "4.prems" m by linarith+
  qed
  then show ?case by (simp add: m v split: option.split)
next
  case (6 n d s)
  from "6.prems" obtain k where m: "m = Suc k" by (cases m) auto
  have v: "parse_value n d t = parse_value k d t" if name: "read_name s = Some (a, t)" for a t
    by (rule "6.IH"(1) [OF name refl]) (use "6.prems" m read_name_shrinks [OF name] in auto)
  have "read_next (CHR ''}'') (parse_members n d) (a, x) r = read_next (CHR ''}'') (parse_members k d) (a, x) r"
    if name: "read_name s = Some (a, t)" and p: "parse_value n d t = Some (x, r)" for a t x r
  proof (rule read_next_cong [OF refl], rule "6.IH"(2) [OF name refl p refl])
    fix u assume "length u < length r"
    moreover have "length r < length t" by (rule parse_shrinks(1) [OF p])
    moreover note read_name_shrinks [OF name]
    ultimately show "2 * length u + 1 < n" "2 * length u + 1 < k" "length u < length r" using "6.prems" m by linarith+
  qed
  then show ?case using v by (auto simp: m split: option.split)
qed simp_all

subsection \<open>Reading what was printed\<close>

text \<open>Text after which a number cannot go on.\<close>

definition stops :: "string \<Rightarrow> bool" where
  "stops z \<longleftrightarrow> z = [] \<or> \<not> is_digit (hd z) \<and> hd z \<notin> {CHR ''.'', CHR ''e'', CHR ''E''}"

definition is_number :: "string \<Rightarrow> bool" where
  "is_number t \<longleftrightarrow> read_number t = Some (t, [])"

text \<open>Values the printer and the reader agree on: strings are UTF-8, numbers are numbers, the nesting
  is within the limit.\<close>

fun json_ok :: "nat \<Rightarrow> json \<Rightarrow> bool" where
  "json_ok d (JNum t) \<longleftrightarrow> is_number t"
| "json_ok d (JStr s) \<longleftrightarrow> utf8 s"
| "json_ok d (JArr xs) \<longleftrightarrow> 0 < d \<and> list_all (json_ok (d - 1)) xs"
| "json_ok d (JObj kvs) \<longleftrightarrow> 0 < d \<and> list_all (\<lambda>(k, v). utf8 k \<and> json_ok (d - 1) v) kvs"
| "json_ok d _ \<longleftrightarrow> True"

lemma digits_append:
  assumes "stops z"
  shows "takeWhile is_digit (t @ z) = takeWhile is_digit t" and "dropWhile is_digit (t @ z) = dropWhile is_digit t @ z"
  using assms by (induction t; cases z; simp add: stops_def)+

lemma read_frac_append: "read_frac s = Some (a, b) \<Longrightarrow> stops z \<Longrightarrow> read_frac (s @ z) = Some (a, b @ z)"
  by (cases s; cases z) (auto simp: read_frac_def digits_append stops_def split: if_split_asm)

lemma read_exp_append:
  assumes "read_exp s = Some (a, b)" "stops z"
  shows "read_exp (s @ z) = Some (a, b @ z)"
proof (cases s)
  case Nil
  with assms show ?thesis by (cases z) (auto simp: read_exp_def stops_def)
next
  case (Cons c t)
  show ?thesis
  proof (cases "c = CHR ''e'' \<or> c = CHR ''E''")
    case True
    with assms(1) Cons have ds: "takeWhile is_digit (drop (exp_sign t) t) \<noteq> []"
      and a: "a = c # take (exp_sign t) t @ takeWhile is_digit (drop (exp_sign t) t)"
      and b: "b = dropWhile is_digit (drop (exp_sign t) t)"
      by (auto simp: read_exp_def Let_def split: if_split_asm)
    from ds have "t \<noteq> []" by auto
    then have "exp_sign (t @ z) = exp_sign t" "exp_sign t \<le> length t"
      by (auto simp: exp_sign_def Suc_le_eq)
    then show ?thesis
      using True Cons ds digits_append [OF assms(2)] by (simp add: read_exp_def Let_def a b)
  next
    case False
    with assms(1) Cons show ?thesis by (auto simp: read_exp_def)
  qed
qed

lemma read_unsigned_append:
  assumes "read_unsigned s = Some (a, b)" "stops z"
  shows "read_unsigned (s @ z) = Some (a, b @ z)"
proof -
  let ?ds = "takeWhile is_digit s"
  let ?n = "if hd ?ds = CHR ''0'' then 1 else length ?ds"
  from assms(1) obtain f r e where ds: "?ds \<noteq> []" and f: "read_frac (drop ?n s) = Some (f, r)"
    and e: "read_exp r = Some (e, b)" and a: "a = take ?n s @ f @ e"
    by (auto simp: read_unsigned_def Let_def bind_eq_Some_conv split: if_split_asm)
  have "?n \<le> length s" using ds length_takeWhile_le [of is_digit s] by (cases s) auto
  then have *: "drop ?n (s @ z) = drop ?n s @ z" "take ?n (s @ z) = take ?n s" by simp_all
  show ?thesis
    unfolding read_unsigned_def Let_def digits_append [OF assms(2)] *
    using ds read_frac_append [OF f assms(2)] read_exp_append [OF e assms(2)] a by simp
qed

lemma read_number_append:
  assumes "is_number t" "stops z"
  shows "read_number (t @ z) = Some (t, z)"
proof -
  from assms(1) have t: "read_number t = Some (t, [])" by (simp add: is_number_def)
  from read_number_splits(2) [OF t] obtain c u where c: "t = c # u" by (cases t) auto
  show ?thesis
  proof (cases "c = CHR ''-''")
    case True
    with t c have "read_unsigned u = Some (u, [])" by (auto simp: read_number_def)
    from read_unsigned_append [OF this assms(2)] c True show ?thesis by (simp add: read_number_def)
  next
    case False
    with t c have "read_unsigned t = Some (t, [])" by (simp add: read_number_def)
    from read_unsigned_append [OF this assms(2)] c False show ?thesis by (simp add: read_number_def)
  qed
qed

text \<open>The first byte of a printed value tells the reader what it is.\<close>

lemma print_head:
  assumes "json_ok d j"
  shows "json_print j \<noteq> []" and "\<not> json_space (hd (json_print j))"
    and "hd (json_print j) \<noteq> CHR '']''" and "hd (json_print j) \<noteq> CHR ''}''"
proof -
  have digit: "\<not> json_space c \<and> c \<noteq> CHR '']'' \<and> c \<noteq> CHR ''}''" if "is_digit c \<or> c = CHR ''-''" for c
    using that by (auto simp: is_digit_def json_space_def in_range_def)
  have "json_print j \<noteq> [] \<and> \<not> json_space (hd (json_print j)) \<and> hd (json_print j) \<noteq> CHR '']'' \<and>
      hd (json_print j) \<noteq> CHR ''}''"
  proof (cases j)
    case (JNum t)
    with assms have "read_number t = Some (t, [])" by (simp add: is_number_def)
    from read_number_splits(2,3) [OF this] digit [of "hd t"] JNum show ?thesis by simp
  qed (simp_all add: json_space_def quote_def)
  then show "json_print j \<noteq> []" "\<not> json_space (hd (json_print j))"
    "hd (json_print j) \<noteq> CHR '']''" "hd (json_print j) \<noteq> CHR ''}''" by blast+
qed

lemma skip_ws_id: "s = [] \<or> \<not> json_space (hd s) \<Longrightarrow> skip_ws s = s"
  by (cases s) (simp_all add: skip_ws_def)

lemma skip_ws_Cons [simp]: "\<not> json_space c \<Longrightarrow> skip_ws (c # s) = c # s"
  by (simp add: skip_ws_def)

lemma punctuation [simp]:
  "\<not> json_space (CHR '','')" "\<not> json_space (CHR '':'')" "\<not> json_space (CHR '']'')" "\<not> json_space (CHR ''}'')"
  "\<not> json_space dquote"
  by (simp_all add: json_space_def)

lemma stops_punctuation [simp]: "stops (CHR '','' # z)" "stops (CHR '']'' # z)" "stops (CHR ''}'' # z)" "stops []"
  by (simp_all add: stops_def is_digit_def in_range_def)

lemma skip_ws_printed: "json_ok d j \<Longrightarrow> skip_ws (json_print j @ z) = json_print j @ z"
  using print_head [of d j] by (intro skip_ws_id) simp

definition member_text :: "string \<times> json \<Rightarrow> string" where
  "member_text kv = (case kv of (k, v) \<Rightarrow> quote k @ '':'' @ json_print v)"

lemma json_print_obj: "json_print (JObj kvs) = ''{'' @ commas (map member_text kvs) @ ''}''"
proof -
  have "member_text = (\<lambda>(k, v). quote k @ '':'' @ json_print v)" by (auto simp: member_text_def)
  then show ?thesis by simp
qed

lemma member_text_head: "member_text kv \<noteq> []" "hd (member_text kv) = dquote"
  by (simp_all add: member_text_def quote_def split: prod.splits)

lemma commas_head: "x \<noteq> [] \<Longrightarrow> hd (commas (x # xs) @ z) = hd x \<and> commas (x # xs) \<noteq> []"
  by (cases xs) simp_all

text \<open>A printed element is read back whatever stops it.\<close>

abbreviation reads_back :: "nat \<Rightarrow> json \<Rightarrow> bool" where
  "reads_back d x \<equiv> (\<forall>n z. stops z \<longrightarrow> length (json_print x) \<le> n \<longrightarrow> parse_value n d (json_print x @ z) = Some (x, z))"

lemma parse_items_print:
  assumes "list_all (reads_back d) xs" "list_all (json_ok d) xs" "xs \<noteq> []"
    and "length (commas (map json_print xs)) < n"
  shows "parse_items n d (commas (map json_print xs) @ CHR '']'' # z) = Some (xs, z)"
  using assms
proof (induction xs arbitrary: n)
  case (Cons x xs)
  then obtain k where n: "n = Suc k" by (cases n) auto
  show ?case
  proof (cases xs)
    case Nil
    with Cons.prems n show ?thesis by (simp add: read_next_def)
  next
    case (Cons y ys)
    let ?rest = "commas (map json_print xs) @ CHR '']'' # z"
    have len: "length (commas (map json_print xs)) < k" "length (json_print x) \<le> k"
      using Cons.prems(4) n Cons by simp_all
    have ok: "json_ok d y" using Cons.prems(2) Cons by simp
    have "hd ?rest = hd (json_print y)" using commas_head [OF print_head(1) [OF ok]] Cons by simp
    then have skip: "skip_ws ?rest = ?rest" using print_head(2) [OF ok] by (intro skip_ws_id) simp
    have "parse_items k d ?rest = Some (xs, z)"
      by (rule Cons.IH) (use Cons.prems Cons len in auto)
    then show ?thesis
      using Cons.prems(1) len skip Cons n by (simp add: read_next_def)
  qed
qed simp

lemma read_name_print:
  assumes "utf8 k" "json_ok d v"
  shows "read_name (quote k @ CHR '':'' # json_print v @ z) = Some (k, json_print v @ z)"
  using unescape_escape [OF assms(1)] skip_ws_printed [OF assms(2)]
  by (simp add: read_name_def quote_def)

lemma parse_members_print:
  assumes "list_all (reads_back d) (map snd kvs)" "list_all (\<lambda>(k, v). utf8 k \<and> json_ok d v) kvs" "kvs \<noteq> []"
    and "length (commas (map member_text kvs)) < n"
  shows "parse_members n d (commas (map member_text kvs) @ CHR ''}'' # z) = Some (kvs, z)"
  using assms
proof (induction kvs arbitrary: n)
  case (Cons kv kvs)
  then obtain j where n: "n = Suc j" by (cases n) auto
  obtain k v where kv: "kv = (k, v)" by (cases kv)
  have ok: "utf8 k" "json_ok d v" using Cons.prems(2) kv by simp_all
  show ?case
  proof (cases kvs)
    case Nil
    with Cons.prems n kv read_name_print [OF ok] show ?thesis by (simp add: read_next_def member_text_def)
  next
    case (Cons y ys)
    let ?rest = "commas (map member_text kvs) @ CHR ''}'' # z"
    have "length (json_print v) \<le> length (member_text kv)" by (simp add: member_text_def kv)
    then have len: "length (commas (map member_text kvs)) < j" "length (json_print v) \<le> j"
      using Cons.prems(4) n Cons by simp_all
    have "hd ?rest = dquote"
      using commas_head [OF member_text_head(1), of y] member_text_head(2) [of y] Cons by simp
    then have skip: "skip_ws ?rest = ?rest" by (intro skip_ws_id) simp
    have "parse_members j d ?rest = Some (kvs, z)"
      by (rule Cons.IH) (use Cons.prems Cons len in auto)
    moreover have "parse_value j d (json_print v @ CHR '','' # ?rest) = Some (v, CHR '','' # ?rest)"
      using Cons.prems(1) len(2) kv by simp
    moreover have "commas (map member_text (kv # kvs)) @ CHR ''}'' # z =
        quote k @ CHR '':'' # json_print v @ CHR '','' # ?rest"
      by (simp add: Cons) (simp add: kv member_text_def)
    ultimately show ?thesis
      using skip read_name_print [OF ok] by (simp add: n kv read_next_def del: list.map)
  qed
qed simp

lemma parse_print: "json_ok d j \<Longrightarrow> reads_back d j"
proof (induction j arbitrary: d)
  case JNull
  have "parse_value n d (json_print JNull @ z) = Some (JNull, z)" if "length (json_print JNull) \<le> n" for n z
    using that by (cases n) (simp_all add: read_scalar_def literal_def has_prefix_def)
  then show ?case by blast
next
  case (JBool b)
  have "parse_value n d (json_print (JBool b) @ z) = Some (JBool b, z)" if "length (json_print (JBool b)) \<le> n" for n z
    using that by (cases n; cases b) (simp_all add: read_scalar_def literal_def has_prefix_def)
  then show ?case by blast
next
  case (JNum t)
  then have t: "is_number t" by simp
  have read: "read_number t = Some (t, [])" using t by (simp add: is_number_def)
  obtain c u where c: "t = c # u" using read_number_splits(2) [OF read] by (cases t) auto
  have "is_digit c \<or> c = CHR ''-''" using read_number_splits(3) [OF read] c by simp
  then have ne: "c \<noteq> CHR ''[''" "c \<noteq> CHR ''{''" "c \<noteq> dquote" "c \<notin> {CHR ''t'', CHR ''f'', CHR ''n''}"
    by (auto simp: is_digit_def in_range_def)
  have "parse_value n d (t @ z) = Some (JNum t, z)" if "stops z" "length t \<le> n" for n z
    using that read_number_append [OF t that(1)] c ne by (cases n) (simp_all add: read_scalar_def)
  then show ?case by simp
next
  case (JStr s)
  have "parse_value n d (quote s @ z) = Some (JStr s, z)" if "length (quote s) \<le> n" for n z
    using that unescape_escape [of s z] JStr by (cases n) (simp_all add: read_scalar_def quote_def)
  then show ?case by simp
next
  case (JArr xs)
  have d: "0 < d" and ok: "list_all (json_ok (d - 1)) xs" using JArr.prems by simp_all
  have rb: "list_all (reads_back (d - 1)) xs" using JArr.IH ok by (simp add: list_all_iff)
  have "parse_value n d (json_print (JArr xs) @ z) = Some (JArr xs, z)" if l: "length (json_print (JArr xs)) \<le> n" for n z
  proof -
    obtain k where n: "n = Suc k" using l by (cases n) auto
    let ?rest = "commas (map json_print xs) @ CHR '']'' # z"
    have "read_list (CHR '']'') (parse_items k (d - 1)) ?rest = Some (xs, z)"
    proof (cases xs)
      case Nil
      then show ?thesis by (simp add: read_list_def)
    next
      case (Cons y ys)
      have oky: "json_ok (d - 1) y" using ok Cons by simp
      have hd: "hd ?rest = hd (json_print y)" using commas_head [OF print_head(1) [OF oky]] Cons by simp
      then have skip: "skip_ws ?rest = ?rest" using print_head(2) [OF oky] by (intro skip_ws_id) simp
      obtain c t where r: "?rest = c # t" by (cases ?rest) auto
      have "c \<noteq> CHR '']''" using hd print_head(3) [OF oky] r by simp
      moreover have "parse_items k (d - 1) ?rest = Some (xs, z)"
        by (rule parse_items_print [OF rb ok]) (use Cons l n in auto)
      ultimately show ?thesis using skip r by (simp add: read_list_def)
    qed
    then show ?thesis using n d by simp
  qed
  then show ?case by blast
next
  case (JObj kvs)
  have d: "0 < d" and ok: "list_all (\<lambda>(k, v). utf8 k \<and> json_ok (d - 1) v) kvs" using JObj.prems by simp_all
  have rb: "list_all (reads_back (d - 1)) (map snd kvs)"
    using JObj.IH ok by (fastforce simp: list_all_iff)
  have "parse_value n d (json_print (JObj kvs) @ z) = Some (JObj kvs, z)" if l: "length (json_print (JObj kvs)) \<le> n" for n z
  proof -
    obtain k where n: "n = Suc k" using l by (cases n) auto
    let ?rest = "commas (map member_text kvs) @ CHR ''}'' # z"
    have "read_list (CHR ''}'') (parse_members k (d - 1)) ?rest = Some (kvs, z)"
    proof (cases kvs)
      case Nil
      then show ?thesis by (simp add: read_list_def)
    next
      case (Cons y ys)
      have hd: "hd ?rest = dquote"
        using commas_head [OF member_text_head(1), of y] member_text_head(2) [of y] Cons by simp
      then have skip: "skip_ws ?rest = ?rest" by (intro skip_ws_id) simp
      obtain c t where r: "?rest = c # t" by (cases ?rest) auto
      have "parse_members k (d - 1) ?rest = Some (kvs, z)"
        by (rule parse_members_print [OF rb ok]) (use Cons l n in \<open>auto simp: json_print_obj simp del: json_print.simps\<close>)
      with hd skip r show ?thesis by (simp add: read_list_def)
    qed
    then show ?thesis using n d unfolding json_print_obj by simp
  qed
  then show ?case by blast
qed

theorem json_round: "json_ok 10000 j \<Longrightarrow> json_parse (json_print j) = Some j"
proof -
  assume ok: "json_ok 10000 j"
  have "parse_value (2 * length (json_print j) + 2) 10000 (json_print j @ []) = Some (j, [])"
    by (rule parse_print [OF ok, rule_format]) simp_all
  then show ?thesis
    unfolding json_parse_def using skip_ws_printed [OF ok, of "[]"]
    by (simp only: append_Nil2 option.case prod.case) (simp add: skip_ws_def)
qed

text \<open>Integers are numbers.\<close>

lemma digit_is_digit: "d < 10 \<Longrightarrow> is_digit (digit_char d)"
  by (simp add: is_digit_def in_range_def of_char_digit)

lemma nat_dec_is_digits: "list_all is_digit (nat_dec n)"
  using nat_dec_digits digit_is_digit by (fastforce simp: list_all_iff)

lemma nat_dec_no_leading_zero: "hd (nat_dec n) = CHR ''0'' \<Longrightarrow> n = 0"
proof (induction n rule: nat_dec.induct)
  case (1 n)
  show ?case
  proof (cases "n < 10")
    case True
    with "1.prems" have "digit_char n = CHR ''0''" by (subst (asm) nat_dec.simps) simp
    with of_char_digit [OF True] show ?thesis by simp
  next
    case False
    then have "hd (nat_dec n) = hd (nat_dec (n div 10))" by (subst nat_dec.simps) simp
    with "1.IH" [OF False] "1.prems" have "n div 10 = 0" by simp
    with False show ?thesis by simp
  qed
qed

lemma read_unsigned_nat: "read_unsigned (nat_dec n) = Some (nat_dec n, [])"
proof -
  have all: "takeWhile is_digit (nat_dec n) = nat_dec n"
    using nat_dec_is_digits by (simp add: takeWhile_eq_all_conv list_all_iff)
  have "nat_dec 0 = ''0''" by (subst nat_dec.simps) (simp add: digit_char_def char_of_def bit_Suc_0_iff)
  then show ?thesis
    using nat_dec_no_leading_zero [of n]
    by (auto simp: read_unsigned_def Let_def all read_frac_def read_exp_def)
qed

lemma itoa_is_number: "is_number (itoa w)"
  using hd_nat_dec
  by (simp add: is_number_def itoa_def int_dec_def read_number_def read_unsigned_nat)

end
