(* ===== verification/Float64.thy ===== *)
theory Float64
  imports Go_Base "HOL-Library.Log_Nat"
begin

text \<open>
  Go's float64: an IEEE 754 double, kept as its 64 bits. Comparison and equality are those of
  the language (a NaN is neither equal to nor less than anything, the two zeros are equal);
  multiplication and conversion from integers round to nearest, ties to even; the two ways the
  source prints a float are the fixed two decimals of \<open>%.2f\<close> and the shortest decimal text that
  reads back as the same number, as \<open>encoding/json\<close> writes it.
\<close>

datatype float64 = F64 "64 word"

definition f_bits :: "float64 \<Rightarrow> nat" where
  "f_bits x = (case x of F64 w \<Rightarrow> unat w)"

definition f_neg :: "float64 \<Rightarrow> bool" where "f_neg x \<longleftrightarrow> 2 ^ 63 \<le> f_bits x"
definition f_mag :: "float64 \<Rightarrow> nat" where "f_mag x = f_bits x mod 2 ^ 63"
definition f_exp :: "float64 \<Rightarrow> nat" where "f_exp x = f_mag x div 2 ^ 52"
definition f_frac :: "float64 \<Rightarrow> nat" where "f_frac x = f_mag x mod 2 ^ 52"

definition f_nan :: "float64 \<Rightarrow> bool" where "f_nan x \<longleftrightarrow> f_exp x = 2047 \<and> f_frac x \<noteq> 0"
definition f_inf :: "float64 \<Rightarrow> bool" where "f_inf x \<longleftrightarrow> f_exp x = 2047 \<and> f_frac x = 0"
definition f_finite :: "float64 \<Rightarrow> bool" where "f_finite x \<longleftrightarrow> f_exp x \<noteq> 2047"

text \<open>
  Among numbers that are not NaN the order of the magnitudes read as integers, with the sign put
  back, is the order of the values; both zeros get the key 0.
\<close>

definition f_key :: "float64 \<Rightarrow> int" where
  "f_key x = (if f_neg x then - int (f_mag x) else int (f_mag x))"

definition f_eq :: "float64 \<Rightarrow> float64 \<Rightarrow> bool" where
  "f_eq x y \<longleftrightarrow> \<not> f_nan x \<and> \<not> f_nan y \<and> f_key x = f_key y"

definition f_lt :: "float64 \<Rightarrow> float64 \<Rightarrow> bool" where
  "f_lt x y \<longleftrightarrow> \<not> f_nan x \<and> \<not> f_nan y \<and> f_key x < f_key y"

text \<open>The constants of the source.\<close>

definition f_zero :: float64 where "f_zero = F64 0"
definition f_one :: float64 where "f_one = F64 0x3FF0000000000000"
definition f_three_quarters :: float64 where "f_three_quarters = F64 0x3FE8000000000000"
definition f_one_twentieth :: float64 where "f_one_twentieth = F64 0x3FA999999999999A"

subsection \<open>Rounding\<close>

definition f_signed :: "bool \<Rightarrow> nat \<Rightarrow> float64" where
  "f_signed neg n = F64 (of_nat (if neg then 2 ^ 63 + n else n))"

text \<open>\<open>div_even\<close> is division rounded to the nearest integer, ties to even.\<close>

definition div_even :: "nat \<Rightarrow> nat \<Rightarrow> nat" where
  "div_even m d =
     (let q = m div d; r = m mod d
      in if d < 2 * r \<or> (d = 2 * r \<and> odd q) then q + 1 else q)"

text \<open>
  The float nearest to \<open>m * 2 ^ e\<close>: keep 53 bits, or fewer where the exponent would fall below
  that of the subnormal numbers; a carry out of the fraction moves into the exponent field, and a
  value too large becomes an infinity.
\<close>

definition f_round :: "bool \<Rightarrow> nat \<Rightarrow> int \<Rightarrow> float64" where
  "f_round neg m e =
     (if m = 0 then f_signed neg 0
      else let e' = max (e + int (floorlog 2 m) - 53) (- 1074);
               q = (if e' \<le> e then m * 2 ^ nat (e - e') else div_even m (2 ^ nat (e' - e)))
           in f_signed neg (min (nat (e' + 1074) * 2 ^ 52 + q) (2047 * 2 ^ 52)))"

definition f_mant :: "float64 \<Rightarrow> nat" where
  "f_mant x = (if f_exp x = 0 then f_frac x else 2 ^ 52 + f_frac x)"

definition f_scale :: "float64 \<Rightarrow> int" where
  "f_scale x = (if f_exp x = 0 then - 1074 else int (f_exp x) - 1075)"

definition f_of_int :: "int \<Rightarrow> float64" where
  "f_of_int i = f_round (i < 0) (nat \<bar>i\<bar>) 0"

definition f_mul :: "float64 \<Rightarrow> float64 \<Rightarrow> float64" where
  "f_mul x y =
     (let neg = (f_neg x \<noteq> f_neg y)
      in if f_nan x \<or> f_nan y \<or> (f_inf x \<and> f_mag y = 0) \<or> (f_inf y \<and> f_mag x = 0)
         then F64 0x7FF8000000000001
         else if f_inf x \<or> f_inf y then f_signed neg (2047 * 2 ^ 52)
         else f_round neg (f_mant x * f_mant y) (f_scale x + f_scale y))"

subsection \<open>Printing\<close>

definition pad_two :: "nat \<Rightarrow> string" where
  "pad_two n = (if n < 10 then ''0'' @ nat_dec n else nat_dec n)"

text \<open>\<open>%.2f\<close>: the exact value rounded to hundredths.\<close>

definition f_fixed2 :: "float64 \<Rightarrow> string" where
  "f_fixed2 x =
     (if f_nan x then ''NaN''
      else if f_inf x then (if f_neg x then ''-Inf'' else ''+Inf'')
      else let e = f_scale x; m = 100 * f_mant x;
               h = (if 0 \<le> e then m * 2 ^ nat e else div_even m (2 ^ nat (- e)))
           in (if f_neg x then ''-'' else '''') @ nat_dec (h div 100) @ ''.'' @ pad_two (h mod 100))"

text \<open>
  The shortest decimal: with \<open>x = 4 m 2 ^ e\<close> the numbers that round to \<open>x\<close> lie between the
  two midpoints \<open>lo\<close> and \<open>hi\<close> (in units of \<open>2 ^ e\<close>; the ends count when \<open>m\<close> is even). For one
  digit, then two, and so on, the exact value is cut off and rounded up after that many digits,
  and the first of the two that lies between the midpoints is taken, the nearer one if both do.
\<close>

definition dec_cmp :: "nat \<Rightarrow> int \<Rightarrow> nat \<Rightarrow> int \<Rightarrow> int" where
  "dec_cmp d k v e =
     int (d * 10 ^ nat k * 2 ^ nat (- e)) - int (v * 2 ^ nat e * 10 ^ nat (- k))"

definition dec_floor :: "nat \<Rightarrow> int \<Rightarrow> int \<Rightarrow> nat" where
  "dec_floor v e k = (v * 2 ^ nat e * 10 ^ nat (- k)) div (10 ^ nat k * 2 ^ nat (- e))"

definition shortest_at :: "nat \<Rightarrow> int \<Rightarrow> nat \<Rightarrow> nat \<Rightarrow> bool \<Rightarrow> int \<Rightarrow> (nat \<times> int) option" where
  "shortest_at x e lo hi incl k =
     (let d = dec_floor x e k;
          down = (0 < dec_cmp d k lo e \<or> (incl \<and> dec_cmp d k lo e = 0));
          up = (dec_cmp (d + 1) k hi e < 0 \<or> (incl \<and> dec_cmp (d + 1) k hi e = 0));
          half = dec_cmp (2 * d + 1) k (2 * x) e
      in if down \<and> up then Some (if half < 0 \<or> (half = 0 \<and> odd d) then d + 1 else d, k)
         else if down then Some (d, k)
         else if up then Some (d + 1, k)
         else None)"

fun first_some :: "('a \<Rightarrow> 'b option) \<Rightarrow> 'a list \<Rightarrow> 'b option" where
  "first_some f [] = None"
| "first_some f (x # xs) = (case f x of Some y \<Rightarrow> Some y | None \<Rightarrow> first_some f xs)"

fun strip_zeros :: "nat \<Rightarrow> nat \<Rightarrow> int \<Rightarrow> nat \<times> int" where
  "strip_zeros 0 d k = (d, k)"
| "strip_zeros (Suc n) d k =
     (if d \<noteq> 0 \<and> d mod 10 = 0 then strip_zeros n (d div 10) (k + 1) else (d, k))"

definition f_shortest :: "float64 \<Rightarrow> nat \<times> int" where
  "f_shortest x =
     (let m = f_mant x; e = f_scale x - 2;
          lo = (if f_frac x = 0 \<and> 1 < f_exp x then 4 * m - 1 else 4 * m - 2);
          hi = 4 * m + 2;
          p = (case find (\<lambda>p. dec_cmp 1 p (4 * m) e > 0) [- 330..310] of Some p \<Rightarrow> p | None \<Rightarrow> 0)
      in case first_some (\<lambda>n. shortest_at (4 * m) e lo hi (even m) (p - n)) [1..17] of
           Some (d, k) \<Rightarrow> strip_zeros 20 d k
         | None \<Rightarrow> (0, 0))"

definition zeros :: "int \<Rightarrow> string" where
  "zeros n = replicate (nat n) (CHR ''0'')"

text \<open>
  \<open>encoding/json\<close> writes plain decimals for magnitudes from 1e-6 up to 1e21 and exponent form
  outside (with no leading zero in the exponent); it refuses NaN and the infinities.
\<close>

definition json_float :: "float64 \<Rightarrow> string option" where
  "json_float x =
     (if \<not> f_finite x then None
      else if f_mag x = 0 then Some (if f_neg x then ''-0'' else ''0'')
      else let (d, k) = f_shortest x; ds = nat_dec d; n = int (length ds) + k;
               body =
                 (if n < - 5 \<or> 21 < n
                  then take 1 ds @ (if length ds = 1 then [] else ''.'' @ drop 1 ds) @
                       (if n - 1 < 0 then ''e-'' else ''e+'') @ nat_dec (nat \<bar>n - 1\<bar>)
                  else if 0 \<le> k then ds @ zeros k
                  else if 0 < n then take (nat n) ds @ ''.'' @ drop (nat n) ds
                  else ''0.'' @ zeros (- n) @ ds)
           in Some ((if f_neg x then ''-'' else '''') @ body))"

subsection \<open>Laws of the comparisons\<close>

lemma f_eq_sym: "f_eq x y \<longleftrightarrow> f_eq y x"
  by (auto simp: f_eq_def)

lemma f_eq_trans: "f_eq x y \<Longrightarrow> f_eq y z \<Longrightarrow> f_eq x z"
  by (auto simp: f_eq_def)

lemma f_eq_refl [simp]: "f_eq x x \<longleftrightarrow> \<not> f_nan x"
  by (auto simp: f_eq_def)

lemma f_lt_irrefl [simp]: "\<not> f_lt x x"
  by (simp add: f_lt_def)

lemma f_lt_trans: "f_lt x y \<Longrightarrow> f_lt y z \<Longrightarrow> f_lt x z"
  by (auto simp: f_lt_def)

lemma f_lt_linear: "\<not> f_nan x \<Longrightarrow> \<not> f_nan y \<Longrightarrow> f_lt x y \<or> f_eq x y \<or> f_lt y x"
  by (auto simp: f_lt_def f_eq_def)

lemma f_lt_eq_trans: "f_lt x y \<Longrightarrow> f_eq y z \<Longrightarrow> f_lt x z"
  by (auto simp: f_lt_def f_eq_def)

lemma f_nan_zero [simp]: "\<not> f_nan f_zero"
  by (simp add: f_nan_def f_zero_def f_exp_def f_frac_def f_mag_def f_bits_def)

end
