(* ===== verification/Domain_Model.thy ===== *)
theory Domain_Model
  imports Float64
begin

text \<open>
  The data model of the package \<open>domain\<close> (model.go, command.go, cluster.go, list.go): one record
  per struct with its fields in the source's order, one datatype per set of string constants, and
  the methods of the structs. A pointer to a struct that may be nil is an option; the two pointers
  of the actor state that share a version are addresses into a heap of versions.
\<close>

subsection \<open>Identities (model.go)\<close>

record DeploymentIdentity =
  id_Environment :: string
  id_Namespace :: string
  id_Name :: string
  id_Owner :: string
  id_ServiceAccount :: string
  id_NodePool :: string
  id_FlinkDashboardURL :: string

definition WorkflowID :: "DeploymentIdentity \<Rightarrow> string" where
  "WorkflowID d =
     ''flink-deployment/'' @ id_Environment d @ ''/'' @ id_Namespace d @ ''/'' @ id_Name d"

definition ClusterWorkflowID :: "DeploymentIdentity \<Rightarrow> string" where
  "ClusterWorkflowID d = ''flink-cluster/'' @ id_Environment d @ ''/'' @ id_Namespace d"

definition ResourceWorkflowID :: "DeploymentIdentity \<Rightarrow> string" where
  "ResourceWorkflowID d =
     ''flink-resource-pool/'' @ id_Environment d @ ''/'' @ id_Namespace d @ ''/'' @ id_NodePool d"

subsection \<open>Specifications and versions (model.go)\<close>

record ResourceShape =
  rs_TaskManagerCPU :: float64
  rs_TaskManagerMemory :: go_int
  rs_TaskManagerCount :: go_int
  rs_SlotsPerManager :: go_int

text \<open>The product wraps around, as Go's does.\<close>

definition Slots :: "ResourceShape \<Rightarrow> go_int" where
  "Slots r = rs_TaskManagerCount r * rs_SlotsPerManager r"

text \<open>The struct comparison \<open>==\<close>: the float field by float equality, the others by value.\<close>

definition ResourceShape_eq :: "ResourceShape \<Rightarrow> ResourceShape \<Rightarrow> bool" where
  "ResourceShape_eq r q \<longleftrightarrow>
     f_eq (rs_TaskManagerCPU r) (rs_TaskManagerCPU q) \<and>
     rs_TaskManagerMemory r = rs_TaskManagerMemory q \<and>
     rs_TaskManagerCount r = rs_TaskManagerCount q \<and>
     rs_SlotsPerManager r = rs_SlotsPerManager q"

record StateCompatibility =
  sc_JobGraphCompatible :: bool
  sc_OperatorUIDsStable :: bool
  sc_AllowNonRestored :: bool
  sc_FreshStartApproved :: bool

record DeploymentSpec =
  spec_ImageDigest :: string
  spec_GitRef :: string
  spec_FlinkVersion :: string
  spec_JobArgs :: string_map
  spec_FlinkConfig :: string_map
  spec_Parallelism :: go_int
  spec_MaxParallelism :: go_int
  spec_Resources :: ResourceShape
  spec_State :: StateCompatibility
  spec_AutoscalerEnabled :: bool

record HealthSummary =
  hs_Healthy :: bool
  hs_Running :: bool
  hs_CheckpointCompleted :: bool
  hs_RestartCount :: go_int
  hs_BackpressureRatio :: float64
  hs_KafkaLag :: go_int
  hs_SinkHealthy :: bool
  hs_Message :: string
  hs_ObservedAt :: go_time

definition zero_HealthSummary :: HealthSummary where
  "zero_HealthSummary =
     \<lparr>hs_Healthy = False, hs_Running = False, hs_CheckpointCompleted = False, hs_RestartCount = 0,
      hs_BackpressureRatio = f_zero, hs_KafkaLag = 0, hs_SinkHealthy = False, hs_Message = [],
      hs_ObservedAt = 0\<rparr>"

record DeploymentVersion =
  ver_VersionID :: go_int
  ver_Spec :: DeploymentSpec
  ver_ManifestHash :: string
  ver_JobArgsHash :: string
  ver_FlinkConfigHash :: string
  ver_SavepointURI :: string
  ver_OperatorObservedGeneration :: go_int
  ver_HealthSummary :: HealthSummary
  ver_CreatedAt :: go_time

text \<open>The zero values the runtime stores for a deployment it has not seen.\<close>

definition zero_DeploymentSpec :: DeploymentSpec where
  "zero_DeploymentSpec =
     \<lparr>spec_ImageDigest = [], spec_GitRef = [], spec_FlinkVersion = [], spec_JobArgs = None,
      spec_FlinkConfig = None, spec_Parallelism = 0, spec_MaxParallelism = 0,
      spec_Resources = \<lparr>rs_TaskManagerCPU = f_zero, rs_TaskManagerMemory = 0,
        rs_TaskManagerCount = 0, rs_SlotsPerManager = 0\<rparr>,
      spec_State = \<lparr>sc_JobGraphCompatible = False, sc_OperatorUIDsStable = False,
        sc_AllowNonRestored = False, sc_FreshStartApproved = False\<rparr>,
      spec_AutoscalerEnabled = False\<rparr>"

definition zero_DeploymentVersion :: DeploymentVersion where
  "zero_DeploymentVersion =
     \<lparr>ver_VersionID = 0, ver_Spec = zero_DeploymentSpec, ver_ManifestHash = [],
      ver_JobArgsHash = [], ver_FlinkConfigHash = [], ver_SavepointURI = [],
      ver_OperatorObservedGeneration = 0, ver_HealthSummary = zero_HealthSummary,
      ver_CreatedAt = 0\<rparr>"

record SavepointRecord =
  sp_URI :: string
  sp_TriggerID :: string
  sp_FlinkJobID :: string
  sp_DeploymentVersion :: go_int
  sp_ImageDigest :: string
  sp_JobArgsHash :: string
  sp_Parallelism :: go_int
  sp_MaxParallelism :: go_int
  sp_CompatibilityNotes :: string
  sp_CreatedAt :: go_time

subsection \<open>Policies and leases (model.go)\<close>

record Policy =
  pol_RequireProdApproval :: bool
  pol_GitOpsOnly :: bool
  pol_AllowIncidentDirectPatch :: bool
  pol_RequireRiskySavepoint :: bool
  pol_RequireFirstCheckpoint :: bool
  pol_RequireHealthySink :: bool
  pol_MaxRestartCount :: go_int
  pol_MaxBackpressureRatio :: float64
  pol_MaxKafkaLag :: go_int

definition DefaultPolicy :: "string \<Rightarrow> Policy" where
  "DefaultPolicy environment =
     \<lparr>pol_RequireProdApproval = (environment = ''prod''),
      pol_GitOpsOnly = (environment = ''prod''),
      pol_AllowIncidentDirectPatch = True,
      pol_RequireRiskySavepoint = True,
      pol_RequireFirstCheckpoint = True,
      pol_RequireHealthySink = True,
      pol_MaxRestartCount = 3,
      pol_MaxBackpressureRatio = f_three_quarters,
      pol_MaxKafkaLag = 1000000\<rparr>"

text \<open>The comparison of a policy with the zero value \<open>domain.Policy{}\<close>.\<close>

definition Policy_is_zero :: "Policy \<Rightarrow> bool" where
  "Policy_is_zero p \<longleftrightarrow>
     \<not> pol_RequireProdApproval p \<and> \<not> pol_GitOpsOnly p \<and> \<not> pol_AllowIncidentDirectPatch p \<and>
     \<not> pol_RequireRiskySavepoint p \<and> \<not> pol_RequireFirstCheckpoint p \<and>
     \<not> pol_RequireHealthySink p \<and> pol_MaxRestartCount p = 0 \<and>
     f_eq (pol_MaxBackpressureRatio p) f_zero \<and> pol_MaxKafkaLag p = 0"

record Lease =
  lease_ID :: string
  lease_NodePool :: string
  lease_CPU :: float64
  lease_MemoryMiB :: go_int
  lease_Slots :: go_int
  lease_OwnerWorkflow :: string
  lease_ExpiresAt :: go_time

subsection \<open>Commands and the actor state (command.go)\<close>

datatype CommandType =
  CommandDeployVersion | CommandRequestSavepoint | CommandSuspend | CommandResume
| CommandRollback | CommandScaleTo | CommandEnableAutoscaler | CommandFreezeAutoscaler
| CommandContinueAsNew | CommandOther string

text \<open>The string a constant stands for; \<open>CommandOther\<close> is any other string.\<close>

fun CommandType_string :: "CommandType \<Rightarrow> string" where
  "CommandType_string CommandDeployVersion = ''DeployVersion''"
| "CommandType_string CommandRequestSavepoint = ''RequestSavepoint''"
| "CommandType_string CommandSuspend = ''Suspend''"
| "CommandType_string CommandResume = ''Resume''"
| "CommandType_string CommandRollback = ''RollbackToVersion''"
| "CommandType_string CommandScaleTo = ''ScaleTo''"
| "CommandType_string CommandEnableAutoscaler = ''EnableAutoscaler''"
| "CommandType_string CommandFreezeAutoscaler = ''FreezeAutoscaler''"
| "CommandType_string CommandContinueAsNew = ''ContinueAsNew''"
| "CommandType_string (CommandOther s) = s"

record DeploymentCommand =
  cmd_OperationID :: string
  cmd_IdempotencyKey :: string
  cmd_Type :: CommandType
  cmd_Requester :: string
  cmd_RequestedAt :: go_time
  cmd_TargetSpec :: "DeploymentSpec option"
  cmd_TargetVersion :: go_int
  cmd_Parallelism :: go_int
  cmd_Approved :: bool
  cmd_Incident :: bool
  cmd_Reason :: string

datatype OperationStatus =
  OperationQueued | OperationRunning | OperationSucceeded | OperationFailed | OperationRejected

record OperationRecord =
  rec_OperationID :: string
  rec_IdempotencyKey :: string
  rec_Requester :: string
  rec_CommandType :: CommandType
  rec_Status :: OperationStatus
  rec_ChildWorkflowID :: string
  rec_LeaseID :: string
  rec_Result :: string
  rec_StartedAt :: go_time
  rec_CompletedAt :: go_time

text \<open>\<open>ActorUnset\<close> is the empty string, the zero value of the type; \<open>ActorUnreachable\<close> is the status
  the control service gives a card whose actor did not answer.\<close>

datatype ActorStatus =
  ActorUnset | ActorIdle | ActorOperating | ActorFailed | ActorSuspended | ActorUnreachable

text \<open>
  The state of a deployment actor. \<open>CurrentVersion\<close> and \<open>LastHealthyVersion\<close> are pointers: \<open>None\<close>
  is nil, \<open>Some a\<close> points to the cell \<open>a\<close> of \<open>st_heap\<close>, which holds the versions the workflow has
  allocated. Two pointers to one cell see each other's updates.
\<close>

record DeploymentActorState =
  st_SchemaVersion :: go_int
  st_Identity :: DeploymentIdentity
  st_Policy :: Policy
  st_Status :: ActorStatus
  st_CurrentVersion :: "nat option"
  st_LastHealthyVersion :: "nat option"
  st_Versions :: "DeploymentVersion list"
  st_LastSavepoint :: "SavepointRecord option"
  st_Operations :: "OperationRecord list"
  st_ProcessedKeys :: string_map
  st_Pending :: "DeploymentCommand list"
  st_ActiveOperation :: "OperationRecord option"
  st_AutoscalerFrozen :: bool
  st_AutoscalerEnabled :: bool
  st_LastError :: string
  st_ProcessedEventCount :: go_int
  st_ContinueAfter :: go_int
  st_heap :: "DeploymentVersion list"

definition deref :: "DeploymentActorState \<Rightarrow> nat option \<Rightarrow> DeploymentVersion option" where
  "deref st p = map_option (\<lambda>a. st_heap st ! a) p"

text \<open>The answer to a describe query is encoded at once, so its pointers are followed.\<close>

record DeploymentActorView =
  view_Identity :: DeploymentIdentity
  view_Status :: ActorStatus
  view_CurrentVersion :: "DeploymentVersion option"
  view_LastHealthyVersion :: "DeploymentVersion option"
  view_LastSavepoint :: "SavepointRecord option"
  view_ActiveOperation :: "OperationRecord option"
  view_PendingOperations :: nat
  view_RecentOperations :: "OperationRecord list"
  view_AutoscalerEnabled :: bool
  view_AutoscalerFrozen :: bool
  view_LastError :: string

subsection \<open>Clusters (cluster.go)\<close>

datatype ClusterCommandType = ClusterFreeze | ClusterUnfreeze | ClusterOther string

record ClusterCommand =
  cc_Type :: ClusterCommandType
  cc_Requester :: string
  cc_Reason :: string
  cc_At :: go_time

record ClusterActorState =
  cs_Environment :: string
  cs_Namespace :: string
  cs_Frozen :: bool
  cs_Reason :: string
  cs_Requester :: string
  cs_UpdatedAt :: go_time

definition ClusterActorState_WorkflowID :: "ClusterActorState \<Rightarrow> string" where
  "ClusterActorState_WorkflowID s = ''flink-cluster/'' @ cs_Environment s @ ''/'' @ cs_Namespace s"

definition ClusterFrozenError_Error :: "string \<Rightarrow> string \<Rightarrow> string" where
  "ClusterFrozenError_Error requester reason =
     ''cluster is frozen by '' @ requester @ '': '' @ reason"

subsection \<open>Listing (list.go)\<close>

record DeploymentListOptions =
  lo_Environment :: string
  lo_Namespace :: string
  lo_Limit :: go_int
  lo_PageToken :: string

record DeploymentSummary =
  sum_Identity :: DeploymentIdentity
  sum_WorkflowID :: string
  sum_StartedAt :: go_time

record DeploymentList =
  dl_Deployments :: "DeploymentSummary list"
  dl_NextPageToken :: string

record DeploymentCardSummary =
  card_Identity :: DeploymentIdentity
  card_WorkflowID :: string
  card_StartedAt :: go_time
  card_Status :: ActorStatus
  card_Version :: go_int
  card_ImageDigest :: string
  card_Parallelism :: go_int
  card_Healthy :: "bool option"
  card_HealthMessage :: string
  card_Pending :: nat
  card_Error :: string

subsection \<open>Facts about the model\<close>

text \<open>A name without a slash in environment and namespace makes the workflow identifiers of
  different deployments different.\<close>

lemma slash_split:
  fixes a :: string
  assumes "CHR ''/'' \<notin> set a" "CHR ''/'' \<notin> set b"
  shows "a @ CHR ''/'' # x = b @ CHR ''/'' # y \<longleftrightarrow> a = b \<and> x = y"
proof
  assume "a @ CHR ''/'' # x = b @ CHR ''/'' # y"
  then have "cut (CHR ''/'') (a @ CHR ''/'' # x) = cut (CHR ''/'') (b @ CHR ''/'' # y)" by simp
  then show "a = b \<and> x = y" using assms by simp
qed simp

lemma WorkflowID_inj:
  assumes "CHR ''/'' \<notin> set (id_Environment d)" "CHR ''/'' \<notin> set (id_Namespace d)"
    and "CHR ''/'' \<notin> set (id_Environment e)" "CHR ''/'' \<notin> set (id_Namespace e)"
  shows "WorkflowID d = WorkflowID e \<longleftrightarrow>
    id_Environment d = id_Environment e \<and> id_Namespace d = id_Namespace e \<and> id_Name d = id_Name e"
  using slash_split [OF assms(1,3)] slash_split [OF assms(2,4)]
  by (auto simp: WorkflowID_def)

lemma ResourceShape_eq_refl: "\<not> f_nan (rs_TaskManagerCPU r) \<Longrightarrow> ResourceShape_eq r r"
  by (simp add: ResourceShape_eq_def)

lemma Slots_cong: "ResourceShape_eq r q \<Longrightarrow> Slots r = Slots q"
  by (simp add: ResourceShape_eq_def Slots_def)

lemma DefaultPolicy_not_zero [simp]: "\<not> Policy_is_zero (DefaultPolicy e)"
  by (simp add: Policy_is_zero_def DefaultPolicy_def)

lemma deref_None [simp]: "deref st None = None"
  by (simp add: deref_def)

end
