(* ===== verification/Page_Cursor.thy ===== *)
theory Page_Cursor
  imports Json_Parse Domain_Model
begin

text \<open>
  The page token of the deployment list (control/service.go): a cursor into Temporal's own pages,
  written as JSON in unpadded URL base64, and read back from whatever a client sends.
\<close>

text \<open>
  The errors of the control service: a formatted text, the two errors a caller tells apart by type
  or identity, and the panic of a division by zero.
\<close>

datatype service_error =
  Plain string
| ClusterFrozenError string string
| InvalidDeploymentPageToken
| Panicked

type_synonym 'a service_result = "service_error + 'a"

definition error_text :: "service_error \<Rightarrow> string" where
  "error_text e =
     (case e of
        Plain s \<Rightarrow> s
      | ClusterFrozenError requester reason \<Rightarrow> ClusterFrozenError_Error requester reason
      | InvalidDeploymentPageToken \<Rightarrow> ''invalid deployment list page token''
      | Panicked \<Rightarrow> ''runtime error: integer divide by zero'')"

record deploymentListCursor =
  cur_NextPageToken :: string
  cur_Offset :: go_int

definition zero_cursor :: deploymentListCursor where
  "zero_cursor = \<lparr>cur_NextPageToken = [], cur_Offset = 0\<rparr>"

text \<open>Both fields are left out when empty. Marshalling a byte slice and an integer cannot fail.\<close>

definition cursor_json :: "deploymentListCursor \<Rightarrow> json" where
  "cursor_json c =
     JObj (opt_member (cur_NextPageToken c \<noteq> []) ''nextPageToken'' (JStr (std_encode (cur_NextPageToken c))) @
           opt_member (cur_Offset c \<noteq> 0) ''offset'' (json_int (cur_Offset c)))"

definition encodeDeploymentListCursor :: "deploymentListCursor \<Rightarrow> string" where
  "encodeDeploymentListCursor c =
     (if cur_NextPageToken c = [] \<and> cur_Offset c = 0 then []
      else raw_url_encode (json_print (cursor_json c)))"

text \<open>
  Unmarshalling into a struct: names match whatever their case, the last member of a name wins,
  other members are skipped, null leaves a number as it is. A byte slice is base64 text, null, or an
  array of small numbers (a null there leaves the byte that an earlier member of the name put in
  that place).
\<close>

definition byte_element :: "string \<Rightarrow> nat \<times> json \<Rightarrow> char option" where
  "byte_element old x =
     (case x of (i, v) \<Rightarrow>
       (case v of
          JNull \<Rightarrow> Some (if i < length old then old ! i else CHR 0x00)
        | JNum t \<Rightarrow> Option.bind (parse_nat t) (\<lambda>n. if n < 256 then Some (char_of n) else None)
        | _ \<Rightarrow> None))"

definition byte_slice :: "string \<Rightarrow> json \<Rightarrow> string option" where
  "byte_slice old v =
     (case v of
        JNull \<Rightarrow> Some []
      | JStr s \<Rightarrow> std_decode s
      | JArr xs \<Rightarrow> those (map (byte_element old) (enumerate 0 xs))
      | _ \<Rightarrow> None)"

definition int_value :: "go_int \<Rightarrow> json \<Rightarrow> go_int option" where
  "int_value old v = (case v of JNull \<Rightarrow> Some old | JNum t \<Rightarrow> atoi t | _ \<Rightarrow> None)"

definition cursor_member :: "string \<times> json \<Rightarrow> deploymentListCursor \<Rightarrow> deploymentListCursor option" where
  "cursor_member kv c =
     (case kv of (k, v) \<Rightarrow>
       if equal_fold k ''nextPageToken''
       then map_option (\<lambda>b. c\<lparr>cur_NextPageToken := b\<rparr>) (byte_slice (cur_NextPageToken c) v)
       else if equal_fold k ''offset''
       then map_option (\<lambda>i. c\<lparr>cur_Offset := i\<rparr>) (int_value (cur_Offset c) v)
       else Some c)"

definition unmarshal_cursor :: "json \<Rightarrow> deploymentListCursor option" where
  "unmarshal_cursor v =
     (case v of
        JNull \<Rightarrow> Some zero_cursor
      | JObj kvs \<Rightarrow> fold (\<lambda>kv c. Option.bind c (cursor_member kv)) kvs (Some zero_cursor)
      | _ \<Rightarrow> None)"

definition decodeDeploymentListCursor :: "string \<Rightarrow> deploymentListCursor service_result" where
  "decodeDeploymentListCursor value =
     (if value = [] then Inr zero_cursor
      else case raw_url_decode value of
          None \<Rightarrow> Inl InvalidDeploymentPageToken
        | Some data \<Rightarrow>
            (case Option.bind (json_parse data) unmarshal_cursor of
               None \<Rightarrow> Inl InvalidDeploymentPageToken
             | Some cursor \<Rightarrow> Inr cursor))"

subsection \<open>A token is read back as the cursor it was written from\<close>

lemma std_encode_utf8: "utf8 (std_encode s)"
proof (rule utf8_ascii)
  have "(of_char c :: nat) < 128" if "c \<in> set (b64_text b64_std s)" for c
    using b64_text_chars [OF that] b64_char_alnum(9) [of _ b64_std] by force
  then show "list_all (\<lambda>c. (of_char c :: nat) < 128) (std_encode s)"
    by (auto simp: std_encode_def list_all_iff)
qed

lemma ascii_names: "utf8 ''nextPageToken''" "utf8 ''offset''"
  by (rule utf8_ascii; simp)+

lemma cursor_json_ok: "json_ok 10000 (cursor_json c)"
  by (auto simp: cursor_json_def opt_member_def json_int_def std_encode_utf8 itoa_is_number ascii_names)

lemma names_differ: "\<not> equal_fold ''offset'' ''nextPageToken''"
  by (simp add: equal_fold_def ascii_lower_def)

lemma unmarshal_cursor_json: "unmarshal_cursor (cursor_json c) = Some c"
proof -
  obtain t i where c: "c = \<lparr>cur_NextPageToken = t, cur_Offset = i\<rparr>" by (cases c)
  then show ?thesis
    by (auto simp: unmarshal_cursor_def cursor_json_def opt_member_def cursor_member_def byte_slice_def
        int_value_def json_int_def std_round atoi_itoa names_differ zero_cursor_def c)
qed

lemma raw_url_nonempty: "raw_url_encode s = [] \<longleftrightarrow> s = []"
  by (metis raw_url_round option.inject raw_url_encode_def b64_text_def list.map_disc_iff list.simps(8) sextets.simps(1))

lemma cursor_round:
  "decodeDeploymentListCursor (encodeDeploymentListCursor c) = Inr c \<and>
   (encodeDeploymentListCursor c = [] \<longleftrightarrow> c = zero_cursor)"
proof -
  have printed: "json_print (cursor_json c) \<noteq> []" by (rule print_head(1) [OF cursor_json_ok])
  have "cur_NextPageToken c = [] \<and> cur_Offset c = 0 \<longleftrightarrow> c = zero_cursor"
    by (cases c) (simp add: zero_cursor_def)
  moreover have "decodeDeploymentListCursor (raw_url_encode (json_print (cursor_json c))) = Inr c"
    using printed by (simp add: decodeDeploymentListCursor_def raw_url_nonempty raw_url_round
        json_round [OF cursor_json_ok] unmarshal_cursor_json)
  ultimately show ?thesis
    using printed by (auto simp: encodeDeploymentListCursor_def decodeDeploymentListCursor_def raw_url_nonempty)
qed

end
