(* ===== verification/Digest.thy ===== *)
theory Digest
  imports Go_Base
begin

text \<open>
  The hash functions of the Go standard library that the source calls: SHA-256 with its
  hexadecimal text (\<open>crypto/sha256\<close>, \<open>encoding/hex\<close>), behind the manifest hashes of a version,
  and 32-bit FNV-1a (\<open>hash/fnv\<close>), which spreads the actors over the task queues. Both are bytes
  in, words out.
\<close>

unbundle bit_operations_syntax

type_synonym u32 = "32 word"

subsection \<open>Hexadecimal text\<close>

definition hex_digit :: "nat \<Rightarrow> char" where
  "hex_digit d = (if d < 10 then char_of (48 + d) else char_of (87 + d))"

definition hex_byte :: "char \<Rightarrow> string" where
  "hex_byte c = (let n = (of_char c :: nat) in [hex_digit (n div 16), hex_digit (n mod 16)])"

definition hex_encode :: "string \<Rightarrow> string" where
  "hex_encode s = concat (map hex_byte s)"

subsection \<open>SHA-256\<close>

text \<open>The round constants and the initial state of the standard, in decimal.\<close>

definition sha_k :: "u32 list" where
  "sha_k =
     [1116352408, 1899447441, 3049323471, 3921009573, 961987163, 1508970993, 2453635748,
      2870763221, 3624381080, 310598401, 607225278, 1426881987, 1925078388, 2162078206,
      2614888103, 3248222580, 3835390401, 4022224774, 264347078, 604807628, 770255983,
      1249150122, 1555081692, 1996064986, 2554220882, 2821834349, 2952996808, 3210313671,
      3336571891, 3584528711, 113926993, 338241895, 666307205, 773529912, 1294757372,
      1396182291, 1695183700, 1986661051, 2177026350, 2456956037, 2730485921, 2820302411,
      3259730800, 3345764771, 3516065817, 3600352804, 4094571909, 275423344, 430227734,
      506948616, 659060556, 883997877, 958139571, 1322822218, 1537002063, 1747873779,
      1955562222, 2024104815, 2227730452, 2361852424, 2428436474, 2756734187, 3204031479,
      3329325298]"

definition sha_init :: "u32 list" where
  "sha_init =
     [1779033703, 3144134277, 1013904242, 2773480762, 1359893119, 2600822924, 528734635,
      1541459225]"

text \<open>Big-endian bytes of a number, and words from bytes.\<close>

definition be_bytes :: "nat \<Rightarrow> nat \<Rightarrow> string" where
  "be_bytes k n = map (\<lambda>i. char_of (n div 256 ^ i)) (rev [0..<k])"

definition be_word :: "string \<Rightarrow> u32" where
  "be_word bs = foldl (\<lambda>w c. 256 * w + of_nat (of_char c)) 0 bs"

fun chunks :: "nat \<Rightarrow> nat \<Rightarrow> 'a list \<Rightarrow> 'a list list" where
  "chunks 0 n xs = []"
| "chunks (Suc k) n xs = take n xs # chunks k n (drop n xs)"

definition sha_pad :: "string \<Rightarrow> string" where
  "sha_pad m =
     m @ CHR 0x80 # replicate (nat ((55 - int (length m)) mod 64)) (CHR 0x00) @
     be_bytes 8 (8 * length m)"

fun sha_schedule :: "nat \<Rightarrow> u32 list \<Rightarrow> u32 list" where
  "sha_schedule 0 ws = ws"
| "sha_schedule (Suc n) ws =
     (let l = length ws;
          a = ws ! (l - 15); b = ws ! (l - 2);
          s0 = word_rotr 7 a XOR word_rotr 18 a XOR drop_bit 3 a;
          s1 = word_rotr 17 b XOR word_rotr 19 b XOR drop_bit 10 b
      in sha_schedule n (ws @ [ws ! (l - 16) + s0 + ws ! (l - 7) + s1]))"

fun sha_round :: "u32 \<times> u32 \<Rightarrow> u32 list \<Rightarrow> u32 list" where
  "sha_round (k, w) [a, b, c, d, e, f, g, h] =
     (let s1 = word_rotr 6 e XOR word_rotr 11 e XOR word_rotr 25 e;
          ch = (e AND f) XOR (NOT e AND g);
          t1 = h + s1 + ch + k + w;
          s0 = word_rotr 2 a XOR word_rotr 13 a XOR word_rotr 22 a;
          maj = (a AND b) XOR (a AND c) XOR (b AND c)
      in [t1 + s0 + maj, a, b, c, d + t1, e, f, g])"
| "sha_round kw hs = hs"

definition sha_block :: "string \<Rightarrow> u32 list \<Rightarrow> u32 list" where
  "sha_block blk hs =
     (let ws = sha_schedule 48 (map be_word (chunks 16 4 blk))
      in map2 (+) hs (fold sha_round (zip sha_k ws) hs))"

definition sha256 :: "string \<Rightarrow> string" where
  "sha256 m =
     (let p = sha_pad m
      in concat (map (\<lambda>w. be_bytes 4 (unat w))
           (fold sha_block (chunks (length p div 64) 64 p) sha_init)))"

subsection \<open>FNV-1a\<close>

definition fnv1a :: "string \<Rightarrow> u32" where
  "fnv1a s = foldl (\<lambda>h c. (h XOR of_nat (of_char c)) * 16777619) 2166136261 s"

subsection \<open>Shape of the digests\<close>

lemma length_hex_encode [simp]: "length (hex_encode s) = 2 * length s"
  by (induction s) (simp_all add: hex_encode_def hex_byte_def Let_def)

lemma length_sha_round [simp]: "length (sha_round kw hs) = length hs"
  by (induction kw hs rule: sha_round.induct) (simp_all add: Let_def)

lemma length_sha_rounds [simp]: "length (fold sha_round kws hs) = length hs"
  by (induction kws arbitrary: hs) simp_all

lemma length_sha_block [simp]: "length (sha_block blk hs) = length hs"
  by (simp add: sha_block_def Let_def)

lemma length_sha_blocks [simp]: "length (fold sha_block bs hs) = length hs"
  by (induction bs arbitrary: hs) simp_all

lemma length_be_bytes [simp]: "length (be_bytes k n) = k"
  by (simp add: be_bytes_def)

lemma length_concat_uniform: "list_all (\<lambda>x. length (f x) = k) xs \<Longrightarrow> length (concat (map f xs)) = k * length xs"
  by (induction xs) simp_all

lemma length_sha256 [simp]: "length (sha256 m) = 32"
proof -
  let ?hs = "\<lambda>p. fold sha_block (chunks (length p div 64) 64 p) sha_init"
  have "length (concat (map (\<lambda>w. be_bytes 4 (unat w)) (?hs p))) = 4 * length (?hs p)" for p
    by (rule length_concat_uniform) (simp add: list_all_iff)
  then show ?thesis by (simp add: sha256_def Let_def sha_init_def)
qed

lemma hex_digit_inj: "a < 16 \<Longrightarrow> b < 16 \<Longrightarrow> hex_digit a = hex_digit b \<longleftrightarrow> a = b"
  by (auto simp: hex_digit_def split: if_splits dest!: arg_cong [where f = "of_char :: char \<Rightarrow> nat"])

lemma hex_byte_inj: "hex_byte c = hex_byte d \<longleftrightarrow> c = d"
proof
  assume h: "hex_byte c = hex_byte d"
  have lt: "(of_char x :: nat) < 256" for x :: char
    by (rule nat_of_char_less_256)
  from h have "(of_char c :: nat) div 16 = of_char d div 16" "(of_char c :: nat) mod 16 = of_char d mod 16"
    using lt [of c] lt [of d] by (auto simp: hex_byte_def Let_def hex_digit_inj)
  then have "(of_char c :: nat) = of_char d"
    by (metis div_mult_mod_eq)
  then show "c = d" by simp
qed simp

lemma hex_encode_inj: "hex_encode s = hex_encode t \<longleftrightarrow> s = t"
proof (induction s arbitrary: t)
  case Nil
  then show ?case by (cases t) (simp_all add: hex_encode_def hex_byte_def Let_def)
next
  case (Cons c s)
  show ?case
  proof (cases t)
    case Nil
    then show ?thesis by (simp add: hex_encode_def hex_byte_def Let_def)
  next
    case (Cons d u)
    have split: "hex_byte c @ hex_encode s = hex_byte d @ hex_encode u \<longleftrightarrow>
        hex_byte c = hex_byte d \<and> hex_encode s = hex_encode u"
      by (rule append_eq_append_conv) (simp add: hex_byte_def Let_def)
    have "hex_encode (x # xs) = hex_byte x @ hex_encode xs" for x xs
      by (simp add: hex_encode_def)
    then show ?thesis using Cons.IH [of u] split by (simp add: Cons hex_byte_inj)
  qed
qed

end
