(* ===== verification/Sharding.thy ===== *)
theory Sharding
  imports Digest
begin

text \<open>
  Task-queue sharding (sharding.go): the queues a worker polls and the queue an actor is started on,
  chosen by the 32-bit FNV-1a hash of its workflow identifier.
\<close>

definition shardName :: "string \<Rightarrow> go_int \<Rightarrow> string" where
  "shardName base shard = base @ ''-'' @ itoa shard"

definition ActorTaskQueues :: "string \<Rightarrow> go_int \<Rightarrow> string list" where
  "ActorTaskQueues base shards =
     (if go_le shards 1 then [base]
      else map (\<lambda>i. shardName base (of_nat i)) [0..<nat (sint shards)])"

text \<open>The modulus is the count cut to 32 bits; where that is zero the division panics, \<open>None\<close> here.\<close>

definition ShardTaskQueue :: "string \<Rightarrow> go_int \<Rightarrow> string \<Rightarrow> string option" where
  "ShardTaskQueue base shards workflowID =
     (if go_le shards 1 then Some base
      else let modulus = (ucast shards :: 32 word)
           in if modulus = 0 then None
              else Some (shardName base (ucast (fnv1a workflowID mod modulus))))"

lemma shardName_inj: "shardName base i = shardName base j \<longleftrightarrow> i = j"
proof
  assume "shardName base i = shardName base j"
  then have "itoa i = itoa j" by (simp add: shardName_def)
  then have "atoi (itoa i) = atoi (itoa j)" by simp
  then show "i = j" by (simp add: atoi_itoa)
qed simp

lemma unat_small: "0 \<le> sint (n :: go_int) \<Longrightarrow> int (unat n) = sint n"
  using sint_range64 [of n] by (simp add: uint_sint take_bit_int_eq_self)

lemma shard_polled:
  assumes "sint shards < 2 ^ 32"
  shows "(\<exists>q. ShardTaskQueue base shards workflowID = Some q \<and> q \<in> set (ActorTaskQueues base shards)) \<and>
    distinct (ActorTaskQueues base shards)"
proof (cases "go_le shards 1")
  case True
  then show ?thesis by (simp add: ShardTaskQueue_def ActorTaskQueues_def)
next
  case False
  then have n: "int (unat shards) = sint shards" by (intro unat_small) simp
  have "int (unat shards) < int (2 ^ 32)" unfolding n using assms by simp
  then have lt: "unat shards < 2 ^ 32" by (simp only: of_nat_less_iff)
  let ?m = "ucast shards :: 32 word"
  have m: "unat ?m = unat shards" using lt by (simp add: unsigned_ucast_eq take_bit_nat_eq_self)
  have "1 < int (unat shards)" unfolding n using False by simp
  then have "unat ?m \<noteq> 0" unfolding m by linarith
  then have pos: "?m \<noteq> 0" by (metis unat_0)
  let ?i = "unat (fnv1a workflowID mod ?m)"
  have nat: "nat (sint shards) = unat shards" unfolding n [symmetric] by simp
  have i: "?i < nat (sint shards)"
    unfolding nat m [symmetric] using \<open>unat ?m \<noteq> 0\<close> by (simp only: unat_mod mod_less_divisor neq0_conv)
  have name: "(ucast (fnv1a workflowID mod ?m) :: go_int) = of_nat ?i"
    by simp
  have "i = j" if "shardName base (of_nat i) = shardName base (of_nat j)"
      "i < unat shards" "j < unat shards" for i j
    using that lt by (simp add: shardName_inj word_of_nat_eq_iff take_bit_nat_eq_self)
  then have "distinct (map (\<lambda>i. shardName base (of_nat i)) [0..<nat (sint shards)])"
    unfolding nat by (simp add: distinct_map inj_on_def)
  moreover have "shardName base (of_nat ?i) \<in> set (map (\<lambda>i. shardName base (of_nat i)) [0..<nat (sint shards)])"
    unfolding set_map by (rule imageI) (use i in simp)
  moreover have "ShardTaskQueue base shards workflowID = Some (shardName base (of_nat ?i))"
    unfolding name [symmetric] using False pos by (simp add: ShardTaskQueue_def Let_def)
  moreover have "ActorTaskQueues base shards = map (\<lambda>i. shardName base (of_nat i)) [0..<nat (sint shards)]"
    using False by (simp add: ActorTaskQueues_def)
  ultimately show ?thesis by metis
qed

text \<open>A positive multiple of two to the 32 makes the division panic.\<close>

lemma shard_panics: "ShardTaskQueue base 0x100000000 workflowID = None"
  by (simp add: ShardTaskQueue_def)

end
