(* ===== verification/Change.thy ===== *)
theory Change
  imports Domain_Model Digest Json_Text
begin

text \<open>
  The package's decision functions (domain/change.go): the classification of a change, the health
  gate, and the construction of a version with the hashes of its manifest, arguments and
  configuration.
\<close>

datatype ChangeRisk = RiskNone | RiskSafe | RiskStateful | RiskRejected

text \<open>The levels in the order in which they restrict a rollout.\<close>

fun risk_level :: "ChangeRisk \<Rightarrow> nat" where
  "risk_level RiskNone = 0"
| "risk_level RiskSafe = 1"
| "risk_level RiskStateful = 2"
| "risk_level RiskRejected = 3"

lemma risk_level_inj: "risk_level a = risk_level b \<longleftrightarrow> a = b"
  by (cases a; cases b) simp_all

instantiation ChangeRisk :: linorder
begin

definition less_eq_ChangeRisk :: "ChangeRisk \<Rightarrow> ChangeRisk \<Rightarrow> bool" where
  "less_eq_ChangeRisk a b \<longleftrightarrow> risk_level a \<le> risk_level b"

definition less_ChangeRisk :: "ChangeRisk \<Rightarrow> ChangeRisk \<Rightarrow> bool" where
  "less_ChangeRisk a b \<longleftrightarrow> risk_level a < risk_level b"

instance
  by standard (auto simp: less_eq_ChangeRisk_def less_ChangeRisk_def risk_level_inj)

end

record ChangeClassification =
  cls_Risk :: ChangeRisk
  cls_RequiresSavepoint :: bool
  cls_RequiresApproval :: bool
  cls_RequiresCapacityLease :: bool
  cls_Reason :: string

subsection \<open>Classification\<close>

definition ClassifyChange ::
  "DeploymentVersion option \<Rightarrow> DeploymentSpec \<Rightarrow> Policy \<Rightarrow> ChangeClassification" where
  "ClassifyChange current target policy =
     (case current of
        None \<Rightarrow>
          \<lparr>cls_Risk = RiskSafe, cls_RequiresSavepoint = False,
           cls_RequiresApproval = pol_RequireProdApproval policy,
           cls_RequiresCapacityLease = go_lt 0 (Slots (spec_Resources target)),
           cls_Reason = ''initial deployment''\<rparr>
      | Some cur \<Rightarrow>
          let old = ver_Spec cur in
          if go_lt (spec_MaxParallelism target) (spec_MaxParallelism old) \<and>
             go_lt 0 (ver_VersionID cur) \<and> \<not> sc_FreshStartApproved (spec_State target)
          then
            \<lparr>cls_Risk = RiskRejected, cls_RequiresSavepoint = False, cls_RequiresApproval = True,
             cls_RequiresCapacityLease = False,
             cls_Reason = ''max parallelism cannot decrease after state exists without an approved fresh start''\<rparr>
          else if \<not> sc_JobGraphCompatible (spec_State target) \<or>
                  \<not> sc_OperatorUIDsStable (spec_State target) \<or>
                  sc_AllowNonRestored (spec_State target)
          then
            \<lparr>cls_Risk = RiskStateful, cls_RequiresSavepoint = True, cls_RequiresApproval = True,
             cls_RequiresCapacityLease =
               (\<not> ResourceShape_eq (spec_Resources old) (spec_Resources target)),
             cls_Reason = ''state compatibility declaration requires guarded rollout''\<rparr>
          else if \<not> deep_equal (spec_JobArgs old) (spec_JobArgs target) \<or>
                  spec_MaxParallelism old \<noteq> spec_MaxParallelism target
          then
            \<lparr>cls_Risk = RiskStateful,
             cls_RequiresSavepoint = pol_RequireRiskySavepoint policy,
             cls_RequiresApproval = pol_RequireProdApproval policy,
             cls_RequiresCapacityLease =
               (\<not> ResourceShape_eq (spec_Resources old) (spec_Resources target)),
             cls_Reason = ''job arguments or max parallelism changed''\<rparr>
          else if spec_Parallelism old \<noteq> spec_Parallelism target \<or>
                  \<not> ResourceShape_eq (spec_Resources old) (spec_Resources target)
          then
            \<lparr>cls_Risk = RiskSafe, cls_RequiresSavepoint = False,
             cls_RequiresApproval = pol_RequireProdApproval policy,
             cls_RequiresCapacityLease = True,
             cls_Reason = ''parallelism or resource shape changed''\<rparr>
          else if spec_ImageDigest old \<noteq> spec_ImageDigest target \<or>
                  \<not> deep_equal (spec_FlinkConfig old) (spec_FlinkConfig target)
          then
            \<lparr>cls_Risk = RiskSafe, cls_RequiresSavepoint = False,
             cls_RequiresApproval = pol_RequireProdApproval policy,
             cls_RequiresCapacityLease = False,
             cls_Reason = ''image or Flink configuration changed''\<rparr>
          else
            \<lparr>cls_Risk = RiskNone, cls_RequiresSavepoint = False, cls_RequiresApproval = False,
             cls_RequiresCapacityLease = False, cls_Reason = ''no material change''\<rparr>)"

subsection \<open>The health gate\<close>

definition EvaluateHealth :: "HealthSummary \<Rightarrow> Policy \<Rightarrow> unit result" where
  "EvaluateHealth summary policy =
     (if \<not> hs_Running summary then Inl ''deployment is not running''
      else if pol_RequireFirstCheckpoint policy \<and> \<not> hs_CheckpointCompleted summary
        then Inl ''no completed checkpoint observed''
      else if pol_RequireHealthySink policy \<and> \<not> hs_SinkHealthy summary
        then Inl ''sink health gate failed''
      else if go_lt (pol_MaxRestartCount policy) (hs_RestartCount summary)
        then Inl (''restart count '' @ itoa (hs_RestartCount summary) @
                  '' exceeds limit '' @ itoa (pol_MaxRestartCount policy))
      else if f_lt (pol_MaxBackpressureRatio policy) (hs_BackpressureRatio summary)
        then Inl (''backpressure '' @ f_fixed2 (hs_BackpressureRatio summary) @
                  '' exceeds limit '' @ f_fixed2 (pol_MaxBackpressureRatio policy))
      else if go_lt (pol_MaxKafkaLag policy) (hs_KafkaLag summary)
        then Inl (''Kafka lag '' @ itoa (hs_KafkaLag summary) @
                  '' exceeds limit '' @ itoa (pol_MaxKafkaLag policy))
      else Inr ())"

subsection \<open>Versions and their hashes\<close>

text \<open>The JSON of a specification; \<open>None\<close> where \<open>json.Marshal\<close> fails, on a float it cannot write.\<close>

definition json_resources :: "ResourceShape \<Rightarrow> json option" where
  "json_resources r =
     map_option (\<lambda>cpu. JObj
       [(''taskManagerCpu'', JNum cpu),
        (''taskManagerMemoryMiB'', json_int (rs_TaskManagerMemory r)),
        (''taskManagerCount'', json_int (rs_TaskManagerCount r)),
        (''slotsPerManager'', json_int (rs_SlotsPerManager r))])
       (json_float (rs_TaskManagerCPU r))"

definition json_state :: "StateCompatibility \<Rightarrow> json" where
  "json_state s =
     JObj [(''jobGraphCompatible'', JBool (sc_JobGraphCompatible s)),
           (''operatorUidsStable'', JBool (sc_OperatorUIDsStable s)),
           (''allowNonRestored'', JBool (sc_AllowNonRestored s)),
           (''freshStartApproved'', JBool (sc_FreshStartApproved s))]"

definition json_spec :: "DeploymentSpec \<Rightarrow> json option" where
  "json_spec s =
     map_option (\<lambda>res. JObj (
       [(''imageDigest'', JStr (spec_ImageDigest s))] @
       opt_member (spec_GitRef s \<noteq> []) ''gitRef'' (JStr (spec_GitRef s)) @
       [(''flinkVersion'', JStr (spec_FlinkVersion s))] @
       opt_member (entries (spec_JobArgs s) \<noteq> []) ''jobArgs'' (json_string_map (spec_JobArgs s)) @
       opt_member (entries (spec_FlinkConfig s) \<noteq> []) ''flinkConfig''
         (json_string_map (spec_FlinkConfig s)) @
       [(''parallelism'', json_int (spec_Parallelism s)),
        (''maxParallelism'', json_int (spec_MaxParallelism s)),
        (''resources'', res),
        (''stateCompatibility'', json_state (spec_State s)),
        (''autoscalerEnabled'', JBool (spec_AutoscalerEnabled s))]))
       (json_resources (spec_Resources s))"

text \<open>The error of \<open>json.Marshal\<close> is dropped: then the empty byte string is hashed.\<close>

definition hash :: "json option \<Rightarrow> string" where
  "hash value =
     (let data = (case value of None \<Rightarrow> [] | Some j \<Rightarrow> json_print j)
      in hex_encode (sha256 data))"

definition ordered_pairs :: "string_map \<Rightarrow> json" where
  "ordered_pairs values =
     JArr (map (\<lambda>key. JArr [JStr key, JStr (map_str values key)]) (sorted_keys values))"

definition hashMap :: "string_map \<Rightarrow> string" where
  "hashMap values = hash (Some (ordered_pairs values))"

definition BuildVersion :: "go_int \<Rightarrow> DeploymentSpec \<Rightarrow> DeploymentVersion" where
  "BuildVersion i spec =
     \<lparr>ver_VersionID = i, ver_Spec = spec,
      ver_ManifestHash = hash (json_spec spec),
      ver_JobArgsHash = hashMap (spec_JobArgs spec),
      ver_FlinkConfigHash = hashMap (spec_FlinkConfig spec),
      ver_SavepointURI = [], ver_OperatorObservedGeneration = 0,
      ver_HealthSummary = zero_HealthSummary, ver_CreatedAt = 0\<rparr>"

subsection \<open>What the classification guarantees\<close>

lemma ClassifyChange_None [simp]:
  "ClassifyChange None target policy =
     \<lparr>cls_Risk = RiskSafe, cls_RequiresSavepoint = False,
      cls_RequiresApproval = pol_RequireProdApproval policy,
      cls_RequiresCapacityLease = go_lt 0 (Slots (spec_Resources target)),
      cls_Reason = ''initial deployment''\<rparr>"
  by (simp add: ClassifyChange_def)

text \<open>The condition of the first branch: shrinking the key space of existing state.\<close>

definition shrinks_state :: "DeploymentVersion \<Rightarrow> DeploymentSpec \<Rightarrow> bool" where
  "shrinks_state cur target \<longleftrightarrow>
     go_lt (spec_MaxParallelism target) (spec_MaxParallelism (ver_Spec cur)) \<and>
     go_lt 0 (ver_VersionID cur) \<and> \<not> sc_FreshStartApproved (spec_State target)"

definition declares_incompatible :: "DeploymentSpec \<Rightarrow> bool" where
  "declares_incompatible target \<longleftrightarrow>
     \<not> sc_JobGraphCompatible (spec_State target) \<or> \<not> sc_OperatorUIDsStable (spec_State target) \<or>
     sc_AllowNonRestored (spec_State target)"

text \<open>A change is classified as rejected exactly when it lowers the maximum parallelism of a
  deployment that has state (a version number above zero) without an approved fresh start.\<close>

lemma classify_rejected_iff:
  "cls_Risk (ClassifyChange current target policy) = RiskRejected \<longleftrightarrow>
   (\<exists>cur. current = Some cur \<and> shrinks_state cur target)"
  by (cases current) (auto simp: ClassifyChange_def shrinks_state_def Let_def)

lemma classify_incompatible:
  "\<not> shrinks_state cur target \<Longrightarrow> declares_incompatible target \<Longrightarrow>
   cls_Risk (ClassifyChange (Some cur) target policy) = RiskStateful \<and>
   cls_RequiresSavepoint (ClassifyChange (Some cur) target policy) \<and>
   cls_RequiresApproval (ClassifyChange (Some cur) target policy)"
  by (auto simp: ClassifyChange_def shrinks_state_def declares_incompatible_def Let_def)

lemma classify_stateful_savepoint:
  "pol_RequireRiskySavepoint policy \<Longrightarrow>
   cls_Risk (ClassifyChange current target policy) = RiskStateful \<Longrightarrow>
   cls_RequiresSavepoint (ClassifyChange current target policy)"
  by (cases current) (auto simp: ClassifyChange_def Let_def split: if_splits)

lemma classify_savepoint_stateful:
  "cls_RequiresSavepoint (ClassifyChange current target policy) \<Longrightarrow>
   cls_Risk (ClassifyChange current target policy) = RiskStateful \<and> current \<noteq> None"
  by (cases current) (auto simp: ClassifyChange_def Let_def split: if_splits)

lemma classify_prod_approval:
  "pol_RequireProdApproval policy \<Longrightarrow>
   cls_RequiresApproval (ClassifyChange current target policy) \<longleftrightarrow>
   cls_Risk (ClassifyChange current target policy) \<noteq> RiskNone"
  by (cases current) (auto simp: ClassifyChange_def Let_def)

text \<open>
  \<open>claims_less s' s\<close>: the declaration \<open>s'\<close> promises nothing about the state that \<open>s\<close> does not
  promise.
\<close>

definition claims_less :: "StateCompatibility \<Rightarrow> StateCompatibility \<Rightarrow> bool" where
  "claims_less s' s \<longleftrightarrow>
     (sc_JobGraphCompatible s' \<longrightarrow> sc_JobGraphCompatible s) \<and>
     (sc_OperatorUIDsStable s' \<longrightarrow> sc_OperatorUIDsStable s) \<and>
     (sc_AllowNonRestored s \<longrightarrow> sc_AllowNonRestored s') \<and>
     (sc_FreshStartApproved s' \<longrightarrow> sc_FreshStartApproved s)"

text \<open>The classification is conservative: a specification whose compatibility declaration
  claims less is never classified at a lower risk, never loses the approval requirement, and keeps
  the savepoint requirement unless it is rejected outright.\<close>

lemma classify_conservative:
  assumes "claims_less s' (spec_State target)"
  shows "cls_Risk (ClassifyChange current target policy)
           \<le> cls_Risk (ClassifyChange current (target\<lparr>spec_State := s'\<rparr>) policy) \<and>
         cls_RequiresApproval (ClassifyChange current target policy)
           \<le> cls_RequiresApproval (ClassifyChange current (target\<lparr>spec_State := s'\<rparr>) policy) \<and>
         (cls_RequiresSavepoint (ClassifyChange current target policy) \<longrightarrow>
            cls_RequiresSavepoint (ClassifyChange current (target\<lparr>spec_State := s'\<rparr>) policy) \<or>
            cls_Risk (ClassifyChange current (target\<lparr>spec_State := s'\<rparr>) policy) = RiskRejected)"
  using assms
  by (cases current)
     (auto simp: ClassifyChange_def claims_less_def less_eq_ChangeRisk_def Let_def)

text \<open>The Flink version, the git reference and the autoscaler flag of a specification have no
  influence on its classification, so a change of only these is classified as no material change
  and needs no approval.\<close>

lemma classify_ignores:
  "ClassifyChange current
     (target\<lparr>spec_FlinkVersion := v, spec_GitRef := g, spec_AutoscalerEnabled := a\<rparr>) policy
   = ClassifyChange current target policy"
  by (cases current) (simp_all add: ClassifyChange_def Let_def)

text \<open>A specification that Go's comparisons find equal to itself: no NaN, well-formed maps.\<close>

definition spec_wf :: "DeploymentSpec \<Rightarrow> bool" where
  "spec_wf s \<longleftrightarrow> map_wf (spec_JobArgs s) \<and> map_wf (spec_FlinkConfig s) \<and>
     \<not> f_nan (rs_TaskManagerCPU (spec_Resources s))"

lemma classify_same_spec:
  "spec_wf (ver_Spec cur) \<Longrightarrow> \<not> declares_incompatible (ver_Spec cur) \<Longrightarrow>
   cls_Risk (ClassifyChange (Some cur) (ver_Spec cur) policy) = RiskNone \<and>
   \<not> cls_RequiresApproval (ClassifyChange (Some cur) (ver_Spec cur) policy)"
  by (simp add: ClassifyChange_def spec_wf_def declares_incompatible_def deep_equal_refl
      ResourceShape_eq_refl Let_def)

subsection \<open>What the health gate guarantees\<close>

text \<open>The health gate passes exactly when the job runs, has completed a checkpoint and has a
  healthy sink where the policy asks for them, and none of the three measurements exceeds its
  limit.\<close>

lemma EvaluateHealth_ok_iff:
  "EvaluateHealth summary policy = Inr () \<longleftrightarrow>
     hs_Running summary \<and>
     \<not> (pol_RequireFirstCheckpoint policy \<and> \<not> hs_CheckpointCompleted summary) \<and>
     \<not> (pol_RequireHealthySink policy \<and> \<not> hs_SinkHealthy summary) \<and>
     \<not> go_lt (pol_MaxRestartCount policy) (hs_RestartCount summary) \<and>
     \<not> f_lt (pol_MaxBackpressureRatio policy) (hs_BackpressureRatio summary) \<and>
     \<not> go_lt (pol_MaxKafkaLag policy) (hs_KafkaLag summary)"
  by (auto simp: EvaluateHealth_def)

text \<open>The error names the first gate that fails, in the order of the code.\<close>

lemma EvaluateHealth_not_running:
  "\<not> hs_Running summary \<Longrightarrow> EvaluateHealth summary policy = Inl ''deployment is not running''"
  by (simp add: EvaluateHealth_def)

lemma EvaluateHealth_no_checkpoint:
  "hs_Running summary \<Longrightarrow> pol_RequireFirstCheckpoint policy \<Longrightarrow> \<not> hs_CheckpointCompleted summary \<Longrightarrow>
   EvaluateHealth summary policy = Inl ''no completed checkpoint observed''"
  by (simp add: EvaluateHealth_def)

subsection \<open>What the hashes depend on\<close>

lemma json_string_map_cong:
  assumes "mset (entries m) = mset (entries n)" "map_wf m" "m = None \<longleftrightarrow> n = None"
  shows "json_string_map m = json_string_map n"
  using sorted_keys_cong [OF assms(1)] map_find_cong [OF assms(1,2)] assms(3)
  by (auto simp: json_string_map_def map_str_def split: option.splits)

lemma ordered_pairs_cong:
  "mset (entries m) = mset (entries n) \<Longrightarrow> map_wf m \<Longrightarrow> ordered_pairs m = ordered_pairs n"
  using sorted_keys_cong [of m n] map_find_cong [of m n]
  by (simp add: ordered_pairs_def map_str_def)

text \<open>The hash of a map does not depend on the order in which Go happens to iterate over it.\<close>

lemma hashMap_order:
  assumes "mset (entries m) = mset (entries n)" "map_wf m"
  shows "hashMap m = hashMap n"
  using ordered_pairs_cong [OF assms] by (simp add: hashMap_def)

text \<open>The text that is hashed: pairs of quoted strings.\<close>

definition pair_text :: "string \<times> string \<Rightarrow> string" where
  "pair_text p = ''['' @ quote (fst p) @ '','' @ quote (snd p) @ '']''"

definition pair_list :: "string_map \<Rightarrow> (string \<times> string) list" where
  "pair_list m = map (\<lambda>k. (k, map_str m k)) (sorted_keys m)"

definition pair_utf8 :: "string \<times> string \<Rightarrow> bool" where
  "pair_utf8 p \<longleftrightarrow> utf8 (fst p) \<and> utf8 (snd p)"

lemma print_ordered_pairs:
  "json_print (ordered_pairs m) = ''['' @ commas (map pair_text (pair_list m)) @ '']''"
  by (simp add: ordered_pairs_def pair_list_def pair_text_def comp_def)

lemma commas_Cons: "commas (x # xs) = x @ (if xs = [] then [] else '','' @ commas xs)"
  by (cases xs) simp_all

lemma pair_text_append_inj:
  "pair_utf8 p \<Longrightarrow> pair_utf8 q \<Longrightarrow> pair_text p @ x = pair_text q @ y \<longleftrightarrow> p = q \<and> x = y"
  by (cases p; cases q) (auto simp: pair_text_def pair_utf8_def quote_append_inj)

lemma pair_texts_inj:
  "list_all pair_utf8 ps \<Longrightarrow> list_all pair_utf8 qs \<Longrightarrow>
   commas (map pair_text ps) @ '']'' = commas (map pair_text qs) @ '']'' \<Longrightarrow> ps = qs"
proof (induction ps arbitrary: qs)
  case Nil
  then show ?case by (cases qs) (auto simp: commas_Cons pair_text_def)
next
  case (Cons p ps)
  from Cons.prems(3) have "qs \<noteq> []"
    by (cases qs) (auto simp: commas_Cons pair_text_def)
  then obtain q qs' where qs: "qs = q # qs'" by (cases qs) auto
  let ?tail = "\<lambda>rs. (if rs = [] then [] else '','' @ commas (map pair_text rs)) @ '']''"
  have "pair_text p @ ?tail ps = pair_text q @ ?tail qs'"
    using Cons.prems(3) by (simp add: qs commas_Cons)
  then have pq: "p = q" and tails: "?tail ps = ?tail qs'"
    using Cons.prems(1,2) qs pair_text_append_inj by auto
  have "commas (map pair_text ps) @ '']'' = commas (map pair_text qs') @ '']''"
    using tails by (auto split: if_splits)
  then have "ps = qs'" using Cons.IH Cons.prems(1,2) qs by simp
  with pq qs show ?case by simp
qed

lemma map_find_pair_list: "map_find m = map_of (pair_list m)"
proof
  fix k
  have dom: "k \<in> set (sorted_keys m) \<longleftrightarrow> map_find m k \<noteq> None"
    using map_has_iff [of m k] by (simp add: map_has_def)
  have "map_of (map (\<lambda>k. (k, map_str m k)) ks) k =
      (if k \<in> set ks then Some (map_str m k) else None)" for ks
    by (induction ks) auto
  then show "map_find m k = map_of (pair_list m) k"
    using dom by (cases "map_find m k") (simp_all add: pair_list_def map_str_def)
qed

text \<open>C39. The text whose hash is the job-arguments (or configuration) hash determines the map:
  for maps of UTF-8 strings, equal texts come from equal maps, so two versions with the same hash
  differ in their arguments only where SHA-256 collides.\<close>

theorem ordered_pairs_injective:
  assumes "list_all pair_utf8 (pair_list m)" "list_all pair_utf8 (pair_list n)"
    and "json_print (ordered_pairs m) = json_print (ordered_pairs n)"
  shows "map_find m = map_find n"
proof -
  from assms(3) have "commas (map pair_text (pair_list m)) @ '']'' = commas (map pair_text (pair_list n)) @ '']''"
    by (simp add: print_ordered_pairs)
  then have "pair_list m = pair_list n"
    using assms(1,2) by (rule pair_texts_inj [rotated 2])
  then show ?thesis by (simp add: map_find_pair_list)
qed

end
