(* ===== verification/Activity_Types.thy ===== *)
theory Activity_Types
  imports Change
begin

text \<open>
  The package \<open>activities\<close>: the inputs and results of the nine activities (types.go), and
  \<open>ValidateSpec\<close> (validate.go), the admission checks every backend is told to run. The interface of
  a backend, as far as the rollout relies on it, is the locale at the end.
\<close>

record ValidateDeploymentInput =
  vi_Identity :: DeploymentIdentity
  vi_CurrentVersion :: "DeploymentVersion option"
  vi_Target :: DeploymentSpec
  vi_Classification :: ChangeClassification
  vi_Approved :: bool
  vi_Incident :: bool
  vi_Policy :: Policy

record AcquireLeaseInput =
  ai_Identity :: DeploymentIdentity
  ai_Resources :: ResourceShape
  ai_OwnerWorkflow :: string
  ai_TTL :: go_duration

record ApplyDeploymentInput =
  ap_Identity :: DeploymentIdentity
  ap_Version :: DeploymentVersion
  ap_SavepointURI :: string
  ap_Previous :: "DeploymentVersion option"
  ap_Rollback :: bool
  ap_Incident :: bool
  ap_GitOpsOnly :: bool

record ApplyDeploymentResult =
  ar_ObservedGeneration :: go_int
  ar_ApplyReference :: string

record ObserveDeploymentInput =
  oi_Identity :: DeploymentIdentity
  oi_Version :: DeploymentVersion

record TriggerSavepointInput =
  ti_Identity :: DeploymentIdentity
  ti_Version :: DeploymentVersion

record SavepointTrigger =
  tr_TriggerID :: string
  tr_FlinkJobID :: string

record ObserveSavepointInput =
  os_Identity :: DeploymentIdentity
  os_Version :: DeploymentVersion
  os_Trigger :: SavepointTrigger

record SetJobStateInput =
  sj_Identity :: DeploymentIdentity
  sj_State :: string

record AuditEvent =
  ae_Identity :: DeploymentIdentity
  ae_OperationID :: string
  ae_Type :: string
  ae_Message :: string
  ae_At :: go_time

subsection \<open>Admission\<close>

definition ValidateSpec :: "ValidateDeploymentInput \<Rightarrow> unit result" where
  "ValidateSpec input =
     (let target = vi_Target input in
      if spec_ImageDigest target = [] then Inl ''imageDigest is required''
      else if \<not> contains_str (spec_ImageDigest target) ''@sha256:''
        then Inl ''imageDigest must be digest-pinned''
      else if go_le (spec_Parallelism target) 0 \<or> go_le (spec_MaxParallelism target) 0
        then Inl ''parallelism and maxParallelism must be positive''
      else if go_lt (spec_MaxParallelism target) (spec_Parallelism target)
        then Inl ''parallelism cannot exceed maxParallelism''
      else if cls_Risk (vi_Classification input) = RiskRejected
        then Inl (cls_Reason (vi_Classification input))
      else if cls_RequiresApproval (vi_Classification input) \<and> \<not> vi_Approved input
        then Inl ''operation requires approval''
      else if pol_GitOpsOnly (vi_Policy input) \<and> vi_Incident input \<and>
              \<not> pol_AllowIncidentDirectPatch (vi_Policy input)
        then Inl ''direct incident patching is disabled''
      else Inr ())"

text \<open>What admission promises about an input it lets through.\<close>

definition admitted :: "ValidateDeploymentInput \<Rightarrow> bool" where
  "admitted input \<longleftrightarrow>
     (\<exists>a b. spec_ImageDigest (vi_Target input) = a @ ''@sha256:'' @ b) \<and>
     go_lt 0 (spec_Parallelism (vi_Target input)) \<and>
     go_le (spec_Parallelism (vi_Target input)) (spec_MaxParallelism (vi_Target input)) \<and>
     cls_Risk (vi_Classification input) \<noteq> RiskRejected \<and>
     (cls_RequiresApproval (vi_Classification input) \<longrightarrow> vi_Approved input) \<and>
     \<not> (pol_GitOpsOnly (vi_Policy input) \<and> vi_Incident input \<and>
        \<not> pol_AllowIncidentDirectPatch (vi_Policy input))"

text \<open>Admission succeeds exactly on these inputs.\<close>

lemma ValidateSpec_ok: "ValidateSpec input = Inr () \<longleftrightarrow> admitted input"
proof -
  have "contains_str d ''@sha256:'' \<longleftrightarrow> (\<exists>a b. d = a @ ''@sha256:'' @ b)" for d
    by (rule contains_str_iff)
  moreover have "contains_str d ''@sha256:'' \<Longrightarrow> d \<noteq> []" for d
    by (auto dest: contains_strD)
  ultimately show ?thesis
    unfolding ValidateSpec_def admitted_def Let_def by (auto simp: not_less not_le)
qed

subsection \<open>The interface of an admitting backend\<close>

text \<open>
  The comment on \<open>ValidateSpec\<close> obliges every backend to call it from \<open>ValidateDeployment\<close>. This
  is the law a rollout relies on: whatever else the backend checks, in whatever state, it lets
  through only what \<open>ValidateSpec\<close> lets through.
\<close>

locale admitting_backend =
  fixes validate :: "ValidateDeploymentInput \<Rightarrow> 'w \<Rightarrow> unit result \<times> 'w"
  assumes validate_sound: "fst (validate input w) = Inr () \<Longrightarrow> ValidateSpec input = Inr ()"
begin

lemma validate_admitted: "validate input w = (Inr u, w') \<Longrightarrow> admitted input"
  using validate_sound [of input w] ValidateSpec_ok [of input] by simp

lemma rejected_never_validated:
  "cls_Risk (vi_Classification input) = RiskRejected \<Longrightarrow> \<exists>e. fst (validate input w) = Inl e"
  using validate_sound [of input w] ValidateSpec_ok [of input]
  by (cases "fst (validate input w)") (auto simp: admitted_def)

end

end
