(* ===== verification/Workflow_Env.thy ===== *)
theory Workflow_Env
  imports Activity_Types
begin

text \<open>
  What a workflow sees of Temporal. Temporal and the activity workers are outside the workflow
  code: an activity, the start of a child workflow and the clock are functions of a state \<open>'w\<close> that
  stands for the world (retries, time-outs and the backend are inside them), collected in a record
  that every workflow takes as an argument. A workflow carries that state and the history of what
  it has scheduled with the outcomes it got, which is Temporal's event history.
\<close>

subsection \<open>Activity options (workflows/options.go)\<close>

record ActivityOptions =
  ao_TaskQueue :: string
  ao_StartToCloseTimeout :: go_duration
  ao_ScheduleToCloseTimeout :: go_duration
  ao_HeartbeatTimeout :: go_duration
  ao_InitialInterval :: go_duration
  ao_BackoffCoefficient :: nat
  ao_MaximumInterval :: go_duration
  ao_MaximumAttempts :: nat

definition withActivities :: "string \<Rightarrow> ActivityOptions" where
  "withActivities taskQueue =
     \<lparr>ao_TaskQueue = taskQueue,
      ao_StartToCloseTimeout = 2 * go_minute,
      ao_ScheduleToCloseTimeout = 5 * go_minute,
      ao_HeartbeatTimeout = 30 * go_second,
      ao_InitialInterval = go_second,
      ao_BackoffCoefficient = 2,
      ao_MaximumInterval = 30 * go_second,
      ao_MaximumAttempts = 5\<rparr>"

subsection \<open>History and services\<close>

datatype wf_event =
  EvValidate ValidateDeploymentInput "unit result"
| EvAcquire AcquireLeaseInput "Lease result"
| EvRelease string "unit result"
| EvApply ApplyDeploymentInput "ApplyDeploymentResult result"
| EvObserve ObserveDeploymentInput "HealthSummary result"
| EvTrigger TriggerSavepointInput "SavepointTrigger result"
| EvObserveSavepoint ObserveSavepointInput "SavepointRecord result"
| EvSetJobState SetJobStateInput "unit result"
| EvAudit AuditEvent "unit result"
| EvChild string "unit result"

type_synonym 'w ctx = "wf_event list \<times> 'w"

record 'w services =
  svc_Now :: "'w \<Rightarrow> go_time"
  svc_ValidateDeployment ::
    "ActivityOptions \<Rightarrow> ValidateDeploymentInput \<Rightarrow> 'w \<Rightarrow> unit result \<times> 'w"
  svc_AcquireCapacityLease :: "ActivityOptions \<Rightarrow> AcquireLeaseInput \<Rightarrow> 'w \<Rightarrow> Lease result \<times> 'w"
  svc_ReleaseCapacityLease :: "ActivityOptions \<Rightarrow> string \<Rightarrow> 'w \<Rightarrow> unit result \<times> 'w"
  svc_ApplyDeployment ::
    "ActivityOptions \<Rightarrow> ApplyDeploymentInput \<Rightarrow> 'w \<Rightarrow> ApplyDeploymentResult result \<times> 'w"
  svc_ObserveDeployment ::
    "ActivityOptions \<Rightarrow> ObserveDeploymentInput \<Rightarrow> 'w \<Rightarrow> HealthSummary result \<times> 'w"
  svc_TriggerSavepoint ::
    "ActivityOptions \<Rightarrow> TriggerSavepointInput \<Rightarrow> 'w \<Rightarrow> SavepointTrigger result \<times> 'w"
  svc_ObserveSavepoint ::
    "ActivityOptions \<Rightarrow> ObserveSavepointInput \<Rightarrow> 'w \<Rightarrow> SavepointRecord result \<times> 'w"
  svc_SetJobState :: "ActivityOptions \<Rightarrow> SetJobStateInput \<Rightarrow> 'w \<Rightarrow> unit result \<times> 'w"
  svc_RecordAudit :: "ActivityOptions \<Rightarrow> AuditEvent \<Rightarrow> 'w \<Rightarrow> unit result \<times> 'w"
  svc_StartChild :: "string \<Rightarrow> 'w \<Rightarrow> unit result \<times> 'w"
  svc_ChildError :: "string \<Rightarrow> go_error \<Rightarrow> go_error"

text \<open>\<open>workflow.ExecuteActivity(...).Get\<close>: run, record, hand the outcome to the workflow.\<close>

definition execute ::
  "('a result \<Rightarrow> wf_event) \<Rightarrow> ('w \<Rightarrow> 'a result \<times> 'w) \<Rightarrow> 'w ctx \<Rightarrow> 'a result \<times> 'w ctx" where
  "execute ev f ctx =
     (case ctx of (h, w) \<Rightarrow> case f w of (r, w') \<Rightarrow> (r, (h @ [ev r], w')))"

definition workflow_now :: "'w services \<Rightarrow> 'w ctx \<Rightarrow> go_time" where
  "workflow_now S ctx = svc_Now S (snd ctx)"

definition ExecValidate where
  "ExecValidate S opts i = execute (EvValidate i) (svc_ValidateDeployment S opts i)"
definition ExecAcquire where
  "ExecAcquire S opts i = execute (EvAcquire i) (svc_AcquireCapacityLease S opts i)"
definition ExecRelease where
  "ExecRelease S opts i = execute (EvRelease i) (svc_ReleaseCapacityLease S opts i)"
definition ExecApply where
  "ExecApply S opts i = execute (EvApply i) (svc_ApplyDeployment S opts i)"
definition ExecObserve where
  "ExecObserve S opts i = execute (EvObserve i) (svc_ObserveDeployment S opts i)"
definition ExecTrigger where
  "ExecTrigger S opts i = execute (EvTrigger i) (svc_TriggerSavepoint S opts i)"
definition ExecObserveSavepoint where
  "ExecObserveSavepoint S opts i = execute (EvObserveSavepoint i) (svc_ObserveSavepoint S opts i)"
definition ExecSetJobState where
  "ExecSetJobState S opts i = execute (EvSetJobState i) (svc_SetJobState S opts i)"
definition ExecAudit where
  "ExecAudit S opts i = execute (EvAudit i) (svc_RecordAudit S opts i)"

text \<open>
  \<open>workflow.ExecuteChildWorkflow(...).Get\<close>: Temporal may refuse the start; a child that returns an
  error gives its parent that error, wrapped, and no result.
\<close>

definition ExecuteChildWorkflow ::
  "'w services \<Rightarrow> string \<Rightarrow> ('w ctx \<Rightarrow> 'a result \<times> 'w ctx) \<Rightarrow> 'w ctx \<Rightarrow> 'a result \<times> 'w ctx" where
  "ExecuteChildWorkflow S childID body ctx =
     (case execute (EvChild childID) (svc_StartChild S childID) ctx of
        (Inl e, ctx1) \<Rightarrow> (Inl e, ctx1)
      | (Inr _, ctx1) \<Rightarrow>
          (case body ctx1 of
             (Inl e, ctx2) \<Rightarrow> (Inl (svc_ChildError S childID e), ctx2)
           | (Inr v, ctx2) \<Rightarrow> (Inr v, ctx2)))"

lemmas exec_defs =
  ExecValidate_def ExecAcquire_def ExecRelease_def ExecApply_def ExecObserve_def ExecTrigger_def
  ExecObserveSavepoint_def ExecSetJobState_def ExecAudit_def

lemma execute_eq:
  "execute ev f ctx = (r, ctx') \<longleftrightarrow>
     fst (f (snd ctx)) = r \<and> ctx' = (fst ctx @ [ev r], snd (f (snd ctx)))"
  by (auto simp: execute_def split: prod.splits)

lemma execute_world: "snd (snd (execute ev f ctx)) = snd (f (snd ctx))"
  by (simp add: execute_def split: prod.splits)

lemma execute_snd: "snd (execute ev f ctx) = (fst ctx @ [ev (fst (f (snd ctx)))], snd (f (snd ctx)))"
  by (simp add: execute_def split: prod.splits)

lemma execute_fst: "fst (execute ev f ctx) = fst (f (snd ctx))"
  by (simp add: execute_def split: prod.splits)

text \<open>A computation only appends to the history; \<open>emits\<close> names what it appended.\<close>

definition emits :: "'w ctx \<Rightarrow> 'w ctx \<Rightarrow> wf_event list \<Rightarrow> bool" where
  "emits ctx ctx' es \<longleftrightarrow> fst ctx' = fst ctx @ es"

named_theorems emit_rules \<open>what the steps of a workflow append to the history\<close>

lemma emits_refl [simp]: "emits ctx ctx []"
  by (simp add: emits_def)

lemma emits_trans: "emits a b es \<Longrightarrow> emits b c fs \<Longrightarrow> emits a c (es @ fs)"
  by (simp add: emits_def)

lemma emits_unique: "emits a b es \<Longrightarrow> emits a b fs \<Longrightarrow> es = fs"
  by (simp add: emits_def)

lemma execute_emits: "execute ev f ctx = (r, ctx') \<Longrightarrow> emits ctx ctx' [ev r]"
  by (auto simp: execute_eq emits_def)

lemma ExecValidate_emits [emit_rules]:
  "ExecValidate S opts i ctx = (r, ctx') \<Longrightarrow> emits ctx ctx' [EvValidate i r]"
  by (simp add: exec_defs execute_emits)

lemma ExecAcquire_emits [emit_rules]:
  "ExecAcquire S opts i ctx = (r, ctx') \<Longrightarrow> emits ctx ctx' [EvAcquire i r]"
  by (simp add: exec_defs execute_emits)

lemma ExecRelease_emits [emit_rules]:
  "ExecRelease S opts j ctx = (u, ctx') \<Longrightarrow> emits ctx ctx' [EvRelease j u]"
  by (simp add: exec_defs execute_emits)

lemma ExecApply_emits [emit_rules]:
  "ExecApply S opts a ctx = (x, ctx') \<Longrightarrow> emits ctx ctx' [EvApply a x]"
  by (simp add: exec_defs execute_emits)

lemma ExecObserve_emits [emit_rules]:
  "ExecObserve S opts b ctx = (y, ctx') \<Longrightarrow> emits ctx ctx' [EvObserve b y]"
  by (simp add: exec_defs execute_emits)

lemma ExecTrigger_emits [emit_rules]:
  "ExecTrigger S opts b ctx = (y, ctx') \<Longrightarrow> emits ctx ctx' [EvTrigger b y]"
  by (simp add: exec_defs execute_emits)

lemma ExecObserveSavepoint_emits [emit_rules]:
  "ExecObserveSavepoint S opts b ctx = (y, ctx') \<Longrightarrow> emits ctx ctx' [EvObserveSavepoint b y]"
  by (simp add: exec_defs execute_emits)

lemma ExecSetJobState_emits [emit_rules]:
  "ExecSetJobState S opts b ctx = (y, ctx') \<Longrightarrow> emits ctx ctx' [EvSetJobState b y]"
  by (simp add: exec_defs execute_emits)

lemma ExecAudit_emits [emit_rules]:
  "ExecAudit S opts b ctx = (y, ctx') \<Longrightarrow> emits ctx ctx' [EvAudit b y]"
  by (simp add: exec_defs execute_emits)

text \<open>The events of a child workflow: its start, and if that succeeded whatever its body did.\<close>

lemma ExecuteChildWorkflow_cases:
  assumes "ExecuteChildWorkflow S childID body ctx = (r, ctx')"
  obtains e where "r = Inl e" "emits ctx ctx' [EvChild childID (Inl e)]"
  | u ctx1 b where "emits ctx ctx1 [EvChild childID (Inr u)]" "body ctx1 = (b, ctx')"
      "r = (case b of Inl e \<Rightarrow> Inl (svc_ChildError S childID e) | Inr v \<Rightarrow> Inr v)"
proof -
  obtain s ctx1 where s: "execute (EvChild childID) (svc_StartChild S childID) ctx = (s, ctx1)"
    by (cases "execute (EvChild childID) (svc_StartChild S childID) ctx")
  note em = execute_emits [OF s]
  show thesis
  proof (cases s)
    case (Inl e)
    then show ?thesis using assms s em that(1) by (auto simp: ExecuteChildWorkflow_def)
  next
    case (Inr u)
    obtain b ctx2 where b: "body ctx1 = (b, ctx2)" by (cases "body ctx1")
    have "r = (case b of Inl e \<Rightarrow> Inl (svc_ChildError S childID e) | Inr v \<Rightarrow> Inr v)" "ctx2 = ctx'"
      using assms s Inr b by (auto simp: ExecuteChildWorkflow_def split: sum.splits)
    with em Inr b that(2) show ?thesis by blast
  qed
qed

end
