(* ===== verification/Rollout.thy ===== *)
theory Rollout
  imports Workflow_Env
begin

text \<open>
  The two child workflows of a deployment: \<open>SavepointWorkflow\<close> (workflows/savepoint.go) and
  \<open>RolloutWorkflow\<close> (workflows/rollout.go), whole handlers in the order of the code, with the
  deferred release of the capacity lease at every return after the lease was taken.
\<close>

subsection \<open>Savepoints\<close>

record SavepointInput =
  si_Identity :: DeploymentIdentity
  si_Version :: DeploymentVersion
  si_ActivityTaskQueue :: string

definition SavepointWorkflow ::
  "'w services \<Rightarrow> SavepointInput \<Rightarrow> 'w ctx \<Rightarrow> SavepointRecord result \<times> 'w ctx" where
  "SavepointWorkflow S input ctx =
     (let opts = withActivities (si_ActivityTaskQueue input) in
      case ExecTrigger S opts
             \<lparr>ti_Identity = si_Identity input, ti_Version = si_Version input\<rparr> ctx of
        (Inl e, ctx1) \<Rightarrow> (Inl e, ctx1)
      | (Inr trigger, ctx1) \<Rightarrow>
          (case ExecObserveSavepoint S opts
                  \<lparr>os_Identity = si_Identity input, os_Version = si_Version input,
                   os_Trigger = trigger\<rparr> ctx1 of
             (Inl e, ctx2) \<Rightarrow> (Inl e, ctx2)
           | (Inr record, ctx2) \<Rightarrow> (Inr record, ctx2)))"

subsection \<open>Rollouts\<close>

record RolloutInput =
  ri_Identity :: DeploymentIdentity
  ri_Current :: "DeploymentVersion option"
  ri_Target :: DeploymentSpec
  ri_Policy :: Policy
  ri_OperationID :: string
  ri_Approved :: bool
  ri_Incident :: bool
  ri_ActivityTaskQueue :: string

record RolloutResult =
  rr_Version :: DeploymentVersion
  rr_Savepoint :: "SavepointRecord option"
  rr_LeaseID :: string
  rr_RolledBack :: bool

text \<open>The workflow returns a result and an error, as in Go: an error with an empty result is
  \<open>(None, Some e)\<close>; the rolled-back outcome has both.\<close>

type_synonym rollout_outcome = "RolloutResult option \<times> go_error option"

definition savepoint_child_id :: "DeploymentIdentity \<Rightarrow> string \<Rightarrow> string" where
  "savepoint_child_id d op =
     ''flink-savepoint/'' @ id_Environment d @ ''/'' @ id_Namespace d @ ''/'' @ id_Name d @ ''/'' @ op"

text \<open>The inputs of the activities and the updates of the result, as the code builds them.\<close>

definition target_apply :: "RolloutInput \<Rightarrow> RolloutResult \<Rightarrow> ApplyDeploymentInput" where
  "target_apply input res =
     \<lparr>ap_Identity = ri_Identity input, ap_Version = rr_Version res,
      ap_SavepointURI = ver_SavepointURI (rr_Version res), ap_Previous = ri_Current input,
      ap_Rollback = False, ap_Incident = ri_Incident input,
      ap_GitOpsOnly = pol_GitOpsOnly (ri_Policy input)\<rparr>"

definition observe_input :: "RolloutInput \<Rightarrow> RolloutResult \<Rightarrow> ObserveDeploymentInput" where
  "observe_input input res = \<lparr>oi_Identity = ri_Identity input, oi_Version = rr_Version res\<rparr>"

definition with_savepoint :: "SavepointRecord \<Rightarrow> RolloutResult \<Rightarrow> RolloutResult" where
  "with_savepoint sp res = res\<lparr>rr_Savepoint := Some sp,
     rr_Version := (rr_Version res)\<lparr>ver_SavepointURI := sp_URI sp\<rparr>\<rparr>"

definition with_generation :: "ApplyDeploymentResult \<Rightarrow> RolloutResult \<Rightarrow> RolloutResult" where
  "with_generation ar res = res\<lparr>rr_Version := (rr_Version res)
     \<lparr>ver_OperatorObservedGeneration := ar_ObservedGeneration ar\<rparr>\<rparr>"

definition with_health :: "HealthSummary \<Rightarrow> RolloutResult \<Rightarrow> RolloutResult" where
  "with_health h res = res\<lparr>rr_Version := (rr_Version res)\<lparr>ver_HealthSummary := h\<rparr>\<rparr>"

text \<open>Lines 113 to 117: the version to go back to.\<close>

definition restore_version :: "go_time \<Rightarrow> RolloutResult \<Rightarrow> DeploymentVersion \<Rightarrow> DeploymentVersion" where
  "restore_version now res cur =
     (let rollback = cur\<lparr>ver_CreatedAt := now\<rparr> in
      case rr_Savepoint res of
        Some sp \<Rightarrow>
          if ver_SavepointURI rollback = [] then rollback\<lparr>ver_SavepointURI := sp_URI sp\<rparr>
          else rollback
      | None \<Rightarrow> rollback)"

definition restore_apply :: "RolloutInput \<Rightarrow> RolloutResult \<Rightarrow> DeploymentVersion \<Rightarrow> ApplyDeploymentInput" where
  "restore_apply input res rollback =
     \<lparr>ap_Identity = ri_Identity input, ap_Version = rollback,
      ap_SavepointURI = ver_SavepointURI rollback, ap_Previous = Some (rr_Version res),
      ap_Rollback = True, ap_Incident = ri_Incident input,
      ap_GitOpsOnly = pol_GitOpsOnly (ri_Policy input)\<rparr>"

text \<open>Lines 71 to 85: the savepoint of the running version.\<close>

definition rollout_savepoint ::
  "'w services \<Rightarrow> RolloutInput \<Rightarrow> ChangeClassification \<Rightarrow> RolloutResult \<Rightarrow> 'w ctx \<Rightarrow>
   RolloutResult result \<times> 'w ctx" where
  "rollout_savepoint S input classification res ctx =
     (case ri_Current input of
        Some cur \<Rightarrow>
          if cls_RequiresSavepoint classification then
            (case ExecuteChildWorkflow S (savepoint_child_id (ri_Identity input) (ri_OperationID input))
                    (SavepointWorkflow S
                       \<lparr>si_Identity = ri_Identity input, si_Version = cur,
                        si_ActivityTaskQueue = ri_ActivityTaskQueue input\<rparr>) ctx of
               (Inl e, ctx1) \<Rightarrow> (Inl e, ctx1)
             | (Inr savepoint, ctx1) \<Rightarrow> (Inr (with_savepoint savepoint res), ctx1))
          else (Inr res, ctx)
      | None \<Rightarrow> (Inr res, ctx))"

text \<open>Lines 109 to 131: the previous version is applied again when the gate fails.\<close>

definition rollout_restore ::
  "'w services \<Rightarrow> RolloutInput \<Rightarrow> RolloutResult \<Rightarrow> go_error \<Rightarrow> 'w ctx \<Rightarrow> rollout_outcome \<times> 'w ctx" where
  "rollout_restore S input res err ctx =
     (case ri_Current input of
        None \<Rightarrow> ((None, Some (''initial rollout failed health gate: '' @ err)), ctx)
      | Some cur \<Rightarrow>
          (case ExecApply S (withActivities (ri_ActivityTaskQueue input))
                  (restore_apply input res (restore_version (workflow_now S ctx) res cur)) ctx of
             (Inl applyErr, ctx1) \<Rightarrow>
               ((None, Some (''health gate failed ('' @ err @ '') and rollback failed: '' @ applyErr)), ctx1)
           | (Inr _, ctx1) \<Rightarrow>
               ((Some (res\<lparr>rr_RolledBack := True\<rparr>),
                 Some (''health gate failed and previous version was restored: '' @ err)), ctx1)))"

text \<open>Lines 87 to 133: apply, observe, gate.\<close>

definition rollout_apply ::
  "'w services \<Rightarrow> RolloutInput \<Rightarrow> RolloutResult \<Rightarrow> 'w ctx \<Rightarrow> rollout_outcome \<times> 'w ctx" where
  "rollout_apply S input res ctx =
     (case ExecApply S (withActivities (ri_ActivityTaskQueue input)) (target_apply input res) ctx of
        (Inl e, ctx1) \<Rightarrow> ((None, Some e), ctx1)
      | (Inr applied, ctx1) \<Rightarrow>
          (case ExecObserve S (withActivities (ri_ActivityTaskQueue input))
                  (observe_input input (with_generation applied res)) ctx1 of
             (Inl e, ctx2) \<Rightarrow> ((None, Some e), ctx2)
           | (Inr health, ctx2) \<Rightarrow>
               (case EvaluateHealth health (ri_Policy input) of
                  Inl err \<Rightarrow>
                    rollout_restore S input (with_health health (with_generation applied res)) err ctx2
                | Inr _ \<Rightarrow>
                    ((Some (with_health (health\<lparr>hs_Healthy := True\<rparr>) (with_generation applied res)),
                      None), ctx2))))"

text \<open>Lines 71 to 133, everything between taking the lease and the deferred release.\<close>

definition rollout_body ::
  "'w services \<Rightarrow> RolloutInput \<Rightarrow> ChangeClassification \<Rightarrow> RolloutResult \<Rightarrow> 'w ctx \<Rightarrow>
   rollout_outcome \<times> 'w ctx" where
  "rollout_body S input classification res ctx =
     (case rollout_savepoint S input classification res ctx of
        (Inl e, ctx1) \<Rightarrow> ((None, Some e), ctx1)
      | (Inr res1, ctx1) \<Rightarrow> rollout_apply S input res1 ctx1)"

definition next_version_id :: "DeploymentVersion option \<Rightarrow> go_int" where
  "next_version_id current = (case current of None \<Rightarrow> 1 | Some cur \<Rightarrow> ver_VersionID cur + 1)"

definition rollout_validate_input :: "RolloutInput \<Rightarrow> ValidateDeploymentInput" where
  "rollout_validate_input input =
     \<lparr>vi_Identity = ri_Identity input, vi_CurrentVersion = ri_Current input,
      vi_Target = ri_Target input,
      vi_Classification = ClassifyChange (ri_Current input) (ri_Target input) (ri_Policy input),
      vi_Approved = ri_Approved input, vi_Incident = ri_Incident input,
      vi_Policy = ri_Policy input\<rparr>"

text \<open>\<open>wfid\<close> is the identifier under which the workflow itself runs.\<close>

definition lease_input :: "string \<Rightarrow> RolloutInput \<Rightarrow> AcquireLeaseInput" where
  "lease_input wfid input =
     \<lparr>ai_Identity = ri_Identity input, ai_Resources = spec_Resources (ri_Target input),
      ai_OwnerWorkflow = wfid, ai_TTL = 30 * go_minute\<rparr>"

definition RolloutWorkflow ::
  "'w services \<Rightarrow> string \<Rightarrow> RolloutInput \<Rightarrow> 'w ctx \<Rightarrow> rollout_outcome \<times> 'w ctx" where
  "RolloutWorkflow S wfid input ctx =
     (let opts = withActivities (ri_ActivityTaskQueue input);
          classification = ClassifyChange (ri_Current input) (ri_Target input) (ri_Policy input)
      in case ExecValidate S opts (rollout_validate_input input) ctx of
           (Inl e, ctx1) \<Rightarrow> ((None, Some e), ctx1)
         | (Inr _, ctx1) \<Rightarrow>
             let version = (BuildVersion (next_version_id (ri_Current input)) (ri_Target input))
                             \<lparr>ver_CreatedAt := workflow_now S ctx1\<rparr>;
                 res = \<lparr>rr_Version = version, rr_Savepoint = None, rr_LeaseID = [],
                        rr_RolledBack = False\<rparr>
             in if cls_RequiresCapacityLease classification then
                  (case ExecAcquire S opts (lease_input wfid input) ctx1 of
                     (Inl e, ctx2) \<Rightarrow> ((None, Some e), ctx2)
                   | (Inr lease, ctx2) \<Rightarrow>
                       (case rollout_body S input classification
                               (res\<lparr>rr_LeaseID := lease_ID lease\<rparr>) ctx2 of
                          (out, ctx3) \<Rightarrow>
                            (case ExecRelease S opts (lease_ID lease) ctx3 of
                               (_, ctx4) \<Rightarrow> (out, ctx4))))
                else rollout_body S input classification res ctx1)"

text \<open>What the parent of a rollout gets: Temporal delivers no result along with an error.\<close>

definition delivered :: "rollout_outcome \<Rightarrow> RolloutResult result" where
  "delivered out =
     (case out of
        (_, Some e) \<Rightarrow> Inl e
      | (Some r, None) \<Rightarrow> Inr r
      | (None, None) \<Rightarrow> Inl [])"

subsection \<open>The specification of a rollout as traces\<close>

text \<open>
  The contract of the workflow, without the plumbing: which sequences of activities a rollout may
  leave in the history, with the outcome each gives. The specification is a relation with one rule
  per way to end; the refinement lemma below shows that every run of the code is one of them.
\<close>

text \<open>The restoring apply carries the specification of the current version and, where that version
  has none of its own, the savepoint just taken.\<close>

definition restores :: "RolloutInput \<Rightarrow> RolloutResult \<Rightarrow> DeploymentVersion \<Rightarrow> ApplyDeploymentInput \<Rightarrow> bool" where
  "restores input res cur a \<longleftrightarrow>
     ap_Rollback a \<and> ap_Identity a = ri_Identity input \<and>
     ap_Previous a = Some (rr_Version res) \<and>
     ver_Spec (ap_Version a) = ver_Spec cur \<and>
     ver_VersionID (ap_Version a) = ver_VersionID cur \<and>
     ap_SavepointURI a = ver_SavepointURI (ap_Version a) \<and>
     ver_SavepointURI (ap_Version a) =
       (case rr_Savepoint res of
          Some sp \<Rightarrow> if ver_SavepointURI cur = [] then sp_URI sp else ver_SavepointURI cur
        | None \<Rightarrow> ver_SavepointURI cur)"

inductive gate_spec ::
  "RolloutInput \<Rightarrow> RolloutResult \<Rightarrow> wf_event list \<Rightarrow> rollout_outcome \<Rightarrow> bool"
  for input res where
  apply_failed:
    "gate_spec input res [EvApply (target_apply input res) (Inl e)] (None, Some e)"
| observe_failed:
    "gate_spec input res
       [EvApply (target_apply input res) (Inr ar),
        EvObserve (observe_input input (with_generation ar res)) (Inl e)] (None, Some e)"
| healthy:
    "EvaluateHealth h (ri_Policy input) = Inr u \<Longrightarrow>
     gate_spec input res
       [EvApply (target_apply input res) (Inr ar),
        EvObserve (observe_input input (with_generation ar res)) (Inr h)]
       (Some (with_health (h\<lparr>hs_Healthy := True\<rparr>) (with_generation ar res)), None)"
| initial_unhealthy:
    "EvaluateHealth h (ri_Policy input) = Inl err \<Longrightarrow> ri_Current input = None \<Longrightarrow>
     gate_spec input res
       [EvApply (target_apply input res) (Inr ar),
        EvObserve (observe_input input (with_generation ar res)) (Inr h)]
       (None, Some (''initial rollout failed health gate: '' @ err))"
| restore_failed:
    "EvaluateHealth h (ri_Policy input) = Inl err \<Longrightarrow> ri_Current input = Some cur \<Longrightarrow>
     restores input (with_health h (with_generation ar res)) cur rb \<Longrightarrow>
     gate_spec input res
       [EvApply (target_apply input res) (Inr ar),
        EvObserve (observe_input input (with_generation ar res)) (Inr h),
        EvApply rb (Inl e)]
       (None, Some (''health gate failed ('' @ err @ '') and rollback failed: '' @ e))"
| restored:
    "EvaluateHealth h (ri_Policy input) = Inl err \<Longrightarrow> ri_Current input = Some cur \<Longrightarrow>
     restores input (with_health h (with_generation ar res)) cur rb \<Longrightarrow>
     gate_spec input res
       [EvApply (target_apply input res) (Inr ar),
        EvObserve (observe_input input (with_generation ar res)) (Inr h),
        EvApply rb (Inr ar')]
       (Some ((with_health h (with_generation ar res))\<lparr>rr_RolledBack := True\<rparr>),
        Some (''health gate failed and previous version was restored: '' @ err))"

text \<open>The events of a savepoint child workflow.\<close>

fun is_savepoint_event :: "wf_event \<Rightarrow> bool" where
  "is_savepoint_event (EvChild i r) \<longleftrightarrow> True"
| "is_savepoint_event (EvTrigger i r) \<longleftrightarrow> True"
| "is_savepoint_event (EvObserveSavepoint i r) \<longleftrightarrow> True"
| "is_savepoint_event _ \<longleftrightarrow> False"

definition needs_savepoint :: "RolloutInput \<Rightarrow> ChangeClassification \<Rightarrow> bool" where
  "needs_savepoint input cls \<longleftrightarrow> cls_RequiresSavepoint cls \<and> ri_Current input \<noteq> None"

inductive body_spec ::
  "RolloutInput \<Rightarrow> ChangeClassification \<Rightarrow> RolloutResult \<Rightarrow> wf_event list \<Rightarrow> rollout_outcome \<Rightarrow> bool"
  for input cls res where
  direct:
    "\<not> needs_savepoint input cls \<Longrightarrow> gate_spec input res evs out \<Longrightarrow>
     body_spec input cls res evs out"
| savepoint_failed:
    "needs_savepoint input cls \<Longrightarrow> list_all is_savepoint_event evs \<Longrightarrow>
     body_spec input cls res evs (None, Some e)"
| savepoint_taken:
    "ri_Current input = Some cur \<Longrightarrow> cls_RequiresSavepoint cls \<Longrightarrow>
     os_Version b = cur \<Longrightarrow> os_Identity b = ri_Identity input \<Longrightarrow>
     list_all is_savepoint_event pre \<Longrightarrow>
     gate_spec input (with_savepoint sp res) evs out \<Longrightarrow>
     body_spec input cls res (pre @ EvObserveSavepoint b (Inr sp) # evs) out"

definition rollout_class :: "RolloutInput \<Rightarrow> ChangeClassification" where
  "rollout_class input = ClassifyChange (ri_Current input) (ri_Target input) (ri_Policy input)"

definition initial_result :: "RolloutInput \<Rightarrow> go_time \<Rightarrow> string \<Rightarrow> RolloutResult" where
  "initial_result input now lease =
     \<lparr>rr_Version = (BuildVersion (next_version_id (ri_Current input)) (ri_Target input))
        \<lparr>ver_CreatedAt := now\<rparr>,
      rr_Savepoint = None, rr_LeaseID = lease, rr_RolledBack = False\<rparr>"

inductive rollout_spec ::
  "RolloutInput \<Rightarrow> wf_event list \<Rightarrow> rollout_outcome \<Rightarrow> bool" for input where
  refused:
    "rollout_spec input [EvValidate (rollout_validate_input input) (Inl e)] (None, Some e)"
| unleased:
    "\<not> cls_RequiresCapacityLease (rollout_class input) \<Longrightarrow>
     body_spec input (rollout_class input) (initial_result input now []) evs out \<Longrightarrow>
     rollout_spec input (EvValidate (rollout_validate_input input) (Inr u) # evs) out"
| lease_refused:
    "cls_RequiresCapacityLease (rollout_class input) \<Longrightarrow>
     ai_Resources a = spec_Resources (ri_Target input) \<Longrightarrow> ai_Identity a = ri_Identity input \<Longrightarrow>
     rollout_spec input
       [EvValidate (rollout_validate_input input) (Inr u), EvAcquire a (Inl e)] (None, Some e)"
| leased:
    "cls_RequiresCapacityLease (rollout_class input) \<Longrightarrow>
     ai_Resources a = spec_Resources (ri_Target input) \<Longrightarrow> ai_Identity a = ri_Identity input \<Longrightarrow>
     body_spec input (rollout_class input) (initial_result input now (lease_ID lease)) evs out \<Longrightarrow>
     rollout_spec input
       (EvValidate (rollout_validate_input input) (Inr u) # EvAcquire a (Inr lease) #
        evs @ [EvRelease (lease_ID lease) r]) out"

inductive_cases gate_specE: "gate_spec input res evs out"
inductive_cases body_specE: "body_spec input cls res evs out"
inductive_cases rollout_specE: "rollout_spec input evs out"

subsection \<open>The code refines the specification\<close>

lemma rollout_restore_cases:
  assumes "rollout_restore S input res err ctx = (out, ctx')"
  obtains (initial) "ri_Current input = None" "ctx' = ctx"
      "out = (None, Some (''initial rollout failed health gate: '' @ err))"
  | (failed) cur rb e where "ri_Current input = Some cur" "restores input res cur rb"
      "emits ctx ctx' [EvApply rb (Inl e)]"
      "out = (None, Some (''health gate failed ('' @ err @ '') and rollback failed: '' @ e))"
  | (restored) cur rb ar where "ri_Current input = Some cur" "restores input res cur rb"
      "emits ctx ctx' [EvApply rb (Inr ar)]"
      "out = (Some (res\<lparr>rr_RolledBack := True\<rparr>),
              Some (''health gate failed and previous version was restored: '' @ err))"
proof (cases "ri_Current input")
  case None
  then show thesis using assms initial by (simp add: rollout_restore_def)
next
  case (Some cur)
  define a where "a = restore_apply input res (restore_version (workflow_now S ctx) res cur)"
  have a: "restores input res cur a"
    by (simp add: restores_def a_def restore_apply_def restore_version_def Let_def split: option.splits)
  obtain x ctx1 where x: "ExecApply S (withActivities (ri_ActivityTaskQueue input)) a ctx = (x, ctx1)"
    by (cases "ExecApply S (withActivities (ri_ActivityTaskQueue input)) a ctx")
  note em = ExecApply_emits [OF x]
  have run: "(case x of Inl e \<Rightarrow>
        ((None, Some (''health gate failed ('' @ err @ '') and rollback failed: '' @ e)), ctx1)
      | Inr _ \<Rightarrow> ((Some (res\<lparr>rr_RolledBack := True\<rparr>),
          Some (''health gate failed and previous version was restored: '' @ err)), ctx1)) = (out, ctx')"
    using assms Some x by (simp add: rollout_restore_def a_def)
  show thesis
  proof (cases x)
    case (Inl e)
    with run em Some a failed show thesis by auto
  next
    case (Inr ar)
    with run em Some a restored show thesis by auto
  qed
qed

lemma rollout_apply_refines:
  assumes "rollout_apply S input res ctx = (out, ctx')"
  shows "\<exists>evs. emits ctx ctx' evs \<and> gate_spec input res evs out"
proof -
  let ?opts = "withActivities (ri_ActivityTaskQueue input)"
  obtain x ctx1 where x: "ExecApply S ?opts (target_apply input res) ctx = (x, ctx1)"
    by (cases "ExecApply S ?opts (target_apply input res) ctx")
  note e1 = ExecApply_emits [OF x]
  show ?thesis
  proof (cases x)
    case (Inl e)
    then have "out = (None, Some e)" "ctx' = ctx1"
      using assms x by (simp_all add: rollout_apply_def)
    with e1 Inl show ?thesis using gate_spec.apply_failed by blast
  next
    case (Inr ar)
    let ?res1 = "with_generation ar res"
    obtain y ctx2 where y: "ExecObserve S ?opts (observe_input input ?res1) ctx1 = (y, ctx2)"
      by (cases "ExecObserve S ?opts (observe_input input ?res1) ctx1")
    have e2: "emits ctx ctx2 [EvApply (target_apply input res) (Inr ar), EvObserve (observe_input input ?res1) y]"
      using emits_trans [OF e1 ExecObserve_emits [OF y]] Inr by simp
    show ?thesis
    proof (cases y)
      case (Inl e)
      then have "out = (None, Some e)" "ctx' = ctx2"
        using assms x \<open>x = Inr ar\<close> y
        by (simp_all add: rollout_apply_def)
      with e2 Inl show ?thesis using gate_spec.observe_failed by blast
    next
      case (Inr h)
      let ?res2 = "with_health h ?res1"
      have run: "(case EvaluateHealth h (ri_Policy input) of
          Inl err \<Rightarrow> rollout_restore S input ?res2 err ctx2
        | Inr _ \<Rightarrow> ((Some (with_health (h\<lparr>hs_Healthy := True\<rparr>) ?res1), None), ctx2)) = (out, ctx')"
        using assms x \<open>x = Inr ar\<close> y Inr
        by (simp add: rollout_apply_def)
      show ?thesis
      proof (cases "EvaluateHealth h (ri_Policy input)")
        case (Inr u)
        with run have out: "out = (Some (with_health (h\<lparr>hs_Healthy := True\<rparr>) ?res1), None)" "ctx' = ctx2"
          by simp_all
        show ?thesis
          using gate_spec.healthy [OF Inr, of res ar] e2 unfolding out \<open>y = Inr h\<close> by blast
      next
        case (Inl err)
        with run have "rollout_restore S input ?res2 err ctx2 = (out, ctx')" by simp
        then show ?thesis
        proof (cases rule: rollout_restore_cases)
          case initial
          show ?thesis
            using gate_spec.initial_unhealthy [OF Inl initial(1), of res ar] e2
            unfolding initial(2,3) \<open>y = Inr h\<close> by blast
        next
          case (failed cur rb e)
          show ?thesis
            using gate_spec.restore_failed [OF Inl failed(1,2)] emits_trans [OF e2 failed(3)]
            unfolding failed(4) \<open>y = Inr h\<close> by auto
        next
          case (restored cur rb ar')
          show ?thesis
            using gate_spec.restored [OF Inl restored(1,2)] emits_trans [OF e2 restored(3)]
            unfolding restored(4) \<open>y = Inr h\<close> by auto
        qed
      qed
    qed
  qed
qed

lemma SavepointWorkflow_cases:
  assumes "SavepointWorkflow S input ctx = (r, ctx')"
  obtains (failed) e evs where "r = Inl e" "emits ctx ctx' evs" "list_all is_savepoint_event evs"
  | (taken) sp b pre where "r = Inr sp" "os_Version b = si_Version input" "os_Identity b = si_Identity input"
      "list_all is_savepoint_event pre" "emits ctx ctx' (pre @ [EvObserveSavepoint b (Inr sp)])"
proof -
  let ?opts = "withActivities (si_ActivityTaskQueue input)"
  let ?ti = "\<lparr>ti_Identity = si_Identity input, ti_Version = si_Version input\<rparr>"
  obtain t ctx1 where t: "ExecTrigger S ?opts ?ti ctx = (t, ctx1)"
    by (cases "ExecTrigger S ?opts ?ti ctx")
  note e1 = ExecTrigger_emits [OF t]
  show thesis
  proof (cases t)
    case (Inl e)
    then have "r = Inl e" "ctx' = ctx1" using assms t by (simp_all add: SavepointWorkflow_def Let_def)
    with e1 show thesis using failed by auto
  next
    case (Inr trigger)
    let ?b = "\<lparr>os_Identity = si_Identity input, os_Version = si_Version input, os_Trigger = trigger\<rparr>"
    obtain y ctx2 where y: "ExecObserveSavepoint S ?opts ?b ctx1 = (y, ctx2)"
      by (cases "ExecObserveSavepoint S ?opts ?b ctx1")
    have e2: "emits ctx ctx2 ([EvTrigger ?ti (Inr trigger)] @ [EvObserveSavepoint ?b y])"
      using emits_trans [OF e1 ExecObserveSavepoint_emits [OF y]] Inr by simp
    have run: "r = y" "ctx' = ctx2"
      using assms t Inr y by (auto simp: SavepointWorkflow_def Let_def split: sum.splits)
    show thesis
    proof (cases y)
      case (Inl e)
      with run e2 show thesis using failed by auto
    next
      case (Inr sp)
      show thesis
        by (rule taken [of sp ?b "[EvTrigger ?ti (Inr trigger)]"]) (use run e2 Inr in simp_all)
    qed
  qed
qed

lemma rollout_savepoint_cases:
  assumes "rollout_savepoint S input cls res ctx = (r, ctx')"
  obtains (direct) "\<not> needs_savepoint input cls" "r = Inr res" "ctx' = ctx"
  | (failed) e evs where "needs_savepoint input cls" "r = Inl e" "emits ctx ctx' evs"
      "list_all is_savepoint_event evs"
  | (taken) cur sp b pre where "ri_Current input = Some cur" "cls_RequiresSavepoint cls"
      "os_Version b = cur" "os_Identity b = ri_Identity input" "list_all is_savepoint_event pre"
      "r = Inr (with_savepoint sp res)" "emits ctx ctx' (pre @ [EvObserveSavepoint b (Inr sp)])"
proof (cases "needs_savepoint input cls")
  case False
  then show thesis using assms direct
    by (auto simp: rollout_savepoint_def needs_savepoint_def split: option.splits)
next
  case True
  then obtain cur where cur: "ri_Current input = Some cur" and req: "cls_RequiresSavepoint cls"
    by (auto simp: needs_savepoint_def)
  let ?id = "savepoint_child_id (ri_Identity input) (ri_OperationID input)"
  let ?si = "\<lparr>si_Identity = ri_Identity input, si_Version = cur,
    si_ActivityTaskQueue = ri_ActivityTaskQueue input\<rparr>"
  obtain x ctx1 where x: "ExecuteChildWorkflow S ?id (SavepointWorkflow S ?si) ctx = (x, ctx1)"
    by (cases "ExecuteChildWorkflow S ?id (SavepointWorkflow S ?si) ctx")
  have run: "r = (case x of Inl e \<Rightarrow> Inl e | Inr sp \<Rightarrow> Inr (with_savepoint sp res))" "ctx' = ctx1"
    using assms cur req x by (auto simp: rollout_savepoint_def split: sum.splits)
  from x show thesis
  proof (cases rule: ExecuteChildWorkflow_cases)
    case (1 e)
    show thesis by (rule failed [OF True _ _ , of e "[EvChild ?id (Inl e)]"]) (use 1 run in simp_all)
  next
    case (2 u ctx2 b)
    from 2(2) show thesis
    proof (cases rule: SavepointWorkflow_cases)
      case (failed e evs)
      show thesis
        by (rule that(2) [OF True, of "svc_ChildError S ?id e" "EvChild ?id (Inr u) # evs"])
           (use 2 run failed emits_trans [OF 2(1) failed(2)] in simp_all)
    next
      case (taken sp b' pre)
      show thesis
        by (rule that(3) [OF cur req, of b' "EvChild ?id (Inr u) # pre" sp])
           (use 2 run taken emits_trans [OF 2(1) taken(5)] in simp_all)
    qed
  qed
qed

lemma rollout_body_refines:
  assumes "rollout_body S input cls res ctx = (out, ctx')"
  shows "\<exists>evs. emits ctx ctx' evs \<and> body_spec input cls res evs out"
proof -
  obtain r ctx1 where r: "rollout_savepoint S input cls res ctx = (r, ctx1)"
    by (cases "rollout_savepoint S input cls res ctx")
  from r show ?thesis
  proof (cases rule: rollout_savepoint_cases)
    case direct
    then have "rollout_apply S input res ctx = (out, ctx')"
      using assms r by (simp add: rollout_body_def)
    with direct(1) show ?thesis using rollout_apply_refines body_spec.direct by blast
  next
    case (failed e evs)
    then have "out = (None, Some e)" "ctx' = ctx1" using assms r by (simp_all add: rollout_body_def)
    with failed show ?thesis using body_spec.savepoint_failed by blast
  next
    case (taken cur sp b pre)
    then have "rollout_apply S input (with_savepoint sp res) ctx1 = (out, ctx')"
      using assms r by (simp add: rollout_body_def)
    then obtain evs where "emits ctx1 ctx' evs" "gate_spec input (with_savepoint sp res) evs out"
      using rollout_apply_refines by blast
    with body_spec.savepoint_taken [OF taken(1-5)] emits_trans [OF taken(7)] show ?thesis
      by fastforce
  qed
qed

text \<open>The ways through the handler.\<close>

abbreviation rollout_opts :: "RolloutInput \<Rightarrow> ActivityOptions" where
  "rollout_opts input \<equiv> withActivities (ri_ActivityTaskQueue input)"

lemma RolloutWorkflow_cases:
  assumes "RolloutWorkflow S wfid input ctx = (out, ctx')"
  obtains (refused) e where
      "ExecValidate S (rollout_opts input) (rollout_validate_input input) ctx = (Inl e, ctx')"
      "out = (None, Some e)"
  | (unleased) ctx1 where
      "ExecValidate S (rollout_opts input) (rollout_validate_input input) ctx = (Inr (), ctx1)"
      "\<not> cls_RequiresCapacityLease (rollout_class input)"
      "rollout_body S input (rollout_class input) (initial_result input (workflow_now S ctx1) []) ctx1
        = (out, ctx')"
  | (lease_refused) ctx1 e where
      "ExecValidate S (rollout_opts input) (rollout_validate_input input) ctx = (Inr (), ctx1)"
      "cls_RequiresCapacityLease (rollout_class input)"
      "ExecAcquire S (rollout_opts input) (lease_input wfid input) ctx1 = (Inl e, ctx')"
      "out = (None, Some e)"
  | (leased) ctx1 lease ctx2 ctx3 r where
      "ExecValidate S (rollout_opts input) (rollout_validate_input input) ctx = (Inr (), ctx1)"
      "cls_RequiresCapacityLease (rollout_class input)"
      "ExecAcquire S (rollout_opts input) (lease_input wfid input) ctx1 = (Inr lease, ctx2)"
      "rollout_body S input (rollout_class input)
        (initial_result input (workflow_now S ctx1) (lease_ID lease)) ctx2 = (out, ctx3)"
      "ExecRelease S (rollout_opts input) (lease_ID lease) ctx3 = (r, ctx')"
proof -
  obtain v ctx1 where v: "ExecValidate S (rollout_opts input) (rollout_validate_input input) ctx = (v, ctx1)"
    by (cases "ExecValidate S (rollout_opts input) (rollout_validate_input input) ctx")
  obtain l ctx2 where l: "ExecAcquire S (rollout_opts input) (lease_input wfid input) ctx1 = (l, ctx2)"
    by (cases "ExecAcquire S (rollout_opts input) (lease_input wfid input) ctx1")
  note run = assms [unfolded RolloutWorkflow_def Let_def, folded rollout_class_def]
  show thesis
  proof (cases v)
    case (Inl e)
    then show thesis using run v refused by simp
  next
    case (Inr u)
    show thesis
    proof (cases "cls_RequiresCapacityLease (rollout_class input)")
      case False
      then show thesis using run v Inr unleased [of ctx1] by (simp add: initial_result_def)
    next
      case lease: True
      show thesis
      proof (cases l)
        case (Inl e)
        then show thesis using run v \<open>v = Inr u\<close> l lease lease_refused [of ctx1 e] by simp
      next
        case (Inr k)
        let ?res = "initial_result input (workflow_now S ctx1) (lease_ID k)"
        obtain b ctx3 where b: "rollout_body S input (rollout_class input) ?res ctx2 = (b, ctx3)"
          by (cases "rollout_body S input (rollout_class input) ?res ctx2")
        obtain r ctx4 where r: "ExecRelease S (rollout_opts input) (lease_ID k) ctx3 = (r, ctx4)"
          by (cases "ExecRelease S (rollout_opts input) (lease_ID k) ctx3")
        have "b = out" "ctx4 = ctx'"
          using run v \<open>v = Inr u\<close> l lease Inr b r by (simp_all add: initial_result_def)
        then show thesis using leased [of ctx1 k ctx2 ctx3 r] v \<open>v = Inr u\<close> l lease Inr b r by simp
      qed
    qed
  qed
qed

lemma rollout_refines:
  "\<exists>evs. fst (snd (RolloutWorkflow S wfid input ctx)) = fst ctx @ evs \<and>
         rollout_spec input evs (fst (RolloutWorkflow S wfid input ctx))"
proof -
  obtain out ctx' where out: "RolloutWorkflow S wfid input ctx = (out, ctx')"
    by (cases "RolloutWorkflow S wfid input ctx")
  then have "\<exists>evs. emits ctx ctx' evs \<and> rollout_spec input evs out"
  proof (cases rule: RolloutWorkflow_cases)
    case (refused e)
    with ExecValidate_emits show ?thesis using rollout_spec.refused by blast
  next
    case (unleased ctx1)
    obtain evs where "emits ctx1 ctx' evs"
        "body_spec input (rollout_class input) (initial_result input (workflow_now S ctx1) []) evs out"
      using rollout_body_refines [OF unleased(3)] by blast
    with rollout_spec.unleased [OF unleased(2)] emits_trans [OF ExecValidate_emits [OF unleased(1)]]
    show ?thesis by fastforce
  next
    case (lease_refused ctx1 e)
    have "emits ctx ctx' [EvValidate (rollout_validate_input input) (Inr ()),
        EvAcquire (lease_input wfid input) (Inl e)]"
      using emits_trans [OF ExecValidate_emits [OF lease_refused(1)] ExecAcquire_emits [OF lease_refused(3)]]
      by simp
    with rollout_spec.lease_refused [OF lease_refused(2), of "lease_input wfid input"] lease_refused(4)
    show ?thesis by (auto simp: lease_input_def)
  next
    case (leased ctx1 lease ctx2 ctx3 r)
    obtain evs where evs: "emits ctx2 ctx3 evs" "body_spec input (rollout_class input)
        (initial_result input (workflow_now S ctx1) (lease_ID lease)) evs out"
      using rollout_body_refines [OF leased(4)] by blast
    have "emits ctx ctx' (EvValidate (rollout_validate_input input) (Inr ()) #
        EvAcquire (lease_input wfid input) (Inr lease) # evs @ [EvRelease (lease_ID lease) r])"
      using emits_trans [OF ExecValidate_emits [OF leased(1)] emits_trans [OF ExecAcquire_emits [OF leased(3)]
        emits_trans [OF evs(1) ExecRelease_emits [OF leased(5)]]]] by simp
    with rollout_spec.leased [OF leased(2) _ _ evs(2), of "lease_input wfid input" "()" r]
    show ?thesis by (auto simp: lease_input_def)
  qed
  with out show ?thesis by (simp add: emits_def)
qed

text \<open>C1. Refinement: whatever Temporal and the backend answer, the history a rollout leaves and
  the outcome it returns are one of those the specification allows.\<close>

theorem RolloutWorkflow_refines:
  "\<exists>evs. fst (snd (RolloutWorkflow S wfid input ctx)) = fst ctx @ evs \<and>
         rollout_spec input evs (fst (RolloutWorkflow S wfid input ctx))"
  by (rule rollout_refines)

lemma RolloutWorkflow_spec:
  assumes "RolloutWorkflow S wfid input ctx = (out, (h, w))"
  obtains evs where "h = fst ctx @ evs" "rollout_spec input evs out"
proof -
  obtain evs where "fst (snd (RolloutWorkflow S wfid input ctx)) = fst ctx @ evs"
      "rollout_spec input evs (fst (RolloutWorkflow S wfid input ctx))"
    using rollout_refines [of S wfid input ctx] by blast
  with assms that show thesis by simp
qed

subsection \<open>Reading a history\<close>

definition granted :: "wf_event list \<Rightarrow> string list" where
  "granted h = concat (map (\<lambda>e. case e of EvAcquire a (Inr l) \<Rightarrow> [lease_ID l] | _ \<Rightarrow> []) h)"

definition released :: "wf_event list \<Rightarrow> string list" where
  "released h = concat (map (\<lambda>e. case e of EvRelease i r \<Rightarrow> [i] | _ \<Rightarrow> []) h)"

definition applies :: "wf_event list \<Rightarrow> ApplyDeploymentInput list" where
  "applies h = concat (map (\<lambda>e. case e of EvApply a r \<Rightarrow> [a] | _ \<Rightarrow> []) h)"

definition validations :: "wf_event list \<Rightarrow> (ValidateDeploymentInput \<times> unit result) list" where
  "validations h = concat (map (\<lambda>e. case e of EvValidate v r \<Rightarrow> [(v, r)] | _ \<Rightarrow> []) h)"

definition observations :: "wf_event list \<Rightarrow> HealthSummary list" where
  "observations h = concat (map (\<lambda>e. case e of EvObserve o' (Inr hs) \<Rightarrow> [hs] | _ \<Rightarrow> []) h)"

definition savepoints_taken :: "wf_event list \<Rightarrow> (DeploymentVersion \<times> SavepointRecord) list" where
  "savepoints_taken h =
     concat (map (\<lambda>e. case e of EvObserveSavepoint b (Inr sp) \<Rightarrow> [(os_Version b, sp)] | _ \<Rightarrow> []) h)"

lemmas read_defs =
  granted_def released_def applies_def validations_def observations_def savepoints_taken_def

text \<open>One event at a time, and a whole savepoint child at once.\<close>

lemma read_append [simp]:
  "granted (a @ b) = granted a @ granted b" "released (a @ b) = released a @ released b"
  "applies (a @ b) = applies a @ applies b" "observations (a @ b) = observations a @ observations b"
  "savepoints_taken (a @ b) = savepoints_taken a @ savepoints_taken b"
  "validations (a @ b) = validations a @ validations b"
  by (simp_all add: read_defs)

lemma read_nil [simp]:
  "granted [] = []" "released [] = []" "applies [] = []" "observations [] = []"
  "savepoints_taken [] = []" "validations [] = []"
  by (simp_all add: read_defs)

lemma applies_Cons [simp]:
  "applies (EvApply a r # h) = a # applies h" "applies (EvAcquire i l # h) = applies h"
  "applies (EvRelease j u # h) = applies h" "applies (EvObserve b y # h) = applies h"
  "applies (EvObserveSavepoint c z # h) = applies h" "applies (EvValidate v u # h) = applies h"
  by (simp_all add: applies_def)

lemma leases_Cons [simp]:
  "granted (EvAcquire i (Inr l) # h) = lease_ID l # granted h" "granted (EvAcquire i (Inl e) # h) = granted h"
  "granted (EvApply a r # h) = granted h" "granted (EvRelease j u # h) = granted h"
  "granted (EvObserve b y # h) = granted h" "granted (EvObserveSavepoint c z # h) = granted h"
  "granted (EvValidate v u # h) = granted h"
  "released (EvAcquire i x # h) = released h" "released (EvApply a r # h) = released h"
  "released (EvRelease j u # h) = j # released h" "released (EvObserve b y # h) = released h"
  "released (EvObserveSavepoint c z # h) = released h" "released (EvValidate v u # h) = released h"
  by (simp_all add: granted_def released_def)

lemma observations_Cons [simp]:
  "observations (EvObserve b (Inr hs) # h) = hs # observations h"
  "observations (EvObserve b (Inl e) # h) = observations h"
  "observations (EvApply a r # h) = observations h" "observations (EvAcquire i l # h) = observations h"
  "observations (EvRelease j u # h) = observations h"
  "observations (EvObserveSavepoint c z # h) = observations h"
  "observations (EvValidate v u # h) = observations h"
  by (simp_all add: observations_def)

lemma savepoints_Cons [simp]:
  "savepoints_taken (EvObserveSavepoint c (Inr sp) # h) = (os_Version c, sp) # savepoints_taken h"
  "savepoints_taken (EvApply a r # h) = savepoints_taken h"
  "savepoints_taken (EvAcquire i l # h) = savepoints_taken h"
  "savepoints_taken (EvRelease j u # h) = savepoints_taken h"
  "savepoints_taken (EvObserve b y # h) = savepoints_taken h"
  "savepoints_taken (EvValidate v u # h) = savepoints_taken h"
  by (simp_all add: savepoints_taken_def)

lemma savepoint_events_silent:
  assumes "list_all is_savepoint_event evs"
  shows "granted evs = []" "released evs = []" "applies evs = []" "observations evs = []"
  using assms
  by (induction evs)
     (auto simp: granted_def released_def applies_def observations_def elim!: is_savepoint_event.elims(2))

lemma gate_leases: "gate_spec input res evs out \<Longrightarrow> granted evs = [] \<and> released evs = []"
  by (induction rule: gate_spec.induct) simp_all

lemma body_leases: "body_spec input cls res evs out \<Longrightarrow> granted evs = [] \<and> released evs = []"
  by (induction rule: body_spec.induct) (simp_all add: gate_leases savepoint_events_silent)

text \<open>The applies of a gate: the target once, then at most one restoring apply.\<close>

lemma gate_applies:
  "gate_spec input res evs out \<Longrightarrow>
   applies evs = [target_apply input res] \<or>
   (\<exists>cur rb h ar. ri_Current input = Some cur \<and> restores input (with_health h (with_generation ar res)) cur rb \<and>
      applies evs = [target_apply input res, rb] \<and> snd out \<noteq> None)"
  by (induction rule: gate_spec.induct) auto

lemma gate_success:
  "gate_spec input res evs (Some r, None) \<Longrightarrow>
   \<exists>h ar. r = with_health (h\<lparr>hs_Healthy := True\<rparr>) (with_generation ar res) \<and>
     EvaluateHealth h (ri_Policy input) = Inr () \<and> observations evs = [h] \<and>
     applies evs = [target_apply input res]"
  by (erule gate_specE) auto

text \<open>A failed gate with a version to go back to.\<close>

lemma gate_failed:
  "gate_spec input res evs out \<Longrightarrow> h \<in> set (observations evs) \<Longrightarrow>
   EvaluateHealth h (ri_Policy input) = Inl err \<Longrightarrow> ri_Current input = Some cur \<Longrightarrow>
   \<exists>rb ar. restores input (with_health h (with_generation ar res)) cur rb \<and>
      applies evs = [target_apply input res, rb] \<and> snd out \<noteq> None"
  by (erule gate_specE) fastforce+

subsection \<open>Properties of rollouts\<close>

lemma delivered_error [simp]: "delivered (r, Some e) = Inl e"
  by (cases r) (simp_all add: delivered_def)

lemma delivered_Inr [simp]: "delivered out = Inr r \<longleftrightarrow> out = (Some r, None)"
  by (cases out) (auto simp: delivered_def split: option.splits)

text \<open>The result a gate works on: the one the rollout started with, perhaps with a savepoint.\<close>

lemma body_gate:
  assumes "body_spec input cls res evs out" "applies evs \<noteq> []"
  obtains (direct) "\<not> needs_savepoint input cls" "gate_spec input res evs out"
  | (taken) cur sp b pre evs' where "ri_Current input = Some cur" "os_Version b = cur"
      "list_all is_savepoint_event pre" "evs = pre @ EvObserveSavepoint b (Inr sp) # evs'"
      "gate_spec input (with_savepoint sp res) evs' out" "cls_RequiresSavepoint cls"
  using assms(1)
proof (cases rule: body_spec.cases)
  case direct
  then show thesis by (rule that(1))
next
  case savepoint_failed
  then show thesis using assms(2) by (simp add: savepoint_events_silent)
next
  case savepoint_taken
  then show thesis using that(2) by blast
qed

lemma body_success:
  assumes "body_spec input cls res evs (Some r, None)"
  shows "\<exists>res' h ar. (res' = res \<or> (\<exists>sp. res' = with_savepoint sp res)) \<and>
     r = with_health (h\<lparr>hs_Healthy := True\<rparr>) (with_generation ar res') \<and>
     EvaluateHealth h (ri_Policy input) = Inr () \<and> observations evs = [h] \<and>
     applies evs = [target_apply input res']"
  using assms
proof (cases rule: body_spec.cases)
  case direct
  from gate_success [OF direct(2)] show ?thesis by (elim exE) (intro exI conjI; auto)
next
  case (savepoint_taken cur b pre sp evs')
  from gate_success [OF savepoint_taken(7)] obtain h ar where
    "r = with_health (h\<lparr>hs_Healthy := True\<rparr>) (with_generation ar (with_savepoint sp res))"
    "EvaluateHealth h (ri_Policy input) = Inr ()" "observations evs' = [h]"
    "applies evs' = [target_apply input (with_savepoint sp res)]" by blast
  with savepoint_taken(1,6) show ?thesis
    by (intro exI [of _ "with_savepoint sp res"] exI [of _ h] exI [of _ ar])
       (auto simp: savepoint_events_silent)
qed

lemma rollout_validates_first:
  "rollout_spec input evs out \<Longrightarrow>
   \<exists>r rest. evs = EvValidate (rollout_validate_input input) r # rest \<and>
     ((\<exists>e. r = Inl e) \<longrightarrow> rest = [])"
  by (induction rule: rollout_spec.induct) auto

lemma gate_validations: "gate_spec input res evs out \<Longrightarrow> validations evs = []"
  by (induction rule: gate_spec.induct) (simp_all add: validations_def)

lemma savepoint_validations: "list_all is_savepoint_event evs \<Longrightarrow> validations evs = []"
  by (induction evs) (auto simp: validations_def elim!: is_savepoint_event.elims(2))

lemma body_validations: "body_spec input cls res evs out \<Longrightarrow> validations evs = []"
  by (induction rule: body_spec.induct)
     (auto simp: gate_validations savepoint_validations, simp add: validations_def gate_validations [unfolded validations_def])

text \<open>Exactly one validation per rollout, of its own input, and no apply unless it succeeded.\<close>

lemma rollout_validations:
  "rollout_spec input evs out \<Longrightarrow>
   \<exists>r. validations evs = [(rollout_validate_input input, r)] \<and> (applies evs \<noteq> [] \<longrightarrow> r = Inr ())"
  by (induction rule: rollout_spec.induct) (auto simp: body_validations validations_def
      dest!: body_validations [unfolded validations_def])

text \<open>C11. The capacity lease brackets the rollout: either no lease is granted and none released,
  or the lease is granted right after validation, it is released in the last event, on every path
  through the code, and nothing is granted or released in between.\<close>

theorem rollout_lease_bracket:
  "let h = fst (snd (RolloutWorkflow S wfid input ([], w))) in
   granted h = [] \<and> released h = [] \<or>
   (\<exists>v i l mid r. h = EvValidate v (Inr ()) # EvAcquire i (Inr l) # mid @ [EvRelease (lease_ID l) r] \<and>
      granted mid = [] \<and> released mid = [])"
proof -
  obtain evs where h: "fst (snd (RolloutWorkflow S wfid input ([], w))) = evs"
      and spec: "rollout_spec input evs (fst (RolloutWorkflow S wfid input ([], w)))"
    using rollout_refines [of S wfid input "([], w)"] by auto
  from spec show ?thesis
    unfolding h Let_def
    by (cases rule: rollout_spec.cases) (auto dest: body_leases)
qed

text \<open>Nothing is applied before validation has passed: a history with an apply begins with the
  validation of exactly this rollout's input, and that validation succeeded.\<close>

lemma rollout_apply_validated:
  assumes "RolloutWorkflow S wfid input ([], w) = (out, (h, w'))" and "applies h \<noteq> []"
  shows "\<exists>rest. h = EvValidate (rollout_validate_input input) (Inr ()) # rest"
proof -
  from assms(1) obtain evs where "h = evs" "rollout_spec input evs out"
    by (auto elim: RolloutWorkflow_spec)
  with assms(2) show ?thesis by (auto elim!: rollout_specE)
qed

fun is_apply :: "wf_event \<Rightarrow> bool" where
  "is_apply (EvApply a r) \<longleftrightarrow> True"
| "is_apply _ \<longleftrightarrow> False"

definition before_apply :: "wf_event list \<Rightarrow> wf_event list" where
  "before_apply h = takeWhile (\<lambda>e. \<not> is_apply e) h"

lemma before_apply_savepoints:
  "list_all is_savepoint_event pre \<Longrightarrow> before_apply (pre @ h) = pre @ before_apply h"
  unfolding before_apply_def
  by (rule takeWhile_append2) (auto simp: list_all_iff elim!: is_savepoint_event.elims(2))

lemma before_apply_Cons:
  "before_apply (e # h) = (if is_apply e then [] else e # before_apply h)"
  by (simp add: before_apply_def)

lemma gate_starts_with_apply:
  "gate_spec input res evs out \<Longrightarrow> \<exists>x rest. evs = EvApply (target_apply input res) x # rest"
  by (erule gate_specE) auto

lemma gate_apply_savepoint:
  "gate_spec input res evs out \<Longrightarrow> a \<in> set (applies evs) \<Longrightarrow>
   ap_Rollback a \<or> ap_SavepointURI a = ver_SavepointURI (rr_Version res)"
  by (drule gate_applies) (auto simp: target_apply_def restores_def)

lemma body_savepoint:
  assumes "body_spec input cls res evs out" "applies evs \<noteq> []"
    and "ri_Current input = Some cur" "cls_RequiresSavepoint cls"
  shows "\<exists>sp. (cur, sp) \<in> set (savepoints_taken (before_apply (evs @ post))) \<and>
     (\<forall>a \<in> set (applies evs). ap_Rollback a \<or> ap_SavepointURI a = sp_URI sp)"
  using assms(1,2)
proof (cases rule: body_gate)
  case direct
  then show ?thesis using assms(3,4) by (simp add: needs_savepoint_def)
next
  case (taken cur' sp b pre evs')
  obtain x rest where "evs' = EvApply (target_apply input (with_savepoint sp res)) x # rest"
    using gate_starts_with_apply [OF taken(5)] by blast
  then have "before_apply (evs @ post) = pre @ [EvObserveSavepoint b (Inr sp)]"
    using taken(3,4) by (simp add: before_apply_savepoints before_apply_Cons)
  moreover have "applies evs = applies evs'" using taken(3,4) by (simp add: savepoint_events_silent)
  moreover have "a \<in> set (applies evs') \<Longrightarrow> ap_Rollback a \<or> ap_SavepointURI a = sp_URI sp" for a
    using gate_apply_savepoint [OF taken(5)] by (simp add: with_savepoint_def)
  ultimately show ?thesis using taken(1,2) assms(3) by (intro exI [of _ sp]) simp
qed

text \<open>C12. Savepoint before apply: when the change requires a savepoint and a version is running,
  a savepoint of that running version completes before the first apply, and an apply that is not
  the restoring one starts from that savepoint.\<close>

theorem rollout_savepoint_before_apply:
  assumes "RolloutWorkflow S wfid input ([], w) = (out, (h, w'))" and "applies h \<noteq> []"
    and "ri_Current input = Some cur" and "cls_RequiresSavepoint (rollout_class input)"
  shows "\<exists>sp. (cur, sp) \<in> set (savepoints_taken (before_apply h)) \<and>
     (\<forall>a \<in> set (applies h). ap_Rollback a \<or> ap_SavepointURI a = sp_URI sp)"
proof -
  from assms(1) obtain evs where h: "h = evs" and "rollout_spec input evs out"
    by (auto elim: RolloutWorkflow_spec)
  from this(2) show ?thesis
  proof (cases rule: rollout_spec.cases)
    case (unleased now b u)
    with body_savepoint [OF unleased(3) _ assms(3,4), of "[]"] assms(2) h show ?thesis
      by (auto simp: before_apply_Cons)
  next
    case (leased i now lease b u r)
    with body_savepoint [OF leased(5) _ assms(3,4), of "[EvRelease (lease_ID lease) r]"] assms(2) h
    show ?thesis by (auto simp: before_apply_Cons)
  qed (use assms(2) h in simp_all)
qed

lemma rollout_spec_success:
  assumes spec: "rollout_spec input h (Some r, None)"
  shows "ver_VersionID (rr_Version r) = next_version_id (ri_Current input) \<and>
     ver_Spec (rr_Version r) = ri_Target input \<and>
     ver_ManifestHash (rr_Version r) = hash (json_spec (ri_Target input)) \<and>
     ver_JobArgsHash (rr_Version r) = hashMap (spec_JobArgs (ri_Target input)) \<and>
     ver_FlinkConfigHash (rr_Version r) = hashMap (spec_FlinkConfig (ri_Target input)) \<and>
     \<not> rr_RolledBack r \<and>
     (\<exists>hs. observations h = [hs] \<and> EvaluateHealth hs (ri_Policy input) = Inr () \<and>
        ver_HealthSummary (rr_Version r) = hs\<lparr>hs_Healthy := True\<rparr>) \<and>
     (\<exists>a. applies h = [a] \<and> \<not> ap_Rollback a \<and> ver_Spec (ap_Version a) = ri_Target input)"
proof -
  from spec obtain res b where body: "body_spec input (rollout_class input) res b (Some r, None)"
      and res: "\<exists>now l. res = initial_result input now l"
      and proj: "observations h = observations b" "applies h = applies b"
    by (cases rule: rollout_spec.cases) auto
  from body_success [OF body] obtain res' hs ar where r: "res' = res \<or> (\<exists>sp. res' = with_savepoint sp res)"
    "r = with_health (hs\<lparr>hs_Healthy := True\<rparr>) (with_generation ar res')"
    "EvaluateHealth hs (ri_Policy input) = Inr ()" "observations b = [hs]"
    "applies b = [target_apply input res']" by auto
  show ?thesis
    using r res proj
    by (auto simp: initial_result_def with_savepoint_def with_health_def with_generation_def
        target_apply_def BuildVersion_def)
qed

text \<open>C14. A delivered result means the gate passed: the version carries the next number, the target
  specification and its three hashes (of the manifest, of the job arguments and of the Flink
  configuration), the health the backend reported satisfied the policy and is marked
  healthy, and the target was applied exactly once with no restoring apply.\<close>

theorem rollout_success:
  assumes "RolloutWorkflow S wfid input ([], w) = (out, (h, w'))" and "delivered out = Inr r"
  shows "ver_VersionID (rr_Version r) = next_version_id (ri_Current input) \<and>
     ver_Spec (rr_Version r) = ri_Target input \<and>
     ver_ManifestHash (rr_Version r) = hash (json_spec (ri_Target input)) \<and>
     ver_JobArgsHash (rr_Version r) = hashMap (spec_JobArgs (ri_Target input)) \<and>
     ver_FlinkConfigHash (rr_Version r) = hashMap (spec_FlinkConfig (ri_Target input)) \<and>
     \<not> rr_RolledBack r \<and>
     (\<exists>hs. observations h = [hs] \<and> EvaluateHealth hs (ri_Policy input) = Inr () \<and>
        ver_HealthSummary (rr_Version r) = hs\<lparr>hs_Healthy := True\<rparr>) \<and>
     (\<exists>a. applies h = [a] \<and> \<not> ap_Rollback a \<and> ver_Spec (ap_Version a) = ri_Target input)"
proof -
  from assms(1) obtain evs where "h = evs" "rollout_spec input evs out"
    by (auto elim: RolloutWorkflow_spec)
  with assms(2) show ?thesis using rollout_spec_success [of input h r] by simp
qed

text \<open>C13. Automatic restore: when a version is running and the observed health fails the gate, the
  rollout delivers an error, and its last apply puts the specification of the running version back,
  after exactly one apply of the target.\<close>

theorem rollout_restores:
  assumes "RolloutWorkflow S wfid input ([], w) = (out, (h, w'))"
    and "ri_Current input = Some cur" and "hs \<in> set (observations h)"
    and "EvaluateHealth hs (ri_Policy input) = Inl err"
  shows "\<exists>a rb. applies h = [a, rb] \<and> \<not> ap_Rollback a \<and> ver_Spec (ap_Version a) = ri_Target input \<and>
     ap_Rollback rb \<and> ver_Spec (ap_Version rb) = ver_Spec cur \<and>
     ver_VersionID (ap_Version rb) = ver_VersionID cur \<and> (\<exists>e. delivered out = Inl e)"
proof -
  from assms(1) obtain evs where h: "h = evs" and spec: "rollout_spec input evs out"
    by (auto elim: RolloutWorkflow_spec)
  from spec obtain res b where body: "body_spec input (rollout_class input) res b out"
      and res: "ver_Spec (rr_Version res) = ri_Target input"
      and proj: "observations h = observations b" "applies h = applies b"
    using assms(3) h by (cases rule: rollout_spec.cases) (auto simp: initial_result_def BuildVersion_def)
  have obs: "hs \<in> set (observations b)" using assms(3) proj by simp
  from body obtain res' evs' where gate: "gate_spec input res' evs' out"
      and res': "ver_Spec (rr_Version res') = ri_Target input"
      and proj': "observations b = observations evs'" "applies b = applies evs'"
    using obs res
    by (cases rule: body_spec.cases) (auto simp: savepoint_events_silent with_savepoint_def)
  from gate_failed [OF gate _ assms(4,2)] obs proj'(1) obtain rb ar where
    "restores input (with_health hs (with_generation ar res')) cur rb"
    "applies evs' = [target_apply input res', rb]" "snd out \<noteq> None" by auto
  then show ?thesis
    using proj proj' res'
    by (intro exI [of _ "target_apply input res'"] exI [of _ rb]; cases out)
       (auto simp: restores_def target_apply_def)
qed

subsection \<open>Rollouts on an admitting backend\<close>

context admitting_backend
begin

lemma rollout_apply_admitted:
  assumes "\<And>opts. svc_ValidateDeployment S opts = validate"
    and "RolloutWorkflow S wfid input ([], w) = (out, (h, w'))" and "applies h \<noteq> []"
  shows "admitted (rollout_validate_input input)"
proof -
  obtain v w1 where v: "validate (rollout_validate_input input) w = (v, w1)"
    by (cases "validate (rollout_validate_input input) w")
  show ?thesis
  proof (cases v)
    case (Inl e)
    then have "h = [EvValidate (rollout_validate_input input) (Inl e)]"
      using assms(1,2) v
      by (auto simp: RolloutWorkflow_def Let_def ExecValidate_def execute_def)
    with assms(3) show ?thesis by simp
  next
    case (Inr u)
    with v validate_admitted show ?thesis by simp
  qed
qed

end

subsection \<open>Frames: what a rollout leaves alone in the world\<close>

text \<open>
  A predicate on history and world that the activities of the body keep is kept by the body; one that
  all activities keep is kept by the whole workflow. The interface is what a backend has to promise.
\<close>

locale body_frame =
  fixes S :: "'w services" and P :: "'w ctx \<Rightarrow> bool"
  assumes apply_keeps: "P c \<Longrightarrow> P (snd (ExecApply S opts a c))"
    and observe_keeps: "P c \<Longrightarrow> P (snd (ExecObserve S opts b c))"
    and trigger_keeps: "P c \<Longrightarrow> P (snd (ExecTrigger S opts t c))"
    and observe_savepoint_keeps: "P c \<Longrightarrow> P (snd (ExecObserveSavepoint S opts p c))"
    and child_keeps: "P c \<Longrightarrow> P (snd (execute (EvChild i) (svc_StartChild S i) c))"
begin

lemma ExecApply_keeps: "ExecApply S opts a ctx = (r, ctx') \<Longrightarrow> P ctx \<Longrightarrow> P ctx'"
  using apply_keeps [of ctx opts a] by simp

lemma ExecObserve_keeps: "ExecObserve S opts a ctx = (r, ctx') \<Longrightarrow> P ctx \<Longrightarrow> P ctx'"
  using observe_keeps [of ctx opts a] by simp

lemma ExecTrigger_keeps: "ExecTrigger S opts a ctx = (r, ctx') \<Longrightarrow> P ctx \<Longrightarrow> P ctx'"
  using trigger_keeps [of ctx opts a] by simp

lemma ExecObserveSavepoint_keeps: "ExecObserveSavepoint S opts a ctx = (r, ctx') \<Longrightarrow> P ctx \<Longrightarrow> P ctx'"
  using observe_savepoint_keeps [of ctx opts a] by simp

lemma child_frame:
  assumes "ExecuteChildWorkflow S i body ctx = (r, ctx')" "P ctx"
    and "\<And>c x c'. body c = (x, c') \<Longrightarrow> P c \<Longrightarrow> P c'"
  shows "P ctx'"
proof -
  obtain s ctx1 where s: "execute (EvChild i) (svc_StartChild S i) ctx = (s, ctx1)"
    by (cases "execute (EvChild i) (svc_StartChild S i) ctx")
  have 1: "P ctx1" using child_keeps [OF assms(2), of i] s by simp
  obtain x ctx2 where x: "body ctx1 = (x, ctx2)" by (cases "body ctx1")
  have "ctx' = ctx1 \<or> ctx' = ctx2"
    using assms(1) s x by (auto simp: ExecuteChildWorkflow_def split: sum.splits)
  with 1 assms(3) [OF x 1] show ?thesis by auto
qed

lemma SavepointWorkflow_keeps: "SavepointWorkflow S input ctx = (r, ctx') \<Longrightarrow> P ctx \<Longrightarrow> P ctx'"
  by (auto simp: SavepointWorkflow_def Let_def split: prod.splits sum.splits
      dest!: ExecTrigger_keeps ExecObserveSavepoint_keeps)

lemma rollout_apply_keeps:
  "rollout_apply S input res ctx = (out, ctx') \<Longrightarrow> P ctx \<Longrightarrow> P ctx'"
  by (auto simp: rollout_apply_def rollout_restore_def split: prod.splits sum.splits option.splits
      dest!: ExecApply_keeps ExecObserve_keeps)

lemma rollout_savepoint_keeps:
  assumes "rollout_savepoint S input cls res ctx = (r, ctx')" "P ctx"
  shows "P ctx'"
  using assms
  by (auto simp: rollout_savepoint_def split: prod.splits sum.splits option.splits if_splits
      elim!: child_frame SavepointWorkflow_keeps)

lemma rollout_body_keeps:
  assumes "rollout_body S input cls res ctx = (out, ctx')" "P ctx"
  shows "P ctx'"
  using assms
  by (auto simp: rollout_body_def split: prod.splits sum.splits
      dest!: rollout_savepoint_keeps rollout_apply_keeps)

end

locale world_frame = body_frame +
  fixes ok :: "ResourceShape \<Rightarrow> bool"
  assumes validate_keeps: "P c \<Longrightarrow> P (snd (ExecValidate S opts v c))"
    and acquire_keeps:
      "P c \<Longrightarrow> ok (ai_Resources i) \<Longrightarrow> P (snd (ExecAcquire S opts i c))"
    and release_keeps: "P c \<Longrightarrow> P (snd (ExecRelease S opts j c))"
    and set_state_keeps: "P c \<Longrightarrow> P (snd (ExecSetJobState S opts s c))"
    and audit_keeps: "P c \<Longrightarrow> P (snd (ExecAudit S opts e c))"
begin

lemma RolloutWorkflow_keeps:
  assumes "RolloutWorkflow S wfid input ctx = (out, ctx')" "P ctx"
    and "ok (spec_Resources (ri_Target input))"
  shows "P ctx'"
proof -
  note validate = validate_keeps [OF assms(2), of "rollout_opts input" "rollout_validate_input input"]
  have acquire: "P c \<Longrightarrow> P (snd (ExecAcquire S (rollout_opts input) (lease_input wfid input) c))" for c
    using acquire_keeps [of c "lease_input wfid input"] assms(3) by (simp add: lease_input_def)
  from assms(1) show ?thesis
  proof (cases rule: RolloutWorkflow_cases)
    case (unleased ctx1)
    with validate rollout_body_keeps [OF unleased(3)] show ?thesis by simp
  next
    case (leased ctx1 lease ctx2 ctx3 r)
    with validate acquire [of ctx1] have "P ctx2" by simp
    from rollout_body_keeps [OF leased(4) this] show ?thesis
      using release_keeps [of ctx3 "rollout_opts input" "lease_ID lease"] leased(5) by simp
  next
    case (lease_refused ctx1 e)
    with validate acquire [of ctx1] show ?thesis by simp
  qed (use validate in simp)
qed

end

subsection \<open>Services that admit\<close>

text \<open>The contract of \<open>admitting_backend\<close> for the activities a workflow calls: their validation lets through
  only what \<open>ValidateSpec\<close> does.\<close>

definition admitting_services :: "'w services \<Rightarrow> bool" where
  "admitting_services S \<longleftrightarrow>
     (\<forall>opts i w. fst (svc_ValidateDeployment S opts i w) = Inr () \<longrightarrow> ValidateSpec i = Inr ())"

context admitting_backend
begin

lemma services_admit: "(\<And>opts. svc_ValidateDeployment S opts = validate) \<Longrightarrow> admitting_services S"
  using validate_sound by (simp add: admitting_services_def)

end

text \<open>Every validation that a history shows as passed was admitted.\<close>

definition trace_admitted :: "'w ctx \<Rightarrow> bool" where
  "trace_admitted c \<longleftrightarrow> (\<forall>v. EvValidate v (Inr ()) \<in> set (fst c) \<longrightarrow> admitted v)"

lemma admitting_frame:
  assumes "admitting_services S"
  shows "world_frame S trace_admitted (\<lambda>_. True)"
proof unfold_locales
  fix c :: "'a ctx" and opts v
  assume "trace_admitted c"
  moreover have "admitted v" if "fst (svc_ValidateDeployment S opts v (snd c)) = Inr ()"
    using assms that ValidateSpec_ok [of v] unfolding admitting_services_def by blast
  ultimately show "trace_admitted (snd (ExecValidate S opts v c))"
    by (auto simp: trace_admitted_def exec_defs execute_snd)
qed (simp_all add: trace_admitted_def exec_defs execute_snd)

end
