(* ===== verification/Deployment_Actor.thy ===== *)
theory Deployment_Actor
  imports Rollout
begin

text \<open>
  The deployment actor (workflows/deployment_actor.go): one long-lived workflow per deployment that
  takes commands from a signal channel, runs each to its end, records it, and continues as new
  after a number of commands. The whole handler is here: every command, the bookkeeping around it,
  the queries, the compaction, the loop, and what Temporal's JSON does to the state in between.
\<close>

subsection \<open>JSON transport\<close>

text \<open>
  Signals, workflow inputs and results travel as JSON. An empty map is left out of it and comes back
  as nil; pointers come back as pointers to fresh cells, each its own.
\<close>

definition wire_map :: "('k, 'v) go_map \<Rightarrow> ('k, 'v) go_map" where
  "wire_map m = (if entries m = [] then None else m)"

definition wire_spec :: "DeploymentSpec \<Rightarrow> DeploymentSpec" where
  "wire_spec s =
     s\<lparr>spec_JobArgs := wire_map (spec_JobArgs s), spec_FlinkConfig := wire_map (spec_FlinkConfig s)\<rparr>"

definition wire_version :: "DeploymentVersion \<Rightarrow> DeploymentVersion" where
  "wire_version v = v\<lparr>ver_Spec := wire_spec (ver_Spec v)\<rparr>"

definition wire_command :: "DeploymentCommand \<Rightarrow> DeploymentCommand" where
  "wire_command c = c\<lparr>cmd_TargetSpec := map_option wire_spec (cmd_TargetSpec c)\<rparr>"

definition reload :: "DeploymentActorState \<Rightarrow> DeploymentActorState" where
  "reload st =
     (let cur = map_option wire_version (deref st (st_CurrentVersion st));
          healthy = map_option wire_version (deref st (st_LastHealthyVersion st))
      in st\<lparr>st_heap := (case cur of None \<Rightarrow> [] | Some v \<Rightarrow> [v]) @ (case healthy of None \<Rightarrow> [] | Some v \<Rightarrow> [v]),
            st_CurrentVersion := map_option (\<lambda>_. 0) cur,
            st_LastHealthyVersion := map_option (\<lambda>_. case cur of None \<Rightarrow> 0 | Some _ \<Rightarrow> 1) healthy,
            st_Versions := map wire_version (st_Versions st),
            st_ProcessedKeys := wire_map (st_ProcessedKeys st),
            st_Pending := map wire_command (st_Pending st)\<rparr>)"

subsection \<open>Start, queries, compaction\<close>

record DeploymentActorInput =
  da_State :: DeploymentActorState
  da_ActivityTaskQueue :: string

definition normalizeState :: "DeploymentActorState \<Rightarrow> DeploymentActorState" where
  "normalizeState st =
     (let st1 = (if st_SchemaVersion st = 0 then st\<lparr>st_SchemaVersion := 1\<rparr> else st);
          st2 = (if Policy_is_zero (st_Policy st1)
                 then st1\<lparr>st_Policy := DefaultPolicy (id_Environment (st_Identity st1))\<rparr> else st1);
          st3 = (if st_Status st2 = ActorUnset then st2\<lparr>st_Status := ActorIdle\<rparr> else st2);
          st4 = (if st_ProcessedKeys st3 = None then st3\<lparr>st_ProcessedKeys := Some []\<rparr> else st3)
      in if go_le (st_ContinueAfter st4) 0 then st4\<lparr>st_ContinueAfter := 500\<rparr> else st4)"

text \<open>\<open>version\<close> is Temporal's answer to \<open>GetVersion\<close>: 1 in a new run, -1 in the replay of a run
  older than the change.\<close>

definition actor_init :: "go_int \<Rightarrow> DeploymentActorInput \<Rightarrow> DeploymentActorState" where
  "actor_init version input =
     (let st = reload (da_State input)
      in normalizeState (if go_le 1 version then st\<lparr>st_SchemaVersion := 1\<rparr> else st))"

definition keep_last :: "nat \<Rightarrow> 'a list \<Rightarrow> 'a list" where
  "keep_last n xs = (if n < length xs then drop (length xs - n) xs else xs)"

definition compact :: "DeploymentActorState \<Rightarrow> DeploymentActorState" where
  "compact st =
     (let operations = keep_last 50 (st_Operations st)
      in st\<lparr>st_Operations := operations,
            st_Versions := keep_last 50 (st_Versions st),
            st_ProcessedKeys :=
              fold (\<lambda>operation. map_put (rec_IdempotencyKey operation) (rec_OperationID operation))
                operations (Some [])\<rparr>)"

definition view :: "DeploymentActorState \<Rightarrow> DeploymentActorView" where
  "view st =
     \<lparr>view_Identity = st_Identity st,
      view_Status = st_Status st,
      view_CurrentVersion = deref st (st_CurrentVersion st),
      view_LastHealthyVersion = deref st (st_LastHealthyVersion st),
      view_LastSavepoint = st_LastSavepoint st,
      view_ActiveOperation = st_ActiveOperation st,
      view_PendingOperations = length (st_Pending st),
      view_RecentOperations = keep_last 20 (st_Operations st),
      view_AutoscalerEnabled = st_AutoscalerEnabled st,
      view_AutoscalerFrozen = st_AutoscalerFrozen st,
      view_LastError = st_LastError st\<rparr>"

subsection \<open>Commands\<close>

text \<open>
  The record of the running operation and the pointer \<open>ActiveOperation\<close> are one cell: while an
  operation runs, the record is the content of \<open>st_ActiveOperation\<close>.
\<close>

definition upd_record :: "(OperationRecord \<Rightarrow> OperationRecord) \<Rightarrow> DeploymentActorState \<Rightarrow> DeploymentActorState" where
  "upd_record f st = st\<lparr>st_ActiveOperation := map_option f (st_ActiveOperation st)\<rparr>"

definition actor_child_id :: "string \<Rightarrow> DeploymentIdentity \<Rightarrow> string \<Rightarrow> string" where
  "actor_child_id kind d op =
     kind @ ''/'' @ id_Environment d @ ''/'' @ id_Namespace d @ ''/'' @ id_Name d @ ''/'' @ op"

definition rollout_input :: "string \<Rightarrow> DeploymentCommand \<Rightarrow> DeploymentSpec \<Rightarrow> DeploymentActorState \<Rightarrow> RolloutInput" where
  "rollout_input taskQueue command target st =
     \<lparr>ri_Identity = st_Identity st, ri_Current = deref st (st_CurrentVersion st),
      ri_Target = target, ri_Policy = st_Policy st, ri_OperationID = cmd_OperationID command,
      ri_Approved = cmd_Approved command, ri_Incident = cmd_Incident command,
      ri_ActivityTaskQueue = taskQueue\<rparr>"

text \<open>Lines 167 to 171: one new cell holds the version, and both pointers point to it.\<close>

definition install_version :: "DeploymentVersion \<Rightarrow> DeploymentActorState \<Rightarrow> DeploymentActorState" where
  "install_version v st =
     (let a = length (st_heap st)
      in upd_record (rec_Result_update (\<lambda>_. ''deployment version '' @ itoa (ver_VersionID v) @ '' is healthy''))
           (st\<lparr>st_heap := st_heap st @ [v], st_CurrentVersion := Some a, st_LastHealthyVersion := Some a,
               st_Versions := st_Versions st @ [v],
               st_AutoscalerEnabled := spec_AutoscalerEnabled (ver_Spec v)\<rparr>))"

text \<open>A child that fails delivers no result, so on an error the result the code looks at (lines 158
  to 163) is the zero value and neither the lease nor the savepoint is recorded.\<close>

definition deploy ::
  "'w services \<Rightarrow> string \<Rightarrow> DeploymentCommand \<Rightarrow> DeploymentActorState \<Rightarrow> 'w ctx \<Rightarrow>
   unit result \<times> DeploymentActorState \<times> 'w ctx" where
  "deploy S taskQueue command st ctx =
     (case cmd_TargetSpec command of
        None \<Rightarrow> (Inl ''targetSpec is required'', st, ctx)
      | Some target \<Rightarrow>
          let childID = actor_child_id ''flink-rollout'' (st_Identity st) (cmd_OperationID command);
              st1 = upd_record (rec_ChildWorkflowID_update (\<lambda>_. childID)) st
          in case ExecuteChildWorkflow S childID
                    (\<lambda>c. apfst delivered (RolloutWorkflow S childID (rollout_input taskQueue command target st) c))
                    ctx of
               (Inl err, ctx1) \<Rightarrow> (Inl err, st1, ctx1)
             | (Inr result, ctx1) \<Rightarrow>
                 let st2 = (if rr_LeaseID result \<noteq> []
                            then upd_record (rec_LeaseID_update (\<lambda>_. rr_LeaseID result)) st1 else st1);
                     st3 = (case rr_Savepoint result of
                              Some sp \<Rightarrow> st2\<lparr>st_LastSavepoint := Some sp\<rparr> | None \<Rightarrow> st2)
                 in (Inr (), install_version (rr_Version result) st3, ctx1))"

definition savepoint ::
  "'w services \<Rightarrow> string \<Rightarrow> DeploymentCommand \<Rightarrow> DeploymentActorState \<Rightarrow> 'w ctx \<Rightarrow>
   unit result \<times> DeploymentActorState \<times> 'w ctx" where
  "savepoint S taskQueue command st ctx =
     (case deref st (st_CurrentVersion st) of
        None \<Rightarrow> (Inl ''cannot savepoint before a deployment version exists'', st, ctx)
      | Some current \<Rightarrow>
          let childID = actor_child_id ''flink-savepoint'' (st_Identity st) (cmd_OperationID command);
              st1 = upd_record (rec_ChildWorkflowID_update (\<lambda>_. childID)) st
          in case ExecuteChildWorkflow S childID
                    (SavepointWorkflow S
                       \<lparr>si_Identity = st_Identity st, si_Version = current, si_ActivityTaskQueue = taskQueue\<rparr>)
                    ctx of
               (Inl err, ctx1) \<Rightarrow> (Inl err, st1, ctx1)
             | (Inr result, ctx1) \<Rightarrow>
                 (Inr (), upd_record (rec_Result_update (\<lambda>_. sp_URI result))
                            (st1\<lparr>st_LastSavepoint := Some result\<rparr>), ctx1))"

definition setState ::
  "'w services \<Rightarrow> string \<Rightarrow> string \<Rightarrow> DeploymentActorState \<Rightarrow> 'w ctx \<Rightarrow> unit result \<times> 'w ctx" where
  "setState S taskQueue desired st ctx =
     (case st_CurrentVersion st of
        None \<Rightarrow> (Inl ''cannot change job state before a deployment version exists'', ctx)
      | Some _ \<Rightarrow>
          ExecSetJobState S (withActivities taskQueue)
            \<lparr>sj_Identity = st_Identity st, sj_State = desired\<rparr> ctx)"

definition rollback_target :: "DeploymentCommand \<Rightarrow> DeploymentActorState \<Rightarrow> DeploymentVersion option" where
  "rollback_target command st =
     (case find (\<lambda>v. ver_VersionID v = cmd_TargetVersion command) (st_Versions st) of
        Some v \<Rightarrow> Some v
      | None \<Rightarrow> deref st (st_LastHealthyVersion st))"

definition rollback ::
  "'w services \<Rightarrow> string \<Rightarrow> DeploymentCommand \<Rightarrow> DeploymentActorState \<Rightarrow> 'w ctx \<Rightarrow>
   unit result \<times> DeploymentActorState \<times> 'w ctx" where
  "rollback S taskQueue command st ctx =
     (case rollback_target command st of
        None \<Rightarrow> (Inl ''rollback target was not found'', st, ctx)
      | Some target \<Rightarrow>
          deploy S taskQueue (command\<lparr>cmd_TargetSpec := Some (ver_Spec target), cmd_Approved := True\<rparr>) st ctx)"

definition resume ::
  "'w services \<Rightarrow> string \<Rightarrow> DeploymentActorState \<Rightarrow> 'w ctx \<Rightarrow>
   unit result \<times> DeploymentActorState \<times> 'w ctx" where
  "resume S taskQueue st ctx =
     (case setState S taskQueue ''RUNNING'' st ctx of
        (Inl err, ctx1) \<Rightarrow> (Inl err, st, ctx1)
      | (Inr _, ctx1) \<Rightarrow>
          (case st_CurrentVersion st of
             None \<Rightarrow> (Inr (), st, ctx1)
           | Some a \<Rightarrow>
               (case ExecObserve S (withActivities taskQueue)
                       \<lparr>oi_Identity = st_Identity st, oi_Version = st_heap st ! a\<rparr> ctx1 of
                  (Inl err, ctx2) \<Rightarrow> (Inl err, st, ctx2)
                | (Inr health, ctx2) \<Rightarrow>
                    (Inr (), st\<lparr>st_heap := (st_heap st)[a := (st_heap st ! a)\<lparr>ver_HealthSummary := health\<rparr>]\<rparr>,
                     ctx2))))"

definition scale ::
  "'w services \<Rightarrow> string \<Rightarrow> DeploymentCommand \<Rightarrow> DeploymentActorState \<Rightarrow> 'w ctx \<Rightarrow>
   unit result \<times> DeploymentActorState \<times> 'w ctx" where
  "scale S taskQueue command st ctx =
     (case deref st (st_CurrentVersion st) of
        None \<Rightarrow> (Inl ''cannot scale before a deployment version exists'', st, ctx)
      | Some current \<Rightarrow>
          if st_AutoscalerEnabled st \<and> \<not> st_AutoscalerFrozen st
          then (Inl ''manual scale rejected while autoscaler is enabled and not frozen'', st, ctx)
          else deploy S taskQueue
                 (command\<lparr>cmd_TargetSpec := Some ((ver_Spec current)\<lparr>spec_Parallelism := cmd_Parallelism command\<rparr>)\<rparr>)
                 st ctx)"

text \<open>The switch of lines 87 to 110.\<close>

definition dispatch ::
  "'w services \<Rightarrow> string \<Rightarrow> DeploymentCommand \<Rightarrow> DeploymentActorState \<Rightarrow> 'w ctx \<Rightarrow>
   unit result \<times> DeploymentActorState \<times> 'w ctx" where
  "dispatch S taskQueue command st ctx =
     (case cmd_Type command of
        CommandDeployVersion \<Rightarrow> deploy S taskQueue command st ctx
      | CommandRequestSavepoint \<Rightarrow> savepoint S taskQueue command st ctx
      | CommandSuspend \<Rightarrow>
          (case setState S taskQueue ''SUSPENDED'' st ctx of
             (Inl err, ctx1) \<Rightarrow> (Inl err, st, ctx1)
           | (Inr _, ctx1) \<Rightarrow> (Inr (), st\<lparr>st_Status := ActorSuspended\<rparr>, ctx1))
      | CommandResume \<Rightarrow> resume S taskQueue st ctx
      | CommandRollback \<Rightarrow> rollback S taskQueue command st ctx
      | CommandScaleTo \<Rightarrow> scale S taskQueue command st ctx
      | CommandEnableAutoscaler \<Rightarrow> (Inr (), st\<lparr>st_AutoscalerEnabled := True\<rparr>, ctx)
      | CommandFreezeAutoscaler \<Rightarrow> (Inr (), st\<lparr>st_AutoscalerFrozen := True\<rparr>, ctx)
      | CommandContinueAsNew \<Rightarrow> (Inr (), st, ctx)
      | CommandOther s \<Rightarrow> (Inl (''unsupported command type '' @ percent_q s), st, ctx))"

text \<open>Lines 112 to 137: the outcome is written into the record, the key is marked, the audit event is
  sent and its outcome ignored.\<close>

definition close_record :: "unit result \<Rightarrow> go_time \<Rightarrow> OperationRecord \<Rightarrow> OperationRecord" where
  "close_record err now record =
     (let record = record\<lparr>rec_CompletedAt := now\<rparr>
      in case err of
           Inl e \<Rightarrow> record\<lparr>rec_Status := OperationFailed, rec_Result := e\<rparr>
         | Inr _ \<Rightarrow> record\<lparr>rec_Status := OperationSucceeded,
             rec_Result := (if rec_Result record = [] then ''completed'' else rec_Result record)\<rparr>)"

definition settle :: "DeploymentCommand \<Rightarrow> unit result \<Rightarrow> go_time \<Rightarrow> DeploymentActorState \<Rightarrow> DeploymentActorState" where
  "settle command err now st =
     (let st1 = (case err of
                   Inl e \<Rightarrow> st\<lparr>st_Status := ActorFailed, st_LastError := e\<rparr>
                 | Inr _ \<Rightarrow> if st_Status st \<noteq> ActorSuspended then st\<lparr>st_Status := ActorIdle\<rparr> else st)
      in st1\<lparr>st_Operations := st_Operations st1 @ [close_record err now (the (st_ActiveOperation st))],
             st_ProcessedKeys := map_put (cmd_IdempotencyKey command) (cmd_OperationID command) (st_ProcessedKeys st1),
             st_ActiveOperation := None\<rparr>)"

definition audit_event :: "DeploymentCommand \<Rightarrow> DeploymentActorState \<Rightarrow> AuditEvent" where
  "audit_event command st =
     (let record = last (st_Operations st)
      in \<lparr>ae_Identity = st_Identity st, ae_OperationID = cmd_OperationID command,
          ae_Type = CommandType_string (cmd_Type command), ae_Message = rec_Result record,
          ae_At = rec_CompletedAt record\<rparr>)"

definition command_key :: "DeploymentCommand \<Rightarrow> string" where
  "command_key command =
     (if cmd_IdempotencyKey command = [] then cmd_OperationID command else cmd_IdempotencyKey command)"

definition open_operation :: "DeploymentCommand \<Rightarrow> go_time \<Rightarrow> DeploymentActorState \<Rightarrow> DeploymentActorState" where
  "open_operation command now st =
     st\<lparr>st_ActiveOperation := Some
          \<lparr>rec_OperationID = cmd_OperationID command, rec_IdempotencyKey = cmd_IdempotencyKey command,
           rec_Requester = cmd_Requester command, rec_CommandType = cmd_Type command,
           rec_Status = OperationRunning, rec_ChildWorkflowID = [], rec_LeaseID = [], rec_Result = [],
           rec_StartedAt = now, rec_CompletedAt = 0\<rparr>,
        st_Status := ActorOperating, st_LastError := []\<rparr>"

definition processCommand ::
  "'w services \<Rightarrow> string \<Rightarrow> DeploymentCommand \<Rightarrow> DeploymentActorState \<Rightarrow> 'w ctx \<Rightarrow>
   DeploymentActorState \<times> 'w ctx" where
  "processCommand S taskQueue command0 st ctx =
     (let command1 = command0\<lparr>cmd_IdempotencyKey := command_key command0\<rparr>
      in if map_has (st_ProcessedKeys st) (cmd_IdempotencyKey command1) then (st, ctx)
         else
           let now = workflow_now S ctx;
               command = (if cmd_RequestedAt command1 = 0 then command1\<lparr>cmd_RequestedAt := now\<rparr> else command1)
           in case dispatch S taskQueue command (open_operation command now st) ctx of
                (err, st1, ctx1) \<Rightarrow>
                  let st2 = settle command err (workflow_now S ctx1) st1
                  in (st2, snd (ExecAudit S (withActivities taskQueue) (audit_event command st2) ctx1)))"

subsection \<open>The loop\<close>

text \<open>An actor either waits for the next signal or ends its run to continue as new.\<close>

datatype actor_exit = Waiting DeploymentActorState | ContinueAsNew DeploymentActorState

lemma upd_record_Pending [simp]: "st_Pending (upd_record f st) = st_Pending st"
  by (simp add: upd_record_def)

lemma install_version_Pending [simp]: "st_Pending (install_version v st) = st_Pending st"
  by (simp add: install_version_def Let_def)

lemma deploy_Pending: "deploy S q command st ctx = (r, st', ctx') \<Longrightarrow> st_Pending st' = st_Pending st"
  by (auto simp: deploy_def Let_def split: option.splits prod.splits sum.splits)

lemma dispatch_Pending: "dispatch S q command st ctx = (r, st', ctx') \<Longrightarrow> st_Pending st' = st_Pending st"
  by (auto simp: dispatch_def savepoint_def setState_def rollback_def resume_def scale_def Let_def
      split: CommandType.splits option.splits prod.splits sum.splits if_splits dest: deploy_Pending)

lemma processCommand_Pending [simp]:
  "st_Pending (fst (processCommand S q command st ctx)) = st_Pending st"
  by (auto simp: processCommand_def settle_def open_operation_def Let_def
      split: prod.splits sum.splits dest: dispatch_Pending)

text \<open>The inner loop, until nothing is pending. The counter wraps as Go's does.\<close>

function drain ::
  "'w services \<Rightarrow> string \<Rightarrow> DeploymentActorState \<Rightarrow> 'w ctx \<Rightarrow> actor_exit \<times> 'w ctx" where
  "drain S taskQueue st ctx =
     (case st_Pending st of
        [] \<Rightarrow> (Waiting st, ctx)
      | command # rest \<Rightarrow>
          (case processCommand S taskQueue command (st\<lparr>st_Pending := rest\<rparr>) ctx of
             (st1, ctx1) \<Rightarrow>
               let st2 = st1\<lparr>st_ProcessedEventCount := st_ProcessedEventCount st1 + 1\<rparr>
               in if cmd_Type command = CommandContinueAsNew \<or>
                     go_le (st_ContinueAfter st2) (st_ProcessedEventCount st2)
                  then (ContinueAsNew (compact (st2\<lparr>st_ActiveOperation := None, st_ProcessedEventCount := 0\<rparr>)), ctx1)
                  else drain S taskQueue st2 ctx1))"
  by pat_completeness auto

termination
proof (relation "measure (\<lambda>(S, q, st, ctx). length (st_Pending st))")
  fix S :: "'w services" and q st ctx command rest st1 ctx1 st2
  assume st: "st_Pending st = command # rest"
    and run: "(st1, ctx1) = processCommand S q command (st\<lparr>st_Pending := rest\<rparr>) ctx"
    and st2: "st2 = st1\<lparr>st_ProcessedEventCount := st_ProcessedEventCount st1 + 1\<rparr>"
  from run have "st1 = fst (processCommand S q command (st\<lparr>st_Pending := rest\<rparr>) ctx)"
    by (metis fst_conv)
  with st st2 show "((S, q, st2, ctx1), (S, q, st, ctx)) \<in> measure (\<lambda>(S, q, st, ctx). length (st_Pending st))"
    by simp
qed simp

declare drain.simps [simp del]

text \<open>
  A run on the signals its channel receives, in order. When the run ends, the signals its channel
  still holds are returned; the code does not read them.
\<close>

fun actor_run ::
  "'w services \<Rightarrow> string \<Rightarrow> DeploymentActorState \<Rightarrow> DeploymentCommand list \<Rightarrow> 'w ctx \<Rightarrow>
   actor_exit \<times> DeploymentCommand list \<times> 'w ctx" where
  "actor_run S taskQueue st [] ctx = (Waiting st, [], ctx)"
| "actor_run S taskQueue st (command # signals) ctx =
     (case drain S taskQueue (st\<lparr>st_Pending := st_Pending st @ [wire_command command]\<rparr>) ctx of
        (Waiting st1, ctx1) \<Rightarrow> actor_run S taskQueue st1 signals ctx1
      | (ContinueAsNew st1, ctx1) \<Rightarrow> (ContinueAsNew st1, signals, ctx1))"

definition DeploymentActorWorkflow ::
  "'w services \<Rightarrow> go_int \<Rightarrow> DeploymentActorInput \<Rightarrow> DeploymentCommand list \<Rightarrow> 'w ctx \<Rightarrow>
   actor_exit \<times> DeploymentCommand list \<times> 'w ctx" where
  "DeploymentActorWorkflow S version input signals ctx =
     actor_run S (da_ActivityTaskQueue input) (actor_init version input) signals ctx"

subsection \<open>What an operation may do: the specification\<close>

definition deploys :: "DeploymentCommand \<Rightarrow> bool" where
  "deploys c \<longleftrightarrow> cmd_Type c \<in> {CommandDeployVersion, CommandRollback, CommandScaleTo}"

text \<open>The specification a deploying command asks for, in a given state.\<close>

definition wanted_spec :: "DeploymentCommand \<Rightarrow> DeploymentActorState \<Rightarrow> DeploymentSpec option" where
  "wanted_spec c st =
     (case cmd_Type c of
        CommandDeployVersion \<Rightarrow> cmd_TargetSpec c
      | CommandRollback \<Rightarrow> map_option ver_Spec (rollback_target c st)
      | CommandScaleTo \<Rightarrow>
          map_option (\<lambda>v. (ver_Spec v)\<lparr>spec_Parallelism := cmd_Parallelism c\<rparr>) (deref st (st_CurrentVersion st))
      | _ \<Rightarrow> None)"

text \<open>While an operation runs, its record keeps saying whose it is.\<close>

definition keeps_record :: "(OperationRecord \<Rightarrow> OperationRecord) \<Rightarrow> bool" where
  "keeps_record f \<longleftrightarrow>
     (\<forall>r. rec_OperationID (f r) = rec_OperationID r \<and> rec_IdempotencyKey (f r) = rec_IdempotencyKey r \<and>
          rec_Requester (f r) = rec_Requester r \<and> rec_CommandType (f r) = rec_CommandType r \<and>
          rec_StartedAt (f r) = rec_StartedAt r)"

inductive op_result ::
  "DeploymentCommand \<Rightarrow> DeploymentActorState \<Rightarrow> unit result \<Rightarrow> DeploymentActorState \<Rightarrow> bool"
  for c st where
  failed:
    "op_result c st (Inl e) (upd_record (rec_ChildWorkflowID_update f) st)"
| deployed:
    "deploys c \<Longrightarrow> wanted_spec c st = Some (ver_Spec v) \<Longrightarrow>
     ver_VersionID v = next_version_id (deref st (st_CurrentVersion st)) \<Longrightarrow>
     ver_ManifestHash v = hash (json_spec (ver_Spec v)) \<Longrightarrow>
     hs_Healthy (ver_HealthSummary v) \<Longrightarrow> keeps_record f \<Longrightarrow>
     op_result c st (Inr ()) (install_version v (upd_record f (st\<lparr>st_LastSavepoint := sp\<rparr>)))"
| savepoint_taken:
    "cmd_Type c = CommandRequestSavepoint \<Longrightarrow> st_CurrentVersion st \<noteq> None \<Longrightarrow> keeps_record f \<Longrightarrow>
     op_result c st (Inr ()) (upd_record f (st\<lparr>st_LastSavepoint := Some sp\<rparr>))"
| suspended:
    "cmd_Type c = CommandSuspend \<Longrightarrow> st_CurrentVersion st \<noteq> None \<Longrightarrow>
     op_result c st (Inr ()) (st\<lparr>st_Status := ActorSuspended\<rparr>)"
| resumed:
    "cmd_Type c = CommandResume \<Longrightarrow> st_CurrentVersion st = Some a \<Longrightarrow>
     op_result c st (Inr ()) (st\<lparr>st_heap := (st_heap st)[a := (st_heap st ! a)\<lparr>ver_HealthSummary := h\<rparr>]\<rparr>)"
| autoscaler_enabled:
    "cmd_Type c = CommandEnableAutoscaler \<Longrightarrow> op_result c st (Inr ()) (st\<lparr>st_AutoscalerEnabled := True\<rparr>)"
| autoscaler_frozen:
    "cmd_Type c = CommandFreezeAutoscaler \<Longrightarrow> op_result c st (Inr ()) (st\<lparr>st_AutoscalerFrozen := True\<rparr>)"
| nothing:
    "cmd_Type c = CommandContinueAsNew \<Longrightarrow> op_result c st (Inr ()) st"

inductive_cases op_resultE: "op_result c st r st'"
inductive_cases op_failedE: "op_result c st (Inl e) st'"

lemma keeps_record_id [simp]: "keeps_record (\<lambda>r. r)"
  by (simp add: keeps_record_def)

lemma keeps_record_updates [simp]:
  "keeps_record (rec_ChildWorkflowID_update f)" "keeps_record (rec_LeaseID_update f)"
  "keeps_record (rec_Result_update f)"
  by (simp_all add: keeps_record_def)

lemma keeps_record_comp: "keeps_record f \<Longrightarrow> keeps_record g \<Longrightarrow> keeps_record (\<lambda>r. f (g r))"
  by (simp add: keeps_record_def)

lemma upd_record_id [simp]: "upd_record (\<lambda>r. r) st = st"
  by (simp add: upd_record_def map_option.identity [unfolded id_def])

lemma upd_child_id [simp]: "upd_record (rec_ChildWorkflowID_update (\<lambda>i. i)) st = st"
proof -
  have "rec_ChildWorkflowID_update (\<lambda>i. i) = (\<lambda>r :: OperationRecord. r)" by (rule ext) simp
  then show ?thesis by simp
qed

lemma upd_record_comp: "upd_record f (upd_record g st) = upd_record (\<lambda>r. f (g r)) st"
  by (simp add: upd_record_def option.map_comp comp_def)

lemma failed_unchanged: "op_result c st (Inl e) st"
  using op_result.failed [of c st e "\<lambda>i. i"] by simp

text \<open>The result a rollout delivers to the actor.\<close>

lemma rollout_delivers:
  assumes "RolloutWorkflow S wfid input ctx = (out, ctx')" "delivered out = Inr r"
  shows "ver_VersionID (rr_Version r) = next_version_id (ri_Current input)"
    "ver_Spec (rr_Version r) = ri_Target input"
    "ver_ManifestHash (rr_Version r) = hash (json_spec (ri_Target input))"
    "hs_Healthy (ver_HealthSummary (rr_Version r))"
proof -
  obtain h w where "ctx' = (h, w)" by (cases ctx')
  with assms(1) obtain evs where "rollout_spec input evs out" by (auto elim: RolloutWorkflow_spec)
  with assms(2) have "rollout_spec input evs (Some r, None)" by simp
  from rollout_spec_success [OF this]
  show "ver_VersionID (rr_Version r) = next_version_id (ri_Current input)"
    "ver_Spec (rr_Version r) = ri_Target input"
    "ver_ManifestHash (rr_Version r) = hash (json_spec (ri_Target input))"
    "hs_Healthy (ver_HealthSummary (rr_Version r))" by auto
qed

lemma child_delivers:
  assumes "ExecuteChildWorkflow S i (\<lambda>k. apfst delivered (W k)) ctx = (Inr res, ctx')"
  obtains ctx0 out where "W ctx0 = (out, ctx')" "delivered out = Inr res"
  using assms
proof (cases rule: ExecuteChildWorkflow_cases)
  case (2 u ctx1 b)
  obtain out c where W: "W ctx1 = (out, c)" by (cases "W ctx1")
  with 2 have "delivered out = Inr res" "c = ctx'" by (auto split: sum.splits)
  with W that show thesis by simp
qed simp

lemma deploy_cases:
  assumes "deploy S q c st ctx = (r, st', ctx')"
  obtains (failed) e f where "r = Inl e" "st' = upd_record (rec_ChildWorkflowID_update f) st"
  | (deployed) v f sp where "r = Inr ()" "cmd_TargetSpec c = Some (ver_Spec v)"
      "ver_VersionID v = next_version_id (deref st (st_CurrentVersion st))"
      "ver_ManifestHash v = hash (json_spec (ver_Spec v))" "hs_Healthy (ver_HealthSummary v)"
      "keeps_record f" "st' = install_version v (upd_record f (st\<lparr>st_LastSavepoint := sp\<rparr>))"
proof (cases "cmd_TargetSpec c")
  case None
  then have "r = Inl ''targetSpec is required''" "st' = upd_record (rec_ChildWorkflowID_update (\<lambda>i. i)) st"
    using assms by (simp_all add: deploy_def)
  then show thesis by (rule failed)
next
  case (Some target)
  let ?id = "actor_child_id ''flink-rollout'' (st_Identity st) (cmd_OperationID c)"
  let ?body = "\<lambda>k. apfst delivered (RolloutWorkflow S ?id (rollout_input q c target st) k)"
  let ?st1 = "upd_record (rec_ChildWorkflowID_update (\<lambda>_. ?id)) st"
  obtain x ctx1 where x: "ExecuteChildWorkflow S ?id ?body ctx = (x, ctx1)"
    by (cases "ExecuteChildWorkflow S ?id ?body ctx")
  show thesis
  proof (cases x)
    case (Inl e)
    then show thesis
      using assms Some x failed [of e "\<lambda>_. ?id"] by (simp add: deploy_def Let_def)
  next
    case (Inr res)
    from x Inr obtain ctx0 out where out: "RolloutWorkflow S ?id (rollout_input q c target st) ctx0 = (out, ctx1)"
        "delivered out = Inr res"
      by (auto elim: child_delivers)
    note facts = rollout_delivers [OF out]
    define f :: "OperationRecord \<Rightarrow> OperationRecord" where "f = (\<lambda>r. (if rr_LeaseID res \<noteq> [] then rec_LeaseID_update (\<lambda>_. rr_LeaseID res) else (\<lambda>r. r))
      (rec_ChildWorkflowID_update (\<lambda>_. ?id) r))"
    have f: "keeps_record f" unfolding f_def by (rule keeps_record_comp) simp_all
    define sp where "sp = (case rr_Savepoint res of Some sp \<Rightarrow> Some sp | None \<Rightarrow> st_LastSavepoint st)"
    have "st' = install_version (rr_Version res) (upd_record f (st\<lparr>st_LastSavepoint := sp\<rparr>))"
      using assms Some x Inr
      by (cases st) (auto simp: deploy_def Let_def f_def sp_def upd_record_def option.map_comp comp_def
          split: option.splits if_splits)
    moreover have "r = Inr ()" using assms Some x Inr by (simp add: deploy_def Let_def)
    ultimately show thesis
      using deployed [of "rr_Version res" f sp] f facts Some by (simp add: rollout_input_def)
  qed
qed

lemma deploy_result:
  assumes "deploy S q c' st ctx = (r, st', ctx')" "deploys c"
    and "cmd_TargetSpec c' = wanted_spec c st"
  shows "op_result c st r st'"
  using assms(1)
proof (cases rule: deploy_cases)
  case (failed e f)
  then show ?thesis using op_result.failed by blast
next
  case (deployed v f sp)
  then show ?thesis
    using op_result.deployed [OF assms(2) _ deployed(3,4,5,6)] assms(3) by simp
qed

lemma setState_current:
  "setState S q d st ctx = (Inr u, ctx') \<Longrightarrow> st_CurrentVersion st \<noteq> None"
  by (auto simp: setState_def split: option.splits)

lemma savepoint_result:
  assumes "savepoint S q c st ctx = (r, st', ctx')" "cmd_Type c = CommandRequestSavepoint"
  shows "op_result c st r st'"
proof (cases "st_CurrentVersion st")
  case None
  with assms(1) failed_unchanged show ?thesis by (auto simp: savepoint_def)
next
  case (Some a)
  let ?id = "actor_child_id ''flink-savepoint'' (st_Identity st) (cmd_OperationID c)"
  let ?body = "SavepointWorkflow S
    \<lparr>si_Identity = st_Identity st, si_Version = st_heap st ! a, si_ActivityTaskQueue = q\<rparr>"
  obtain x ctx1 where x: "ExecuteChildWorkflow S ?id ?body ctx = (x, ctx1)"
    by (cases "ExecuteChildWorkflow S ?id ?body ctx")
  note run = assms(1) [unfolded savepoint_def Let_def deref_def Some, simplified]
  show ?thesis
  proof (cases x)
    case (Inl e)
    with run x have "r = Inl e" "st' = upd_record (rec_ChildWorkflowID_update (\<lambda>_. ?id)) st"
      by simp_all
    then show ?thesis by (simp add: op_result.failed)
  next
    case (Inr sp)
    with run x have "r = Inr ()" "st' = upd_record (\<lambda>r. rec_Result_update (\<lambda>_. sp_URI sp)
        (rec_ChildWorkflowID_update (\<lambda>_. ?id) r)) (st\<lparr>st_LastSavepoint := Some sp\<rparr>)"
      by (auto simp: upd_record_def option.map_comp comp_def)
    with op_result.savepoint_taken [OF assms(2) _ keeps_record_comp] Some show ?thesis by simp
  qed
qed

lemma resume_result:
  assumes "resume S q st ctx = (r, st', ctx')" "cmd_Type c = CommandResume"
  shows "op_result c st r st'"
proof -
  obtain u ctx1 where u: "setState S q ''RUNNING'' st ctx = (u, ctx1)"
    by (cases "setState S q ''RUNNING'' st ctx")
  show ?thesis
  proof (cases u)
    case (Inl e)
    with u assms(1) failed_unchanged show ?thesis by (auto simp: resume_def)
  next
    case (Inr v)
    with u setState_current obtain a where a: "st_CurrentVersion st = Some a" by blast
    let ?b = "\<lparr>oi_Identity = st_Identity st, oi_Version = st_heap st ! a\<rparr>"
    obtain y ctx2 where y: "ExecObserve S (withActivities q) ?b ctx1 = (y, ctx2)"
      by (cases "ExecObserve S (withActivities q) ?b ctx1")
    show ?thesis
      using assms(1) u Inr a y failed_unchanged op_result.resumed [OF assms(2) a]
      by (cases y) (auto simp: resume_def)
  qed
qed

lemma dispatch_result:
  assumes "dispatch S q c st ctx = (r, st', ctx')"
  shows "op_result c st r st'"
proof (cases "cmd_Type c")
  case CommandDeployVersion
  then show ?thesis
    using assms deploy_result [of S q c st ctx r st' ctx' c]
    by (simp add: dispatch_def deploys_def wanted_spec_def)
next
  case CommandRequestSavepoint
  then show ?thesis using assms savepoint_result by (simp add: dispatch_def)
next
  case CommandSuspend
  then show ?thesis
    using assms failed_unchanged op_result.suspended
    by (auto simp: dispatch_def split: prod.splits sum.splits dest: setState_current)
next
  case CommandResume
  then show ?thesis using assms resume_result by (simp add: dispatch_def)
next
  case CommandRollback
  then show ?thesis
    using assms failed_unchanged
      deploy_result [of S q _ st ctx r st' ctx' c]
    by (auto simp: dispatch_def rollback_def deploys_def wanted_spec_def split: option.splits)
next
  case CommandScaleTo
  then show ?thesis
    using assms failed_unchanged
      deploy_result [of S q _ st ctx r st' ctx' c]
    by (auto simp: dispatch_def scale_def deploys_def wanted_spec_def split: option.splits if_splits)
qed (use assms failed_unchanged op_result.autoscaler_enabled op_result.autoscaler_frozen op_result.nothing
      in \<open>auto simp: dispatch_def\<close>)

subsection \<open>Steps of the actor\<close>

definition normal_command :: "go_time \<Rightarrow> DeploymentCommand \<Rightarrow> DeploymentCommand" where
  "normal_command now c =
     (let c1 = c\<lparr>cmd_IdempotencyKey := command_key c\<rparr>
      in if cmd_RequestedAt c1 = 0 then c1\<lparr>cmd_RequestedAt := now\<rparr> else c1)"

inductive actor_step ::
  "DeploymentCommand \<Rightarrow> DeploymentActorState \<Rightarrow> DeploymentActorState \<Rightarrow> bool" for c st where
  duplicate:
    "map_has (st_ProcessedKeys st) (command_key c) \<Longrightarrow> actor_step c st st"
| processed:
    "\<not> map_has (st_ProcessedKeys st) (command_key c) \<Longrightarrow>
     op_result (normal_command now c) (open_operation (normal_command now c) now st) err st1 \<Longrightarrow>
     actor_step c st (settle (normal_command now c) err now' st1)"

inductive_cases actor_stepE: "actor_step c st st'"

lemma normal_command_simps [simp]:
  "cmd_IdempotencyKey (normal_command now c) = command_key c"
  "cmd_OperationID (normal_command now c) = cmd_OperationID c"
  "cmd_Type (normal_command now c) = cmd_Type c"
  "cmd_TargetSpec (normal_command now c) = cmd_TargetSpec c"
  "cmd_TargetVersion (normal_command now c) = cmd_TargetVersion c"
  "cmd_Parallelism (normal_command now c) = cmd_Parallelism c"
  "cmd_Requester (normal_command now c) = cmd_Requester c"
  by (simp_all add: normal_command_def Let_def)

lemma processCommand_eq:
  "processCommand S q c st ctx =
     (if map_has (st_ProcessedKeys st) (command_key c) then (st, ctx)
      else let now = workflow_now S ctx; c' = normal_command now c
           in case dispatch S q c' (open_operation c' now st) ctx of
                (err, st1, ctx1) \<Rightarrow>
                  let st2 = settle c' err (workflow_now S ctx1) st1
                  in (st2, snd (ExecAudit S (withActivities q) (audit_event c' st2) ctx1)))"
  by (simp add: processCommand_def normal_command_def Let_def)

lemma processCommand_cases:
  assumes "processCommand S q c st ctx = (st', ctx')"
  obtains (duplicate) "map_has (st_ProcessedKeys st) (command_key c)" "st' = st" "ctx' = ctx"
  | (processed) now err st1 ctx1 now' where "\<not> map_has (st_ProcessedKeys st) (command_key c)"
      "now = workflow_now S ctx"
      "dispatch S q (normal_command now c) (open_operation (normal_command now c) now st) ctx = (err, st1, ctx1)"
      "st' = settle (normal_command now c) err now' st1"
      "ctx' = snd (ExecAudit S (withActivities q) (audit_event (normal_command now c) st') ctx1)"
proof (cases "map_has (st_ProcessedKeys st) (command_key c)")
  case True
  then have "(st', ctx') = (st, ctx)" unfolding assms [symmetric] by (simp add: processCommand_eq)
  then show thesis by (intro duplicate [OF True]) blast+
next
  case False
  let ?now = "workflow_now S ctx"
  obtain err st1 ctx1 where d:
    "dispatch S q (normal_command ?now c) (open_operation (normal_command ?now c) ?now st) ctx = (err, st1, ctx1)"
    by (metis prod_cases3)
  let ?st2 = "settle (normal_command ?now c) err (workflow_now S ctx1) st1"
  have "(st', ctx') = (?st2, snd (ExecAudit S (withActivities q) (audit_event (normal_command ?now c) ?st2) ctx1))"
    unfolding assms [symmetric] using False d by (simp add: processCommand_eq Let_def)
  then show thesis
    by (intro processed [OF False refl d, of "workflow_now S ctx1"]) blast+
qed

lemma processCommand_step: "actor_step c st (fst (processCommand S q c st ctx))"
proof -
  obtain st' ctx' where run: "processCommand S q c st ctx = (st', ctx')"
    by (cases "processCommand S q c st ctx")
  then show ?thesis
  proof (cases rule: processCommand_cases)
    case duplicate
    then show ?thesis using run actor_step.duplicate by simp
  next
    case (processed now err st1 ctx1 now')
    then show ?thesis
      using run actor_step.processed [OF processed(1) dispatch_result] by simp
  qed
qed

text \<open>The parts of the state an operation does not touch.\<close>

lemma upd_record_simps [simp]:
  "st_ActiveOperation (upd_record f st) = map_option f (st_ActiveOperation st)"
  "st_Operations (upd_record f st) = st_Operations st"
  "st_ProcessedKeys (upd_record f st) = st_ProcessedKeys st"
  "st_heap (upd_record f st) = st_heap st" "st_Versions (upd_record f st) = st_Versions st"
  "st_CurrentVersion (upd_record f st) = st_CurrentVersion st"
  "st_LastHealthyVersion (upd_record f st) = st_LastHealthyVersion st"
  "st_Status (upd_record f st) = st_Status st" "st_LastError (upd_record f st) = st_LastError st"
  "st_Identity (upd_record f st) = st_Identity st" "st_Policy (upd_record f st) = st_Policy st"
  "st_ProcessedEventCount (upd_record f st) = st_ProcessedEventCount st"
  "st_ContinueAfter (upd_record f st) = st_ContinueAfter st"
  "st_LastSavepoint (upd_record f st) = st_LastSavepoint st"
  "st_AutoscalerEnabled (upd_record f st) = st_AutoscalerEnabled st"
  "st_AutoscalerFrozen (upd_record f st) = st_AutoscalerFrozen st"
  by (simp_all add: upd_record_def)

lemma install_version_simps [simp]:
  "st_ActiveOperation (install_version v st) = map_option (rec_Result_update
     (\<lambda>_. ''deployment version '' @ itoa (ver_VersionID v) @ '' is healthy'')) (st_ActiveOperation st)"
  "st_Operations (install_version v st) = st_Operations st"
  "st_ProcessedKeys (install_version v st) = st_ProcessedKeys st"
  "st_heap (install_version v st) = st_heap st @ [v]"
  "st_Versions (install_version v st) = st_Versions st @ [v]"
  "st_CurrentVersion (install_version v st) = Some (length (st_heap st))"
  "st_LastHealthyVersion (install_version v st) = Some (length (st_heap st))"
  "st_Status (install_version v st) = st_Status st" "st_LastError (install_version v st) = st_LastError st"
  "st_Identity (install_version v st) = st_Identity st" "st_Policy (install_version v st) = st_Policy st"
  "st_ProcessedEventCount (install_version v st) = st_ProcessedEventCount st"
  "st_ContinueAfter (install_version v st) = st_ContinueAfter st"
  "st_LastSavepoint (install_version v st) = st_LastSavepoint st"
  "st_AutoscalerEnabled (install_version v st) = spec_AutoscalerEnabled (ver_Spec v)"
  by (simp_all add: install_version_def Let_def)

lemma open_operation_simps [simp]:
  "st_Operations (open_operation c now st) = st_Operations st"
  "st_ProcessedKeys (open_operation c now st) = st_ProcessedKeys st"
  "st_heap (open_operation c now st) = st_heap st" "st_Versions (open_operation c now st) = st_Versions st"
  "st_CurrentVersion (open_operation c now st) = st_CurrentVersion st"
  "st_LastHealthyVersion (open_operation c now st) = st_LastHealthyVersion st"
  "st_Identity (open_operation c now st) = st_Identity st" "st_Policy (open_operation c now st) = st_Policy st"
  "st_Status (open_operation c now st) = ActorOperating" "st_Pending (open_operation c now st) = st_Pending st"
  "st_LastSavepoint (open_operation c now st) = st_LastSavepoint st"
  "st_ProcessedEventCount (open_operation c now st) = st_ProcessedEventCount st"
  "st_ContinueAfter (open_operation c now st) = st_ContinueAfter st"
  "st_AutoscalerEnabled (open_operation c now st) = st_AutoscalerEnabled st"
  "st_AutoscalerFrozen (open_operation c now st) = st_AutoscalerFrozen st"
  "deref (open_operation c now st) p = deref st p"
  "wanted_spec c' (open_operation c now st) = wanted_spec c' st"
  by (auto simp: open_operation_def deref_def wanted_spec_def rollback_target_def
      split: CommandType.splits option.splits)

definition opened :: "DeploymentCommand \<Rightarrow> OperationRecord \<Rightarrow> bool" where
  "opened c r \<longleftrightarrow> rec_OperationID r = cmd_OperationID c \<and> rec_IdempotencyKey r = cmd_IdempotencyKey c \<and>
     rec_Requester r = cmd_Requester c \<and> rec_CommandType r = cmd_Type c"

lemma op_result_frame:
  assumes "op_result c st err st1" "st_ActiveOperation st = Some r" "opened c r"
  shows "st_Operations st1 = st_Operations st" "st_ProcessedKeys st1 = st_ProcessedKeys st"
    "\<exists>r1. st_ActiveOperation st1 = Some r1 \<and> opened c r1"
    "st_Identity st1 = st_Identity st" "st_Policy st1 = st_Policy st" "st_Pending st1 = st_Pending st"
    "st_ProcessedEventCount st1 = st_ProcessedEventCount st" "st_ContinueAfter st1 = st_ContinueAfter st"
    "st_Status st1 = st_Status st \<or> st_Status st1 = ActorSuspended"
  using assms by (auto elim!: op_resultE simp: keeps_record_def opened_def)

lemma opened_open: "\<exists>r. st_ActiveOperation (open_operation c now st) = Some r \<and> opened c r"
  by (simp add: open_operation_def opened_def)

lemma settle_simps [simp]:
  "st_Operations (settle c err now st) =
     st_Operations st @ [close_record err now (the (st_ActiveOperation st))]"
  "st_ProcessedKeys (settle c err now st) = map_put (cmd_IdempotencyKey c) (cmd_OperationID c) (st_ProcessedKeys st)"
  "st_ActiveOperation (settle c err now st) = None" "st_Pending (settle c err now st) = st_Pending st"
  "st_heap (settle c err now st) = st_heap st" "st_Versions (settle c err now st) = st_Versions st"
  "st_CurrentVersion (settle c err now st) = st_CurrentVersion st"
  "st_LastHealthyVersion (settle c err now st) = st_LastHealthyVersion st"
  "st_Identity (settle c err now st) = st_Identity st" "st_Policy (settle c err now st) = st_Policy st"
  "st_LastSavepoint (settle c err now st) = st_LastSavepoint st"
  "st_ProcessedEventCount (settle c err now st) = st_ProcessedEventCount st"
  "st_ContinueAfter (settle c err now st) = st_ContinueAfter st"
  "st_AutoscalerEnabled (settle c err now st) = st_AutoscalerEnabled st"
  "st_AutoscalerFrozen (settle c err now st) = st_AutoscalerFrozen st"
  by (simp_all add: settle_def Let_def split: sum.splits)

subsection \<open>The invariant of the actor\<close>

definition core :: "DeploymentVersion \<Rightarrow> go_int \<times> DeploymentSpec" where
  "core v = (ver_VersionID v, ver_Spec v)"

text \<open>Both pointers are nil or point to cells with the same version number and specification.\<close>

definition pointers_ok :: "DeploymentActorState \<Rightarrow> bool" where
  "pointers_ok st \<longleftrightarrow>
     (case (st_CurrentVersion st, st_LastHealthyVersion st) of
        (None, None) \<Rightarrow> True
      | (Some a, Some b) \<Rightarrow> a < length (st_heap st) \<and> b < length (st_heap st) \<and>
          core (st_heap st ! a) = core (st_heap st ! b)
      | _ \<Rightarrow> False)"

definition version_good :: "DeploymentVersion \<Rightarrow> bool" where
  "version_good v \<longleftrightarrow> hs_Healthy (ver_HealthSummary v) \<and> ver_ManifestHash v = hash (json_spec (ver_Spec v))"

text \<open>The version history numbers its versions consecutively and ends with the current one; every
  version in it passed the health gate and carries the hash of its specification.\<close>

definition versions_ok :: "DeploymentActorState \<Rightarrow> bool" where
  "versions_ok st \<longleftrightarrow>
     list_all version_good (st_Versions st) \<and>
     successively (\<lambda>v w. ver_VersionID w = ver_VersionID v + 1) (st_Versions st) \<and>
     (case st_CurrentVersion st of
        None \<Rightarrow> st_Versions st = []
      | Some a \<Rightarrow> st_Versions st \<noteq> [] \<and> core (last (st_Versions st)) = core (st_heap st ! a))"

text \<open>Every recorded operation is over, no two have the same key, and every key is marked.\<close>

definition operations_ok :: "DeploymentActorState \<Rightarrow> bool" where
  "operations_ok st \<longleftrightarrow>
     st_ProcessedKeys st \<noteq> None \<and>
     distinct (map rec_IdempotencyKey (st_Operations st)) \<and>
     list_all (\<lambda>r. map_find (st_ProcessedKeys st) (rec_IdempotencyKey r) = Some (rec_OperationID r) \<and>
                   rec_Status r \<in> {OperationSucceeded, OperationFailed}) (st_Operations st)"

definition actor_inv :: "DeploymentActorState \<Rightarrow> bool" where
  "actor_inv st \<longleftrightarrow>
     pointers_ok st \<and> versions_ok st \<and> operations_ok st \<and> st_ActiveOperation st = None \<and>
     st_Pending st = [] \<and> st_Status st \<in> {ActorIdle, ActorFailed, ActorSuspended}"

lemma core_health [simp]: "core (v\<lparr>ver_HealthSummary := h\<rparr>) = core v"
  by (simp add: core_def)

lemma next_version_id_core:
  "core v = core w \<Longrightarrow> next_version_id (Some v) = ver_VersionID w + 1"
  by (simp add: core_def next_version_id_def)

text \<open>What one operation does to the pointers and the history.\<close>

lemma op_result_versions:
  assumes "op_result c st err st1" "pointers_ok st" "versions_ok st"
  shows "pointers_ok st1 \<and> versions_ok st1"
  using assms(1)
proof (cases rule: op_result.cases)
  case (deployed v f sp)
  have p: "pointers_ok st1"
    unfolding deployed(2) by (simp add: pointers_ok_def)
  have "successively (\<lambda>v w. ver_VersionID w = ver_VersionID v + 1) (st_Versions st @ [v])"
  proof (cases "st_CurrentVersion st")
    case None
    with assms(3) show ?thesis by (simp add: versions_ok_def)
  next
    case (Some a)
    with assms(3) have "core (st_heap st ! a) = core (last (st_Versions st))"
      by (simp add: versions_ok_def)
    from next_version_id_core [OF this] Some deployed(5) assms(3) show ?thesis
      by (simp add: versions_ok_def successively_append_iff deref_def)
  qed
  with deployed(6,7) assms(3) have "versions_ok st1"
    unfolding deployed(2) by (simp add: versions_ok_def version_good_def core_def)
  with p show ?thesis by blast
next
  case (resumed a h)
  with assms(2,3) show ?thesis
    by (auto simp: pointers_ok_def versions_ok_def nth_list_update split: option.splits)
qed (use assms(2,3) in \<open>simp_all add: pointers_ok_def versions_ok_def split: option.splits\<close>)

lemma open_operation_ok:
  "pointers_ok (open_operation c now st) = pointers_ok st" "versions_ok (open_operation c now st) = versions_ok st"
  by (simp_all add: pointers_ok_def versions_ok_def split: option.split)

lemma settle_ok:
  "pointers_ok (settle c err now st) = pointers_ok st" "versions_ok (settle c err now st) = versions_ok st"
  by (simp_all add: pointers_ok_def versions_ok_def split: option.split)

lemma close_record_simps [simp]:
  "rec_OperationID (close_record err now r) = rec_OperationID r"
  "rec_IdempotencyKey (close_record err now r) = rec_IdempotencyKey r"
  "rec_CommandType (close_record err now r) = rec_CommandType r"
  "rec_Requester (close_record err now r) = rec_Requester r"
  "rec_Status (close_record err now r) = (case err of Inl _ \<Rightarrow> OperationFailed | Inr _ \<Rightarrow> OperationSucceeded)"
  by (simp_all add: close_record_def Let_def split: sum.splits)

lemma settle_status:
  "st_Status (settle c err now st) =
     (case err of Inl _ \<Rightarrow> ActorFailed
      | Inr _ \<Rightarrow> if st_Status st = ActorSuspended then ActorSuspended else ActorIdle)"
  "st_LastError (settle c err now st) = (case err of Inl e \<Rightarrow> e | Inr _ \<Rightarrow> st_LastError st)"
  by (simp_all add: settle_def Let_def split: sum.splits)

lemma settle_operations:
  assumes "operations_ok st" "\<not> map_has (st_ProcessedKeys st) (cmd_IdempotencyKey c)"
    and "st_ActiveOperation st = Some r" "opened c r"
  shows "operations_ok (settle c err now st)"
proof -
  have new: "\<forall>r \<in> set (st_Operations st). rec_IdempotencyKey r \<noteq> cmd_IdempotencyKey c"
    using assms(1,2) by (auto simp: operations_ok_def list_all_iff map_has_def)
  have "map_find (st_ProcessedKeys (settle c err now st)) (rec_IdempotencyKey r') = Some (rec_OperationID r') \<and>
      rec_Status r' \<in> {OperationSucceeded, OperationFailed}"
    if "r' \<in> set (st_Operations st)" for r'
    using that new assms(1) by (auto simp: operations_ok_def list_all_iff)
  then show ?thesis
    using assms(1,3,4) new
    by (auto simp: operations_ok_def list_all_iff opened_def split: sum.splits)
qed

lemma actor_step_inv:
  assumes "actor_step c st st'" "actor_inv st"
  shows "actor_inv st'"
  using assms(1)
proof (cases rule: actor_step.cases)
  case duplicate
  with assms(2) show ?thesis by simp
next
  case (processed now err st1 now')
  let ?c = "normal_command now c" and ?st0 = "open_operation (normal_command now c) now st"
  obtain r where r: "st_ActiveOperation ?st0 = Some r" "opened ?c r" using opened_open by blast
  note frame = op_result_frame [OF processed(3) r]
  from frame(3) obtain r1 where r1: "st_ActiveOperation st1 = Some r1" "opened ?c r1" by blast
  have "operations_ok st1"
    using assms(2) frame(1,2) by (simp add: actor_inv_def operations_ok_def)
  then have "operations_ok st'"
    unfolding processed(1) using frame(2) processed(2) r1 by (intro settle_operations [of _ _ r1]) simp_all
  moreover have "pointers_ok st' \<and> versions_ok st'"
    using op_result_versions [OF processed(3)] assms(2)
    by (simp add: processed(1) actor_inv_def open_operation_ok settle_ok)
  moreover have "st_Status st' \<in> {ActorIdle, ActorFailed, ActorSuspended}" "st_ActiveOperation st' = None"
    unfolding processed(1) settle_status by (auto split: sum.splits)
  moreover have "st_Pending st' = []"
    using frame(6) assms(2) processed(1) by (simp add: actor_inv_def)
  ultimately show ?thesis by (simp add: actor_inv_def)
qed

lemma processCommand_inv: "actor_inv st \<Longrightarrow> actor_inv (fst (processCommand S q c st ctx))"
  by (rule actor_step_inv [OF processCommand_step])

text \<open>The actor is a machine with this invariant; its state here includes the context.\<close>

definition actor_handle ::
  "'w services \<Rightarrow> string \<Rightarrow> DeploymentCommand \<Rightarrow> DeploymentActorState \<times> 'w ctx \<Rightarrow> DeploymentActorState \<times> 'w ctx" where
  "actor_handle S q c s = processCommand S q c (fst s) (snd s)"

interpretation actor_machine: invariant_machine "actor_handle S q" "\<lambda>s. actor_inv (fst s)" "\<lambda>_. True" for S q
  by unfold_locales (simp add: actor_handle_def processCommand_inv)

subsection \<open>Compaction and reload\<close>

lemma keep_last_simps [simp]:
  "length (keep_last n xs) = min n (length xs)" "keep_last n [] = []"
  by (simp_all add: keep_last_def)

lemma keep_last_suffix: "\<exists>pre. xs = pre @ keep_last n xs"
proof (cases "n < length xs")
  case True
  then show ?thesis by (intro exI [of _ "take (length xs - n) xs"]) (simp add: keep_last_def)
next
  case False
  then show ?thesis by (simp add: keep_last_def)
qed

lemma keep_last_last: "0 < n \<Longrightarrow> xs \<noteq> [] \<Longrightarrow> keep_last n xs \<noteq> [] \<and> last (keep_last n xs) = last xs"
  by (auto simp: keep_last_def)

lemma keep_last_set: "x \<in> set (keep_last n xs) \<Longrightarrow> x \<in> set xs"
  by (auto simp: keep_last_def dest: in_set_dropD split: if_splits)

lemma keep_last_map: "keep_last n (map f xs) = map f (keep_last n xs)"
  by (simp add: keep_last_def drop_map)

lemma keep_last_distinct: "distinct xs \<Longrightarrow> distinct (keep_last n xs)"
  by (simp add: keep_last_def)

lemma keep_last_successively: "successively P xs \<Longrightarrow> successively P (keep_last n xs)"
  using keep_last_suffix [of xs n] by (metis successively_append_iff)

abbreviation mark :: "OperationRecord list \<Rightarrow> string_map \<Rightarrow> string_map" where
  "mark ops m \<equiv> fold (\<lambda>r. map_put (rec_IdempotencyKey r) (rec_OperationID r)) ops m"

lemma mark_other: "k \<notin> rec_IdempotencyKey ` set ops \<Longrightarrow> map_find (mark ops m) k = map_find m k"
  by (induction ops arbitrary: m) simp_all

lemma mark_own:
  "distinct (map rec_IdempotencyKey ops) \<Longrightarrow> r \<in> set ops \<Longrightarrow>
   map_find (mark ops m) (rec_IdempotencyKey r) = Some (rec_OperationID r)"
  by (induction ops arbitrary: m) (auto simp: mark_other)

lemma mark_not_nil: "m \<noteq> None \<Longrightarrow> mark ops m \<noteq> None"
  by (induction ops arbitrary: m) auto

lemma pointers_ok_cong:
  "st_CurrentVersion a = st_CurrentVersion b \<Longrightarrow> st_LastHealthyVersion a = st_LastHealthyVersion b \<Longrightarrow>
   st_heap a = st_heap b \<Longrightarrow> pointers_ok a = pointers_ok b"
  by (simp add: pointers_ok_def split: option.split)

lemma versions_ok_cong:
  "st_CurrentVersion a = st_CurrentVersion b \<Longrightarrow> st_Versions a = st_Versions b \<Longrightarrow>
   st_heap a = st_heap b \<Longrightarrow> versions_ok a = versions_ok b"
  by (simp add: versions_ok_def split: option.split)

lemma compact_inv:
  assumes "actor_inv st"
  shows "actor_inv (compact st)"
proof -
  let ?ops = "keep_last 50 (st_Operations st)"
  have d: "distinct (map rec_IdempotencyKey ?ops)"
    using assms keep_last_distinct [of "map rec_IdempotencyKey (st_Operations st)" 50]
    by (simp add: actor_inv_def operations_ok_def keep_last_map)
  have "operations_ok (compact st)"
    using assms d mark_own [OF d, of _ "Some []"] mark_not_nil [of "Some []" ?ops]
    by (auto simp: actor_inv_def operations_ok_def compact_def Let_def list_all_iff dest: keep_last_set)
  moreover have "versions_ok (compact st)"
    using assms keep_last_last [of 50 "st_Versions st"]
    by (auto simp: actor_inv_def versions_ok_def compact_def Let_def list_all_iff keep_last_successively
        dest: keep_last_set split: option.splits)
  moreover have "pointers_ok (compact st) = pointers_ok st"
    by (rule pointers_ok_cong) (simp_all add: compact_def Let_def)
  ultimately show ?thesis
    using assms by (simp add: actor_inv_def compact_def Let_def)
qed

lemma wire_map_simps [simp]: "entries (wire_map m) = entries m" "map_find (wire_map m) = map_find m"
  by (auto simp: wire_map_def map_find_def fun_eq_iff)

lemma map_str_wire [simp]: "map_str (wire_map m) = map_str m"
  by (simp add: map_str_def fun_eq_iff)

lemma sorted_keys_wire [simp]: "sorted_keys (wire_map m) = sorted_keys m"
  by (simp add: sorted_keys_def)

lemma json_spec_wire [simp]: "json_spec (wire_spec s) = json_spec s"
  by (auto simp: json_spec_def wire_spec_def json_string_map_def opt_member_def wire_map_def split: option.split)

lemma wire_version_simps [simp]:
  "ver_VersionID (wire_version v) = ver_VersionID v" "ver_Spec (wire_version v) = wire_spec (ver_Spec v)"
  "ver_HealthSummary (wire_version v) = ver_HealthSummary v" "ver_ManifestHash (wire_version v) = ver_ManifestHash v"
  "version_good (wire_version v) = version_good v"
  by (simp_all add: wire_version_def version_good_def)

lemma core_wire: "core v = core w \<Longrightarrow> core (wire_version v) = core (wire_version w)"
  by (simp add: core_def)

lemma reload_simps [simp]:
  "st_ActiveOperation (reload st) = st_ActiveOperation st" "st_Status (reload st) = st_Status st"
  "st_Operations (reload st) = st_Operations st" "st_ProcessedKeys (reload st) = wire_map (st_ProcessedKeys st)"
  "st_Versions (reload st) = map wire_version (st_Versions st)"
  "st_Policy (reload st) = st_Policy st" "st_Identity (reload st) = st_Identity st"
  "st_ContinueAfter (reload st) = st_ContinueAfter st" "st_Pending (reload st) = map wire_command (st_Pending st)"
  "st_ProcessedEventCount (reload st) = st_ProcessedEventCount st"
  "st_LastSavepoint (reload st) = st_LastSavepoint st"
  by (simp_all add: reload_def Let_def)

lemma reload_none:
  "st_CurrentVersion st = None \<Longrightarrow> st_LastHealthyVersion st = None \<Longrightarrow>
   st_CurrentVersion (reload st) = None \<and> st_LastHealthyVersion (reload st) = None"
  by (simp add: reload_def Let_def)

lemma reload_some:
  "st_CurrentVersion st = Some a \<Longrightarrow> st_LastHealthyVersion st = Some b \<Longrightarrow>
   st_CurrentVersion (reload st) = Some 0 \<and> st_LastHealthyVersion (reload st) = Some 1 \<and>
   st_heap (reload st) = [wire_version (st_heap st ! a), wire_version (st_heap st ! b)]"
  by (simp add: reload_def Let_def deref_def)

text \<open>The pointers are both nil or both not.\<close>

lemma pointers_ok_cases:
  assumes "pointers_ok st"
  obtains "st_CurrentVersion st = None" "st_LastHealthyVersion st = None"
  | a b where "st_CurrentVersion st = Some a" "st_LastHealthyVersion st = Some b"
      "a < length (st_heap st)" "b < length (st_heap st)" "core (st_heap st ! a) = core (st_heap st ! b)"
  using assms that by (auto simp: pointers_ok_def split: option.splits)

lemma reload_pointers: "pointers_ok st \<Longrightarrow> pointers_ok (reload st)"
proof (erule pointers_ok_cases)
  fix a b
  assume 1: "st_CurrentVersion st = Some a" "st_LastHealthyVersion st = Some b"
    and 2: "core (st_heap st ! a) = core (st_heap st ! b)"
  show ?thesis using reload_some [OF 1] core_wire [OF 2] by (simp add: pointers_ok_def)
next
  assume "st_CurrentVersion st = None" "st_LastHealthyVersion st = None"
  from reload_none [OF this] show ?thesis by (simp add: pointers_ok_def)
qed

lemma reload_versions:
  assumes "pointers_ok st" "versions_ok st"
  shows "versions_ok (reload st)"
proof -
  have "successively (\<lambda>v w. ver_VersionID w = ver_VersionID v + 1) (map wire_version (st_Versions st))"
    using assms(2) by (simp add: versions_ok_def successively_map)
  moreover have "list_all version_good (map wire_version (st_Versions st))"
    using assms(2) by (simp add: versions_ok_def list_all_iff)
  ultimately have hist: "list_all version_good (st_Versions (reload st))"
      "successively (\<lambda>v w. ver_VersionID w = ver_VersionID v + 1) (st_Versions (reload st))" by simp_all
  from assms(1) show ?thesis
  proof (cases rule: pointers_ok_cases)
    case 1
    then show ?thesis using reload_none [OF 1] assms(2) hist by (simp add: versions_ok_def)
  next
    case (2 a b)
    then have "st_Versions st \<noteq> []" "core (last (st_Versions st)) = core (st_heap st ! a)"
      using assms(2) by (simp_all add: versions_ok_def)
    then show ?thesis
      using reload_some [OF 2(1,2)] hist core_wire [of "last (st_Versions st)" "st_heap st ! a"]
      by (simp add: versions_ok_def last_map)
  qed
qed

lemma actor_init_eq:
  "actor_init version \<lparr>da_State = st, da_ActivityTaskQueue = q\<rparr> = normalizeState
     (if go_le 1 version then (reload st)\<lparr>st_SchemaVersion := 1\<rparr> else reload st)"
  by (simp add: actor_init_def Let_def)

text \<open>A run starts in a state with the invariant when the state it is given has it, except that keys
  may be nil and the status empty.\<close>

definition startable :: "DeploymentActorState \<Rightarrow> bool" where
  "startable st \<longleftrightarrow>
     pointers_ok st \<and> versions_ok st \<and> st_ActiveOperation st = None \<and> st_Pending st = [] \<and>
     distinct (map rec_IdempotencyKey (st_Operations st)) \<and>
     list_all (\<lambda>r. map_find (st_ProcessedKeys st) (rec_IdempotencyKey r) = Some (rec_OperationID r) \<and>
                   rec_Status r \<in> {OperationSucceeded, OperationFailed}) (st_Operations st) \<and>
     st_Status st \<in> {ActorUnset, ActorIdle, ActorFailed, ActorSuspended}"

lemma inv_startable: "actor_inv st \<Longrightarrow> startable st"
  by (auto simp: startable_def actor_inv_def operations_ok_def)

lemma normalizeState_simps [simp]:
  "st_CurrentVersion (normalizeState st) = st_CurrentVersion st"
  "st_LastHealthyVersion (normalizeState st) = st_LastHealthyVersion st"
  "st_heap (normalizeState st) = st_heap st" "st_Versions (normalizeState st) = st_Versions st"
  "st_Operations (normalizeState st) = st_Operations st"
  "st_ActiveOperation (normalizeState st) = st_ActiveOperation st"
  "st_Pending (normalizeState st) = st_Pending st" "st_Identity (normalizeState st) = st_Identity st"
  "st_ProcessedEventCount (normalizeState st) = st_ProcessedEventCount st"
  "st_Status (normalizeState st) = (if st_Status st = ActorUnset then ActorIdle else st_Status st)"
  "st_ProcessedKeys (normalizeState st) =
     (if st_ProcessedKeys st = None then Some [] else st_ProcessedKeys st)"
  "st_Policy (normalizeState st) =
     (if Policy_is_zero (st_Policy st) then DefaultPolicy (id_Environment (st_Identity st)) else st_Policy st)"
  "st_ContinueAfter (normalizeState st) = (if go_le (st_ContinueAfter st) 0 then 500 else st_ContinueAfter st)"
  by (simp_all add: normalizeState_def Let_def)

lemma normalize_inv:
  assumes "startable st"
  shows "actor_inv (normalizeState st)"
proof -
  have "pointers_ok (normalizeState st) = pointers_ok st" by (rule pointers_ok_cong) simp_all
  moreover have "versions_ok (normalizeState st) = versions_ok st" by (rule versions_ok_cong) simp_all
  moreover have "map_find (st_ProcessedKeys (normalizeState st)) = map_find (st_ProcessedKeys st)"
    by (auto simp: map_find_def fun_eq_iff)
  ultimately show ?thesis
    using assms by (auto simp: startable_def actor_inv_def operations_ok_def)
qed

lemma actor_init_inv:
  assumes "startable (da_State input)"
  shows "actor_inv (actor_init version input)"
proof -
  let ?st = "reload (da_State input)"
  have 1: "startable ?st"
    using assms reload_pointers reload_versions by (simp add: startable_def)
  have "pointers_ok (?st\<lparr>st_SchemaVersion := 1\<rparr>) = pointers_ok ?st"
      "versions_ok (?st\<lparr>st_SchemaVersion := 1\<rparr>) = versions_ok ?st"
    by (rule pointers_ok_cong versions_ok_cong; simp)+
  with 1 have "startable (?st\<lparr>st_SchemaVersion := 1\<rparr>)" by (simp add: startable_def)
  with 1 normalize_inv show ?thesis by (simp add: actor_init_def Let_def)
qed

subsection \<open>The loop as a fold\<close>

definition loop_step ::
  "'w services \<Rightarrow> string \<Rightarrow> DeploymentCommand \<Rightarrow> DeploymentActorState \<times> 'w ctx \<Rightarrow> DeploymentActorState \<times> 'w ctx" where
  "loop_step S q c s =
     (case processCommand S q (wire_command c) (fst s) (snd s) of
        (st1, ctx1) \<Rightarrow> (st1\<lparr>st_ProcessedEventCount := st_ProcessedEventCount st1 + 1\<rparr>, ctx1))"

definition run_over :: "DeploymentCommand \<Rightarrow> DeploymentActorState \<Rightarrow> bool" where
  "run_over c st \<longleftrightarrow>
     cmd_Type c = CommandContinueAsNew \<or> go_le (st_ContinueAfter st) (st_ProcessedEventCount st)"

lemma wire_command_Type [simp]: "cmd_Type (wire_command c) = cmd_Type c"
  by (simp add: wire_command_def)

lemma no_pending: "st_Pending st = [] \<Longrightarrow> st\<lparr>st_Pending := []\<rparr> = st"
  by (cases st) simp

lemma loop_step_fst:
  "fst (loop_step S q c s) = (fst (processCommand S q (wire_command c) (fst s) (snd s)))
     \<lparr>st_ProcessedEventCount := st_ProcessedEventCount (fst (processCommand S q (wire_command c) (fst s) (snd s))) + 1\<rparr>"
  by (simp add: loop_step_def split: prod.splits)

lemma loop_step_Pending [simp]: "st_Pending (fst (loop_step S q c s)) = st_Pending (fst s)"
  by (simp add: loop_step_fst)

lemma drain_one:
  assumes "st_Pending st = []" "loop_step S q c (st, ctx) = (st2, ctx2)"
  shows "drain S q (st\<lparr>st_Pending := [wire_command c]\<rparr>) ctx =
    (if run_over c st2
     then (ContinueAsNew (compact (st2\<lparr>st_ActiveOperation := None, st_ProcessedEventCount := 0\<rparr>)), ctx2)
     else (Waiting st2, ctx2))"
proof -
  have "st_Pending st2 = []" using loop_step_Pending [of S q c "(st, ctx)"] assms by simp
  then have "drain S q st2 ctx2 = (Waiting st2, ctx2)" by (subst drain.simps) simp
  then show ?thesis
    using assms(2) no_pending [OF assms(1)]
    by (subst drain.simps) (auto simp: loop_step_def run_over_def Let_def split: prod.splits)
qed

lemma actor_run_step:
  assumes "st_Pending st = []" "loop_step S q c (st, ctx) = (st2, ctx2)"
  shows "actor_run S q st (c # signals) ctx =
    (if run_over c st2
     then (ContinueAsNew (compact (st2\<lparr>st_ActiveOperation := None, st_ProcessedEventCount := 0\<rparr>)), signals, ctx2)
     else actor_run S q st2 signals ctx2)"
  using drain_one [OF assms] assms(1) by (auto simp: no_pending)

text \<open>The outcome of a run, without the two loops and the queue of pending commands.\<close>

inductive run_spec ::
  "'w services \<Rightarrow> string \<Rightarrow> DeploymentActorState \<times> 'w ctx \<Rightarrow> DeploymentCommand list \<Rightarrow>
   actor_exit \<times> DeploymentCommand list \<times> 'w ctx \<Rightarrow> bool" for S q s where
  waits:
    "fold (loop_step S q) signals s = (st', ctx') \<Longrightarrow>
     run_spec S q s signals (Waiting st', [], ctx')"
| continues:
    "fold (loop_step S q) (pre @ [c]) s = (st', ctx') \<Longrightarrow> run_over c st' \<Longrightarrow>
     run_spec S q s (pre @ c # rest)
       (ContinueAsNew (compact (st'\<lparr>st_ActiveOperation := None, st_ProcessedEventCount := 0\<rparr>)), rest, ctx')"

inductive_cases run_specE: "run_spec S q s signals out"

lemma run_spec_Cons:
  assumes "run_spec S q (loop_step S q c s) signals out"
  shows "run_spec S q s (c # signals) out"
  using assms
proof (cases rule: run_spec.cases)
  case (waits st' ctx')
  then show ?thesis using run_spec.waits [of S q "c # signals" s st' ctx'] by simp
next
  case (continues pre c' st' ctx' rest)
  then show ?thesis using run_spec.continues [of S q "c # pre" c' s st' ctx' rest] by simp
qed

lemma actor_run_spec:
  "st_Pending st = [] \<Longrightarrow> run_spec S q (st, ctx) signals (actor_run S q st signals ctx)"
proof (induction signals arbitrary: st ctx)
  case Nil
  then show ?case using run_spec.waits [of S q "[]" "(st, ctx)"] by simp
next
  case (Cons c signals)
  obtain st2 ctx2 where s2: "loop_step S q c (st, ctx) = (st2, ctx2)"
    by (cases "loop_step S q c (st, ctx)")
  have "st_Pending st2 = []" using loop_step_Pending [of S q c "(st, ctx)"] s2 Cons.prems by simp
  show ?case
  proof (cases "run_over c st2")
    case True
    then show ?thesis
      using run_spec.continues [of S q "[]" c "(st, ctx)" st2 ctx2 signals] s2
        actor_run_step [OF Cons.prems s2] by simp
  next
    case False
    have "run_spec S q (loop_step S q c (st, ctx)) signals (actor_run S q st2 signals ctx2)"
      using Cons.IH [OF \<open>st_Pending st2 = []\<close>] s2 by simp
    with run_spec_Cons False actor_run_step [OF Cons.prems s2] show ?thesis by simp
  qed
qed

subsection \<open>Whole lives\<close>

text \<open>
  The life of an actor: each run gets the signals its channel received, the state a run continues
  with goes through JSON into the next, and what a run left unread in its channel is gone.
\<close>

fun actor_life ::
  "'w services \<Rightarrow> go_int \<Rightarrow> DeploymentActorInput \<Rightarrow> DeploymentCommand list list \<Rightarrow> 'w ctx \<Rightarrow>
   DeploymentActorState \<times> 'w ctx" where
  "actor_life S version input [] ctx = (actor_init version input, ctx)"
| "actor_life S version input (signals # batches) ctx =
     (case DeploymentActorWorkflow S version input signals ctx of
        (Waiting st, _, ctx1) \<Rightarrow> (st, ctx1)
      | (ContinueAsNew st, _, ctx1) \<Rightarrow>
          actor_life S version
            \<lparr>da_State = st, da_ActivityTaskQueue = da_ActivityTaskQueue input\<rparr> batches ctx1)"

lemma loop_step_inv: "actor_inv (fst s) \<Longrightarrow> actor_inv (fst (loop_step S q c s))"
proof -
  assume "actor_inv (fst s)"
  then have inv: "actor_inv (fst (processCommand S q (wire_command c) (fst s) (snd s)))"
    by (rule processCommand_inv)
  have "pointers_ok (st\<lparr>st_ProcessedEventCount := n\<rparr>) = pointers_ok st"
      "versions_ok (st\<lparr>st_ProcessedEventCount := n\<rparr>) = versions_ok st" for st n
    by (rule pointers_ok_cong versions_ok_cong; simp)+
  with inv show ?thesis
    by (simp add: loop_step_fst actor_inv_def operations_ok_def)
qed

interpretation actor_loop: invariant_machine "loop_step S q" "\<lambda>s. actor_inv (fst s)" "\<lambda>_. True" for S q
  by unfold_locales (rule loop_step_inv)

lemma loop_run_inv:
  assumes "run_spec S q s signals out" "actor_inv (fst s)"
  shows "case out of (Waiting st, _) \<Rightarrow> actor_inv st | (ContinueAsNew st, _) \<Rightarrow> actor_inv st"
  using assms(1)
proof (cases rule: run_spec.cases)
  case (waits st' ctx')
  then show ?thesis
    using actor_loop.run_inv [of s signals S q] assms(2) by (simp add: list_all_iff)
next
  case (continues pre c st' ctx' rest)
  have "actor_inv st'"
    using actor_loop.run_inv [of s "pre @ [c]" S q] assms(2) continues(3) by (simp add: list_all_iff)
  moreover have "pointers_ok (st'\<lparr>st_ActiveOperation := None, st_ProcessedEventCount := 0\<rparr>) = pointers_ok st'"
      "versions_ok (st'\<lparr>st_ActiveOperation := None, st_ProcessedEventCount := 0\<rparr>) = versions_ok st'"
    by (rule pointers_ok_cong versions_ok_cong; simp)+
  ultimately have "actor_inv (st'\<lparr>st_ActiveOperation := None, st_ProcessedEventCount := 0\<rparr>)"
    by (simp add: actor_inv_def operations_ok_def)
  from compact_inv [OF this] continues(2) show ?thesis by simp
qed

subsection \<open>What a command validates and applies\<close>

text \<open>Every validation in the events is of the actor's own deployment, under its policy, of the
  specification the command asks for, and approved only if the command is, or is a rollback; and
  there is no apply without a successful one.\<close>

definition asks_for :: "DeploymentCommand \<Rightarrow> DeploymentActorState \<Rightarrow> ValidateDeploymentInput \<Rightarrow> bool" where
  "asks_for c st v \<longleftrightarrow>
     vi_Identity v = st_Identity st \<and> vi_Policy v = st_Policy st \<and>
     vi_CurrentVersion v = deref st (st_CurrentVersion st) \<and>
     wanted_spec c st = Some (vi_Target v) \<and>
     vi_Approved v = (cmd_Approved c \<or> cmd_Type c = CommandRollback) \<and>
     vi_Classification v = ClassifyChange (vi_CurrentVersion v) (vi_Target v) (vi_Policy v)"

definition validated :: "DeploymentCommand \<Rightarrow> DeploymentActorState \<Rightarrow> wf_event list \<Rightarrow> bool" where
  "validated c st evs \<longleftrightarrow>
     list_all (\<lambda>(v, r). asks_for c st v) (validations evs) \<and>
     (applies evs \<noteq> [] \<longrightarrow> (\<exists>v. (v, Inr ()) \<in> set (validations evs)))"

lemma silent_validated: "validations evs = [] \<Longrightarrow> applies evs = [] \<Longrightarrow> validated c st evs"
  by (simp add: validated_def)

lemma validated_append:
  "validated c st evs \<Longrightarrow> validations fs = [] \<Longrightarrow> applies fs = [] \<Longrightarrow> validated c st (evs @ fs)"
  "validations fs = [] \<Longrightarrow> applies fs = [] \<Longrightarrow> validated c st evs \<Longrightarrow> validated c st (fs @ evs)"
  by (simp_all add: validated_def)

lemma event_silent [simp]:
  "validations [EvChild i r] = []" "applies [EvChild i r] = []"
  "validations [EvAudit e u] = []" "applies [EvAudit e u] = []"
  "validations [EvSetJobState j u] = []" "applies [EvSetJobState j u] = []"
  "validations [EvObserve b h] = []" "applies [EvObserve b h] = []"
  "validations [] = []"
  by (simp_all add: validations_def applies_def)

lemma deploy_validated:
  assumes "deploy S q c' st ctx = (r, st', ctx')"
    and "cmd_TargetSpec c' = wanted_spec c st"
    and "cmd_Approved c' = (cmd_Approved c \<or> cmd_Type c = CommandRollback)"
  shows "\<exists>evs. emits ctx ctx' evs \<and> validated c st evs"
proof (cases "cmd_TargetSpec c'")
  case None
  then show ?thesis
    using assms(1) by (intro exI [of _ "[]"]) (simp add: deploy_def silent_validated)
next
  case (Some target)
  let ?id = "actor_child_id ''flink-rollout'' (st_Identity st) (cmd_OperationID c')"
  let ?input = "rollout_input q c' target st"
  obtain x where x: "ExecuteChildWorkflow S ?id (\<lambda>k. apfst delivered (RolloutWorkflow S ?id ?input k)) ctx = (x, ctx')"
    using assms(1) Some by (auto simp: deploy_def Let_def split: prod.splits sum.splits)
  from x show ?thesis
  proof (cases rule: ExecuteChildWorkflow_cases)
    case (1 e)
    then show ?thesis by (intro exI [of _ "[EvChild ?id (Inl e)]"]) (simp add: silent_validated)
  next
    case (2 u ctx1 b)
    obtain out h w where out: "RolloutWorkflow S ?id ?input ctx1 = (out, (h, w))" "ctx' = (h, w)"
      using 2(2) by (cases "RolloutWorkflow S ?id ?input ctx1") auto
    from out(1) obtain evs where evs: "h = fst ctx1 @ evs" "rollout_spec ?input evs out"
      by (rule RolloutWorkflow_spec)
    from rollout_validations [OF evs(2)] obtain r where
      r: "validations evs = [(rollout_validate_input ?input, r)]" "applies evs \<noteq> [] \<longrightarrow> r = Inr ()" by blast
    moreover have "asks_for c st (rollout_validate_input ?input)"
      using assms(2,3) Some by (simp add: asks_for_def rollout_validate_input_def rollout_input_def)
    ultimately have "validated c st evs" by (auto simp: validated_def)
    then have "validated c st ([EvChild ?id (Inr u)] @ evs)" by (intro validated_append) simp_all
    moreover have "emits ctx1 ctx' evs" using evs(1) out(2) by (simp add: emits_def)
    from emits_trans [OF 2(1) this] have "emits ctx ctx' ([EvChild ?id (Inr u)] @ evs)" .
    ultimately show ?thesis by blast
  qed
qed

lemma savepoint_validated:
  assumes "savepoint S q c st ctx = (r, st', ctx')"
  shows "\<exists>evs. emits ctx ctx' evs \<and> validations evs = [] \<and> applies evs = []"
proof (cases "deref st (st_CurrentVersion st)")
  case None
  then show ?thesis using assms by (intro exI [of _ "[]"]) (simp add: savepoint_def)
next
  case (Some v)
  let ?id = "actor_child_id ''flink-savepoint'' (st_Identity st) (cmd_OperationID c)"
  let ?si = "\<lparr>si_Identity = st_Identity st, si_Version = v, si_ActivityTaskQueue = q\<rparr>"
  obtain x where x: "ExecuteChildWorkflow S ?id (SavepointWorkflow S ?si) ctx = (x, ctx')"
    using assms Some by (auto simp: savepoint_def Let_def split: prod.splits sum.splits)
  from x show ?thesis
  proof (cases rule: ExecuteChildWorkflow_cases)
    case (1 e)
    then show ?thesis by (intro exI [of _ "[EvChild ?id (Inl e)]"]) simp
  next
    case (2 u ctx1 b)
    from 2(2) obtain evs where "emits ctx1 ctx' evs" "list_all is_savepoint_event evs"
      by (cases rule: SavepointWorkflow_cases) auto
    then show ?thesis
      using emits_trans [OF 2(1)] savepoint_events_silent savepoint_validations
      by (intro exI [of _ "[EvChild ?id (Inr u)] @ evs"]) (simp add: validations_def applies_def)
  qed
qed

lemma setState_silent:
  "setState S q d st ctx = (r, ctx') \<Longrightarrow>
   \<exists>evs. emits ctx ctx' evs \<and> validations evs = [] \<and> applies evs = []"
  by (auto simp: setState_def split: option.splits dest!: ExecSetJobState_emits
      intro: exI [of _ "[]"] exI [of _ "[EvSetJobState x y]" for x y])

lemma resume_silent:
  assumes "resume S q st ctx = (r, st', ctx')"
  shows "\<exists>evs. emits ctx ctx' evs \<and> validations evs = [] \<and> applies evs = []"
proof -
  obtain u ctx1 where u: "setState S q ''RUNNING'' st ctx = (u, ctx1)"
    by (cases "setState S q ''RUNNING'' st ctx")
  from setState_silent [OF u] obtain evs where evs: "emits ctx ctx1 evs" "validations evs = []" "applies evs = []"
    by blast
  have "ctx' = ctx1 \<or> (\<exists>b y. emits ctx1 ctx' [EvObserve b y])"
    using assms u by (auto simp: resume_def split: sum.splits option.splits prod.splits dest!: ExecObserve_emits)
  then show ?thesis
  proof
    assume "\<exists>b y. emits ctx1 ctx' [EvObserve b y]"
    then obtain b y where "emits ctx1 ctx' [EvObserve b y]" by blast
    from emits_trans [OF evs(1) this] evs(2,3) show ?thesis
      by (intro exI [of _ "evs @ [EvObserve b y]"]) (simp add: validations_def applies_def)
  qed (use evs in blast)
qed

lemma dispatch_validated:
  assumes "dispatch S q c st ctx = (r, st', ctx')"
  shows "\<exists>evs. emits ctx ctx' evs \<and> validated c st evs"
proof -
  have silent: "\<exists>evs. emits ctx ctx' evs \<and> validated c st evs"
    if "\<exists>evs. emits ctx ctx' evs \<and> validations evs = [] \<and> applies evs = []"
    using that silent_validated by blast
  have same: "\<exists>evs. emits ctx ctx' evs \<and> validated c st evs" if "ctx' = ctx"
    using that by (intro silent exI [of _ "[]"]) simp
  show ?thesis
  proof (cases "cmd_Type c")
    case CommandDeployVersion
    then show ?thesis
      using assms deploy_validated [of S q c st ctx r st' ctx' c] by (simp add: dispatch_def wanted_spec_def)
  next
    case CommandRequestSavepoint
    then show ?thesis
      using assms silent [OF savepoint_validated [of S q c st ctx r st' ctx']] by (simp add: dispatch_def)
  next
    case CommandSuspend
    then obtain u where "setState S q ''SUSPENDED'' st ctx = (u, ctx')"
      using assms by (auto simp: dispatch_def split: prod.splits sum.splits)
    from silent [OF setState_silent [OF this]] show ?thesis .
  next
    case CommandResume
    then show ?thesis
      using assms silent [OF resume_silent [of S q st ctx r st' ctx']] by (simp add: dispatch_def)
  next
    case CommandRollback
    then show ?thesis
      using assms same deploy_validated [of S q _ st ctx r st' ctx' c]
      by (auto simp: dispatch_def rollback_def wanted_spec_def split: option.splits)
  next
    case CommandScaleTo
    then show ?thesis
      using assms same deploy_validated [of S q _ st ctx r st' ctx' c]
      by (auto simp: dispatch_def scale_def wanted_spec_def split: option.splits if_splits)
  qed (use assms same in \<open>auto simp: dispatch_def\<close>)
qed

lemma processCommand_validated:
  assumes "processCommand S q c st ctx = (st', ctx')"
  shows "\<exists>evs. emits ctx ctx' evs \<and> validated c st evs"
  using assms
proof (cases rule: processCommand_cases)
  case duplicate
  then show ?thesis by (intro exI [of _ "[]"]) (simp add: silent_validated)
next
  case (processed now err st1 ctx1 now')
  let ?c = "normal_command now c" and ?st = "open_operation (normal_command now c) now st"
  from dispatch_validated [OF processed(3)] obtain evs where evs: "emits ctx ctx1 evs" "validated ?c ?st evs"
    by blast
  have "cmd_Approved ?c = cmd_Approved c" by (simp add: normal_command_def Let_def)
  moreover have "wanted_spec ?c = wanted_spec c"
    by (simp add: wanted_spec_def rollback_target_def fun_eq_iff split: CommandType.split)
  ultimately have "asks_for ?c ?st = asks_for c st" by (simp add: asks_for_def fun_eq_iff)
  with evs(2) have "validated c st evs" by (simp add: validated_def)
  moreover obtain u ctx2 where a: "ExecAudit S (withActivities q) (audit_event ?c st') ctx1 = (u, ctx2)"
    by (cases "ExecAudit S (withActivities q) (audit_event ?c st') ctx1")
  then have "emits ctx ctx' (evs @ [EvAudit (audit_event ?c st') u])"
    using emits_trans [OF evs(1) ExecAudit_emits [OF a]] processed(5) by simp
  ultimately show ?thesis using validated_append(1) event_silent by blast
qed

subsection \<open>Properties of the actor\<close>

text \<open>C2. Refinement: whatever the outside world answers, processing a command is a step of the
  specification: it is skipped if its key is marked, and otherwise runs to one of the outcomes its
  type allows (a failure that touches nothing but the operation's record; for a deploying command a
  new healthy version with the next number, built from the specification asked for) and is settled
  with a record, a mark and a status.\<close>

theorem processCommand_refines: "actor_step c st (fst (processCommand S q c st ctx))"
  by (rule processCommand_step)

lemma processCommand_marks:
  "map_has (st_ProcessedKeys (fst (processCommand S q c st ctx))) k \<longleftrightarrow>
   map_has (st_ProcessedKeys st) k \<or> k = command_key c"
proof -
  have "actor_step c st (fst (processCommand S q c st ctx))" by (rule processCommand_step)
  then show ?thesis
  proof (cases rule: actor_step.cases)
    case (processed now err st1 now')
    obtain r where r: "st_ActiveOperation (open_operation (normal_command now c) now st) = Some r"
        "opened (normal_command now c) r" using opened_open by blast
    from op_result_frame(2) [OF processed(3) r] processed(1) show ?thesis by auto
  qed auto
qed

lemma handle_marks:
  "map_has (st_ProcessedKeys (fst (fold (actor_handle S q) cs s))) k \<longleftrightarrow>
   map_has (st_ProcessedKeys (fst s)) k \<or> k \<in> command_key ` set cs"
  by (induction cs arbitrary: s) (auto simp: actor_handle_def processCommand_marks)

text \<open>C9. Idempotency: in one run, a command whose key was used by any earlier command, whatever
  came in between and however that command ended, changes nothing, schedules nothing and is not
  even audited.\<close>

theorem actor_idempotent:
  assumes "command_key c \<in> command_key ` set cs"
  shows "actor_handle S q c (fold (actor_handle S q) cs s) = fold (actor_handle S q) cs s"
  using handle_marks [of S q cs s "command_key c"] assms
  by (simp add: actor_handle_def processCommand_eq)

lemma processCommand_books:
  assumes "\<not> map_has (st_ProcessedKeys st) (command_key c)"
    and "processCommand S q c st ctx = (st', ctx')"
  shows "\<exists>r. st_Operations st' = st_Operations st @ [r] \<and>
     rec_OperationID r = cmd_OperationID c \<and> rec_IdempotencyKey r = command_key c \<and>
     rec_CommandType r = cmd_Type c \<and>
     map_find (st_ProcessedKeys st') (command_key c) = Some (cmd_OperationID c) \<and>
     st_ActiveOperation st' = None \<and>
     (rec_Status r = OperationFailed \<and> st_Status st' = ActorFailed \<and> st_LastError st' = rec_Result r \<and>
        rec_LeaseID r = [] \<and> st_LastSavepoint st' = st_LastSavepoint st \<and>
        st_Versions st' = st_Versions st \<and> st_heap st' = st_heap st \<and>
        st_CurrentVersion st' = st_CurrentVersion st \<and> st_LastHealthyVersion st' = st_LastHealthyVersion st \<or>
      rec_Status r = OperationSucceeded \<and> st_Status st' \<in> {ActorIdle, ActorSuspended} \<and> st_LastError st' = []) \<and>
     (\<exists>a u. last (fst ctx') = EvAudit a u \<and> ae_OperationID a = cmd_OperationID c \<and> ae_Message a = rec_Result r)"
  using assms(2)
proof (cases rule: processCommand_cases)
  case duplicate
  with assms(1) show ?thesis by simp
next
  case (processed now err st1 ctx1 now')
  let ?c = "normal_command now c" and ?st = "open_operation (normal_command now c) now st"
  have res: "op_result ?c ?st err st1" by (rule dispatch_result [OF processed(3)])
  obtain r where r: "st_ActiveOperation ?st = Some r" "opened ?c r" using opened_open by blast
  note frame = op_result_frame [OF res r]
  from frame(3) obtain r1 where r1: "st_ActiveOperation st1 = Some r1" "opened ?c r1" by blast
  define r2 where "r2 = close_record err now' r1"
  have ops: "st_Operations st' = st_Operations st @ [r2]"
    using processed(4) frame(1) r1(1) by (simp add: r2_def)
  have audit: "\<exists>a u. last (fst ctx') = EvAudit a u \<and> ae_OperationID a = cmd_OperationID c \<and> ae_Message a = rec_Result r2"
  proof -
    obtain u ctx2 where a: "ExecAudit S (withActivities q) (audit_event ?c st') ctx1 = (u, ctx2)"
      by (cases "ExecAudit S (withActivities q) (audit_event ?c st') ctx1")
    from ExecAudit_emits [OF a] processed(5) a have "last (fst ctx') = EvAudit (audit_event ?c st') u"
      by (simp add: emits_def)
    then show ?thesis using ops by (auto simp: audit_event_def Let_def)
  qed
  have ids: "rec_OperationID r2 = cmd_OperationID c" "rec_IdempotencyKey r2 = command_key c"
      "rec_CommandType r2 = cmd_Type c" using r1(2) by (simp_all add: r2_def opened_def)
  have "rec_Status r2 = OperationFailed \<and> st_Status st' = ActorFailed \<and> st_LastError st' = rec_Result r2 \<and>
        rec_LeaseID r2 = [] \<and> st_LastSavepoint st' = st_LastSavepoint st \<and>
        st_Versions st' = st_Versions st \<and> st_heap st' = st_heap st \<and>
        st_CurrentVersion st' = st_CurrentVersion st \<and> st_LastHealthyVersion st' = st_LastHealthyVersion st \<or>
      rec_Status r2 = OperationSucceeded \<and> st_Status st' \<in> {ActorIdle, ActorSuspended} \<and> st_LastError st' = []"
  proof (cases err)
    case (Inl e)
    with res obtain f where "st1 = upd_record (rec_ChildWorkflowID_update f) ?st"
      by (auto elim: op_failedE)
    moreover from this r1(1) have "rec_LeaseID r1 = []" by (auto simp: open_operation_def)
    ultimately show ?thesis
      using Inl processed(4) by (simp add: r2_def settle_status close_record_def Let_def)
  next
    case (Inr u)
    have "st_LastError st1 = st_LastError ?st" using res Inr by (auto elim!: op_resultE)
    then have "st_LastError st1 = []" by (simp add: open_operation_def)
    then show ?thesis using Inr processed(4) by (simp add: r2_def settle_status)
  qed
  moreover have "map_find (st_ProcessedKeys st') (command_key c) = Some (cmd_OperationID c)"
      "st_ActiveOperation st' = None" using processed(4) by simp_all
  ultimately show ?thesis using ops ids audit by blast
qed

text \<open>C8. Accounting: a command with a fresh key ends with exactly one new record, which carries its
  identifiers and is over; its key is marked, no operation is active; a failure is recorded in the
  record, the status and the last error, its record names no lease, and it leaves versions, pointers and
  savepoint alone; a success clears the last error. The last thing scheduled is the audit event of the record.\<close>

theorem processCommand_accounts:
  assumes "\<not> map_has (st_ProcessedKeys st) (command_key c)"
    and "processCommand S q c st ctx = (st', ctx')"
  shows "\<exists>r. st_Operations st' = st_Operations st @ [r] \<and>
     rec_OperationID r = cmd_OperationID c \<and> rec_IdempotencyKey r = command_key c \<and>
     rec_CommandType r = cmd_Type c \<and>
     map_find (st_ProcessedKeys st') (command_key c) = Some (cmd_OperationID c) \<and>
     st_ActiveOperation st' = None \<and>
     (rec_Status r = OperationFailed \<and> st_Status st' = ActorFailed \<and> st_LastError st' = rec_Result r \<and>
        rec_LeaseID r = [] \<and> st_LastSavepoint st' = st_LastSavepoint st \<and>
        st_Versions st' = st_Versions st \<and> st_heap st' = st_heap st \<and>
        st_CurrentVersion st' = st_CurrentVersion st \<and> st_LastHealthyVersion st' = st_LastHealthyVersion st \<or>
      rec_Status r = OperationSucceeded \<and> st_Status st' \<in> {ActorIdle, ActorSuspended} \<and> st_LastError st' = []) \<and>
     (\<exists>a u. last (fst ctx') = EvAudit a u \<and> ae_OperationID a = cmd_OperationID c \<and> ae_Message a = rec_Result r)"
  by (rule processCommand_books [OF assms])

lemma actor_life_keeps:
  assumes "startable (da_State input)"
  shows "actor_inv (fst (actor_life S version input batches ctx))"
  using assms
proof (induction batches arbitrary: input ctx)
  case Nil
  then show ?case by (simp add: actor_init_inv)
next
  case (Cons signals batches)
  obtain x rest ctx1 where out:
    "actor_run S (da_ActivityTaskQueue input) (actor_init version input) signals ctx = (x, rest, ctx1)"
    by (metis prod_cases3)
  have inv: "actor_inv (actor_init version input)" by (rule actor_init_inv [OF Cons.prems])
  then have "st_Pending (actor_init version input) = []" by (simp add: actor_inv_def)
  from loop_run_inv [OF actor_run_spec [OF this, of S "da_ActivityTaskQueue input" ctx signals]] inv out
  have "case x of Waiting st \<Rightarrow> actor_inv st | ContinueAsNew st \<Rightarrow> actor_inv st"
    by (simp split: actor_exit.splits)
  then show ?case
    using out Cons.IH inv_startable by (simp add: DeploymentActorWorkflow_def split: actor_exit.splits)
qed

text \<open>C7. The invariant over a whole life: started from any state the control service or a previous
  run may hand over, through any number of runs and any signals, every state an actor comes to rest
  in has consecutive version numbers with healthy, correctly hashed versions, ends its history with
  the current version, which is also the last healthy one, and has no two operations under one key.\<close>

theorem actor_life_inv:
  assumes "startable (da_State input)"
  shows "actor_inv (fst (actor_life S version input batches ctx))"
  using assms by (rule actor_life_keeps)


lemma processCommand_counters:
  "st_ContinueAfter (fst (processCommand S q c st ctx)) = st_ContinueAfter st"
  "st_ProcessedEventCount (fst (processCommand S q c st ctx)) = st_ProcessedEventCount st"
proof -
  have "actor_step c st (fst (processCommand S q c st ctx))" by (rule processCommand_step)
  then show "st_ContinueAfter (fst (processCommand S q c st ctx)) = st_ContinueAfter st"
    "st_ProcessedEventCount (fst (processCommand S q c st ctx)) = st_ProcessedEventCount st"
  proof (atomize (full), cases rule: actor_step.cases)
    case (processed now err st1 now')
    obtain r where r: "st_ActiveOperation (open_operation (normal_command now c) now st) = Some r"
        "opened (normal_command now c) r" using opened_open by blast
    from op_result_frame(7,8) [OF processed(3) r] processed(1)
    show "st_ContinueAfter (fst (processCommand S q c st ctx)) = st_ContinueAfter st \<and>
        st_ProcessedEventCount (fst (processCommand S q c st ctx)) = st_ProcessedEventCount st" by simp
  qed simp
qed

lemma loop_step_counters [simp]:
  "st_ContinueAfter (fst (loop_step S q c s)) = st_ContinueAfter (fst s)"
  "st_ProcessedEventCount (fst (loop_step S q c s)) = st_ProcessedEventCount (fst s) + 1"
  by (simp_all add: loop_step_fst processCommand_counters)

text \<open>While a run waits its counter has not wrapped and is below the budget.\<close>

lemma counter_exact:
  assumes "sint (st_ProcessedEventCount st) = int n" "\<not> run_over c st'"
    and "st_ContinueAfter st' = st_ContinueAfter st" "st_ProcessedEventCount st' = st_ProcessedEventCount st + 1"
    and "int n < sint (st_ContinueAfter st)"
  shows "sint (st_ProcessedEventCount st') = int (Suc n) \<and> int (Suc n) < sint (st_ContinueAfter st')"
proof -
  have "int n < 2 ^ 63 - 1" using assms(5) sint_range64 [of "st_ContinueAfter st"] by simp
  then have "sint (st_ProcessedEventCount st + 1) = int n + 1"
    using assms(1) by (intro sint_plus_one) simp_all
  with assms(2,3,4) show ?thesis by (simp add: run_over_def)
qed

lemma run_bounded:
  assumes "st_Pending st = []" "sint (st_ProcessedEventCount st) = int n" "int n < sint (st_ContinueAfter st)"
    and "actor_run S q st signals ctx = (x, rest, ctx')"
  shows "int (n + length signals) - int (length rest) \<le> sint (st_ContinueAfter st)"
  using assms
proof (induction signals arbitrary: st ctx n)
  case (Cons c signals)
  obtain st2 ctx2 where s2: "loop_step S q c (st, ctx) = (st2, ctx2)"
    by (cases "loop_step S q c (st, ctx)")
  have st2: "st_Pending st2 = []" "st_ContinueAfter st2 = st_ContinueAfter st"
      "st_ProcessedEventCount st2 = st_ProcessedEventCount st + 1"
    using loop_step_Pending [of S q c "(st, ctx)"] loop_step_counters [of S q c "(st, ctx)"] s2 Cons.prems(1)
    by simp_all
  show ?case
  proof (cases "run_over c st2")
    case True
    then show ?thesis using Cons.prems actor_run_step [OF Cons.prems(1) s2] by auto
  next
    case False
    from counter_exact [OF Cons.prems(2) False st2(2,3) Cons.prems(3)]
    have "sint (st_ProcessedEventCount st2) = int (Suc n)" "int (Suc n) < sint (st_ContinueAfter st2)" by auto
    from Cons.IH [OF st2(1) this] False Cons.prems(4) actor_run_step [OF Cons.prems(1) s2] st2(2)
    show ?thesis by (auto split: if_splits)
  qed
qed auto

text \<open>Bounded runs: a run that starts with a fresh counter processes at most \<open>ContinueAfter\<close>
  commands (500 where none was configured) before it continues as new, so Temporal's history of a run
  stays bounded however many signals arrive.\<close>

lemma actor_run_bounded:
  assumes "startable (da_State input)" and "st_ProcessedEventCount (da_State input) = 0"
    and "DeploymentActorWorkflow S version input signals ctx = (x, rest, ctx')"
  shows "int (length signals) - int (length rest) \<le>
    (if go_le (st_ContinueAfter (da_State input)) 0 then 500 else sint (st_ContinueAfter (da_State input)))"
proof -
  let ?st = "actor_init version input"
  have "st_Pending ?st = []" using actor_init_inv [OF assms(1), of version] by (simp add: actor_inv_def)
  moreover have "st_ProcessedEventCount ?st = 0"
    using assms(2) by (simp add: actor_init_def Let_def)
  moreover have "sint (st_ContinueAfter ?st) =
      (if go_le (st_ContinueAfter (da_State input)) 0 then 500 else sint (st_ContinueAfter (da_State input)))"
    by (simp add: actor_init_def Let_def)
  ultimately show ?thesis
    using run_bounded [of ?st 0 S "da_ActivityTaskQueue input" signals ctx x rest ctx'] assms(3)
    by (auto simp: DeploymentActorWorkflow_def split: if_splits)
qed

text \<open>Compaction keeps the last 50 operations and versions in order, and
  remembers exactly the keys of the operations it keeps: the key of any older operation is
  forgotten, so a late retry of it is executed again.\<close>

lemma compact_retains:
  "length (st_Operations (compact st)) = min 50 (length (st_Operations st)) \<and>
   (\<exists>old. st_Operations st = old @ st_Operations (compact st)) \<and>
   length (st_Versions (compact st)) = min 50 (length (st_Versions st)) \<and>
   (\<exists>old. st_Versions st = old @ st_Versions (compact st)) \<and>
   (map_has (st_ProcessedKeys (compact st)) k \<longleftrightarrow>
      k \<in> rec_IdempotencyKey ` set (st_Operations (compact st)))"
proof -
  have "map_has (mark ops m) k \<longleftrightarrow> k \<in> rec_IdempotencyKey ` set ops \<or> map_has m k" for ops m
    by (induction ops arbitrary: m) auto
  moreover have "\<not> map_has (Some [] :: string_map) k" by (simp add: map_has_def map_find_def)
  ultimately show ?thesis
    using keep_last_suffix [of "st_Operations st" 50] keep_last_suffix [of "st_Versions st" 50]
    by (simp add: compact_def Let_def)
qed

text \<open>Approval and provenance: whatever a command makes the actor validate is for the actor's own
  deployment and current version, under its policy, of the specification the command asks for, with
  the classification of exactly that change, and approved if and only if the command was approved or
  is a rollback; and nothing is applied unless such a validation succeeded.\<close>

lemma actor_validations:
  assumes "processCommand S q c st ctx = (st', ctx')"
  shows "\<exists>evs. fst ctx' = fst ctx @ evs \<and>
     (\<forall>(v, r) \<in> set (validations evs). asks_for c st v) \<and>
     (applies evs \<noteq> [] \<longrightarrow> (\<exists>v. (v, Inr ()) \<in> set (validations evs)))"
  using processCommand_validated [OF assms] by (simp add: emits_def validated_def list_all_iff case_prod_beta)

text \<open>Manual scaling is locked out while the autoscaler is in charge: a scale command on a
  deployment whose autoscaler is enabled and not frozen fails, schedules nothing but its audit event,
  and leaves versions and pointers alone.\<close>

lemma scale_locked_out:
  assumes "\<not> map_has (st_ProcessedKeys st) (command_key c)" and "cmd_Type c = CommandScaleTo"
    and "st_CurrentVersion st \<noteq> None" and "st_AutoscalerEnabled st" and "\<not> st_AutoscalerFrozen st"
    and "processCommand S q c st ctx = (st', ctx')"
  shows "st_LastError st' = ''manual scale rejected while autoscaler is enabled and not frozen'' \<and>
    st_Status st' = ActorFailed \<and> st_Versions st' = st_Versions st \<and>
    st_CurrentVersion st' = st_CurrentVersion st \<and> st_heap st' = st_heap st \<and>
    (\<exists>a u. fst ctx' = fst ctx @ [EvAudit a u])"
proof -
  let ?c = "normal_command (workflow_now S ctx) c"
  let ?st = "open_operation ?c (workflow_now S ctx) st"
  let ?e = "''manual scale rejected while autoscaler is enabled and not frozen''"
  have d: "dispatch S q ?c ?st ctx = (Inl ?e, ?st, ctx)"
    using assms(2-5) by (auto simp: dispatch_def scale_def deref_def)
  let ?st2 = "settle ?c (Inl ?e) (workflow_now S ctx) ?st"
  obtain u ctx2 where a: "ExecAudit S (withActivities q) (audit_event ?c ?st2) ctx = (u, ctx2)"
    by (cases "ExecAudit S (withActivities q) (audit_event ?c ?st2) ctx")
  have "(st', ctx') = (?st2, ctx2)"
    unfolding assms(6) [symmetric] using assms(1) d a by (simp add: processCommand_eq Let_def)
  then show ?thesis
    using ExecAudit_emits [OF a] by (auto simp: settle_status emits_def)
qed

text \<open>The two pointers share a cell: after a deployment, a resume that observes the job writes the
  observed health into the last healthy version as well, so a version that has just been seen
  unhealthy is still the one a rollback falls back on.\<close>

lemma resume_overwrites_last_healthy:
  assumes "st_CurrentVersion st = Some a" and "st_LastHealthyVersion st = Some a" and "a < length (st_heap st)"
    and "resume S q st ctx = (Inr (), st', ctx')"
  shows "\<exists>h. deref st' (st_LastHealthyVersion st') = Some ((st_heap st ! a)\<lparr>ver_HealthSummary := h\<rparr>) \<and>
     (\<exists>b. last (fst ctx') = EvObserve b (Inr h))"
proof -
  let ?b = "\<lparr>oi_Identity = st_Identity st, oi_Version = st_heap st ! a\<rparr>"
  obtain u ctx1 where u: "setState S q ''RUNNING'' st ctx = (u, ctx1)"
    by (cases "setState S q ''RUNNING'' st ctx")
  obtain y ctx2 where y: "ExecObserve S (withActivities q) ?b ctx1 = (y, ctx2)"
    by (cases "ExecObserve S (withActivities q) ?b ctx1")
  obtain h where h: "y = Inr h" "ctx' = ctx2" "u = Inr ()"
      "st' = st\<lparr>st_heap := (st_heap st)[a := (st_heap st ! a)\<lparr>ver_HealthSummary := h\<rparr>]\<rparr>"
    using assms(1,4) u y by (cases u; cases y) (auto simp: resume_def)
  then show ?thesis
    using assms(2,3) ExecObserve_emits [OF y] by (intro exI [of _ h]) (simp add: deref_def emits_def)
qed

text \<open>Suspension does not last: any other command with a fresh key ends it in the status, whether or
  not it touches the job.\<close>

lemma suspension_forgotten:
  assumes "\<not> map_has (st_ProcessedKeys st) (command_key c)" and "cmd_Type c \<noteq> CommandSuspend"
  shows "st_Status (fst (processCommand S q c st ctx)) \<noteq> ActorSuspended"
proof -
  have "actor_step c st (fst (processCommand S q c st ctx))" by (rule processCommand_step)
  then show ?thesis
  proof (cases rule: actor_step.cases)
    case (processed now err st1 now')
    from processed(3) assms(2) have "st_Status st1 = ActorOperating" by (auto elim!: op_resultE)
    with processed(1) show ?thesis by (simp add: settle_status split: sum.splits)
  qed (use assms(1) in simp)
qed

subsection \<open>Frames: what an actor leaves alone in the world\<close>

context world_frame
begin

lemma deploy_keeps:
  assumes "deploy S q c st ctx = (r, st', ctx')" "P ctx"
    and "\<And>t. cmd_TargetSpec c = Some t \<Longrightarrow> ok (spec_Resources t)"
  shows "P ctx'"
proof (cases "cmd_TargetSpec c")
  case None
  with assms(1,2) show ?thesis by (simp add: deploy_def)
next
  case (Some t)
  let ?id = "actor_child_id ''flink-rollout'' (st_Identity st) (cmd_OperationID c)"
  let ?body = "\<lambda>k. apfst delivered (RolloutWorkflow S ?id (rollout_input q c t st) k)"
  obtain x where x: "ExecuteChildWorkflow S ?id ?body ctx = (x, ctx')"
    using assms(1) Some by (auto simp: deploy_def Let_def split: prod.splits sum.splits)
  have "P k'" if "?body k = (y, k')" "P k" for k y k'
    using that RolloutWorkflow_keeps [of ?id "rollout_input q c t st" k] assms(3) [OF Some]
    by (cases "RolloutWorkflow S ?id (rollout_input q c t st) k") (simp add: rollout_input_def)
  from child_frame [OF x assms(2) this] show ?thesis .
qed

lemma ExecSetJobState_keeps: "ExecSetJobState S opts j ctx = (r, ctx') \<Longrightarrow> P ctx \<Longrightarrow> P ctx'"
  using set_state_keeps [of ctx opts j] by simp

lemma setState_keeps: "setState S q d st ctx = (r, ctx') \<Longrightarrow> P ctx \<Longrightarrow> P ctx'"
  by (auto simp: setState_def split: option.splits dest: ExecSetJobState_keeps)

lemma savepoint_keeps: "savepoint S q c st ctx = (r, st', ctx') \<Longrightarrow> P ctx \<Longrightarrow> P ctx'"
  by (auto simp: savepoint_def Let_def split: option.splits prod.splits sum.splits
      elim!: child_frame SavepointWorkflow_keeps)

lemma resume_keeps: "resume S q st ctx = (r, st', ctx') \<Longrightarrow> P ctx \<Longrightarrow> P ctx'"
  by (auto simp: resume_def split: option.splits prod.splits sum.splits
      dest!: setState_keeps ExecObserve_keeps)

lemma dispatch_keeps:
  assumes "dispatch S q c st ctx = (r, st', ctx')" "P ctx"
    and "\<And>t. wanted_spec c st = Some t \<Longrightarrow> ok (spec_Resources t)"
  shows "P ctx'"
proof (cases "cmd_Type c")
  case CommandDeployVersion
  then show ?thesis
    using assms deploy_keeps [of q c st ctx r st' ctx'] by (simp add: dispatch_def wanted_spec_def)
next
  case CommandRequestSavepoint
  then show ?thesis using assms(1,2) savepoint_keeps by (simp add: dispatch_def)
next
  case CommandSuspend
  then show ?thesis
    using assms(1,2) by (auto simp: dispatch_def split: prod.splits sum.splits dest: setState_keeps)
next
  case CommandResume
  then show ?thesis using assms(1,2) resume_keeps by (simp add: dispatch_def)
next
  case CommandRollback
  show ?thesis
  proof (cases "rollback_target c st")
    case (Some v)
    then show ?thesis
      using assms CommandRollback
        deploy_keeps [of q "c\<lparr>cmd_TargetSpec := Some (ver_Spec v), cmd_Approved := True\<rparr>" st ctx r st' ctx']
      by (simp add: dispatch_def rollback_def wanted_spec_def)
  qed (use assms(1,2) CommandRollback in \<open>simp add: dispatch_def rollback_def\<close>)
next
  case CommandScaleTo
  show ?thesis
  proof (cases "deref st (st_CurrentVersion st)")
    case (Some v)
    then show ?thesis
      using assms CommandScaleTo
        deploy_keeps [of q "c\<lparr>cmd_TargetSpec := Some ((ver_Spec v)\<lparr>spec_Parallelism := cmd_Parallelism c\<rparr>)\<rparr>"
          st ctx r st' ctx']
      by (simp add: dispatch_def scale_def wanted_spec_def split: if_splits)
  qed (use assms(1,2) CommandScaleTo in \<open>simp add: dispatch_def scale_def\<close>)
qed (use assms(1,2) in \<open>auto simp: dispatch_def\<close>)

lemma processCommand_keeps:
  assumes "processCommand S q c st ctx = (st', ctx')" "P ctx"
    and "\<And>t. wanted_spec c st = Some t \<Longrightarrow> ok (spec_Resources t)"
  shows "P ctx'"
  using assms(1)
proof (cases rule: processCommand_cases)
  case duplicate
  with assms(2) show ?thesis by simp
next
  case (processed now err st1 ctx1 now')
  have "wanted_spec (normal_command now c) st = wanted_spec c st"
    by (simp add: wanted_spec_def rollback_target_def split: CommandType.split)
  with dispatch_keeps [OF processed(3) assms(2)] assms(3) have "P ctx1" by simp
  with audit_keeps processed(5) show ?thesis by simp
qed

end

end
