(* ===== verification/Cluster_Actor.thy ===== *)
theory Cluster_Actor
  imports Domain_Model
begin

text \<open>
  The cluster actor (workflows/cluster_actor.go): one workflow per environment and namespace that
  holds the freeze flag. It takes commands from its signal channel for ever; a query answers with the
  state.
\<close>

text \<open>One turn of the loop, at the time the signal is handled.\<close>

definition cluster_step :: "go_time \<times> ClusterCommand \<Rightarrow> ClusterActorState \<Rightarrow> ClusterActorState" where
  "cluster_step signal state =
     (case signal of (now, command) \<Rightarrow>
       (case cc_Type command of
          ClusterFreeze \<Rightarrow>
            state\<lparr>cs_Frozen := True, cs_Reason := cc_Reason command, cs_Requester := cc_Requester command,
                  cs_UpdatedAt := now\<rparr>
        | ClusterUnfreeze \<Rightarrow>
            state\<lparr>cs_Frozen := False, cs_Reason := cc_Reason command, cs_Requester := cc_Requester command,
                  cs_UpdatedAt := now\<rparr>
        | ClusterOther s \<Rightarrow> state))"

text \<open>The state a query sees after these signals.\<close>

definition ClusterActorWorkflow ::
  "ClusterActorState \<Rightarrow> (go_time \<times> ClusterCommand) list \<Rightarrow> ClusterActorState" where
  "ClusterActorWorkflow state signals = fold cluster_step signals state"

text \<open>The abstract contract: the last freeze or unfreeze decides, other signals are ignored.\<close>

definition relevant :: "go_time \<times> ClusterCommand \<Rightarrow> bool" where
  "relevant signal \<longleftrightarrow> cc_Type (snd signal) \<in> {ClusterFreeze, ClusterUnfreeze}"

definition last_word :: "ClusterActorState \<Rightarrow> (go_time \<times> ClusterCommand) list \<Rightarrow> ClusterActorState" where
  "last_word state signals =
     (case filter relevant signals of
        [] \<Rightarrow> state
      | x # xs \<Rightarrow> (case last (x # xs) of (now, command) \<Rightarrow>
          state\<lparr>cs_Frozen := (cc_Type command = ClusterFreeze), cs_Reason := cc_Reason command,
                cs_Requester := cc_Requester command, cs_UpdatedAt := now\<rparr>))"

lemma cluster_step_irrelevant: "\<not> relevant s \<Longrightarrow> cluster_step s state = state"
  by (auto simp: cluster_step_def relevant_def split: prod.splits ClusterCommandType.splits)

lemma cluster_step_relevant:
  "relevant (now, c) \<Longrightarrow> cluster_step (now, c) state =
     state\<lparr>cs_Frozen := (cc_Type c = ClusterFreeze), cs_Reason := cc_Reason c,
           cs_Requester := cc_Requester c, cs_UpdatedAt := now\<rparr>"
  by (auto simp: cluster_step_def relevant_def)

lemma cluster_fold: "fold cluster_step signals state = last_word state signals"
proof (induction signals rule: rev_induct)
  case (snoc s signals)
  show ?case
  proof (cases "relevant s")
    case False
    with snoc show ?thesis by (simp add: cluster_step_irrelevant last_word_def)
  next
    case True
    obtain now c where s: "s = (now, c)" by (cases s)
    have "last_word state (signals @ [s]) = state\<lparr>cs_Frozen := (cc_Type c = ClusterFreeze),
        cs_Reason := cc_Reason c, cs_Requester := cc_Requester c, cs_UpdatedAt := now\<rparr>"
      using True s by (cases "filter relevant signals") (simp_all add: last_word_def)
    moreover have "cluster_step s (last_word state signals) = state\<lparr>cs_Frozen := (cc_Type c = ClusterFreeze),
        cs_Reason := cc_Reason c, cs_Requester := cc_Requester c, cs_UpdatedAt := now\<rparr>"
      using True s by (simp add: cluster_step_relevant last_word_def split: list.splits prod.splits)
    ultimately show ?thesis using snoc by simp
  qed
qed (simp add: last_word_def)

text \<open>The freeze flag is what the last freeze or unfreeze signal said, with that signal's reason,
  requester and time; signals of any other type change nothing; and the cluster's identity, hence its
  workflow identifier, never changes.\<close>

lemma cluster_last_word:
  "ClusterActorWorkflow state signals = last_word state signals \<and>
   ClusterActorState_WorkflowID (ClusterActorWorkflow state signals) = ClusterActorState_WorkflowID state"
  by (auto simp: ClusterActorWorkflow_def cluster_fold last_word_def ClusterActorState_WorkflowID_def
      split: list.splits prod.splits)

end
