(* ===== verification/Control_Service.thy ===== *)
theory Control_Service
  imports Page_Cursor Sharding Deployment_Actor Cluster_Actor
begin

text \<open>
  The control service (control/service.go): it starts the actors, sends them commands behind the
  freeze gate and asks them for their state. Temporal's client is outside this code: each of its
  calls is a function of a state \<open>'w\<close> of the world in the record \<open>temporal\<close>, and a computation carries
  that state and the list of calls it has made with their outcomes.
\<close>

subsection \<open>Temporal's client\<close>

text \<open>\<open>errors.As\<close> tells an execution that has already started apart from any other failure.\<close>

datatype start_error = AlreadyStarted string | StartFailed string

definition start_error_text :: "start_error \<Rightarrow> string" where
  "start_error_text e = (case e of AlreadyStarted s \<Rightarrow> s | StartFailed s \<Rightarrow> s)"

record StartWorkflowOptions =
  swo_ID :: string
  swo_TaskQueue :: string
  swo_WorkflowIDReusePolicy :: nat

text \<open>The workflow started, with its argument, and the argument of a signal.\<close>

datatype workflow_start =
  StartDeploymentActor DeploymentActorInput
| StartClusterActor ClusterActorState

datatype signal_arg =
  DeploymentSignal DeploymentCommand
| ClusterSignal ClusterCommand

record execution_info =
  ex_Type :: string
  ex_WorkflowID :: string
  ex_StartTime :: "go_time option"

record list_request =
  lreq_PageSize :: "32 word"
  lreq_NextPageToken :: string
  lreq_Query :: string

record list_response =
  lresp_Executions :: "execution_info list"
  lresp_NextPageToken :: string

text \<open>
  A query fails, or answers with a payload whose decoding into a variable may fail and otherwise
  gives the variable's new value; one field per type the code decodes into.
\<close>

type_synonym 'a payload = "'a \<Rightarrow> 'a result"

record 'w temporal =
  tc_ExecuteWorkflow :: "StartWorkflowOptions \<Rightarrow> workflow_start \<Rightarrow> 'w \<Rightarrow> start_error option \<times> 'w"
  tc_SignalWorkflow :: "string \<Rightarrow> string \<Rightarrow> signal_arg \<Rightarrow> 'w \<Rightarrow> go_error option \<times> 'w"
  tc_QueryCluster :: "string \<Rightarrow> string \<Rightarrow> 'w \<Rightarrow> ClusterActorState payload result \<times> 'w"
  tc_QueryView :: "string \<Rightarrow> string \<Rightarrow> 'w \<Rightarrow> DeploymentActorView payload result \<times> 'w"
  tc_QueryVersions :: "string \<Rightarrow> string \<Rightarrow> 'w \<Rightarrow> DeploymentVersion list payload result \<times> 'w"
  tc_ListWorkflow :: "list_request \<Rightarrow> 'w \<Rightarrow> list_response result \<times> 'w"

datatype client_call =
  CallStart StartWorkflowOptions workflow_start "start_error option"
| CallSignal string string signal_arg "go_error option"
| CallQuery string string
| CallList list_request

type_synonym 'w cctx = "client_call list \<times> 'w"

definition call :: "('a \<Rightarrow> client_call) \<Rightarrow> ('w \<Rightarrow> 'a \<times> 'w) \<Rightarrow> 'w cctx \<Rightarrow> 'a \<times> 'w cctx" where
  "call ev f ctx = (case ctx of (h, w) \<Rightarrow> case f w of (r, w') \<Rightarrow> (r, (h @ [ev r], w')))"

subsection \<open>The service\<close>

record Service =
  sv_ActorTaskQueue :: string
  sv_ActorShards :: go_int
  sv_ActivityTaskQueue :: string
  sv_ContinueAfter :: go_int

definition NewService :: "string \<Rightarrow> string \<Rightarrow> go_int \<Rightarrow> go_int \<Rightarrow> Service" where
  "NewService actorTaskQueue activityTaskQueue continueAfter actorShards =
     \<lparr>sv_ActorTaskQueue = actorTaskQueue,
      sv_ActorShards = (if go_lt actorShards 1 then 1 else actorShards),
      sv_ActivityTaskQueue = activityTaskQueue,
      sv_ContinueAfter = continueAfter\<rparr>"

definition actorQueueFor :: "Service \<Rightarrow> string \<Rightarrow> string option" where
  "actorQueueFor s workflowID = ShardTaskQueue (sv_ActorTaskQueue s) (sv_ActorShards s) workflowID"

text \<open>Starting a workflow: an execution that runs already is as good; where the queue cannot be
  computed the call panics before anything is sent.\<close>

definition start_workflow ::
  "'w temporal \<Rightarrow> Service \<Rightarrow> string \<Rightarrow> string \<Rightarrow> workflow_start \<Rightarrow> 'w cctx \<Rightarrow> unit service_result \<times> 'w cctx" where
  "start_workflow T s what wfid input ctx =
     (case actorQueueFor s wfid of
        None \<Rightarrow> (Inl Panicked, ctx)
      | Some queue \<Rightarrow>
          let opts = \<lparr>swo_ID = wfid, swo_TaskQueue = queue, swo_WorkflowIDReusePolicy = 1\<rparr>
          in case call (CallStart opts input) (tc_ExecuteWorkflow T opts input) ctx of
               (None, ctx1) \<Rightarrow> (Inr (), ctx1)
             | (Some (AlreadyStarted _), ctx1) \<Rightarrow> (Inr (), ctx1)
             | (Some err, ctx1) \<Rightarrow> (Inl (Plain (what @ start_error_text err)), ctx1))"

definition new_cluster_state :: "string \<Rightarrow> string \<Rightarrow> ClusterActorState" where
  "new_cluster_state environment namespace =
     \<lparr>cs_Environment = environment, cs_Namespace = namespace, cs_Frozen = False, cs_Reason = [],
      cs_Requester = [], cs_UpdatedAt = 0\<rparr>"

definition EnsureClusterActor ::
  "'w temporal \<Rightarrow> Service \<Rightarrow> string \<Rightarrow> string \<Rightarrow> 'w cctx \<Rightarrow> unit service_result \<times> 'w cctx" where
  "EnsureClusterActor T s environment namespace ctx =
     (let state = new_cluster_state environment namespace
      in start_workflow T s ''start cluster actor: '' (ClusterActorState_WorkflowID state)
           (StartClusterActor state) ctx)"

definition deployment_actor_input :: "Service \<Rightarrow> DeploymentIdentity \<Rightarrow> Policy option \<Rightarrow> DeploymentActorInput" where
  "deployment_actor_input s identity policy =
     \<lparr>da_State =
        \<lparr>st_SchemaVersion = 1, st_Identity = identity,
         st_Policy = (case policy of None \<Rightarrow> DefaultPolicy (id_Environment identity) | Some p \<Rightarrow> p),
         st_Status = ActorIdle, st_CurrentVersion = None, st_LastHealthyVersion = None, st_Versions = [],
         st_LastSavepoint = None, st_Operations = [], st_ProcessedKeys = Some [], st_Pending = [],
         st_ActiveOperation = None, st_AutoscalerFrozen = False, st_AutoscalerEnabled = False,
         st_LastError = [], st_ProcessedEventCount = 0, st_ContinueAfter = sv_ContinueAfter s,
         st_heap = []\<rparr>,
      da_ActivityTaskQueue = sv_ActivityTaskQueue s\<rparr>"

definition EnsureDeploymentActor ::
  "'w temporal \<Rightarrow> Service \<Rightarrow> DeploymentIdentity \<Rightarrow> Policy option \<Rightarrow> 'w cctx \<Rightarrow> unit service_result \<times> 'w cctx" where
  "EnsureDeploymentActor T s identity policy ctx =
     (case EnsureClusterActor T s (id_Environment identity) (id_Namespace identity) ctx of
        (Inl e, ctx1) \<Rightarrow> (Inl e, ctx1)
      | (Inr _, ctx1) \<Rightarrow>
          start_workflow T s ''start deployment actor: '' (WorkflowID identity)
            (StartDeploymentActor (deployment_actor_input s identity policy)) ctx1)"

text \<open>A query and the decoding of its answer into a variable that holds \<open>initial\<close>.\<close>

definition query ::
  "(string \<Rightarrow> string \<Rightarrow> 'w \<Rightarrow> 'a payload result \<times> 'w) \<Rightarrow> string \<Rightarrow> string \<Rightarrow> string \<Rightarrow> string \<Rightarrow> 'a \<Rightarrow>
   'w cctx \<Rightarrow> 'a service_result \<times> 'w cctx" where
  "query ask wfid name failed undecoded initial ctx =
     (case call (\<lambda>_. CallQuery wfid name) (ask wfid name) ctx of
        (Inl e, ctx1) \<Rightarrow> (Inl (Plain (failed @ e)), ctx1)
      | (Inr payload, ctx1) \<Rightarrow>
          (case payload initial of
             Inl e \<Rightarrow> (Inl (Plain (undecoded @ e)), ctx1)
           | Inr v \<Rightarrow> (Inr v, ctx1)))"

definition DescribeCluster ::
  "'w temporal \<Rightarrow> string \<Rightarrow> string \<Rightarrow> 'w cctx \<Rightarrow> ClusterActorState service_result \<times> 'w cctx" where
  "DescribeCluster T environment namespace =
     (let state = new_cluster_state environment namespace
      in query (tc_QueryCluster T) (ClusterActorState_WorkflowID state) ''describe''
           ''query cluster actor: '' ''decode cluster actor: '' state)"

definition zero_view :: DeploymentActorView where
  "zero_view =
     \<lparr>view_Identity = \<lparr>id_Environment = [], id_Namespace = [], id_Name = [], id_Owner = [],
        id_ServiceAccount = [], id_NodePool = [], id_FlinkDashboardURL = []\<rparr>,
      view_Status = ActorUnset, view_CurrentVersion = None, view_LastHealthyVersion = None,
      view_LastSavepoint = None, view_ActiveOperation = None, view_PendingOperations = 0,
      view_RecentOperations = [], view_AutoscalerEnabled = False, view_AutoscalerFrozen = False,
      view_LastError = []\<rparr>"

definition Describe ::
  "'w temporal \<Rightarrow> DeploymentIdentity \<Rightarrow> 'w cctx \<Rightarrow> DeploymentActorView service_result \<times> 'w cctx" where
  "Describe T identity =
     query (tc_QueryView T) (WorkflowID identity) ''describe'' ''query deployment actor: ''
       ''decode deployment actor view: '' zero_view"

definition Versions ::
  "'w temporal \<Rightarrow> DeploymentIdentity \<Rightarrow> 'w cctx \<Rightarrow> DeploymentVersion list service_result \<times> 'w cctx" where
  "Versions T identity =
     query (tc_QueryVersions T) (WorkflowID identity) ''versions'' ''query versions: '' ''decode versions: '' []"

definition mutatesRuntime :: "CommandType \<Rightarrow> bool" where
  "mutatesRuntime t \<longleftrightarrow> t \<noteq> CommandRequestSavepoint \<and> t \<noteq> CommandContinueAsNew"

definition send_signal ::
  "'w temporal \<Rightarrow> string \<Rightarrow> string \<Rightarrow> signal_arg \<Rightarrow> string \<Rightarrow> 'w cctx \<Rightarrow> unit service_result \<times> 'w cctx" where
  "send_signal T wfid name arg failed ctx =
     (case call (CallSignal wfid name arg) (tc_SignalWorkflow T wfid name arg) ctx of
        (Some e, ctx1) \<Rightarrow> (Inl (Plain (failed @ e)), ctx1)
      | (None, ctx1) \<Rightarrow> (Inr (), ctx1))"

definition SendCommand ::
  "'w temporal \<Rightarrow> Service \<Rightarrow> DeploymentIdentity \<Rightarrow> DeploymentCommand \<Rightarrow> 'w cctx \<Rightarrow> unit service_result \<times> 'w cctx" where
  "SendCommand T s identity command ctx =
     (case EnsureDeploymentActor T s identity None ctx of
        (Inl e, ctx1) \<Rightarrow> (Inl e, ctx1)
      | (Inr _, ctx1) \<Rightarrow>
          (case DescribeCluster T (id_Environment identity) (id_Namespace identity) ctx1 of
             (Inl e, ctx2) \<Rightarrow> (Inl e, ctx2)
           | (Inr cluster, ctx2) \<Rightarrow>
               if cs_Frozen cluster \<and> mutatesRuntime (cmd_Type command)
               then (Inl (ClusterFrozenError (cs_Requester cluster) (cs_Reason cluster)), ctx2)
               else send_signal T (WorkflowID identity) ''deployment-command'' (DeploymentSignal command)
                      ''signal deployment actor: '' ctx2))"

definition SetClusterFreeze ::
  "'w temporal \<Rightarrow> Service \<Rightarrow> string \<Rightarrow> string \<Rightarrow> ClusterCommand \<Rightarrow> 'w cctx \<Rightarrow> unit service_result \<times> 'w cctx" where
  "SetClusterFreeze T s environment namespace command ctx =
     (case EnsureClusterActor T s environment namespace ctx of
        (Inl e, ctx1) \<Rightarrow> (Inl e, ctx1)
      | (Inr _, ctx1) \<Rightarrow>
          send_signal T (ClusterActorState_WorkflowID (new_cluster_state environment namespace))
            ''cluster-command'' (ClusterSignal command) ''signal cluster actor: '' ctx1)"

subsection \<open>What the service does to the outside\<close>

definition adds :: "'w cctx \<Rightarrow> 'w cctx \<Rightarrow> client_call list \<Rightarrow> bool" where
  "adds ctx ctx' cs \<longleftrightarrow> fst ctx' = fst ctx @ cs"

lemma adds_refl [simp]: "adds ctx ctx []"
  by (simp add: adds_def)

lemma adds_trans: "adds a b cs \<Longrightarrow> adds b c ds \<Longrightarrow> adds a c (cs @ ds)"
  by (simp add: adds_def)

lemma call_eq:
  "call ev f ctx = (r, ctx') \<longleftrightarrow> fst (f (snd ctx)) = r \<and> ctx' = (fst ctx @ [ev r], snd (f (snd ctx)))"
  by (auto simp: call_def split: prod.splits)

lemma call_adds: "call ev f ctx = (r, ctx') \<Longrightarrow> adds ctx ctx' [ev r]"
  by (auto simp: call_eq adds_def)

text \<open>A well-formed start: of the cluster's or the deployment's actor, under its identifier, on the
  queue that identifier is sharded to, with the initial state of the service.\<close>

definition starts_well :: "Service \<Rightarrow> string \<Rightarrow> string \<Rightarrow> client_call \<Rightarrow> bool" where
  "starts_well s environment namespace c \<longleftrightarrow>
     (\<exists>opts input err. c = CallStart opts input err \<and> actorQueueFor s (swo_ID opts) = Some (swo_TaskQueue opts) \<and>
        swo_WorkflowIDReusePolicy opts = 1 \<and>
        (input = StartClusterActor (new_cluster_state environment namespace) \<and>
           swo_ID opts = ClusterActorState_WorkflowID (new_cluster_state environment namespace) \<or>
         (\<exists>identity policy. input = StartDeploymentActor (deployment_actor_input s identity policy) \<and>
           id_Environment identity = environment \<and> id_Namespace identity = namespace \<and>
           swo_ID opts = WorkflowID identity)))"

lemma start_workflow_cases:
  assumes "start_workflow T s what wfid input ctx = (r, ctx')"
  obtains "r = Inl Panicked" "ctx' = ctx" "actorQueueFor s wfid = None"
  | queue err where "actorQueueFor s wfid = Some queue"
      "adds ctx ctx' [CallStart \<lparr>swo_ID = wfid, swo_TaskQueue = queue, swo_WorkflowIDReusePolicy = 1\<rparr> input err]"
      "r = (case err of Some (StartFailed e) \<Rightarrow> Inl (Plain (what @ e)) | _ \<Rightarrow> Inr ())"
proof (cases "actorQueueFor s wfid")
  case None
  with assms that(1) show ?thesis by (simp add: start_workflow_def)
next
  case (Some queue)
  let ?opts = "\<lparr>swo_ID = wfid, swo_TaskQueue = queue, swo_WorkflowIDReusePolicy = 1\<rparr>"
  obtain err ctx1 where c: "call (CallStart ?opts input) (tc_ExecuteWorkflow T ?opts input) ctx = (err, ctx1)"
    by (cases "call (CallStart ?opts input) (tc_ExecuteWorkflow T ?opts input) ctx")
  with assms Some have "ctx' = ctx1" "r = (case err of Some (StartFailed e) \<Rightarrow> Inl (Plain (what @ e)) | _ \<Rightarrow> Inr ())"
    by (auto simp: start_workflow_def Let_def start_error_text_def split: option.splits start_error.splits)
  with call_adds [OF c] Some that(2) show ?thesis by blast
qed

lemma EnsureClusterActor_calls:
  assumes "EnsureClusterActor T s environment namespace ctx = (r, ctx')"
  shows "\<exists>cs. adds ctx ctx' cs \<and> list_all (starts_well s environment namespace) cs"
  using assms unfolding EnsureClusterActor_def Let_def
proof (cases rule: start_workflow_cases)
  case 1
  then show ?thesis by (intro exI [of _ "[]"]) simp
next
  case (2 queue err)
  then show ?thesis by (auto simp: starts_well_def)
qed

lemma EnsureDeploymentActor_calls:
  assumes "EnsureDeploymentActor T s identity policy ctx = (r, ctx')"
  shows "\<exists>cs. adds ctx ctx' cs \<and> list_all (starts_well s (id_Environment identity) (id_Namespace identity)) cs"
proof -
  obtain r1 ctx1 where e: "EnsureClusterActor T s (id_Environment identity) (id_Namespace identity) ctx = (r1, ctx1)"
    by (cases "EnsureClusterActor T s (id_Environment identity) (id_Namespace identity) ctx")
  from EnsureClusterActor_calls [OF e] obtain cs where cs: "adds ctx ctx1 cs"
    "list_all (starts_well s (id_Environment identity) (id_Namespace identity)) cs" by blast
  show ?thesis
  proof (cases r1)
    case (Inl err)
    with assms e cs show ?thesis by (auto simp: EnsureDeploymentActor_def)
  next
    case (Inr u)
    with assms e have "start_workflow T s ''start deployment actor: '' (WorkflowID identity)
        (StartDeploymentActor (deployment_actor_input s identity policy)) ctx1 = (r, ctx')"
      by (simp add: EnsureDeploymentActor_def)
    then show ?thesis
    proof (cases rule: start_workflow_cases)
      case 1
      with cs show ?thesis by auto
    next
      case (2 queue err)
      let ?c = "CallStart \<lparr>swo_ID = WorkflowID identity, swo_TaskQueue = queue, swo_WorkflowIDReusePolicy = 1\<rparr>
        (StartDeploymentActor (deployment_actor_input s identity policy)) err"
      have "starts_well s (id_Environment identity) (id_Namespace identity) ?c"
        using 2(1) by (auto simp: starts_well_def)
      with cs adds_trans [OF cs(1) 2(2)] show ?thesis by (intro exI [of _ "cs @ [?c]"]) simp
    qed
  qed
qed

lemma query_adds:
  "query ask wfid name failed undecoded initial ctx = (r, ctx') \<Longrightarrow> adds ctx ctx' [CallQuery wfid name]"
  by (auto simp: query_def call_eq adds_def split: sum.splits prod.splits)

lemma send_signal_cases:
  assumes "send_signal T wfid name arg failed ctx = (r, ctx')"
  obtains err where "adds ctx ctx' [CallSignal wfid name arg err]"
    "r = (case err of None \<Rightarrow> Inr () | Some e \<Rightarrow> Inl (Plain (failed @ e)))"
proof -
  obtain err ctx1 where c: "call (CallSignal wfid name arg) (tc_SignalWorkflow T wfid name arg) ctx = (err, ctx1)"
    by (cases "call (CallSignal wfid name arg) (tc_SignalWorkflow T wfid name arg) ctx")
  with assms have "ctx' = ctx1" "r = (case err of None \<Rightarrow> Inr () | Some e \<Rightarrow> Inl (Plain (failed @ e)))"
    by (auto simp: send_signal_def split: option.splits)
  with call_adds [OF c] that show ?thesis by blast
qed

text \<open>The four ways a command can go; in each the calls are starts, then at most one query of the
  cluster, then at most one signal.\<close>

lemma SendCommand_cases:
  assumes "SendCommand T s identity command ctx = (r, ctx')"
  obtains (not_started) e cs where "r = Inl e" "adds ctx ctx' cs"
      "list_all (starts_well s (id_Environment identity) (id_Namespace identity)) cs"
  | (unanswered) e cs q ctx1 where "r = Inl e" "adds ctx ctx' (cs @ [CallQuery q ''describe''])"
      "list_all (starts_well s (id_Environment identity) (id_Namespace identity)) cs"
      "DescribeCluster T (id_Environment identity) (id_Namespace identity) ctx1 = (Inl e, ctx')"
  | (refused) cluster cs q ctx1 where
      "r = Inl (ClusterFrozenError (cs_Requester cluster) (cs_Reason cluster))"
      "adds ctx ctx' (cs @ [CallQuery q ''describe''])"
      "list_all (starts_well s (id_Environment identity) (id_Namespace identity)) cs"
      "DescribeCluster T (id_Environment identity) (id_Namespace identity) ctx1 = (Inr cluster, ctx')"
      "cs_Frozen cluster" "mutatesRuntime (cmd_Type command)"
  | (sent) err cluster cs q ctx1 ctx2 where
      "r = (case err of None \<Rightarrow> Inr () | Some e \<Rightarrow> Inl (Plain (''signal deployment actor: '' @ e)))"
      "adds ctx ctx' (cs @ [CallQuery q ''describe'',
         CallSignal (WorkflowID identity) ''deployment-command'' (DeploymentSignal command) err])"
      "list_all (starts_well s (id_Environment identity) (id_Namespace identity)) cs"
      "DescribeCluster T (id_Environment identity) (id_Namespace identity) ctx1 = (Inr cluster, ctx2)"
      "\<not> (cs_Frozen cluster \<and> mutatesRuntime (cmd_Type command))"
proof -
  obtain r1 ctx1 where e: "EnsureDeploymentActor T s identity None ctx = (r1, ctx1)"
    by (cases "EnsureDeploymentActor T s identity None ctx")
  from EnsureDeploymentActor_calls [OF e] obtain cs where cs: "adds ctx ctx1 cs"
    "list_all (starts_well s (id_Environment identity) (id_Namespace identity)) cs" by blast
  show thesis
  proof (cases r1)
    case (Inl err)
    with assms e cs not_started show ?thesis by (auto simp: SendCommand_def)
  next
    case (Inr u)
    let ?wf = "ClusterActorState_WorkflowID (new_cluster_state (id_Environment identity) (id_Namespace identity))"
    obtain q ctx2 where d: "DescribeCluster T (id_Environment identity) (id_Namespace identity) ctx1 = (q, ctx2)"
      by (cases "DescribeCluster T (id_Environment identity) (id_Namespace identity) ctx1")
    then have "adds ctx1 ctx2 [CallQuery ?wf ''describe'']"
      unfolding DescribeCluster_def Let_def by (rule query_adds)
    then have asked: "adds ctx ctx2 (cs @ [CallQuery ?wf ''describe''])" by (rule adds_trans [OF cs(1)])
    show ?thesis
    proof (cases q)
      case (Inl err)
      with assms e \<open>r1 = Inr u\<close> d have "r = Inl err" "ctx' = ctx2" by (simp_all add: SendCommand_def)
      with unanswered [of err cs ?wf ctx1] asked cs(2) d Inl show ?thesis by simp
    next
      case (Inr cluster)
      show ?thesis
      proof (cases "cs_Frozen cluster \<and> mutatesRuntime (cmd_Type command)")
        case True
        with assms e \<open>r1 = Inr u\<close> d Inr
        have "r = Inl (ClusterFrozenError (cs_Requester cluster) (cs_Reason cluster))" "ctx' = ctx2"
          by (simp_all add: SendCommand_def)
        with refused [of cluster cs ?wf ctx1] asked cs(2) d Inr True show ?thesis by simp
      next
        case False
        with assms e \<open>r1 = Inr u\<close> d Inr have
          "send_signal T (WorkflowID identity) ''deployment-command'' (DeploymentSignal command)
             ''signal deployment actor: '' ctx2 = (r, ctx')"
          by (simp add: SendCommand_def)
        then obtain err where "adds ctx2 ctx' [CallSignal (WorkflowID identity) ''deployment-command'' (DeploymentSignal command) err]"
          and r: "r = (case err of None \<Rightarrow> Inr () | Some e \<Rightarrow> Inl (Plain (''signal deployment actor: '' @ e)))"
          by (rule send_signal_cases)
        with adds_trans [OF asked] have "adds ctx ctx' ((cs @ [CallQuery ?wf ''describe'']) @
            [CallSignal (WorkflowID identity) ''deployment-command'' (DeploymentSignal command) err])" by blast
        with sent [OF r _ cs(2), of ?wf] d Inr False show ?thesis by simp
      qed
    qed
  qed
qed

text \<open>The signals among the calls.\<close>

fun call_signals :: "client_call \<Rightarrow> (string \<times> string \<times> signal_arg) list" where
  "call_signals (CallSignal wfid name arg _) = [(wfid, name, arg)]"
| "call_signals _ = []"

definition signals_sent :: "client_call list \<Rightarrow> (string \<times> string \<times> signal_arg) list" where
  "signals_sent cs = concat (map call_signals cs)"

lemma signals_sent_simps [simp]:
  "signals_sent [] = []" "signals_sent (c # cs) = call_signals c @ signals_sent cs"
  "signals_sent (cs @ ds) = signals_sent cs @ signals_sent ds"
  by (simp_all add: signals_sent_def)

lemma starts_send_nothing: "list_all (starts_well s e n) cs \<Longrightarrow> signals_sent cs = []"
  by (induction cs) (auto simp: starts_well_def)

text \<open>A command to a cluster whose last word was a freeze.\<close>

lemma frozen_refuses:
  assumes "filter relevant history = earlier @ [(now, freeze)]" and "cc_Type freeze = ClusterFreeze"
    and "\<And>w. fst (tc_QueryCluster T (ClusterActorState_WorkflowID
           (new_cluster_state (id_Environment identity) (id_Namespace identity))) ''describe'' w) =
           Inr (\<lambda>_. Inr (ClusterActorWorkflow initial history))"
    and "mutatesRuntime (cmd_Type command)"
    and "SendCommand T s identity command ctx = (r, ctx')"
  shows "\<exists>cs e. fst ctx' = fst ctx @ cs \<and> signals_sent cs = [] \<and> r = Inl e \<and>
    (e = ClusterFrozenError (cc_Requester freeze) (cc_Reason freeze) \<or>
     list_all (starts_well s (id_Environment identity) (id_Namespace identity)) cs)"
proof -
  have frozen: "ClusterActorWorkflow initial history = initial\<lparr>cs_Frozen := True, cs_Reason := cc_Reason freeze,
      cs_Requester := cc_Requester freeze, cs_UpdatedAt := now\<rparr>"
    using assms(1,2) by (cases earlier) (simp_all add: ClusterActorWorkflow_def cluster_fold last_word_def)
  have answer: "q = Inr (ClusterActorWorkflow initial history)"
    if "DescribeCluster T (id_Environment identity) (id_Namespace identity) c1 = (q, c2)" for c1 q c2
    using that assms(3) by (auto simp: DescribeCluster_def Let_def query_def call_eq split: sum.splits prod.splits)
  from assms(5) show ?thesis
  proof (cases rule: SendCommand_cases)
    case (not_started e cs)
    then show ?thesis by (auto simp: adds_def starts_send_nothing)
  next
    case (unanswered e cs q ctx1)
    then show ?thesis using answer [OF unanswered(4)] by simp
  next
    case (refused cluster cs q ctx1)
    then show ?thesis using answer [OF refused(4)] frozen
      by (intro exI [of _ "cs @ [CallQuery q ''describe'']"]) (simp add: adds_def starts_send_nothing)
  next
    case (sent err cluster cs q ctx1 ctx2)
    then show ?thesis using answer [OF sent(4)] frozen assms(4) by simp
  qed
qed

text \<open>What sending a command does to the outside: it starts actors well, asks the cluster at most
  once, and at the end signals at most once, and then exactly this command to exactly this
  deployment's actor; success means the signal was sent.\<close>

lemma send_command_effects:
  assumes "SendCommand T s identity command ctx = (r, ctx')"
  shows "\<exists>starts rest. fst ctx' = fst ctx @ starts @ rest \<and>
    list_all (starts_well s (id_Environment identity) (id_Namespace identity)) starts \<and> length rest \<le> 2 \<and>
    (signals_sent rest = [] \<or>
     signals_sent rest = [(WorkflowID identity, ''deployment-command'', DeploymentSignal command)] \<and>
     signals_sent [last rest] = signals_sent rest) \<and>
    (r = Inr () \<longrightarrow> signals_sent rest \<noteq> [])"
  using assms
proof (cases rule: SendCommand_cases)
  case (not_started e cs)
  then show ?thesis by (intro exI [of _ cs] exI [of _ "[]"]) (simp add: adds_def)
next
  case (unanswered e cs q ctx1)
  then show ?thesis by (intro exI [of _ cs] exI [of _ "[CallQuery q ''describe'']"]) (simp add: adds_def)
next
  case (refused cluster cs q ctx1)
  then show ?thesis by (intro exI [of _ cs] exI [of _ "[CallQuery q ''describe'']"]) (simp add: adds_def)
next
  case (sent err cluster cs q ctx1 ctx2)
  then show ?thesis
    by (intro exI [of _ cs] exI [of _ "[CallQuery q ''describe'',
        CallSignal (WorkflowID identity) ''deployment-command'' (DeploymentSignal command) err]"])
       (simp add: adds_def)
qed

lemma new_actor_startable: "startable (da_State (deployment_actor_input s identity policy))"
  by (simp add: deployment_actor_input_def startable_def pointers_ok_def versions_ok_def)

text \<open>C37. Every deployment actor the service starts is polled and sound: its queue is one the workers
  poll, its identifier is the deployment's, and its state keeps the actor invariant over its whole
  life, whatever commands it gets and whatever the outside world answers; and no start panics.\<close>

theorem control_starts_sound_actors:
  assumes "EnsureDeploymentActor T s identity policy ctx = (r, ctx')" and "sint (sv_ActorShards s) < 2 ^ 32"
  shows "r \<noteq> Inl Panicked \<and> (\<exists>cs. fst ctx' = fst ctx @ cs \<and>
    (\<forall>opts input err. CallStart opts (StartDeploymentActor input) err \<in> set cs \<longrightarrow>
       swo_TaskQueue opts \<in> set (ActorTaskQueues (sv_ActorTaskQueue s) (sv_ActorShards s)) \<and>
       swo_ID opts = WorkflowID (st_Identity (da_State input)) \<and>
       actor_inv (fst (actor_life S version input batches c))))"
proof
  have polled: "\<exists>q. actorQueueFor s i = Some q \<and> q \<in> set (ActorTaskQueues (sv_ActorTaskQueue s) (sv_ActorShards s))" for i
    using shard_polled [OF assms(2)] by (simp add: actorQueueFor_def)
  have "r1 \<noteq> Inl Panicked" if "start_workflow T s what i input c1 = (r1, c2)" for what i input c1 r1 c2
    using that by (cases rule: start_workflow_cases)
      (use polled [of i] in \<open>auto split: option.splits start_error.splits\<close>)
  then show "r \<noteq> Inl Panicked"
    using assms(1) by (auto simp: EnsureDeploymentActor_def EnsureClusterActor_def Let_def split: prod.splits sum.splits)
  from EnsureDeploymentActor_calls [OF assms(1)] obtain cs where
    cs: "fst ctx' = fst ctx @ cs" "list_all (starts_well s (id_Environment identity) (id_Namespace identity)) cs"
    by (auto simp: adds_def)
  have "swo_TaskQueue opts \<in> set (ActorTaskQueues (sv_ActorTaskQueue s) (sv_ActorShards s)) \<and>
       swo_ID opts = WorkflowID (st_Identity (da_State input)) \<and>
       actor_inv (fst (actor_life S version input batches c))"
    if c: "CallStart opts (StartDeploymentActor input) err \<in> set cs" for opts input err
  proof -
    from cs(2) c have "starts_well s (id_Environment identity) (id_Namespace identity) (CallStart opts (StartDeploymentActor input) err)"
      by (simp add: list_all_iff)
    then obtain d p where q: "actorQueueFor s (swo_ID opts) = Some (swo_TaskQueue opts)"
      and input: "input = deployment_actor_input s d p" "swo_ID opts = WorkflowID d"
      by (auto simp: starts_well_def)
    from polled [of "swo_ID opts"] q have "swo_TaskQueue opts \<in> set (ActorTaskQueues (sv_ActorTaskQueue s) (sv_ActorShards s))"
      by auto
    moreover have "swo_ID opts = WorkflowID (st_Identity (da_State input))"
      using input by (simp add: deployment_actor_input_def)
    moreover have "actor_inv (fst (actor_life S version input batches c))"
      unfolding input(1) by (rule actor_life_keeps [OF new_actor_startable])
    ultimately show ?thesis by blast
  qed
  with cs(1) show "\<exists>cs. fst ctx' = fst ctx @ cs \<and>
    (\<forall>opts input err. CallStart opts (StartDeploymentActor input) err \<in> set cs \<longrightarrow>
       swo_TaskQueue opts \<in> set (ActorTaskQueues (sv_ActorTaskQueue s) (sv_ActorShards s)) \<and>
       swo_ID opts = WorkflowID (st_Identity (da_State input)) \<and>
       actor_inv (fst (actor_life S version input batches c)))" by blast
qed

end
