(* ===== verification/Deployment_Listing.thy ===== *)
theory Deployment_Listing
  imports Control_Service
begin

text \<open>
  Listing deployments (control/service.go): the service pages through Temporal's list of open
  executions, keeps those that are deployment actors and match the filter, and hands out its own
  page tokens. The loop is a partial function, as nothing in the code bounds the number of pages.
\<close>

subsection \<open>Identifiers\<close>

definition bare_identity :: "string \<Rightarrow> string \<Rightarrow> string \<Rightarrow> DeploymentIdentity" where
  "bare_identity environment namespace name =
     \<lparr>id_Environment = environment, id_Namespace = namespace, id_Name = name, id_Owner = [],
      id_ServiceAccount = [], id_NodePool = [], id_FlinkDashboardURL = []\<rparr>"

definition deploymentIdentityFromWorkflowID :: "string \<Rightarrow> DeploymentIdentity option" where
  "deploymentIdentityFromWorkflowID workflowID =
     (if \<not> has_prefix workflowID ''flink-deployment/'' then None
      else case split_n (CHR ''/'') 3 (trim_prefix workflowID ''flink-deployment/'') of
          [environment, namespace, name] \<Rightarrow>
            if environment = [] \<or> namespace = [] \<or> name = [] then None
            else Some (bare_identity environment namespace name)
        | _ \<Rightarrow> None)"

definition deploymentMatches :: "DeploymentIdentity \<Rightarrow> DeploymentListOptions \<Rightarrow> bool" where
  "deploymentMatches identity options \<longleftrightarrow>
     (lo_Environment options = [] \<or> id_Environment identity = lo_Environment options) \<and>
     (lo_Namespace options = [] \<or> id_Namespace identity = lo_Namespace options)"

text \<open>What the body of the loop over one page makes of an execution: nothing, or a summary.\<close>

definition deployment_summary :: "DeploymentListOptions \<Rightarrow> execution_info \<Rightarrow> DeploymentSummary option" where
  "deployment_summary options execution =
     (if ex_Type execution \<noteq> ''DeploymentActorWorkflow'' then None
      else case deploymentIdentityFromWorkflowID (ex_WorkflowID execution) of
          None \<Rightarrow> None
        | Some identity \<Rightarrow>
            if \<not> deploymentMatches identity options then None
            else Some \<lparr>sum_Identity = identity, sum_WorkflowID = ex_WorkflowID execution,
                       sum_StartedAt = (case ex_StartTime execution of None \<Rightarrow> 0 | Some t \<Rightarrow> t)\<rparr>)"

subsection \<open>Pages\<close>

definition list_limit :: "go_int \<Rightarrow> nat" where
  "list_limit limit =
     (if go_le limit 0 then 100 else if go_lt 500 limit then 500 else nat (sint limit))"

definition list_page_size :: "nat \<Rightarrow> nat" where
  "list_page_size limit = min 1000 (max 100 (limit * 2))"

text \<open>The loop over one page from an index on: it stops where the result is full, and says where.\<close>

fun scan_page ::
  "DeploymentListOptions \<Rightarrow> nat \<Rightarrow> nat \<Rightarrow> execution_info list \<Rightarrow> DeploymentSummary list \<Rightarrow>
   DeploymentSummary list \<times> nat option" where
  "scan_page options limit index [] acc = (acc, None)"
| "scan_page options limit index (execution # rest) acc =
     (case deployment_summary options execution of
        None \<Rightarrow> scan_page options limit (index + 1) rest acc
      | Some summary \<Rightarrow>
          if length acc + 1 = limit then (acc @ [summary], Some index)
          else scan_page options limit (index + 1) rest (acc @ [summary]))"

definition list_query :: "nat \<Rightarrow> string \<Rightarrow> list_request" where
  "list_query limit token =
     \<lparr>lreq_PageSize = of_nat (list_page_size limit), lreq_NextPageToken = token,
      lreq_Query = ''CloseTime IS NULL''\<rparr>"

definition next_cursor :: "string \<Rightarrow> list_response \<Rightarrow> nat \<Rightarrow> deploymentListCursor" where
  "next_cursor requestToken response index =
     (if index + 1 < length (lresp_Executions response)
      then \<lparr>cur_NextPageToken = requestToken, cur_Offset = of_nat (index + 1)\<rparr>
      else \<lparr>cur_NextPageToken = lresp_NextPageToken response, cur_Offset = 0\<rparr>)"

text \<open>One turn of the outer loop: either the call is over, or the loop goes on with the next of
  Temporal's pages.\<close>

definition list_round ::
  "'w temporal \<Rightarrow> DeploymentListOptions \<Rightarrow> nat \<Rightarrow> deploymentListCursor \<Rightarrow> DeploymentSummary list \<Rightarrow>
   'w cctx \<Rightarrow>
   (DeploymentList service_result \<times> 'w cctx) + (deploymentListCursor \<times> DeploymentSummary list \<times> 'w cctx)" where
  "list_round T options limit cursor acc ctx =
     (if limit \<le> length acc then Inl (Inr \<lparr>dl_Deployments = acc, dl_NextPageToken = []\<rparr>, ctx)
      else
        let requestToken = cur_NextPageToken cursor;
            request = list_query limit requestToken
        in case call (\<lambda>_. CallList request) (tc_ListWorkflow T request) ctx of
             (Inl e, ctx1) \<Rightarrow> Inl (Inl (Plain (''list deployment actors: '' @ e)), ctx1)
           | (Inr response, ctx1) \<Rightarrow>
               if go_lt (cur_Offset cursor) 0 \<or> int (length (lresp_Executions response)) < sint (cur_Offset cursor)
               then Inl (Inl InvalidDeploymentPageToken, ctx1)
               else
                 let offset = nat (sint (cur_Offset cursor))
                 in case scan_page options limit offset (drop offset (lresp_Executions response)) acc of
                      (acc', Some index) \<Rightarrow>
                        Inl (Inr \<lparr>dl_Deployments = acc',
                                  dl_NextPageToken =
                                    encodeDeploymentListCursor (next_cursor requestToken response index)\<rparr>, ctx1)
                    | (acc', None) \<Rightarrow>
                        if lresp_NextPageToken response = []
                        then Inl (Inr \<lparr>dl_Deployments = acc', dl_NextPageToken = []\<rparr>, ctx1)
                        else Inr (\<lparr>cur_NextPageToken = lresp_NextPageToken response, cur_Offset = 0\<rparr>, acc', ctx1))"

partial_function (option) list_loop ::
  "'w temporal \<Rightarrow> DeploymentListOptions \<Rightarrow> nat \<Rightarrow> deploymentListCursor \<Rightarrow> DeploymentSummary list \<Rightarrow>
   'w cctx \<Rightarrow> (DeploymentList service_result \<times> 'w cctx) option" where
  "list_loop T options limit cursor acc ctx =
     (case list_round T options limit cursor acc ctx of
        Inl out \<Rightarrow> Some out
      | Inr (cursor', acc', ctx') \<Rightarrow> list_loop T options limit cursor' acc' ctx')"

definition ListDeployments ::
  "'w temporal \<Rightarrow> DeploymentListOptions \<Rightarrow> 'w cctx \<Rightarrow> (DeploymentList service_result \<times> 'w cctx) option" where
  "ListDeployments T options ctx =
     (case decodeDeploymentListCursor (lo_PageToken options) of
        Inl e \<Rightarrow> Some (Inl e, ctx)
      | Inr cursor \<Rightarrow> list_loop T options (list_limit (lo_Limit options)) cursor [] ctx)"

subsection \<open>Cards\<close>

definition zero_card :: DeploymentCardSummary where
  "zero_card =
     \<lparr>card_Identity = bare_identity [] [] [], card_WorkflowID = [], card_StartedAt = 0,
      card_Status = ActorUnset, card_Version = 0, card_ImageDigest = [], card_Parallelism = 0,
      card_Healthy = None, card_HealthMessage = [], card_Pending = 0, card_Error = []\<rparr>"

definition deployment_card :: "DeploymentSummary \<Rightarrow> DeploymentActorView service_result \<Rightarrow> DeploymentCardSummary" where
  "deployment_card dep r =
     (let card = zero_card\<lparr>card_Identity := sum_Identity dep, card_WorkflowID := sum_WorkflowID dep,
                           card_StartedAt := sum_StartedAt dep\<rparr>
      in case r of
           Inl e \<Rightarrow> card\<lparr>card_Status := ActorUnreachable, card_Error := error_text e\<rparr>
         | Inr v \<Rightarrow>
             let card1 = card\<lparr>card_Status := view_Status v, card_Pending := view_PendingOperations v,
                              card_Error := view_LastError v\<rparr>
             in case view_CurrentVersion v of
                  None \<Rightarrow> card1
                | Some version \<Rightarrow>
                    card1\<lparr>card_Version := ver_VersionID version,
                          card_ImageDigest := spec_ImageDigest (ver_Spec version),
                          card_Parallelism := spec_Parallelism (ver_Spec version),
                          card_Healthy := Some (hs_Healthy (ver_HealthSummary version)),
                          card_HealthMessage := hs_Message (ver_HealthSummary version)\<rparr>)"

text \<open>
  One goroutine per deployment asks its actor; \<open>schedule\<close> is the order in which their queries are
  answered, a permutation of the indices. Each answer goes into its own place of the result.
\<close>

definition describe_all_step ::
  "'w temporal \<Rightarrow> DeploymentSummary list \<Rightarrow> nat \<Rightarrow> DeploymentCardSummary list \<times> 'w cctx \<Rightarrow>
   DeploymentCardSummary list \<times> 'w cctx" where
  "describe_all_step T deps i s =
     (case s of (cards, ctx) \<Rightarrow>
       (case Describe T (sum_Identity (deps ! i)) ctx of
          (r, ctx1) \<Rightarrow> (cards[i := deployment_card (deps ! i) r], ctx1)))"

definition describe_cards ::
  "'w temporal \<Rightarrow> nat list \<Rightarrow> DeploymentSummary list \<Rightarrow> 'w cctx \<Rightarrow> DeploymentCardSummary list \<times> 'w cctx" where
  "describe_cards T schedule deps ctx =
     fold (describe_all_step T deps) schedule (replicate (length deps) zero_card, ctx)"

definition DescribeAll ::
  "'w temporal \<Rightarrow> (nat \<Rightarrow> nat list) \<Rightarrow> 'w cctx \<Rightarrow> (DeploymentCardSummary list service_result \<times> 'w cctx) option" where
  "DescribeAll T schedule ctx =
     (case ListDeployments T \<lparr>lo_Environment = [], lo_Namespace = [], lo_Limit = 500, lo_PageToken = []\<rparr> ctx of
        None \<Rightarrow> None
      | Some (Inl e, ctx1) \<Rightarrow> Some (Inl e, ctx1)
      | Some (Inr l, ctx1) \<Rightarrow>
          (case describe_cards T (schedule (length (dl_Deployments l))) (dl_Deployments l) ctx1 of
             (cards, ctx2) \<Rightarrow> Some (Inr cards, ctx2)))"

subsection \<open>Identifiers are read back\<close>

lemma cut_no: "cut c s = Some (a, b) \<Longrightarrow> c \<notin> set a"
  using cut_Some by metis

lemma split_three:
  "split_n c 3 s = [a, b, d] \<longleftrightarrow> s = a @ c # b @ c # d \<and> c \<notin> set a \<and> c \<notin> set b"
proof
  assume "split_n c 3 s = [a, b, d]"
  then show "s = a @ c # b @ c # d \<and> c \<notin> set a \<and> c \<notin> set b"
    by (auto simp: eval_nat_numeral split: option.splits prod.splits dest!: cut_Some)
next
  assume "s = a @ c # b @ c # d \<and> c \<notin> set a \<and> c \<notin> set b"
  then show "split_n c 3 s = [a, b, d]" by (simp add: eval_nat_numeral)
qed

text \<open>A workflow identifier is read as a deployment exactly if it is the identifier of that deployment,
  none of whose three parts is empty and whose environment and namespace hold no slash.\<close>

lemma identity_from_iff:
  "deploymentIdentityFromWorkflowID w = Some d \<longleftrightarrow>
     w = WorkflowID d \<and> d = bare_identity (id_Environment d) (id_Namespace d) (id_Name d) \<and>
     CHR ''/'' \<notin> set (id_Environment d) \<and> CHR ''/'' \<notin> set (id_Namespace d) \<and>
     id_Environment d \<noteq> [] \<and> id_Namespace d \<noteq> [] \<and> id_Name d \<noteq> []"
proof
  assume r: "deploymentIdentityFromWorkflowID w = Some d"
  let ?rest = "trim_prefix w ''flink-deployment/''"
  from r have p: "has_prefix w ''flink-deployment/''" by (simp add: deploymentIdentityFromWorkflowID_def split: if_split_asm)
  then have w: "w = ''flink-deployment/'' @ ?rest" using has_prefixD [OF p] by (simp add: trim_prefix_def)
  from r p obtain e n m where parts: "split_n (CHR ''/'') 3 ?rest = [e, n, m]"
    by (auto simp: deploymentIdentityFromWorkflowID_def split: list.split_asm)
  with r p have d: "e \<noteq> []" "n \<noteq> []" "m \<noteq> []" "d = bare_identity e n m"
    by (auto simp: deploymentIdentityFromWorkflowID_def split: if_split_asm)
  from parts have rest: "?rest = e @ CHR ''/'' # n @ CHR ''/'' # m" and ns: "CHR ''/'' \<notin> set e" "CHR ''/'' \<notin> set n"
    by (simp_all only: split_three simp_thms not_False_eq_True)
  have fields: "id_Environment d = e" "id_Namespace d = n" "id_Name d = m"
    unfolding d(4) by (simp_all add: bare_identity_def)
  have "w = WorkflowID d" unfolding WorkflowID_def fields using w unfolding rest by simp
  then show "w = WorkflowID d \<and> d = bare_identity (id_Environment d) (id_Namespace d) (id_Name d) \<and>
     CHR ''/'' \<notin> set (id_Environment d) \<and> CHR ''/'' \<notin> set (id_Namespace d) \<and>
     id_Environment d \<noteq> [] \<and> id_Namespace d \<noteq> [] \<and> id_Name d \<noteq> []"
    unfolding fields using d ns by simp
next
  assume a: "w = WorkflowID d \<and> d = bare_identity (id_Environment d) (id_Namespace d) (id_Name d) \<and>
     CHR ''/'' \<notin> set (id_Environment d) \<and> CHR ''/'' \<notin> set (id_Namespace d) \<and>
     id_Environment d \<noteq> [] \<and> id_Namespace d \<noteq> [] \<and> id_Name d \<noteq> []"
  have "WorkflowID d = ''flink-deployment/'' @ id_Environment d @ CHR ''/'' # id_Namespace d @ CHR ''/'' # id_Name d"
    by (simp add: WorkflowID_def)
  moreover have "split_n (CHR ''/'') 3 (id_Environment d @ CHR ''/'' # id_Namespace d @ CHR ''/'' # id_Name d) =
      [id_Environment d, id_Namespace d, id_Name d]"
    unfolding split_three using a by blast
  ultimately show "deploymentIdentityFromWorkflowID w = Some d"
    using a by (simp only: deploymentIdentityFromWorkflowID_def has_prefix_append trim_prefix_append) simp
qed

lemma summary_sound:
  assumes "deployment_summary options e = Some d"
  shows "deploymentMatches (sum_Identity d) options \<and> WorkflowID (sum_Identity d) = sum_WorkflowID d"
proof -
  from assms obtain i where i: "deploymentIdentityFromWorkflowID (ex_WorkflowID e) = Some i"
    and d: "deploymentMatches i options" "sum_Identity d = i" "sum_WorkflowID d = ex_WorkflowID e"
    by (auto simp: deployment_summary_def split: if_split_asm option.split_asm)
  from i have "ex_WorkflowID e = WorkflowID i" by (simp only: identity_from_iff)
  with d show ?thesis by simp
qed

subsection \<open>One page\<close>

abbreviation summaries :: "DeploymentListOptions \<Rightarrow> execution_info list \<Rightarrow> DeploymentSummary list" where
  "summaries options es \<equiv> List.map_filter (deployment_summary options) es"

lemma summaries_simps [simp]:
  "summaries options [] = []"
  "summaries options (e # es) = (case deployment_summary options e of None \<Rightarrow> [] | Some d \<Rightarrow> [d]) @ summaries options es"
  "summaries options (es @ fs) = summaries options es @ summaries options fs"
  by (auto simp: map_filter_def split: option.split)

lemma scan_page_none:
  "scan_page options limit i es acc = (acc', None) \<Longrightarrow> length acc < limit \<Longrightarrow>
   acc' = acc @ summaries options es \<and> length acc' < limit"
  by (induction options limit i es acc rule: scan_page.induct)
     (auto split: option.split_asm if_split_asm)

lemma scan_page_some:
  "scan_page options limit i es acc = (acc', Some k) \<Longrightarrow> length acc < limit \<Longrightarrow>
   i \<le> k \<and> k < i + length es \<and> acc' = acc @ summaries options (take (k + 1 - i) es) \<and> length acc' = limit"
proof (induction options limit i es acc rule: scan_page.induct)
  case (2 options limit i e es acc)
  show ?case
  proof (cases "deployment_summary options e")
    case None
    with "2.prems" have "scan_page options limit (i + 1) es acc = (acc', Some k)" by simp
    from "2.IH"(1) [OF None this "2.prems"(2)] show ?thesis
      by (cases "k - i") (auto simp: None Suc_diff_le take_Cons' diff_Suc_1)
  next
    case (Some d)
    show ?thesis
    proof (cases "length acc + 1 = limit")
      case True
      with Some "2.prems" show ?thesis by auto
    next
      case False
      with Some "2.prems" have "scan_page options limit (i + 1) es (acc @ [d]) = (acc', Some k)" by simp
      from "2.IH"(2) [OF Some False this] "2.prems"(2) False show ?thesis
        by (auto simp: Some take_Cons' Suc_diff_le)
    qed
  qed
qed simp

subsection \<open>What a page token promises\<close>

text \<open>Every page handed out, whatever Temporal answers, is within the limit and holds only deployments
  that match the filter, each under its own identifier.\<close>

definition page_sound :: "DeploymentListOptions \<Rightarrow> nat \<Rightarrow> DeploymentSummary list \<Rightarrow> bool" where
  "page_sound options limit ds \<longleftrightarrow>
     length ds \<le> limit \<and>
     list_all (\<lambda>d. deploymentMatches (sum_Identity d) options \<and> WorkflowID (sum_Identity d) = sum_WorkflowID d) ds"

lemma summaries_sound:
  "list_all (\<lambda>d. deploymentMatches (sum_Identity d) options \<and> WorkflowID (sum_Identity d) = sum_WorkflowID d)
     (summaries options es)"
  by (induction es) (auto dest: summary_sound split: option.split)

lemma page_sound_append:
  "page_sound options limit acc \<Longrightarrow> length (acc @ summaries options es) \<le> limit \<Longrightarrow>
   page_sound options limit (acc @ summaries options es)"
  using summaries_sound [of options es] by (simp add: page_sound_def)

lemma scan_page_sound:
  assumes "scan_page options limit i es acc = (acc', k)" "page_sound options limit acc" "length acc < limit"
  shows "page_sound options limit acc'"
proof -
  have "\<exists>fs. acc' = acc @ summaries options fs \<and> length acc' \<le> limit"
  proof (cases k)
    case None
    with scan_page_none [of options limit i es acc acc'] assms show ?thesis by (auto intro: less_imp_le)
  next
    case (Some j)
    with scan_page_some [of options limit i es acc acc' j] assms show ?thesis by auto
  qed
  with page_sound_append [OF assms(2)] show ?thesis by blast
qed

lemma list_round_sound:
  assumes "page_sound options limit acc"
  shows "list_round T options limit cursor acc ctx = Inl (Inr l, ctx') \<Longrightarrow> page_sound options limit (dl_Deployments l)"
    and "list_round T options limit cursor acc ctx = Inr (cursor', acc', ctx') \<Longrightarrow> page_sound options limit acc'"
  using assms scan_page_sound [OF _ assms]
  by (auto simp: list_round_def Let_def split: if_split_asm sum.split_asm prod.split_asm option.split_asm)

lemma list_loop_sound:
  assumes "list_loop T options limit cursor acc ctx = Some out" "page_sound options limit acc" "fst out = Inr l"
  shows "page_sound options limit (dl_Deployments l)"
proof -
  let ?P = "\<lambda>T options limit cursor acc ctx out.
    page_sound options limit acc \<longrightarrow> fst out = Inr l \<longrightarrow> page_sound options limit (dl_Deployments l)"
  have "?P T options limit cursor acc ctx out"
  proof (rule list_loop.raw_induct [where P = ?P, OF _ assms(1)])
    fix loop T options limit cursor acc ctx out
    assume IH: "\<And>T options limit cursor acc ctx out.
        loop T options limit cursor acc ctx = Some out \<Longrightarrow> ?P T options limit cursor acc ctx out"
      and step: "(case list_round T options limit cursor acc ctx of Inl out \<Rightarrow> Some out
        | Inr (cursor', acc', ctx') \<Rightarrow> loop T options limit cursor' acc' ctx') = Some out"
    show "?P T options limit cursor acc ctx out"
    proof (cases "list_round T options limit cursor acc ctx")
      case (Inl o')
      with step have "list_round T options limit cursor acc ctx = Inl (fst out, snd out)" by simp
      then show ?thesis using list_round_sound(1) by metis
    next
      case (Inr y)
      obtain cursor' acc' ctx' where y: "y = (cursor', acc', ctx')" by (cases y)
      with step Inr have "loop T options limit cursor' acc' ctx' = Some out" by simp
      from IH [OF this] list_round_sound(2) [of options limit acc T cursor ctx cursor' acc' ctx'] Inr y
      show ?thesis by blast
    qed
  qed
  with assms(2,3) show ?thesis by blast
qed

subsection \<open>Following the tokens lists everything once\<close>

text \<open>
  Temporal's contract for a list that does not change meanwhile: \<open>page t\<close> is the page its token \<open>t\<close>
  stands for, the empty token is the first page, and the token in a page leads to the next until one
  is empty. \<open>serves page t es\<close>: from \<open>t\<close> on the pages are \<open>es\<close>.
\<close>

inductive serves :: "(string \<Rightarrow> list_response) \<Rightarrow> string \<Rightarrow> execution_info list list \<Rightarrow> bool"
  for page :: "string \<Rightarrow> list_response" where
  last_page: "lresp_NextPageToken (page t) = [] \<Longrightarrow> serves page t [lresp_Executions (page t)]"
| next_page: "lresp_NextPageToken (page t) \<noteq> [] \<Longrightarrow> serves page (lresp_NextPageToken (page t)) es \<Longrightarrow>
    serves page t (lresp_Executions (page t) # es)"

inductive_cases serves_cases: "serves page t es"

lemma serves_Cons: "serves page t es \<Longrightarrow> \<exists>ps. es = lresp_Executions (page t) # ps"
  by (erule serves_cases) auto

text \<open>A place in the list: the page of a token and an index into it; how many pages follow, and which
  executions are left.\<close>

definition place ::
  "(string \<Rightarrow> list_response) \<Rightarrow> deploymentListCursor \<Rightarrow> nat \<Rightarrow> execution_info list \<Rightarrow> bool" where
  "place page c n rest \<longleftrightarrow>
     (\<exists>ps off. serves page (cur_NextPageToken c) (lresp_Executions (page (cur_NextPageToken c)) # ps) \<and>
        sint (cur_Offset c) = int off \<and> off \<le> length (lresp_Executions (page (cur_NextPageToken c))) \<and>
        list_all (\<lambda>q. length q \<le> 1000) (lresp_Executions (page (cur_NextPageToken c)) # ps) \<and>
        n = length ps \<and> rest = drop off (lresp_Executions (page (cur_NextPageToken c))) @ concat ps)"

definition serves_lists :: "'w temporal \<Rightarrow> nat \<Rightarrow> (string \<Rightarrow> list_response) \<Rightarrow> bool" where
  "serves_lists T limit page \<longleftrightarrow> (\<forall>t w. tc_ListWorkflow T (list_query limit t) w = (Inr (page t), w))"

lemma next_place:
  assumes "serves page t (p # ps)" "lresp_NextPageToken (page t) \<noteq> []" "list_all (\<lambda>q. length q \<le> 1000) ps"
  shows "0 < length ps" and
    "place page \<lparr>cur_NextPageToken = lresp_NextPageToken (page t), cur_Offset = 0\<rparr> (length ps - 1) (concat ps)"
proof -
  from assms(1,2) have "serves page (lresp_NextPageToken (page t)) ps" by (auto elim: serves_cases)
  from serves_Cons [OF this] this assms(3) show "0 < length ps"
    "place page \<lparr>cur_NextPageToken = lresp_NextPageToken (page t), cur_Offset = 0\<rparr> (length ps - 1) (concat ps)"
    unfolding place_def by auto
qed

lemma last_place: "serves page t (p # ps) \<Longrightarrow> lresp_NextPageToken (page t) = [] \<Longrightarrow> ps = []"
  by (auto elim: serves_cases)

text \<open>What a call promises that starts with \<open>acc\<close> in hand and \<open>rest\<close> ahead: either everything, or a
  full page and a token for the place where the rest goes on.\<close>

definition page_promise ::
  "(string \<Rightarrow> list_response) \<Rightarrow> DeploymentListOptions \<Rightarrow> nat \<Rightarrow> DeploymentSummary list \<Rightarrow> execution_info list \<Rightarrow>
   DeploymentList \<Rightarrow> bool" where
  "page_promise page options limit acc rest l \<longleftrightarrow>
     dl_NextPageToken l = [] \<and> dl_Deployments l = acc @ summaries options rest \<or>
     (\<exists>c n rest'. dl_NextPageToken l = encodeDeploymentListCursor c \<and> c \<noteq> zero_cursor \<and> place page c n rest' \<and>
        length (dl_Deployments l) = limit \<and>
        dl_Deployments l @ summaries options rest' = acc @ summaries options rest)"

lemma page_promise_more:
  "dl_NextPageToken l = encodeDeploymentListCursor c \<Longrightarrow> c \<noteq> zero_cursor \<Longrightarrow> place page c n rest' \<Longrightarrow>
   length (dl_Deployments l) = limit \<Longrightarrow>
   dl_Deployments l @ summaries options rest' = acc @ summaries options rest \<Longrightarrow>
   page_promise page options limit acc rest l"
  unfolding page_promise_def by blast

lemma list_round_place:
  assumes T: "serves_lists T limit page" and pl: "place page c n rest" and acc: "length acc < limit"
  shows "(\<exists>l h. list_round T options limit c acc (h0, w) = Inl (Inr l, (h, w)) \<and>
            page_promise page options limit acc rest l) \<or>
         (\<exists>c' acc' n' h rest'. list_round T options limit c acc (h0, w) = Inr (c', acc', (h, w)) \<and>
            place page c' n' rest' \<and> n' < n \<and> length acc' < limit \<and>
            acc' @ summaries options rest' = acc @ summaries options rest)"
proof -
  let ?t = "cur_NextPageToken c"
  let ?p = "lresp_Executions (page ?t)" and ?next = "lresp_NextPageToken (page ?t)"
  from pl obtain ps off where s: "serves page ?t (?p # ps)" and off: "sint (cur_Offset c) = int off" "off \<le> length ?p"
    and small: "list_all (\<lambda>q. length q \<le> 1000) (?p # ps)" and n: "n = length ps"
    and rest: "rest = drop off ?p @ concat ps"
    unfolding place_def by blast
  have called: "call (\<lambda>_. CallList (list_query limit ?t)) (tc_ListWorkflow T (list_query limit ?t)) (h0, w) =
      (Inr (page ?t), (h0 @ [CallList (list_query limit ?t)], w))"
    using T by (simp add: serves_lists_def call_def)
  obtain acc' k where scan: "scan_page options limit off (drop off ?p) acc = (acc', k)"
    by (cases "scan_page options limit off (drop off ?p) acc")
  have round: "list_round T options limit c acc (h0, w) =
      (case k of
         Some index \<Rightarrow> Inl (Inr \<lparr>dl_Deployments = acc',
           dl_NextPageToken = encodeDeploymentListCursor (next_cursor ?t (page ?t) index)\<rparr>,
           (h0 @ [CallList (list_query limit ?t)], w))
       | None \<Rightarrow>
           if ?next = [] then Inl (Inr \<lparr>dl_Deployments = acc', dl_NextPageToken = []\<rparr>, (h0 @ [CallList (list_query limit ?t)], w))
           else Inr (\<lparr>cur_NextPageToken = ?next, cur_Offset = 0\<rparr>, acc', (h0 @ [CallList (list_query limit ?t)], w)))"
    using acc off scan called by (simp add: list_round_def Let_def split: option.split)
  show ?thesis
  proof (cases k)
    case None
    with scan_page_none [of options limit off "drop off ?p" acc acc'] scan acc
    have acc': "acc' = acc @ summaries options (drop off ?p)" "length acc' < limit" by auto
    show ?thesis
    proof (cases "?next = []")
      case True
      with last_place [OF s] have "rest = drop off ?p" using rest by simp
      with round None True acc'(1) show ?thesis by (auto simp: page_promise_def)
    next
      case False
      from next_place [OF s False] small have
        "place page \<lparr>cur_NextPageToken = ?next, cur_Offset = 0\<rparr> (length ps - 1) (concat ps)" "length ps - 1 < n"
        unfolding n by simp_all
      with round None False acc' rest show ?thesis by fastforce
    qed
  next
    case (Some j)
    with scan_page_some [of options limit off "drop off ?p" acc acc' j] scan acc
    have j: "off \<le> j" "j < length ?p" and acc': "acc' = acc @ summaries options (take (j + 1 - off) (drop off ?p))"
      and full: "length acc' = limit" using off(2) by auto
    have cut: "drop off ?p = take (j + 1 - off) (drop off ?p) @ drop (j + 1) ?p"
      using j(1) append_take_drop_id [of "j + 1 - off" "drop off ?p"] by simp
    then have cut_sum: "summaries options (drop off ?p) =
        summaries options (take (j + 1 - off) (drop off ?p)) @ summaries options (drop (j + 1) ?p)"
      by (metis summaries_simps(3))
    let ?l = "\<lparr>dl_Deployments = acc', dl_NextPageToken = encodeDeploymentListCursor (next_cursor ?t (page ?t) j)\<rparr>"
    have "page_promise page options limit acc rest ?l"
    proof (cases "j + 1 < length ?p")
      case True
      let ?c = "\<lparr>cur_NextPageToken = ?t, cur_Offset = (of_nat (j + 1) :: go_int)\<rparr>"
      have "j + 1 \<le> 1000" using True small by simp
      then have o: "sint (of_nat (j + 1) :: go_int) = int (j + 1)"
        using sint_exact [of "int (j + 1)"] by simp
      then have "?c \<noteq> zero_cursor" by (auto simp: zero_cursor_def)
      moreover have "place page ?c n (drop (j + 1) ?p @ concat ps)"
        unfolding place_def using s True small n o by (intro exI [of _ ps] exI [of _ "j + 1"]) simp
      moreover have "acc' @ summaries options (drop (j + 1) ?p @ concat ps) = acc @ summaries options rest"
        unfolding rest acc' using cut_sum by simp
      ultimately show ?thesis
        by (intro page_promise_more [where c = ?c and n = n and rest' = "drop (j + 1) ?p @ concat ps"])
           (use True full in \<open>simp_all add: next_cursor_def\<close>)
    next
      case False
      then have last: "drop (j + 1) ?p = []" by simp
      then have all: "acc' = acc @ summaries options (drop off ?p)" unfolding acc' using cut_sum by simp
      show ?thesis
      proof (cases "?next = []")
        case True
        with last_place [OF s] rest all False show ?thesis
          by (simp add: page_promise_def next_cursor_def encodeDeploymentListCursor_def)
      next
        case more: False
        from next_place(2) [OF s more] small have
          "place page \<lparr>cur_NextPageToken = ?next, cur_Offset = 0\<rparr> (length ps - 1) (concat ps)" by simp
        moreover have "\<lparr>cur_NextPageToken = ?next, cur_Offset = 0\<rparr> \<noteq> zero_cursor" using more by (simp add: zero_cursor_def)
        ultimately show ?thesis
          by (intro page_promise_more) (use False full all rest in \<open>simp_all add: next_cursor_def\<close>)
      qed
    qed
    with round Some show ?thesis by auto
  qed
qed

lemma list_loop_place:
  assumes T: "serves_lists T limit page"
  shows "place page c n rest \<Longrightarrow> length acc < limit \<Longrightarrow>
    \<exists>l h. list_loop T options limit c acc (h0, w) = Some (Inr l, (h, w)) \<and> page_promise page options limit acc rest l"
proof (induction n arbitrary: c rest acc h0 rule: less_induct)
  case (less n)
  from list_round_place [OF T less.prems] consider
      (stops) l h where "list_round T options limit c acc (h0, w) = Inl (Inr l, (h, w))"
        "page_promise page options limit acc rest l"
    | (goes) c' acc' n' h rest' where "list_round T options limit c acc (h0, w) = Inr (c', acc', (h, w))"
        "place page c' n' rest'" "n' < n" "length acc' < limit"
        "acc' @ summaries options rest' = acc @ summaries options rest"
    by blast
  then show ?case
  proof cases
    case stops
    then show ?thesis by (subst list_loop.simps) simp
  next
    case goes
    from less.IH [OF goes(3,2,4), of h] obtain l h' where
      l: "list_loop T options limit c' acc' (h, w) = Some (Inr l, (h', w))" "page_promise page options limit acc' rest' l"
      by blast
    then have "list_loop T options limit c acc (h0, w) = Some (Inr l, (h', w))"
      using goes(1) by (subst list_loop.simps) simp
    moreover have "page_promise page options limit acc rest l"
      using l(2) goes(5) unfolding page_promise_def by simp
    ultimately show ?thesis by blast
  qed
qed

text \<open>A client that follows the tokens until one is empty, with a bound on its calls.\<close>

fun fetch_all ::
  "nat \<Rightarrow> 'w temporal \<Rightarrow> DeploymentListOptions \<Rightarrow> 'w cctx \<Rightarrow> DeploymentSummary list list option" where
  "fetch_all 0 T options ctx = None"
| "fetch_all (Suc n) T options ctx =
     (case ListDeployments T options ctx of
        Some (Inr l, ctx1) \<Rightarrow>
          if dl_NextPageToken l = [] then Some [dl_Deployments l]
          else map_option ((#) (dl_Deployments l))
                 (fetch_all n T (options\<lparr>lo_PageToken := dl_NextPageToken l\<rparr>) ctx1)
      | _ \<Rightarrow> None)"

lemma list_limit_pos: "0 < list_limit i"
  by (simp add: list_limit_def)

lemma fetch_all_place:
  assumes T: "serves_lists T (list_limit (lo_Limit options)) page"
  shows "place page c n rest \<Longrightarrow> length (summaries options rest) < fuel \<Longrightarrow>
    \<exists>pages. fetch_all fuel T (options\<lparr>lo_PageToken := encodeDeploymentListCursor c\<rparr>) (h0, w) = Some pages \<and>
      concat pages = summaries options rest \<and>
      list_all (\<lambda>p. length p = list_limit (lo_Limit options)) (butlast pages)"
proof (induction fuel arbitrary: c n rest h0)
  case (Suc fuel)
  let ?o = "options\<lparr>lo_PageToken := encodeDeploymentListCursor c\<rparr>" and ?lim = "list_limit (lo_Limit options)"
  have same: "deployment_summary ?o = deployment_summary options"
    by (simp add: fun_eq_iff deployment_summary_def deploymentMatches_def split: option.split)
  from list_loop_place [OF T Suc.prems(1), of "[]" ?o h0 w] list_limit_pos obtain l h where
    l: "list_loop T ?o ?lim c [] (h0, w) = Some (Inr l, (h, w))" "page_promise page ?o ?lim [] rest l"
    by auto
  then have listed: "ListDeployments T ?o (h0, w) = Some (Inr l, (h, w))"
    using cursor_round [of c] by (simp add: ListDeployments_def)
  from l(2) consider "dl_NextPageToken l = []" "dl_Deployments l = summaries options rest"
    | c' n' rest' where "dl_NextPageToken l = encodeDeploymentListCursor c'" "c' \<noteq> zero_cursor" "place page c' n' rest'"
        "length (dl_Deployments l) = ?lim" "dl_Deployments l @ summaries options rest' = summaries options rest"
    unfolding page_promise_def same append_Nil by blast
  then show ?case
  proof cases
    case 1
    with listed show ?thesis by simp
  next
    case 2
    have "length (summaries options rest') < fuel"
      using Suc.prems(2) 2(4) list_limit_pos [of "lo_Limit options"] unfolding 2(5) [symmetric] by simp
    from Suc.IH [OF 2(3) this, of h] obtain pages where
      pages: "fetch_all fuel T (options\<lparr>lo_PageToken := encodeDeploymentListCursor c'\<rparr>) (h, w) = Some pages"
        "concat pages = summaries options rest'" "list_all (\<lambda>p. length p = ?lim) (butlast pages)"
      by blast
    have "encodeDeploymentListCursor c' \<noteq> []" using 2(2) cursor_round [of c'] by simp
    then have "fetch_all (Suc fuel) T ?o (h0, w) = Some (dl_Deployments l # pages)"
      using listed pages(1) 2(1) by simp
    with pages 2 show ?thesis by simp
  qed
qed simp

text \<open>C22. Paging is complete and repeats nothing: against a list that does not change, served in pages
  of at most a thousand, a client that follows the tokens gets, in order and once each, exactly the
  deployments that match its filter; every page but the last is full, and one call more than there
  are deployments is always enough.\<close>

theorem paging_complete:
  assumes "serves_lists T (list_limit (lo_Limit options)) page" and "serves page [] pages"
    and "list_all (\<lambda>p. length p \<le> 1000) pages" and "lo_PageToken options = []"
    and "length (summaries options (concat pages)) < fuel"
  shows "\<exists>out. fetch_all fuel T options ctx = Some out \<and> concat out = summaries options (concat pages) \<and>
    list_all (\<lambda>p. length p = list_limit (lo_Limit options)) (butlast out)"
proof -
  from serves_Cons [OF assms(2)] assms(2,3) have "place page zero_cursor (length pages - 1) (concat pages)"
    unfolding place_def zero_cursor_def by auto
  moreover have "options\<lparr>lo_PageToken := encodeDeploymentListCursor zero_cursor\<rparr> = options"
    using assms(4) by (cases options) (simp add: encodeDeploymentListCursor_def zero_cursor_def)
  ultimately show ?thesis using fetch_all_place [OF assms(1) _ assms(5), of zero_cursor _ "fst ctx" "snd ctx"] by simp
qed

text \<open>Whatever Temporal answers, a page that is handed out has at most as many entries as asked for
  (one to 500, 100 by default), each a deployment that matches the filter, under the identifier its
  identity gives.\<close>

lemma list_page_sound:
  assumes "ListDeployments T options ctx = Some (Inr l, ctx')"
  shows "length (dl_Deployments l) \<le> list_limit (lo_Limit options) \<and> list_limit (lo_Limit options) \<le> 500 \<and>
    list_all (\<lambda>d. deploymentMatches (sum_Identity d) options \<and> WorkflowID (sum_Identity d) = sum_WorkflowID d)
      (dl_Deployments l)"
proof -
  from assms obtain cursor where
    "list_loop T options (list_limit (lo_Limit options)) cursor [] ctx = Some (Inr l, ctx')"
    by (auto simp: ListDeployments_def split: sum.split_asm)
  from list_loop_sound [OF this] have "page_sound options (list_limit (lo_Limit options)) (dl_Deployments l)"
    by (simp add: page_sound_def)
  moreover have "list_limit (lo_Limit options) \<le> 500"
    by (simp add: list_limit_def nat_le_iff)
  ultimately show ?thesis by (simp add: page_sound_def)
qed

subsection \<open>The order of the answers does not matter\<close>

lemma describe_fold:
  assumes quiet: "\<And>i w. i < length deps \<Longrightarrow> snd (tc_QueryView T (WorkflowID (sum_Identity (deps ! i))) ''describe'' w) = w"
    and "set is \<subseteq> {..<length deps}" and "length cards = length deps"
  shows "fst (fold (describe_all_step T deps) is (cards, (h, w))) =
    map (\<lambda>i. if i \<in> set is then deployment_card (deps ! i) (fst (Describe T (sum_Identity (deps ! i)) ([], w))) else cards ! i)
      [0..<length deps]"
  using assms(2,3)
proof (induction "is" arbitrary: cards h)
  case Nil
  then show ?case by simp (metis map_nth)
next
  case (Cons i js)
  have world: "\<exists>h'. Describe T (sum_Identity (deps ! i)) (h, w) = (fst (Describe T (sum_Identity (deps ! i)) ([], w)), (h', w))"
    using quiet [of i w] Cons.prems(1)
    by (auto simp: Describe_def query_def call_def split: prod.splits sum.splits)
  then obtain h' where d: "Describe T (sum_Identity (deps ! i)) (h, w) = (fst (Describe T (sum_Identity (deps ! i)) ([], w)), (h', w))" ..
  let ?cards = "cards[i := deployment_card (deps ! i) (fst (Describe T (sum_Identity (deps ! i)) ([], w)))]"
  have "fst (fold (describe_all_step T deps) (i # js) (cards, (h, w))) = fst (fold (describe_all_step T deps) js (?cards, (h', w)))"
    by (simp add: describe_all_step_def d)
  also have "\<dots> = map (\<lambda>k. if k \<in> set js then deployment_card (deps ! k) (fst (Describe T (sum_Identity (deps ! k)) ([], w))) else ?cards ! k)
      [0..<length deps]"
    by (rule Cons.IH) (use Cons.prems in simp_all)
  also have "\<dots> = map (\<lambda>k. if k \<in> set (i # js) then deployment_card (deps ! k) (fst (Describe T (sum_Identity (deps ! k)) ([], w))) else cards ! k)
      [0..<length deps]"
    using Cons.prems by (intro map_cong refl) (auto simp: nth_list_update)
  finally show ?case .
qed

text \<open>The summary does not depend on how its goroutines are scheduled: if queries change nothing, every
  order of the answers gives the same cards, each deployment's own card in the place it is listed.\<close>

lemma describe_all_order:
  assumes "\<And>i w. i < length deps \<Longrightarrow> snd (tc_QueryView T (WorkflowID (sum_Identity (deps ! i))) ''describe'' w) = w"
    and "set schedule = {..<length deps}"
  shows "fst (describe_cards T schedule deps (h, w)) =
    map (\<lambda>d. deployment_card d (fst (Describe T (sum_Identity d) ([], w)))) deps"
proof -
  have "fst (describe_cards T schedule deps (h, w)) =
      map (\<lambda>i. deployment_card (deps ! i) (fst (Describe T (sum_Identity (deps ! i)) ([], w)))) [0..<length deps]"
    unfolding describe_cards_def
    by (subst describe_fold [OF assms(1)]) (use assms(2) in \<open>auto intro!: map_cong\<close>)
  also have "\<dots> = map (\<lambda>d. deployment_card d (fst (Describe T (sum_Identity d) ([], w)))) (map ((!) deps) [0..<length deps])"
    by simp
  finally show ?thesis unfolding map_nth .
qed

end
