(* ===== verification/Control_Examples.thy ===== *)
theory Control_Examples
  imports Deployment_Listing
begin

text \<open>
  Concrete Temporal servers and the facts of the control service on them: a cluster that has been
  frozen, and a list of executions in two pages.
\<close>

definition wiki :: DeploymentIdentity where
  "wiki = bare_identity ''dev'' ''jobs'' ''wiki''"

definition freeze :: ClusterCommand where
  "freeze = \<lparr>cc_Type = ClusterFreeze, cc_Requester = ''alice'', cc_Reason = ''incident'', cc_At = 0\<rparr>"

definition cluster_history :: "(go_time \<times> ClusterCommand) list" where
  "cluster_history = [(7, freeze)]"

text \<open>A server that starts, signals and answers everything, with the cluster in the state its history
  left it in, and lists the given pages.\<close>

definition demo_server :: "(go_time \<times> ClusterCommand) list \<Rightarrow> (string \<Rightarrow> list_response) \<Rightarrow> unit temporal" where
  "demo_server history page =
     \<lparr>tc_ExecuteWorkflow = \<lambda>opts input w. (None, w),
      tc_SignalWorkflow = \<lambda>wfid name arg w. (None, w),
      tc_QueryCluster = \<lambda>wfid name w.
        (Inr (\<lambda>_. Inr (ClusterActorWorkflow (new_cluster_state ''dev'' ''jobs'') history)), w),
      tc_QueryView = \<lambda>wfid name w. (if wfid = WorkflowID wiki then Inr Inr else Inl ''not found'', w),
      tc_QueryVersions = \<lambda>wfid name w. (Inl ''not found'', w),
      tc_ListWorkflow = \<lambda>request w. (Inr (page (lreq_NextPageToken request)), w)\<rparr>"

definition demo_service :: Service where
  "demo_service = NewService ''actors'' ''activities'' 500 4"

definition suspend_wiki :: DeploymentCommand where
  "suspend_wiki =
     \<lparr>cmd_OperationID = ''op-1'', cmd_IdempotencyKey = ''op-1'', cmd_Type = CommandSuspend, cmd_Requester = ''bob'',
      cmd_RequestedAt = 0, cmd_TargetSpec = None, cmd_TargetVersion = 0, cmd_Parallelism = 0,
      cmd_Approved = False, cmd_Incident = False, cmd_Reason = []\<rparr>"

definition deployment_execution :: "string \<Rightarrow> execution_info" where
  "deployment_execution name =
     \<lparr>ex_Type = ''DeploymentActorWorkflow'', ex_WorkflowID = WorkflowID (bare_identity ''dev'' ''jobs'' name),
      ex_StartTime = None\<rparr>"

definition demo_page :: "string \<Rightarrow> list_response" where
  "demo_page t =
     (if t = [] then \<lparr>lresp_Executions =
          [deployment_execution ''a'', \<lparr>ex_Type = ''RolloutWorkflow'', ex_WorkflowID = ''r'', ex_StartTime = None\<rparr>,
           deployment_execution ''b''],
        lresp_NextPageToken = ''next''\<rparr>
      else \<lparr>lresp_Executions = [deployment_execution ''c''], lresp_NextPageToken = []\<rparr>)"

definition demo_options :: DeploymentListOptions where
  "demo_options = \<lparr>lo_Environment = ''dev'', lo_Namespace = [], lo_Limit = 1, lo_PageToken = []\<rparr>"

text \<open>A cluster that is not frozen: the command is signalled.\<close>

definition demo_sent :: "unit service_result \<times> unit cctx" where
  "demo_sent = SendCommand (demo_server [] demo_page) demo_service wiki suspend_wiki ([], ())"

lemma demo_queue: "\<exists>q. actorQueueFor demo_service i = Some q"
  using shard_polled [of 4 "''actors''" i] by (auto simp: actorQueueFor_def demo_service_def NewService_def)

lemma demo_accepts:
  assumes "id_Environment d = ''dev''" "id_Namespace d = ''jobs''"
  shows "fst (SendCommand (demo_server [] page) demo_service d c ctx) = Inr ()"
proof -
  obtain q p where "actorQueueFor demo_service (ClusterActorState_WorkflowID (new_cluster_state ''dev'' ''jobs'')) = Some q"
    "actorQueueFor demo_service (WorkflowID d) = Some p"
    using demo_queue by blast
  with assms show ?thesis
    by (cases ctx) (simp add: SendCommand_def EnsureDeploymentActor_def EnsureClusterActor_def start_workflow_def
        DescribeCluster_def query_def send_signal_def call_def demo_server_def ClusterActorWorkflow_def
        new_cluster_state_def Let_def)
qed

lemma demo_sent_ok: "fst demo_sent = Inr ()"
  unfolding demo_sent_def by (rule demo_accepts) (simp_all add: wiki_def bare_identity_def)

theorem send_command_effects_witness:
  "signals_sent [last (fst (snd demo_sent))] = [(WorkflowID wiki, ''deployment-command'', DeploymentSignal suspend_wiki)]"
proof -
  have "SendCommand (demo_server [] demo_page) demo_service wiki suspend_wiki ([], ()) = (fst demo_sent, snd demo_sent)"
    by (simp add: demo_sent_def)
  from send_command_effects [OF this] obtain starts rest where
    *: "fst (snd demo_sent) = starts @ rest" "signals_sent rest = [] \<or>
       signals_sent rest = [(WorkflowID wiki, ''deployment-command'', DeploymentSignal suspend_wiki)] \<and>
       signals_sent [last rest] = signals_sent rest" "signals_sent rest \<noteq> []"
    using demo_sent_ok by auto
  then have "rest \<noteq> []" by auto
  with * show ?thesis by auto
qed

text \<open>What starting the actor does.\<close>

definition demo_started :: "unit service_result \<times> unit cctx" where
  "demo_started = EnsureDeploymentActor (demo_server [] demo_page) demo_service wiki None ([], ())"

theorem control_starts_sound_actors_witness: "fst demo_started \<noteq> Inl Panicked"
proof -
  have "EnsureDeploymentActor (demo_server [] demo_page) demo_service wiki None ([], ()) = (fst demo_started, snd demo_started)"
    by (simp add: demo_started_def)
  moreover have "sint (sv_ActorShards demo_service) < 2 ^ 32" by (simp add: demo_service_def NewService_def)
  ultimately show ?thesis by (rule control_starts_sound_actors [THEN conjunct1])
qed

lemma demo_identity_of:
  assumes "name \<noteq> []"
  shows "deployment_summary demo_options (deployment_execution name) =
    Some \<lparr>sum_Identity = bare_identity ''dev'' ''jobs'' name,
          sum_WorkflowID = WorkflowID (bare_identity ''dev'' ''jobs'' name), sum_StartedAt = 0\<rparr>"
proof -
  have "deploymentIdentityFromWorkflowID (WorkflowID (bare_identity ''dev'' ''jobs'' name)) = Some (bare_identity ''dev'' ''jobs'' name)"
    using assms unfolding identity_from_iff by (simp add: bare_identity_def)
  then show ?thesis
    by (simp add: deployment_summary_def deployment_execution_def deploymentMatches_def demo_options_def)
       (simp add: bare_identity_def)
qed

lemma other_type: "ex_Type e \<noteq> ''DeploymentActorWorkflow'' \<Longrightarrow> deployment_summary options e = None"
  by (simp add: deployment_summary_def)

lemma demo_serves: "serves demo_page [] [lresp_Executions (demo_page []), lresp_Executions (demo_page ''next'')]"
proof -
  have "serves demo_page ''next'' [lresp_Executions (demo_page ''next'')]"
    by (rule last_page) (simp add: demo_page_def)
  then show ?thesis by (intro next_page) (simp_all add: demo_page_def)
qed

lemma demo_serves_lists: "serves_lists (demo_server history demo_page) limit demo_page"
  by (simp add: serves_lists_def demo_server_def list_query_def)

theorem paging_complete_witness:
  "\<exists>out. fetch_all 4 (demo_server [] demo_page) demo_options ([], ()) = Some out \<and>
     map (id_Name \<circ> sum_Identity) (concat out) = [''a'', ''b'', ''c'']"
proof -
  let ?all = "concat [lresp_Executions (demo_page []), lresp_Executions (demo_page ''next'')]"
  have all: "map (id_Name \<circ> sum_Identity) (summaries demo_options ?all) = [''a'', ''b'', ''c'']"
    by (simp add: demo_page_def demo_identity_of other_type) (simp add: bare_identity_def)
  then have "length (summaries demo_options ?all) = 3"
    by (metis length_map length_Cons list.size(3) numeral_3_eq_3)
  with paging_complete [OF demo_serves_lists demo_serves, of demo_options 4 "[]" "([], ())"] all show ?thesis
    by (fastforce simp: demo_page_def demo_options_def)
qed

definition demo_first :: "(DeploymentList service_result \<times> unit cctx) option" where
  "demo_first = ListDeployments (demo_server [] demo_page) demo_options ([], ())"

lemma demo_first_ok: "\<exists>l ctx. demo_first = Some (Inr l, ctx)"
proof -
  have "place demo_page zero_cursor 1 (concat [lresp_Executions (demo_page []), lresp_Executions (demo_page ''next'')])"
    unfolding place_def zero_cursor_def using demo_serves
    by (intro exI [of _ "[lresp_Executions (demo_page ''next'')]"] exI [of _ 0]) (simp add: demo_page_def)
  from list_loop_place [OF demo_serves_lists this, of "[]" "list_limit 1" "[]" demo_options "[]" "()"] list_limit_pos
  show ?thesis by (auto simp: demo_first_def ListDeployments_def decodeDeploymentListCursor_def demo_options_def)
qed

theorem list_page_sound_witness:
  "\<exists>l ctx. demo_first = Some (Inr l, ctx) \<and> length (dl_Deployments l) \<le> 1"
proof -
  from demo_first_ok obtain l ctx where l: "demo_first = Some (Inr l, ctx)" by blast
  from list_page_sound [OF this [unfolded demo_first_def]] have "length (dl_Deployments l) \<le> 1"
    by (simp add: demo_options_def list_limit_def)
  with l show ?thesis by blast
qed

text \<open>Two deployments, asked in either order.\<close>

definition demo_deployments :: "DeploymentSummary list" where
  "demo_deployments = map (\<lambda>d. \<lparr>sum_Identity = d, sum_WorkflowID = WorkflowID d, sum_StartedAt = 0\<rparr>)
     [wiki, bare_identity ''dev'' ''jobs'' ''gone'']"

theorem describe_all_order_witness:
  "map card_Status (fst (describe_cards (demo_server [] demo_page) [1, 0] demo_deployments ([], ()))) =
     [ActorUnset, ActorUnreachable]"
proof -
  have "set [1, 0 :: nat] = {..<length demo_deployments}"
    by (auto simp: demo_deployments_def)
  from describe_all_order [OF _ this, of "demo_server [] demo_page" "[]" "()"] show ?thesis
    by (simp add: demo_server_def demo_deployments_def Describe_def query_def call_def deployment_card_def zero_view_def
        wiki_def bare_identity_def WorkflowID_def Let_def)
qed

end
