(* ===== verification/Flink_Render.thy ===== *)
theory Flink_Render
  imports Change Activity_Types
begin

text \<open>
  The Flink rendering of the Kubernetes backend (backends/kubernetes/flink.go): the custom resources
  an apply and a savepoint create, and the health read from a resource's status. A rendered object is
  a tree of the Go values \<open>unstructured\<close> holds; a map keeps its entries in the order they are written.
\<close>

datatype kube_value =
  KStr string
| KInt go_int
| KFloat float64
| KBool bool
| KList "kube_value list"
| KMap "(string \<times> kube_value) list"

text \<open>An object read from the API server is a library type: it is what its accessors answer, the
  value, whether there is one, and the error if the path leads elsewhere.\<close>

record unstructured =
  un_NestedString :: "string list \<Rightarrow> string \<times> bool \<times> go_error option"
  un_NestedInt64 :: "string list \<Rightarrow> go_int \<times> bool \<times> go_error option"

definition nested :: "unstructured \<Rightarrow> string list \<Rightarrow> string" where
  "nested obj path = fst (un_NestedString obj path)"

subsection \<open>Small helpers\<close>

definition stringOr :: "string \<Rightarrow> string \<Rightarrow> string" where
  "stringOr value fallback = (if trim_space value = [] then fallback else value)"

definition setIfAbsent :: "string \<Rightarrow> string \<Rightarrow> string_map \<Rightarrow> string_map" where
  "setIfAbsent key value m = (if map_has m key then m else map_put key value m)"

definition go_max :: "go_int \<Rightarrow> go_int \<Rightarrow> go_int" where
  "go_max a b = (if go_lt a b then b else a)"

text \<open>\<open>for k, v := range from { m[k] = v }\<close>.\<close>

definition copy_into :: "string_map \<Rightarrow> string_map \<Rightarrow> string_map" where
  "copy_into source m = fold (\<lambda>(k, v). map_put k v) (entries source) m"

definition toStringMap :: "string_map \<Rightarrow> kube_value" where
  "toStringMap m = KMap (map (\<lambda>(k, v). (k, KStr v)) (entries m))"

definition argJarURI :: string where "argJarURI = ''cohestra.jarURI''"
definition argEntryClass :: string where "argEntryClass = ''cohestra.entryClass''"
definition argJMMemory :: string where "argJMMemory = ''cohestra.jobManagerMemory''"
definition defaultJarURI :: string where "defaultJarURI = ''local:///opt/flink/usrlib/job.jar''"

definition flinkVersionEnum :: "string \<Rightarrow> string" where
  "flinkVersionEnum version =
     (let v = trim_space version
      in if v = [] then ''v2_2''
         else if has_prefix v ''v'' then v
         else ''v'' @ map (\<lambda>c. if c = CHR ''.'' then CHR ''_'' else c) v)"

definition upgradeMode :: "ApplyDeploymentInput \<Rightarrow> string" where
  "upgradeMode input =
     (if ap_Previous input = None then ''stateless''
      else if sc_FreshStartApproved (spec_State (ver_Spec (ap_Version input))) then ''stateless''
      else if ap_Incident input \<and> \<not> ap_GitOpsOnly input then ''last-state''
      else ''savepoint'')"

definition reserved_arg :: "string \<Rightarrow> bool" where
  "reserved_arg k \<longleftrightarrow> k = argJarURI \<or> k = argEntryClass \<or> k = argJMMemory"

definition program_keys :: "string_map \<Rightarrow> string list" where
  "program_keys jobArgs = sort (filter (\<lambda>k. \<not> reserved_arg k) (map fst (entries jobArgs)))"

definition programArgs :: "string_map \<Rightarrow> string list" where
  "programArgs jobArgs = concat (map (\<lambda>k. [''--'' @ k, map_str jobArgs k]) (program_keys jobArgs))"

subsection \<open>The deployment resource\<close>

definition flink_configuration :: "DeploymentSpec \<Rightarrow> string_map \<Rightarrow> string \<Rightarrow> string_map" where
  "flink_configuration spec defaults localStoragePath =
     (let c1 = copy_into defaults (Some []);
          c2 = map_put ''pipeline.max-parallelism'' (itoa (spec_MaxParallelism spec)) c1;
          c3 = map_put ''taskmanager.numberOfTaskSlots''
                 (itoa (go_max (rs_SlotsPerManager (spec_Resources spec)) 1)) c2;
          c4 = (if localStoragePath = [] then c3
                else setIfAbsent ''state.savepoints.dir'' ''file:///flink-data/savepoints''
                     (setIfAbsent ''state.checkpoints.dir'' ''file:///flink-data/checkpoints''
                      (setIfAbsent ''high-availability.storageDir'' ''file:///flink-data/ha''
                       (setIfAbsent ''high-availability.type'' ''kubernetes'' c3))))
      in copy_into (spec_FlinkConfig spec) c4)"

definition flink_job :: "ApplyDeploymentInput \<Rightarrow> (string \<times> kube_value) list" where
  "flink_job input =
     (let spec = ver_Spec (ap_Version input); jobArgs = spec_JobArgs spec; args = programArgs jobArgs
      in [(''jarURI'', KStr (stringOr (map_str jobArgs argJarURI) defaultJarURI)),
          (''parallelism'', KInt (spec_Parallelism spec)),
          (''upgradeMode'', KStr (upgradeMode input)),
          (''state'', KStr ''running'')] @
         (if map_str jobArgs argEntryClass \<noteq> [] then [(''entryClass'', KStr (map_str jobArgs argEntryClass))] else []) @
         (if sc_AllowNonRestored (spec_State spec) then [(''allowNonRestoredState'', KBool True)] else []) @
         (if args \<noteq> [] then [(''args'', KList (map KStr args))] else []) @
         (if ap_SavepointURI input \<noteq> [] then [(''initialSavepointPath'', KStr (ap_SavepointURI input))] else []))"

definition storage_pod_template :: "string \<Rightarrow> string \<Rightarrow> kube_value" where
  "storage_pod_template digest localStoragePath =
     (let mount = KMap [(''name'', KStr ''flink-data''), (''mountPath'', KStr ''/flink-data'')]
      in KMap [(''spec'', KMap
           [(''initContainers'', KList [KMap
               [(''name'', KStr ''fix-storage-perms''),
                (''image'', KStr digest),
                (''command'', KList [KStr ''sh'', KStr ''-c'',
                   KStr ''mkdir -p /flink-data && chmod -R 777 /flink-data'']),
                (''volumeMounts'', KList [mount]),
                (''securityContext'', KMap [(''runAsUser'', KInt 0)])]]),
            (''containers'', KList [KMap
               [(''name'', KStr ''flink-main-container''), (''volumeMounts'', KList [mount])]]),
            (''volumes'', KList [KMap
               [(''name'', KStr ''flink-data''),
                (''hostPath'', KMap [(''path'', KStr localStoragePath), (''type'', KStr ''DirectoryOrCreate'')])]])])])"

definition flink_metadata :: "ApplyDeploymentInput \<Rightarrow> kube_value" where
  "flink_metadata input =
     KMap [(''name'', KStr (id_Name (ap_Identity input))),
           (''namespace'', KStr (id_Namespace (ap_Identity input))),
           (''labels'', KMap
              [(''app.kubernetes.io/managed-by'', KStr ''cohestra''),
               (''cohestra.io/environment'', KStr (id_Environment (ap_Identity input))),
               (''cohestra.io/node-pool'', KStr (stringOr (id_NodePool (ap_Identity input)) ''default''))]),
           (''annotations'', KMap
              [(''cohestra.io/version-id'', KStr (itoa (ver_VersionID (ap_Version input))))])]"

definition flink_spec :: "ApplyDeploymentInput \<Rightarrow> string_map \<Rightarrow> string \<Rightarrow> (string \<times> kube_value) list" where
  "flink_spec input defaults localStoragePath =
     (let spec = ver_Spec (ap_Version input)
      in [(''image'', KStr (spec_ImageDigest spec)),
          (''flinkVersion'', KStr (flinkVersionEnum (spec_FlinkVersion spec))),
          (''flinkConfiguration'', toStringMap (flink_configuration spec defaults localStoragePath)),
          (''serviceAccount'', KStr (stringOr (id_ServiceAccount (ap_Identity input)) ''flink'')),
          (''jobManager'', KMap [(''resource'', KMap
             [(''memory'', KStr (stringOr (map_str (spec_JobArgs spec) argJMMemory) ''1024m'')),
              (''cpu'', KFloat f_one)])]),
          (''taskManager'', KMap
             [(''replicas'', KInt (go_max (rs_TaskManagerCount (spec_Resources spec)) 1)),
              (''resource'', KMap
                 [(''memory'', KStr (itoa (go_max (rs_TaskManagerMemory (spec_Resources spec)) 1024) @ ''m'')),
                  (''cpu'', KFloat (rs_TaskManagerCPU (spec_Resources spec)))])]),
          (''job'', KMap (flink_job input))] @
         (if localStoragePath \<noteq> []
          then [(''podTemplate'', storage_pod_template (spec_ImageDigest spec) localStoragePath)] else []))"

definition buildFlinkDeployment :: "ApplyDeploymentInput \<Rightarrow> string_map \<Rightarrow> string \<Rightarrow> kube_value" where
  "buildFlinkDeployment input defaults localStoragePath =
     KMap [(''apiVersion'', KStr ''flink.apache.org/v1beta1''),
           (''kind'', KStr ''FlinkDeployment''),
           (''metadata'', flink_metadata input),
           (''spec'', KMap (flink_spec input defaults localStoragePath))]"

definition buildStateSnapshot :: "string \<Rightarrow> DeploymentIdentity \<Rightarrow> kube_value" where
  "buildStateSnapshot name identity =
     KMap [(''apiVersion'', KStr ''flink.apache.org/v1beta1''),
           (''kind'', KStr ''FlinkStateSnapshot''),
           (''metadata'', KMap
              [(''name'', KStr name),
               (''namespace'', KStr (id_Namespace identity)),
               (''labels'', KMap [(''app.kubernetes.io/managed-by'', KStr ''cohestra'')])]),
           (''spec'', KMap
              [(''backoffLimit'', KInt 2),
               (''jobReference'', KMap [(''kind'', KStr ''FlinkDeployment''), (''name'', KStr (id_Name identity))]),
               (''savepoint'', KMap [(''disposeOnDelete'', KBool False), (''formatType'', KStr ''CANONICAL'')])])]"

subsection \<open>Health\<close>

definition observedHealth :: "unstructured \<Rightarrow> HealthSummary \<times> bool" where
  "observedHealth obj =
     (let jmStatus = nested obj [''status'', ''jobManagerDeploymentStatus''];
          jobState = nested obj [''status'', ''jobStatus'', ''state''];
          reconcileState = nested obj [''status'', ''reconciliationStatus'', ''state''];
          errText = nested obj [''status'', ''error''];
          running = equal_fold jobState ''RUNNING'';
          jmReady = equal_fold jmStatus ''READY'';
          healthy = (running \<and> jmReady \<and> errText = []);
          summary = zero_HealthSummary\<lparr>hs_Healthy := healthy, hs_Running := running,
            hs_CheckpointCompleted := healthy, hs_SinkHealthy := healthy, hs_Message := errText\<rparr>;
          failed = (equal_fold jmStatus ''ERROR'' \<or> equal_fold jmStatus ''MISSING'' \<or>
            equal_fold jobState ''FAILED'' \<or> equal_fold reconcileState ''ROLLED_BACK'' \<or> errText \<noteq> [])
      in (summary, healthy \<or> failed))"

subsection \<open>The configuration\<close>

lemma copy_fold:
  "distinct (map fst es) \<Longrightarrow>
   map_find (fold (\<lambda>(k, v). map_put k v) es m) k = (case map_of es k of Some v \<Rightarrow> Some v | None \<Rightarrow> map_find m k)"
proof (induction es arbitrary: m)
  case (Cons e es)
  obtain a v where e: "e = (a, v)" by (cases e)
  have "k = a \<Longrightarrow> map_of es k = None" using Cons.prems e by (simp add: map_of_eq_None_iff)
  with Cons e show ?case by (auto split: option.split)
qed simp

lemma map_find_copy:
  "map_wf source \<Longrightarrow>
   map_find (copy_into source m) k = (case map_find source k of Some v \<Rightarrow> Some v | None \<Rightarrow> map_find m k)"
  unfolding copy_into_def map_wf_def by (simp add: copy_fold) (simp add: map_find_def)

lemma map_find_setIfAbsent:
  "map_find (setIfAbsent key v m) k = (if k = key \<and> \<not> map_has m key then Some v else map_find m k)"
  by (simp add: setIfAbsent_def)

definition storage_defaults :: "(string \<times> string) list" where
  "storage_defaults =
     [(''high-availability.type'', ''kubernetes''), (''high-availability.storageDir'', ''file:///flink-data/ha''),
      (''state.checkpoints.dir'', ''file:///flink-data/checkpoints''),
      (''state.savepoints.dir'', ''file:///flink-data/savepoints'')]"

text \<open>The order of precedence.\<close>

definition configured :: "DeploymentSpec \<Rightarrow> string_map \<Rightarrow> string \<Rightarrow> string \<Rightarrow> string option" where
  "configured spec defaults localStoragePath k =
     (case map_find (spec_FlinkConfig spec) k of
        Some v \<Rightarrow> Some v
      | None \<Rightarrow>
          if k = ''taskmanager.numberOfTaskSlots''
          then Some (itoa (go_max (rs_SlotsPerManager (spec_Resources spec)) 1))
          else if k = ''pipeline.max-parallelism'' then Some (itoa (spec_MaxParallelism spec))
          else case map_find defaults k of
              Some v \<Rightarrow> Some v
            | None \<Rightarrow> if localStoragePath = [] then None else map_of storage_defaults k)"

lemma empty_find [simp]: "map_find (Some []) k = None"
  by (simp add: map_find_def)

lemma configuration_find:
  assumes "map_wf defaults" "map_wf (spec_FlinkConfig spec)"
  shows "map_find (flink_configuration spec defaults localStoragePath) k = configured spec defaults localStoragePath k"
proof -
  have "map_find (copy_into defaults (Some [])) k' = map_find defaults k'" for k'
    using map_find_copy [OF assms(1)] by (simp split: option.split)
  then show ?thesis
    by (simp add: flink_configuration_def configured_def Let_def map_find_copy [OF assms(2)] map_find_setIfAbsent
        map_has_def storage_defaults_def split: option.split)
qed

text \<open>C23. The deployment's own Flink configuration wins over everything the backend sets, then come the
  two settings derived from the specification, then the backend's defaults, then the settings for
  local storage. In particular \<open>pipeline.max-parallelism\<close> can be overridden.\<close>

theorem flink_configuration_precedence:
  assumes "map_wf defaults" and "map_wf (spec_FlinkConfig (ver_Spec (ap_Version input)))"
  shows "\<exists>m. map_of (flink_spec input defaults localStoragePath) ''flinkConfiguration'' = Some (toStringMap m) \<and>
    (\<forall>k. map_find m k = configured (ver_Spec (ap_Version input)) defaults localStoragePath k)"
  by (intro exI [of _ "flink_configuration (ver_Spec (ap_Version input)) defaults localStoragePath"])
     (simp add: flink_spec_def Let_def configuration_find [OF assms])

text \<open>
  The consequence for the maximum parallelism, which the classification protects: a version with
  state whose target lowers it through the Flink configuration is classified as a safe change of the
  configuration, while the rendered job gets the lower value.
\<close>

definition lowered_by_config :: "DeploymentSpec \<Rightarrow> DeploymentSpec" where
  "lowered_by_config s = s\<lparr>spec_FlinkConfig := Some [(''pipeline.max-parallelism'', ''1'')]\<rparr>"

text \<open>The guard on the maximum parallelism can be bypassed: for any running version without a Flink
  configuration and compatible state, a target that sets it to 1 in the Flink configuration is a safe
  change that needs no savepoint, and the job is rendered with a maximum parallelism of 1.\<close>

lemma max_parallelism_bypass:
  assumes "spec_wf (ver_Spec cur)" and "\<not> declares_incompatible (ver_Spec cur)"
    and "spec_FlinkConfig (ver_Spec cur) = None" and "map_wf defaults"
  shows "cls_Risk (ClassifyChange (Some cur) (lowered_by_config (ver_Spec cur)) policy) = RiskSafe \<and>
    \<not> cls_RequiresSavepoint (ClassifyChange (Some cur) (lowered_by_config (ver_Spec cur)) policy) \<and>
    map_find (flink_configuration (lowered_by_config (ver_Spec cur)) defaults path) ''pipeline.max-parallelism'' = Some ''1''"
proof -
  have "map_wf (spec_FlinkConfig (lowered_by_config (ver_Spec cur)))"
    by (simp add: lowered_by_config_def map_wf_def)
  moreover have "\<not> deep_equal None (Some es)" for es by (simp add: deep_equal_def)
  ultimately show ?thesis
    using assms(1-3)
    by (simp add: configuration_find [OF assms(4)])
       (simp add: configured_def lowered_by_config_def map_find_def ClassifyChange_def
         spec_wf_def declares_incompatible_def deep_equal_refl ResourceShape_eq_refl Let_def)
qed

subsection \<open>Program arguments\<close>

text \<open>Reading the arguments back as pairs of a key and its value.\<close>

fun read_args :: "string list \<Rightarrow> (string \<times> string) list" where
  "read_args (a # v # rest) = (drop 2 a, v) # read_args rest"
| "read_args _ = []"

lemma read_args_pairs: "read_args (concat (map (\<lambda>k. [''--'' @ k, f k]) ks)) = map (\<lambda>k. (k, f k)) ks"
  by (induction ks) simp_all

text \<open>The program arguments carry exactly the job arguments that are not reserved: read back as pairs
  they give every such key its value, and none of the reserved keys.\<close>

lemma program_args_round_trip:
  "map_of (read_args (programArgs jobArgs)) k = (if reserved_arg k then None else map_find jobArgs k)"
proof -
  have r: "read_args (programArgs jobArgs) = map (\<lambda>k. (k, map_str jobArgs k)) (program_keys jobArgs)"
    unfolding programArgs_def by (rule read_args_pairs)
  have keys: "set (program_keys jobArgs) = {k \<in> fst ` set (entries jobArgs). \<not> reserved_arg k}"
    by (auto simp: program_keys_def)
  have m: "map_of (map (\<lambda>k. (k, map_str jobArgs k)) ks) k = (if k \<in> set ks then Some (map_str jobArgs k) else None)" for ks
    by (induction ks) auto
  have "k \<notin> fst ` set (entries jobArgs) \<Longrightarrow> map_find jobArgs k = None"
    by (simp add: map_find_def map_of_eq_None_iff)
  moreover have "k \<in> fst ` set (entries jobArgs) \<Longrightarrow> map_find jobArgs k = Some (map_str jobArgs k)"
    using map_has_iff [of jobArgs k] by (auto simp: map_has_def map_str_def)
  ultimately show ?thesis unfolding r m keys by auto
qed

lemma program_args_order:
  assumes "mset (entries m) = mset (entries n)" "map_wf m"
  shows "programArgs m = programArgs n"
proof -
  have "mset (map fst (entries m)) = mset (map fst (entries n))"
    using assms(1) by (metis mset_map)
  then have "mset (filter (\<lambda>k. \<not> reserved_arg k) (map fst (entries m))) =
      mset (filter (\<lambda>k. \<not> reserved_arg k) (map fst (entries n)))"
    by (simp only: mset_filter)
  then have "program_keys m = program_keys n"
    unfolding program_keys_def by (metis properties_for_sort sorted_sort mset_sort)
  moreover have "map_str m = map_str n"
    using map_find_cong [OF assms] by (simp add: map_str_def fun_eq_iff)
  ultimately show ?thesis by (simp add: programArgs_def)
qed

subsection \<open>Health\<close>

lemma f_lt_constants: "\<not> f_lt f_three_quarters f_zero"
  by (simp add: f_lt_def f_key_def f_neg_def f_mag_def f_bits_def f_three_quarters_def f_zero_def)

text \<open>On Kubernetes the health gate with the default policy passes exactly if the job is running, its
  job manager is ready and no error is reported; such a reading ends the polling. Checkpoints, sink,
  restarts, backpressure and lag are not measured: the gate sees them as passed or as zero.\<close>

lemma kubernetes_health_gate:
  "EvaluateHealth (fst (observedHealth obj)) (DefaultPolicy environment) = Inr () \<longleftrightarrow>
     equal_fold (nested obj [''status'', ''jobStatus'', ''state'']) ''RUNNING'' \<and>
     equal_fold (nested obj [''status'', ''jobManagerDeploymentStatus'']) ''READY'' \<and>
     nested obj [''status'', ''error''] = [] \<and> snd (observedHealth obj) \<and>
     hs_RestartCount (fst (observedHealth obj)) = 0 \<and> hs_KafkaLag (fst (observedHealth obj)) = 0"
  by (auto simp: EvaluateHealth_ok_iff observedHealth_def DefaultPolicy_def zero_HealthSummary_def f_lt_constants Let_def)

end
