(* ===== verification/Kube_Api.thy ===== *)
theory Kube_Api
  imports Flink_Render
begin

text \<open>
  What the Kubernetes backend sees of its cluster. The API server, the informer caches, the clock
  and the random source are outside this code: every call is a function of a state \<open>'w\<close> of the world
  in the record \<open>kube\<close>. An API error is of one of the kinds the code tells apart, with its text.
\<close>

datatype kube_error =
  NotFound string
| AlreadyExists string
| Conflict string
| OtherError string

definition kube_error_text :: "kube_error \<Rightarrow> string" where
  "kube_error_text e =
     (case e of NotFound s \<Rightarrow> s | AlreadyExists s \<Rightarrow> s | Conflict s \<Rightarrow> s | OtherError s \<Rightarrow> s)"

record ConfigMap =
  cm_Name :: string
  cm_Namespace :: string
  cm_Labels :: string_map
  cm_Data :: string_map
  cm_ResourceVersion :: string

record kube_event =
  ev_Namespace :: string
  ev_Name :: string
  ev_Reason :: string
  ev_Message :: string
  ev_Time :: go_time

text \<open>
  \<open>kc_Tick\<close> is the wait of a polling loop: until the ticker fires, or the context ends with an
  error. \<open>kc_Cached l ns name\<close> looks an object up in the cache of the factory that watches \<open>l\<close>, and
  \<open>kc_SyncCache l\<close> starts that factory and waits for its caches.
\<close>

record 'w kube =
  kc_Now :: "'w \<Rightarrow> go_time \<times> 'w"
  kc_Tick :: "'w \<Rightarrow> go_error option \<times> 'w"
  kc_Rand :: "nat \<Rightarrow> 'w \<Rightarrow> string option \<times> 'w"
  kc_Cached :: "string \<Rightarrow> string \<Rightarrow> string \<Rightarrow> 'w \<Rightarrow> unstructured option \<times> 'w"
  kc_GetDeployment :: "string \<Rightarrow> string \<Rightarrow> 'w \<Rightarrow> (kube_error + unstructured) \<times> 'w"
  kc_ApplyDeployment :: "string \<Rightarrow> string \<Rightarrow> kube_value \<Rightarrow> 'w \<Rightarrow> (kube_error + unstructured) \<times> 'w"
  kc_PatchDeployment :: "string \<Rightarrow> string \<Rightarrow> string \<Rightarrow> 'w \<Rightarrow> kube_error option \<times> 'w"
  kc_CreateSnapshot :: "string \<Rightarrow> kube_value \<Rightarrow> 'w \<Rightarrow> kube_error option \<times> 'w"
  kc_GetSnapshot :: "string \<Rightarrow> string \<Rightarrow> 'w \<Rightarrow> (kube_error + unstructured) \<times> 'w"
  kc_CreateEvent :: "string \<Rightarrow> kube_event \<Rightarrow> 'w \<Rightarrow> kube_error option \<times> 'w"
  kc_GetConfigMap :: "string \<Rightarrow> string \<Rightarrow> 'w \<Rightarrow> (kube_error + ConfigMap) \<times> 'w"
  kc_CreateConfigMap :: "string \<Rightarrow> ConfigMap \<Rightarrow> 'w \<Rightarrow> (kube_error + ConfigMap) \<times> 'w"
  kc_UpdateConfigMap :: "string \<Rightarrow> ConfigMap \<Rightarrow> 'w \<Rightarrow> kube_error option \<times> 'w"
  kc_ListConfigMaps :: "string \<Rightarrow> string \<Rightarrow> 'w \<Rightarrow> (kube_error + ConfigMap list) \<times> 'w"
  kc_SyncCache :: "string \<Rightarrow> 'w \<Rightarrow> (string \<times> bool) list \<times> 'w"

text \<open>\<open>retry.RetryOnConflict\<close> with the default back-off: up to five attempts while the error is a
  conflict; the last error is returned.\<close>

fun retry_on_conflict :: "nat \<Rightarrow> ('w \<Rightarrow> kube_error option \<times> 'w) \<Rightarrow> 'w \<Rightarrow> kube_error option \<times> 'w" where
  "retry_on_conflict 0 f w = (None, w)"
| "retry_on_conflict (Suc 0) f w = f w"
| "retry_on_conflict (Suc (Suc n)) f w =
     (case f w of
        (Some (Conflict _), w1) \<Rightarrow> retry_on_conflict (Suc n) f w1
      | r \<Rightarrow> r)"

definition default_retry :: nat where "default_retry = 5"

end
