(* ===== verification/Json_Decode.thy ===== *)
theory Json_Decode
  imports Json_Parse Domain_Model
begin

text \<open>
  Decoding JSON into Go values as \<open>encoding/json\<close> does: decimal text to the nearest float, one value
  into a variable, an object into the fields of a struct, and the JSON of the domain's structs that
  a client sends.
\<close>

subsection \<open>Decimal text to floats\<close>

text \<open>The float nearest to \<open>d * 10 ^ e\<close>: exactly for whole numbers; otherwise a quotient with more
  than 64 bits and one more bit that says whether something was cut off.\<close>

definition f_of_decimal :: "bool \<Rightarrow> nat \<Rightarrow> int \<Rightarrow> float64" where
  "f_of_decimal neg d e =
     (if 0 \<le> e then f_round neg (d * 10 ^ nat e) 0
      else let p = 10 ^ nat (- e); s = floorlog 2 p + 66; q = d * 2 ^ s div p; r = d * 2 ^ s mod p
           in f_round neg (2 * q + (if r = 0 then 0 else 1)) (- int (s + 1)))"

text \<open>A JSON number; out of range is an error.\<close>

definition parse_float :: "string \<Rightarrow> float64 option" where
  "parse_float t =
     (let neg = (t \<noteq> [] \<and> hd t = CHR ''-''); u = (if neg then tl t else t);
          ip = takeWhile is_digit u
      in Option.bind (read_frac (dropWhile is_digit u)) (\<lambda>(f, r).
         Option.bind (parse_nat (ip @ drop 1 f)) (\<lambda>d.
         let ex = drop 1 r; eneg = (ex \<noteq> [] \<and> hd ex = CHR ''-'');
             e = (case parse_nat (drop (exp_sign ex) ex) of None \<Rightarrow> 0 | Some n \<Rightarrow> if eneg then - int n else int n);
             x = f_of_decimal neg d (e - int (length (drop 1 f)))
         in if f_finite x then Some x else None)))"

subsection \<open>Values and structs\<close>

text \<open>Decoding one value into a variable: null leaves it alone, a value of another kind is an error.\<close>

definition into_string :: "string \<Rightarrow> json \<Rightarrow> string option" where
  "into_string old v = (case v of JNull \<Rightarrow> Some old | JStr s \<Rightarrow> Some s | _ \<Rightarrow> None)"

definition into_int :: "go_int \<Rightarrow> json \<Rightarrow> go_int option" where
  "into_int old v = (case v of JNull \<Rightarrow> Some old | JNum t \<Rightarrow> atoi t | _ \<Rightarrow> None)"

definition into_float :: "float64 \<Rightarrow> json \<Rightarrow> float64 option" where
  "into_float old v = (case v of JNull \<Rightarrow> Some old | JNum t \<Rightarrow> parse_float t | _ \<Rightarrow> None)"

definition into_bool :: "bool \<Rightarrow> json \<Rightarrow> bool option" where
  "into_bool old v = (case v of JNull \<Rightarrow> Some old | JBool b \<Rightarrow> Some b | _ \<Rightarrow> None)"

text \<open>An object is added to the map the variable holds; a null in it is the empty string.\<close>

definition into_map :: "string_map \<Rightarrow> json \<Rightarrow> string_map option" where
  "into_map old v =
     (case v of
        JNull \<Rightarrow> Some None
      | JObj kvs \<Rightarrow>
          fold (\<lambda>(k, x) m. Option.bind m (\<lambda>m. map_option (\<lambda>s. map_put k s m) (into_string [] x)))
            kvs (Some (Some (entries old)))
      | _ \<Rightarrow> None)"

text \<open>
  A struct is a list of fields: a name, and how a value is decoded into it. A member goes to the
  field of its name, or of its name in another case; one without a field is an error for a strict
  decoder and skipped otherwise.
\<close>

type_synonym 'r field = "string \<times> (json \<Rightarrow> 'r \<Rightarrow> 'r option)"

definition decode_member :: "bool \<Rightarrow> 'r field list \<Rightarrow> string \<times> json \<Rightarrow> 'r \<Rightarrow> 'r option" where
  "decode_member strict fs kv r =
     (case kv of (k, v) \<Rightarrow>
       (case find (\<lambda>f. fst f = k) fs of
          Some f \<Rightarrow> snd f v r
        | None \<Rightarrow>
            (case find (\<lambda>f. equal_fold (fst f) k) fs of
               Some f \<Rightarrow> snd f v r
             | None \<Rightarrow> if strict then None else Some r)))"

definition decode_struct :: "bool \<Rightarrow> 'r field list \<Rightarrow> json \<Rightarrow> 'r \<Rightarrow> 'r option" where
  "decode_struct strict fs v r =
     (case v of
        JNull \<Rightarrow> Some r
      | JObj kvs \<Rightarrow> fold (\<lambda>kv x. Option.bind x (decode_member strict fs kv)) kvs (Some r)
      | _ \<Rightarrow> None)"

subsection \<open>The structs of a request (model.go)\<close>

definition resources_fields :: "ResourceShape field list" where
  "resources_fields =
     [(''taskManagerCpu'', \<lambda>v r. map_option (\<lambda>x. r\<lparr>rs_TaskManagerCPU := x\<rparr>) (into_float (rs_TaskManagerCPU r) v)),
      (''taskManagerMemoryMiB'', \<lambda>v r. map_option (\<lambda>x. r\<lparr>rs_TaskManagerMemory := x\<rparr>) (into_int (rs_TaskManagerMemory r) v)),
      (''taskManagerCount'', \<lambda>v r. map_option (\<lambda>x. r\<lparr>rs_TaskManagerCount := x\<rparr>) (into_int (rs_TaskManagerCount r) v)),
      (''slotsPerManager'', \<lambda>v r. map_option (\<lambda>x. r\<lparr>rs_SlotsPerManager := x\<rparr>) (into_int (rs_SlotsPerManager r) v))]"

definition state_fields :: "StateCompatibility field list" where
  "state_fields =
     [(''jobGraphCompatible'', \<lambda>v s. map_option (\<lambda>x. s\<lparr>sc_JobGraphCompatible := x\<rparr>) (into_bool (sc_JobGraphCompatible s) v)),
      (''operatorUidsStable'', \<lambda>v s. map_option (\<lambda>x. s\<lparr>sc_OperatorUIDsStable := x\<rparr>) (into_bool (sc_OperatorUIDsStable s) v)),
      (''allowNonRestored'', \<lambda>v s. map_option (\<lambda>x. s\<lparr>sc_AllowNonRestored := x\<rparr>) (into_bool (sc_AllowNonRestored s) v)),
      (''freshStartApproved'', \<lambda>v s. map_option (\<lambda>x. s\<lparr>sc_FreshStartApproved := x\<rparr>) (into_bool (sc_FreshStartApproved s) v))]"

definition spec_fields :: "bool \<Rightarrow> DeploymentSpec field list" where
  "spec_fields strict =
     [(''imageDigest'', \<lambda>v s. map_option (\<lambda>x. s\<lparr>spec_ImageDigest := x\<rparr>) (into_string (spec_ImageDigest s) v)),
      (''gitRef'', \<lambda>v s. map_option (\<lambda>x. s\<lparr>spec_GitRef := x\<rparr>) (into_string (spec_GitRef s) v)),
      (''flinkVersion'', \<lambda>v s. map_option (\<lambda>x. s\<lparr>spec_FlinkVersion := x\<rparr>) (into_string (spec_FlinkVersion s) v)),
      (''jobArgs'', \<lambda>v s. map_option (\<lambda>x. s\<lparr>spec_JobArgs := x\<rparr>) (into_map (spec_JobArgs s) v)),
      (''flinkConfig'', \<lambda>v s. map_option (\<lambda>x. s\<lparr>spec_FlinkConfig := x\<rparr>) (into_map (spec_FlinkConfig s) v)),
      (''parallelism'', \<lambda>v s. map_option (\<lambda>x. s\<lparr>spec_Parallelism := x\<rparr>) (into_int (spec_Parallelism s) v)),
      (''maxParallelism'', \<lambda>v s. map_option (\<lambda>x. s\<lparr>spec_MaxParallelism := x\<rparr>) (into_int (spec_MaxParallelism s) v)),
      (''resources'', \<lambda>v s. map_option (\<lambda>x. s\<lparr>spec_Resources := x\<rparr>)
         (decode_struct strict resources_fields v (spec_Resources s))),
      (''stateCompatibility'', \<lambda>v s. map_option (\<lambda>x. s\<lparr>spec_State := x\<rparr>)
         (decode_struct strict state_fields v (spec_State s))),
      (''autoscalerEnabled'', \<lambda>v s. map_option (\<lambda>x. s\<lparr>spec_AutoscalerEnabled := x\<rparr>) (into_bool (spec_AutoscalerEnabled s) v))]"

definition policy_fields :: "Policy field list" where
  "policy_fields =
     [(''requireProdApproval'', \<lambda>v p. map_option (\<lambda>x. p\<lparr>pol_RequireProdApproval := x\<rparr>) (into_bool (pol_RequireProdApproval p) v)),
      (''gitOpsOnly'', \<lambda>v p. map_option (\<lambda>x. p\<lparr>pol_GitOpsOnly := x\<rparr>) (into_bool (pol_GitOpsOnly p) v)),
      (''allowIncidentDirectPatch'', \<lambda>v p. map_option (\<lambda>x. p\<lparr>pol_AllowIncidentDirectPatch := x\<rparr>) (into_bool (pol_AllowIncidentDirectPatch p) v)),
      (''requireRiskySavepoint'', \<lambda>v p. map_option (\<lambda>x. p\<lparr>pol_RequireRiskySavepoint := x\<rparr>) (into_bool (pol_RequireRiskySavepoint p) v)),
      (''requireFirstCheckpoint'', \<lambda>v p. map_option (\<lambda>x. p\<lparr>pol_RequireFirstCheckpoint := x\<rparr>) (into_bool (pol_RequireFirstCheckpoint p) v)),
      (''requireHealthySink'', \<lambda>v p. map_option (\<lambda>x. p\<lparr>pol_RequireHealthySink := x\<rparr>) (into_bool (pol_RequireHealthySink p) v)),
      (''maxRestartCount'', \<lambda>v p. map_option (\<lambda>x. p\<lparr>pol_MaxRestartCount := x\<rparr>) (into_int (pol_MaxRestartCount p) v)),
      (''maxBackpressureRatio'', \<lambda>v p. map_option (\<lambda>x. p\<lparr>pol_MaxBackpressureRatio := x\<rparr>) (into_float (pol_MaxBackpressureRatio p) v)),
      (''maxKafkaLag'', \<lambda>v p. map_option (\<lambda>x. p\<lparr>pol_MaxKafkaLag := x\<rparr>) (into_int (pol_MaxKafkaLag p) v))]"

definition zero_Policy :: Policy where
  "zero_Policy =
     \<lparr>pol_RequireProdApproval = False, pol_GitOpsOnly = False, pol_AllowIncidentDirectPatch = False,
      pol_RequireRiskySavepoint = False, pol_RequireFirstCheckpoint = False, pol_RequireHealthySink = False,
      pol_MaxRestartCount = 0, pol_MaxBackpressureRatio = f_zero, pol_MaxKafkaLag = 0\<rparr>"

text \<open>A pointer: null makes it nil, anything else is decoded into what it points to.\<close>

definition into_policy :: "bool \<Rightarrow> Policy option \<Rightarrow> json \<Rightarrow> Policy option option" where
  "into_policy strict old v =
     (case v of
        JNull \<Rightarrow> Some None
      | _ \<Rightarrow> map_option Some (decode_struct strict policy_fields v (case old of None \<Rightarrow> zero_Policy | Some p \<Rightarrow> p)))"

subsection \<open>Decoding what was written\<close>

lemma decode_members:
  "decode_struct strict fs (JObj []) r = Some r"
  "decode_struct strict fs (JObj (kv # kvs)) r =
     (case decode_member strict fs kv r of None \<Rightarrow> None | Some x \<Rightarrow> decode_struct strict fs (JObj kvs) x)"
proof -
  have none: "fold (\<lambda>kv x. Option.bind x (decode_member strict fs kv)) kvs None = None" for kvs
    by (induction kvs) simp_all
  show "decode_struct strict fs (JObj []) r = Some r"
    "decode_struct strict fs (JObj (kv # kvs)) r =
       (case decode_member strict fs kv r of None \<Rightarrow> None | Some x \<Rightarrow> decode_struct strict fs (JObj kvs) x)"
    by (simp_all add: decode_struct_def none split: option.split)
qed

text \<open>Members that are left out when empty.\<close>

lemma decode_opt_member:
  assumes "decode_member strict fs (k, v) r = Some r'" and "\<not> present \<Longrightarrow> r' = r"
  shows "decode_struct strict fs (JObj (opt_member present k v @ kvs)) r = decode_struct strict fs (JObj kvs) r'"
  using assms by (cases present) (simp_all add: opt_member_def decode_members)

lemma into_members [simp]:
  "into_string s0 (JStr s) = Some s" "into_bool b0 (JBool b) = Some b" "into_int n0 (json_int n) = Some n"
  by (simp_all add: into_string_def into_bool_def into_int_def json_int_def atoi_itoa)

end
