(* ===== verification/Lease_Text.thy ===== *)
theory Lease_Text
  imports Json_Decode
begin

text \<open>
  How a lease is written into a ConfigMap and read back (\<open>domain.Lease\<close> with its JSON tags): strings
  numbers as in \<open>Json_Text\<close> and \<open>Json_Decode\<close>, the time in RFC 3339 as \<open>time.Time\<close> marshals itself.
\<close>

subsection \<open>Calendar\<close>

definition leap :: "nat \<Rightarrow> bool" where
  "leap y \<longleftrightarrow> y mod 4 = 0 \<and> (y mod 100 \<noteq> 0 \<or> y mod 400 = 0)"

definition month_days :: "nat \<Rightarrow> nat list" where
  "month_days y = [31, if leap y then 29 else 28, 31, 30, 31, 30, 31, 31, 30, 31, 30, 31]"

text \<open>The days before a month of a year, and before a year, from 1 January of year 0 on.\<close>

definition days_before_month :: "nat \<Rightarrow> nat \<Rightarrow> nat" where
  "days_before_month y m = sum_list (take (m - 1) (month_days y))"

definition days_before_year :: "nat \<Rightarrow> nat" where
  "days_before_year y = 365 * y + (y + 3) div 4 - (y + 99) div 100 + (y + 399) div 400"

definition date_days :: "nat \<Rightarrow> nat \<Rightarrow> nat \<Rightarrow> nat" where
  "date_days y m d = days_before_year y + days_before_month y m + (d - 1)"

text \<open>The date of a day: the last year and the last month that start no later.\<close>

fun last_such :: "(nat \<Rightarrow> bool) \<Rightarrow> nat \<Rightarrow> nat" where
  "last_such P 0 = 0"
| "last_such P (Suc n) = (if P (Suc n) then Suc n else last_such P n)"

definition year_of :: "nat \<Rightarrow> nat" where
  "year_of days = last_such (\<lambda>y. days_before_year y \<le> days) (days div 365)"

definition date_of :: "nat \<Rightarrow> nat \<times> nat \<times> nat" where
  "date_of days =
     (let y = year_of days; r = days - days_before_year y;
          m = last_such (\<lambda>k. days_before_month y (k + 1) \<le> r) 11 + 1
      in (y, m, r - days_before_month y m + 1))"

subsection \<open>Times as text\<close>

definition pad :: "nat \<Rightarrow> nat \<Rightarrow> string" where
  "pad w n = (let s = nat_dec n in replicate (w - length s) (CHR ''0'') @ s)"

text \<open>The fraction of a second without its trailing zeros.\<close>

definition fraction_digits :: "nat \<Rightarrow> nat \<Rightarrow> string" where
  "fraction_digits w n =
     (if n = 0 then [] else CHR ''.'' # rev (dropWhile (\<lambda>c. c = CHR ''0'') (rev (pad w n))))"

abbreviation fraction :: "nat \<Rightarrow> string" where
  "fraction \<equiv> fraction_digits 9"

text \<open>1 January of year 0 lies 366 days before the zero time; marshalling fails outside the years 0
  to 9999.\<close>

definition day_ns :: int where "day_ns = 86400 * go_second"

definition rfc3339 :: "go_time \<Rightarrow> string option" where
  "rfc3339 t =
     (let n = t + 366 * day_ns
      in if n < 0 then None
         else let days = nat (n div day_ns); ns = nat (n mod day_ns); secs = ns div 1000000000
              in case date_of days of (y, m, d) \<Rightarrow>
                   if 9999 < y then None
                   else Some (pad 4 y @ ''-'' @ pad 2 m @ ''-'' @ pad 2 d @ ''T'' @
                     pad 2 (secs div 3600) @ '':'' @ pad 2 (secs div 60 mod 60) @ '':'' @ pad 2 (secs mod 60) @
                     fraction (ns mod 1000000000) @ ''Z''))"

text \<open>Reading: fixed fields in their ranges, a fraction of which nine digits count, and a zone.\<close>

definition fixed_number :: "nat \<Rightarrow> string \<Rightarrow> (nat \<times> string) option" where
  "fixed_number w s =
     (if length s < w \<or> \<not> list_all is_digit (take w s) then None
      else map_option (\<lambda>n. (n, drop w s)) (parse_nat (take w s)))"

definition read_char :: "char \<Rightarrow> string \<Rightarrow> string option" where
  "read_char c s = (if s \<noteq> [] \<and> hd s = c then Some (tl s) else None)"

definition field :: "nat \<Rightarrow> nat \<Rightarrow> nat \<Rightarrow> char option \<Rightarrow> string \<Rightarrow> (nat \<times> string) option" where
  "field w lo hi sep s =
     Option.bind (fixed_number w s)
       (\<lambda>(n, r). if n < lo \<or> hi < n then None
         else case sep of None \<Rightarrow> Some (n, r) | Some c \<Rightarrow> map_option (\<lambda>z. (n, z)) (read_char c r))"

definition read_fraction :: "string \<Rightarrow> (nat \<times> string) option" where
  "read_fraction s =
     (case read_char (CHR ''.'') s of
        None \<Rightarrow> Some (0, s)
      | Some r \<Rightarrow>
          let ds = takeWhile is_digit r
          in if ds = [] then None
             else map_option (\<lambda>n. (n, dropWhile is_digit r))
                    (parse_nat (take 9 (ds @ replicate 9 (CHR ''0'')))))"

text \<open>The zone as seconds east of Greenwich.\<close>

definition read_zone :: "string \<Rightarrow> int option" where
  "read_zone s =
     (if s = ''Z'' then Some 0
      else if s \<noteq> [] \<and> (hd s = CHR ''+'' \<or> hd s = CHR ''-'') then
        Option.bind (field 2 0 23 (Some (CHR '':'')) (tl s))
          (\<lambda>(h, r). Option.bind (field 2 0 59 None r)
            (\<lambda>(m, z). if z \<noteq> [] then None
              else Some ((if hd s = CHR ''-'' then - 1 else 1) * (int h * 3600 + int m * 60))))
      else None)"

definition parse_rfc3339 :: "string \<Rightarrow> go_time option" where
  "parse_rfc3339 s =
     Option.bind (field 4 0 9999 (Some (CHR ''-'')) s) (\<lambda>(y, s1).
     Option.bind (field 2 1 12 (Some (CHR ''-'')) s1) (\<lambda>(m, s2).
     Option.bind (field 2 1 (month_days y ! (m - 1)) (Some (CHR ''T'')) s2) (\<lambda>(d, s3).
     Option.bind (field 2 0 23 (Some (CHR '':'')) s3) (\<lambda>(hh, s4).
     Option.bind (field 2 0 59 (Some (CHR '':'')) s4) (\<lambda>(mm, s5).
     Option.bind (field 2 0 59 None s5) (\<lambda>(ss, s6).
     Option.bind (read_fraction s6) (\<lambda>(ns, s7).
     Option.bind (read_zone s7) (\<lambda>z.
       Some ((int (date_days y m d) - 366) * day_ns +
             (int (hh * 3600 + mm * 60 + ss) - z) * go_second + int ns)))))))))"

subsection \<open>Leases\<close>

definition lease_json :: "Lease \<Rightarrow> string option" where
  "lease_json l =
     Option.bind (json_float (lease_CPU l)) (\<lambda>cpu.
     map_option (\<lambda>expires. json_print (JObj
       [(''id'', JStr (lease_ID l)), (''nodePool'', JStr (lease_NodePool l)), (''cpu'', JNum cpu),
        (''memoryMiB'', json_int (lease_MemoryMiB l)), (''slots'', json_int (lease_Slots l)),
        (''ownerWorkflow'', JStr (lease_OwnerWorkflow l)), (''expiresAt'', JStr expires)]))
       (rfc3339 (lease_ExpiresAt l)))"

definition zero_Lease :: Lease where
  "zero_Lease =
     \<lparr>lease_ID = [], lease_NodePool = [], lease_CPU = f_zero, lease_MemoryMiB = 0, lease_Slots = 0,
      lease_OwnerWorkflow = [], lease_ExpiresAt = 0\<rparr>"

definition into_time :: "go_time \<Rightarrow> json \<Rightarrow> go_time option" where
  "into_time old v = (case v of JNull \<Rightarrow> Some old | JStr s \<Rightarrow> parse_rfc3339 s | _ \<Rightarrow> None)"

definition lease_fields :: "Lease field list" where
  "lease_fields =
     [(''id'', \<lambda>v l. map_option (\<lambda>x. l\<lparr>lease_ID := x\<rparr>) (into_string (lease_ID l) v)),
      (''nodePool'', \<lambda>v l. map_option (\<lambda>x. l\<lparr>lease_NodePool := x\<rparr>) (into_string (lease_NodePool l) v)),
      (''cpu'', \<lambda>v l. map_option (\<lambda>x. l\<lparr>lease_CPU := x\<rparr>) (into_float (lease_CPU l) v)),
      (''memoryMiB'', \<lambda>v l. map_option (\<lambda>x. l\<lparr>lease_MemoryMiB := x\<rparr>) (into_int (lease_MemoryMiB l) v)),
      (''slots'', \<lambda>v l. map_option (\<lambda>x. l\<lparr>lease_Slots := x\<rparr>) (into_int (lease_Slots l) v)),
      (''ownerWorkflow'', \<lambda>v l. map_option (\<lambda>x. l\<lparr>lease_OwnerWorkflow := x\<rparr>) (into_string (lease_OwnerWorkflow l) v)),
      (''expiresAt'', \<lambda>v l. map_option (\<lambda>x. l\<lparr>lease_ExpiresAt := x\<rparr>) (into_time (lease_ExpiresAt l) v))]"

definition unmarshal_lease :: "string \<Rightarrow> Lease option" where
  "unmarshal_lease raw = Option.bind (json_parse raw) (\<lambda>v. decode_struct False lease_fields v zero_Lease)"

end
