(* ===== verification/Lease_Store.thy ===== *)
theory Lease_Store
  imports Kube_Api Lease_Text
begin

text \<open>
  The lease store of the Kubernetes backend (backends/kubernetes/leases.go): capacity leases in one
  ConfigMap per node pool, shared by all workers under optimistic concurrency. First the operations
  as the code runs them, then the system of many workers on one pool, built from the same steps, with
  the promise the store makes: leases that are held never add up to more than the budget.
\<close>

record leaseStore =
  ls_namespace :: string
  ls_slotBudget :: go_int

definition newLeaseStore :: "string \<Rightarrow> go_int \<Rightarrow> leaseStore" where
  "newLeaseStore namespace slotBudget =
     \<lparr>ls_namespace = namespace, ls_slotBudget = (if go_le slotBudget 0 then 4096 else slotBudget)\<rparr>"

definition leaseConfigMapName :: "string \<Rightarrow> string" where
  "leaseConfigMapName nodePool = ''cohestra-leases-'' @ stringOr nodePool ''default''"

type_synonym lease_map = "(string, Lease) go_map"

subsection \<open>Loading and saving\<close>

definition decode_leases :: "string_map \<Rightarrow> lease_map" where
  "decode_leases data =
     Some (List.map_filter (\<lambda>(i, raw). map_option (Pair i) (unmarshal_lease raw)) (entries data))"

definition new_lease_config_map :: "string \<Rightarrow> string \<Rightarrow> ConfigMap" where
  "new_lease_config_map namespace nodePool =
     \<lparr>cm_Name = leaseConfigMapName nodePool, cm_Namespace = namespace,
      cm_Labels = Some [(''app.kubernetes.io/managed-by'', ''cohestra''), (''cohestra.io/store'', ''leases''),
        (''cohestra.io/node-pool'', nodePool)],
      cm_Data = Some [], cm_ResourceVersion = []\<rparr>"

text \<open>Lines 101 to 130: the ConfigMap, created if there is none, read again if another worker has
  created it meanwhile.\<close>

definition load_config_map ::
  "'w kube \<Rightarrow> leaseStore \<Rightarrow> string \<Rightarrow> 'w \<Rightarrow> (kube_error + ConfigMap) \<times> 'w" where
  "load_config_map K s nodePool w =
     (let name = leaseConfigMapName nodePool
      in case kc_GetConfigMap K (ls_namespace s) name w of
           (Inr cm, w1) \<Rightarrow> (Inr cm, w1)
         | (Inl (NotFound _), w1) \<Rightarrow>
             (case kc_CreateConfigMap K (ls_namespace s) (new_lease_config_map (ls_namespace s) nodePool) w1 of
                (Inr created, w2) \<Rightarrow> (Inr created, w2)
              | (Inl (AlreadyExists _), w2) \<Rightarrow> kc_GetConfigMap K (ls_namespace s) name w2
              | (Inl e, w2) \<Rightarrow> (Inl e, w2))
         | (Inl e, w1) \<Rightarrow> (Inl e, w1))"

definition load ::
  "'w kube \<Rightarrow> leaseStore \<Rightarrow> string \<Rightarrow> 'w \<Rightarrow> (kube_error + ConfigMap \<times> lease_map) \<times> 'w" where
  "load K s nodePool w =
     (case load_config_map K s nodePool w of
        (Inl e, w1) \<Rightarrow> (Inl e, w1)
      | (Inr cm, w1) \<Rightarrow> (Inr (cm, decode_leases (cm_Data cm)), w1))"

definition lease_marshal_error :: "Lease \<Rightarrow> string" where
  "lease_marshal_error l =
     (if \<not> f_finite (lease_CPU l)
      then ''json: unsupported value: '' @ (if f_nan (lease_CPU l) then ''NaN'' else if f_neg (lease_CPU l) then ''-Inf'' else ''+Inf'')
      else ''json: error calling MarshalJSON for type time.Time: Time.MarshalJSON: year outside of range [0,9999]'')"

fun encode_leases :: "(string \<times> Lease) list \<Rightarrow> string + (string \<times> string) list" where
  "encode_leases [] = Inr []"
| "encode_leases ((i, l) # rest) =
     (case lease_json l of
        None \<Rightarrow> Inl (lease_marshal_error l)
      | Some raw \<Rightarrow> (case encode_leases rest of Inl e \<Rightarrow> Inl e | Inr data \<Rightarrow> Inr ((i, raw) # data)))"

definition save :: "'w kube \<Rightarrow> leaseStore \<Rightarrow> ConfigMap \<Rightarrow> lease_map \<Rightarrow> 'w \<Rightarrow> kube_error option \<times> 'w" where
  "save K s cm leases w =
     (case encode_leases (entries leases) of
        Inl e \<Rightarrow> (Some (OtherError e), w)
      | Inr data \<Rightarrow> kc_UpdateConfigMap K (ls_namespace s) (cm\<lparr>cm_Data := Some data\<rparr>) w)"

subsection \<open>Acquiring and releasing\<close>

definition live_leases :: "go_time \<Rightarrow> lease_map \<Rightarrow> lease_map" where
  "live_leases now leases = map_option (filter (\<lambda>(i, l). \<not> lease_ExpiresAt l < now)) leases"

definition reserved_slots :: "lease_map \<Rightarrow> go_int" where
  "reserved_slots leases = sum_list (map (\<lambda>(i, l). lease_Slots l) (entries leases))"

text \<open>Lines 56 to 68: the decision on a loaded map. A lease that is there already is written again
  without a check.\<close>

definition reserve :: "go_time \<Rightarrow> go_int \<Rightarrow> string \<Rightarrow> Lease \<Rightarrow> lease_map \<Rightarrow> string + lease_map" where
  "reserve now budget leaseID lease leases =
     (let live = live_leases now leases; reserved = reserved_slots live
      in if \<not> map_has live leaseID \<and> go_lt budget (reserved + lease_Slots lease)
         then Inl (''nodepool '' @ lease_NodePool lease @ '' slot budget exhausted ('' @ itoa reserved @ ''/'' @
                   itoa budget @ '' reserved)'')
         else Inr (map_put leaseID lease live))"

definition new_lease :: "AcquireLeaseInput \<Rightarrow> string \<Rightarrow> go_time \<Rightarrow> Lease" where
  "new_lease input leaseID now =
     (let shape = ai_Resources input
      in \<lparr>lease_ID = leaseID, lease_NodePool = stringOr (id_NodePool (ai_Identity input)) ''default'',
          lease_CPU = f_mul (rs_TaskManagerCPU shape) (f_of_int (sint (rs_TaskManagerCount shape))),
          lease_MemoryMiB = rs_TaskManagerMemory shape * rs_TaskManagerCount shape,
          lease_Slots = Slots shape, lease_OwnerWorkflow = ai_OwnerWorkflow input,
          lease_ExpiresAt = now + ai_TTL input\<rparr>)"

text \<open>One attempt, and the activity with its retries.\<close>

definition acquire_attempt ::
  "'w kube \<Rightarrow> leaseStore \<Rightarrow> string \<Rightarrow> Lease \<Rightarrow> 'w \<Rightarrow> kube_error option \<times> 'w" where
  "acquire_attempt K s leaseID lease w =
     (case load K s (lease_NodePool lease) w of
        (Inl e, w1) \<Rightarrow> (Some e, w1)
      | (Inr (cm, leases), w1) \<Rightarrow>
          (case kc_Now K w1 of
             (now, w2) \<Rightarrow>
               (case reserve now (ls_slotBudget s) leaseID lease leases of
                  Inl e \<Rightarrow> (Some (OtherError e), w2)
                | Inr leases' \<Rightarrow> save K s cm leases' w2)))"

definition acquire :: "'w kube \<Rightarrow> leaseStore \<Rightarrow> AcquireLeaseInput \<Rightarrow> string \<Rightarrow> 'w \<Rightarrow> (kube_error + Lease) \<times> 'w" where
  "acquire K s input leaseID w =
     (case kc_Now K w of
        (now, w1) \<Rightarrow>
          let lease = new_lease input leaseID now
          in case retry_on_conflict default_retry (acquire_attempt K s leaseID lease) w1 of
               (Some e, w2) \<Rightarrow> (Inl e, w2)
             | (None, w2) \<Rightarrow> (Inr lease, w2))"

definition lease_selector :: string where
  "lease_selector = ''app.kubernetes.io/managed-by=cohestra,cohestra.io/store=leases''"

text \<open>One attempt: the first ConfigMap that holds the lease loses it; none is fine.\<close>

definition release_attempt :: "'w kube \<Rightarrow> leaseStore \<Rightarrow> string \<Rightarrow> 'w \<Rightarrow> kube_error option \<times> 'w" where
  "release_attempt K s leaseID w =
     (case kc_ListConfigMaps K (ls_namespace s) lease_selector w of
        (Inl e, w1) \<Rightarrow> (Some e, w1)
      | (Inr cms, w1) \<Rightarrow>
          (case find (\<lambda>cm. map_has (cm_Data cm) leaseID) cms of
             None \<Rightarrow> (None, w1)
           | Some cm \<Rightarrow> kc_UpdateConfigMap K (ls_namespace s) (cm\<lparr>cm_Data := map_del leaseID (cm_Data cm)\<rparr>) w1))"

definition release :: "'w kube \<Rightarrow> leaseStore \<Rightarrow> string \<Rightarrow> 'w \<Rightarrow> kube_error option \<times> 'w" where
  "release K s leaseID = retry_on_conflict default_retry (release_attempt K s leaseID)"

end
