(* ===== verification/Lease_Pool.thy ===== *)
theory Lease_Pool
  imports Lease_Store
begin

text \<open>
  Many workers on one pool of the lease store (backends/kubernetes/leases.go). The API calls of
  \<open>acquire\<close> and \<open>release\<close> interleave; what keeps them apart is that the API server accepts an update
  only of the version that was read. The relation \<open>pool_step\<close> has one rule per API call or decision
  of the code, on the decoded leases of the pool's ConfigMap; a lease identifier stands for the
  activity that drew it. The workers' clocks are their own: one may be ahead of the pool's by \<open>skew\<close>.
  \<open>Lease_Refinement\<close> derives the runs of this relation from the operations of \<open>Lease_Store\<close>.
\<close>

subsection \<open>The system\<close>

text \<open>How far the activity of a lease identifier is. It carries what its local variables hold.\<close>

datatype phase =
  Fresh
| Asking Lease
| Loaded Lease nat lease_map
| Chosen Lease nat lease_map
| Held Lease
| Returning
| Listed nat lease_map
| Ended

record lease_pool =
  lp_clock :: go_time
  lp_version :: nat
  lp_stored :: lease_map
  lp_phase :: "string \<Rightarrow> phase"

definition new_pool :: "go_time \<Rightarrow> lease_pool" where
  "new_pool now = \<lparr>lp_clock = now, lp_version = 0, lp_stored = Some [], lp_phase = (\<lambda>_. Fresh)\<rparr>"

definition to_phase :: "string \<Rightarrow> phase \<Rightarrow> lease_pool \<Rightarrow> lease_pool" where
  "to_phase i ph p = p\<lparr>lp_phase := (lp_phase p)(i := ph)\<rparr>"

definition store :: "lease_map \<Rightarrow> lease_pool \<Rightarrow> lease_pool" where
  "store m p = p\<lparr>lp_stored := m, lp_version := Suc (lp_version p)\<rparr>"

text \<open>Who does a step: the pool's time passes, an activity asks for a lease, or it does something else.\<close>

datatype pool_event = Tick | Ask string Lease | Act string

fun actor :: "pool_event \<Rightarrow> string option" where
  "actor Tick = None"
| "actor (Ask i l) = Some i"
| "actor (Act i) = Some i"

text \<open>
  The rules of an acquire, in the code's order: the lease is made from the worker's clock (lines 40 to
  49), the ConfigMap is read (52), the decision is taken on the worker's clock of that moment (56 to
  68), the update is sent (69) and succeeds, or succeeds while its answer is lost, or meets a conflict,
  after which the attempt starts again. An activity can end everywhere: with an error, by cancellation
  or with its process. A release, of a lease that is held or of one whose activity has ended, lists (82)
  and then updates the ConfigMap if it holds the lease (94); the update may succeed while its answer is
  lost, and whatever fails is tried again. Nothing restricts what a lease asks for.
\<close>

inductive pool_step :: "leaseStore \<Rightarrow> string \<Rightarrow> go_duration \<Rightarrow> lease_pool \<Rightarrow> pool_event \<Rightarrow> lease_pool \<Rightarrow> bool"
  for s pool skew where
  time: "lp_clock p \<le> now \<Longrightarrow> pool_step s pool skew p Tick (p\<lparr>lp_clock := now\<rparr>)"
| ask: "\<lbrakk>lp_phase p i = Fresh; lease = new_lease input i now; lease_NodePool lease = pool\<rbrakk> \<Longrightarrow>
     pool_step s pool skew p (Ask i lease) (to_phase i (Asking lease) p)"
| get: "lp_phase p i = Asking lease \<Longrightarrow>
     pool_step s pool skew p (Act i) (to_phase i (Loaded lease (lp_version p) (lp_stored p)) p)"
| choose: "\<lbrakk>lp_phase p i = Loaded lease v m; now \<le> lp_clock p + skew; reserve now (ls_slotBudget s) i lease m = Inr m'\<rbrakk> \<Longrightarrow>
     pool_step s pool skew p (Act i) (to_phase i (Chosen lease v m') p)"
| refuse: "\<lbrakk>lp_phase p i = Loaded lease v m; reserve now (ls_slotBudget s) i lease m = Inl e\<rbrakk> \<Longrightarrow>
     pool_step s pool skew p (Act i) (to_phase i Ended p)"
| update: "lp_phase p i = Chosen lease (lp_version p) m \<Longrightarrow>
     pool_step s pool skew p (Act i) (store m (to_phase i (Held lease) p))"
| update_lost: "lp_phase p i = Chosen lease (lp_version p) m \<Longrightarrow>
     pool_step s pool skew p (Act i) (store m (to_phase i Ended p))"
| conflict: "\<lbrakk>lp_phase p i = Chosen lease v m; v \<noteq> lp_version p\<rbrakk> \<Longrightarrow>
     pool_step s pool skew p (Act i) (to_phase i (Asking lease) p)"
| return: "lp_phase p i \<in> {Held lease, Ended} \<Longrightarrow> pool_step s pool skew p (Act i) (to_phase i Returning p)"
| list: "lp_phase p i = Returning \<Longrightarrow>
     pool_step s pool skew p (Act i) (to_phase i (Listed (lp_version p) (lp_stored p)) p)"
| release_update: "\<lbrakk>lp_phase p i = Listed (lp_version p) m; map_has m i\<rbrakk> \<Longrightarrow>
     pool_step s pool skew p (Act i) (store (map_del i m) (to_phase i Ended p))"
| release_lost: "\<lbrakk>lp_phase p i = Listed (lp_version p) m; map_has m i\<rbrakk> \<Longrightarrow>
     pool_step s pool skew p (Act i) (store (map_del i m) (to_phase i Returning p))"
| release_again: "lp_phase p i = Listed v m \<Longrightarrow> pool_step s pool skew p (Act i) (to_phase i Returning p)"
| stop: "lp_phase p i \<noteq> Fresh \<Longrightarrow> pool_step s pool skew p (Act i) (to_phase i Ended p)"

text \<open>A run and its events.\<close>

inductive pool_steps ::
  "leaseStore \<Rightarrow> string \<Rightarrow> go_duration \<Rightarrow> lease_pool \<Rightarrow> pool_event list \<Rightarrow> lease_pool \<Rightarrow> bool"
  for s pool skew where
  none: "pool_steps s pool skew p [] p"
| more: "\<lbrakk>pool_steps s pool skew p es q; pool_step s pool skew q e r\<rbrakk> \<Longrightarrow> pool_steps s pool skew p (es @ [e]) r"

lemma pool_steps_one: "pool_step s pool skew p e q \<Longrightarrow> pool_steps s pool skew p [e] q"
  using more [OF none] by fastforce

lemma pool_steps_trans:
  assumes "pool_steps s pool skew q fs r" "pool_steps s pool skew p es q"
  shows "pool_steps s pool skew p (es @ fs) r"
  using assms(1,2)
proof (induction arbitrary: es rule: pool_steps.induct)
  case (more q fs r e t)
  from pool_steps.more [OF more.IH [OF more.prems] more.hyps(2)] show ?case by simp
qed simp

subsection \<open>The load of a map of leases\<close>

text \<open>Leases for a number of slots that is not negative and does not overflow in a sum of two.\<close>

definition modest_lease :: "Lease \<Rightarrow> bool" where
  "modest_lease l \<longleftrightarrow> sint (lease_Slots l) \<in> {0..<2 ^ 62}"

definition modest_events :: "pool_event list \<Rightarrow> bool" where
  "modest_events es \<longleftrightarrow> list_all (\<lambda>e. case e of Ask i l \<Rightarrow> modest_lease l | _ \<Rightarrow> True) es"

definition slot_load :: "lease_map \<Rightarrow> int" where
  "slot_load m = sum_list (map (\<lambda>(i, l). sint (lease_Slots l)) (entries m))"

definition modest_map :: "lease_map \<Rightarrow> bool" where
  "modest_map m \<longleftrightarrow> map_wf m \<and> (\<forall>(i, l) \<in> set (entries m). 0 \<le> sint (lease_Slots l))"

lemma live_entries: "entries (live_leases now m) = filter (\<lambda>(i, l). \<not> lease_ExpiresAt l < now) (entries m)"
  by (cases m) (simp_all add: live_leases_def)

lemma live_wf: "map_wf m \<Longrightarrow> map_wf (live_leases now m)"
  by (auto simp: map_wf_def live_entries intro: distinct_map_filter)

lemma modest_live: "modest_map m \<Longrightarrow> modest_map (live_leases now m)"
  by (auto simp: modest_map_def live_wf live_entries)

lemma slot_sum_filter:
  "\<forall>(i, l) \<in> set ls. 0 \<le> sint (lease_Slots l) \<Longrightarrow>
   (\<Sum>(i, l)\<leftarrow>filter P ls. sint (lease_Slots l)) \<le> (\<Sum>(i, l)\<leftarrow>ls. sint (lease_Slots (l :: Lease)))"
  by (induction ls) auto

lemma slot_load_live: "modest_map m \<Longrightarrow> slot_load (live_leases now m) \<le> slot_load m"
  by (simp add: slot_load_def live_entries modest_map_def slot_sum_filter)

lemma slot_load_nonneg: "modest_map m \<Longrightarrow> 0 \<le> slot_load m"
  unfolding slot_load_def modest_map_def by (intro sum_list_nonneg) auto

lemma slot_sum_update:
  "\<forall>(i, l) \<in> set ls. 0 \<le> sint (lease_Slots l) \<Longrightarrow>
   (\<Sum>(i, l)\<leftarrow>AList.update j k ls. sint (lease_Slots l)) \<le> (\<Sum>(i, l)\<leftarrow>ls. sint (lease_Slots l)) + sint (lease_Slots k)"
  by (induction ls) auto

lemma update_entries: "set (AList.update j k ls) \<subseteq> insert (j, k) (set ls)"
  by (induction ls) auto

lemma modest_put: "modest_map m \<Longrightarrow> modest_lease l \<Longrightarrow> modest_map (map_put i l m)"
  using subsetD [OF update_entries, of _ i l "entries m"]
  by (fastforce simp: modest_map_def modest_lease_def map_put_def map_wf_def distinct_update)

lemma modest_del: "modest_map m \<Longrightarrow> modest_map (map_del i m)"
  by (cases m) (auto simp: modest_map_def map_del_def AList.delete_eq map_wf_def intro: distinct_map_filter)

lemma slot_load_del: "modest_map m \<Longrightarrow> slot_load (map_del i m) \<le> slot_load m"
  by (cases m) (simp_all add: slot_load_def map_del_def AList.delete_eq modest_map_def slot_sum_filter)

lemma reserved_load: "reserved_slots m = word_of_int (slot_load m)"
proof -
  have "(\<Sum>(i, l)\<leftarrow>ls. lease_Slots l) = word_of_int (\<Sum>(i, l)\<leftarrow>ls. sint (lease_Slots l))"
    for ls :: "(string \<times> Lease) list"
    by (induction ls) auto
  then show ?thesis by (simp add: reserved_slots_def slot_load_def)
qed

text \<open>As a map: the live leases are the stored ones that have not expired.\<close>

lemma live_find:
  assumes "map_wf m"
  shows "map_find (live_leases now m) i =
    (case map_find m i of Some l \<Rightarrow> if lease_ExpiresAt l < now then None else Some l | None \<Rightarrow> None)"
proof -
  have "distinct (map fst es) \<Longrightarrow> map_of (filter (\<lambda>(i, l). \<not> lease_ExpiresAt l < now) es) i =
      (case map_of es i of Some l \<Rightarrow> if lease_ExpiresAt l < now then None else Some l | None \<Rightarrow> None)"
    for es :: "(string \<times> Lease) list"
    by (induction es) (force split: option.split dest: map_of_SomeD)+
  with assms show ?thesis by (simp add: map_find_def live_entries map_wf_def)
qed

subsection \<open>A decision\<close>

text \<open>What a decision makes of the map it was taken on.\<close>

lemma reserve_map: "reserve now budget i l m = Inr m' \<Longrightarrow> m' = map_put i l (live_leases now m)"
  by (simp add: reserve_def Let_def split: if_splits)

lemma reserve_wf:
  assumes "reserve now budget i l m = Inr m'" "map_wf m"
  shows "map_wf m'"
  using reserve_map [OF assms(1)] live_wf [OF assms(2), of now] by (simp add: map_put_def map_wf_def distinct_update)

lemma reserve_find:
  assumes "reserve now budget i l m = Inr m'"
  shows "map_find m' i = Some l" "j \<noteq> i \<Longrightarrow> map_find m' j = map_find (live_leases now m) j"
  using reserve_map [OF assms] by simp_all

text \<open>It keeps the budget.\<close>

lemma reserve_budget:
  assumes r: "reserve now budget i l m = Inr m'" and m: "modest_map m" and l: "modest_lease l"
    and new: "\<not> map_has m i" and b: "slot_load m \<le> sint budget" "sint budget < 2 ^ 62"
  shows "modest_map m'" and "slot_load m' \<le> sint budget"
proof -
  let ?live = "live_leases now m"
  have new': "\<not> map_has ?live i"
    using new m by (simp add: map_has_def live_find modest_map_def)
  with r have m': "m' = map_put i l ?live" and fits: "\<not> go_lt budget (reserved_slots ?live + lease_Slots l)"
    by (simp_all add: reserve_def Let_def split: if_splits)
  note live = modest_live [OF m, of now]
  have load: "0 \<le> slot_load ?live" "slot_load ?live < 2 ^ 62"
    using slot_load_nonneg [OF live] slot_load_live [OF m, of now] b by simp_all
  have "sint (reserved_slots ?live + lease_Slots l) = slot_load ?live + sint (lease_Slots l)"
    using sint_plus [of "reserved_slots ?live" "lease_Slots l"] load l
    by (simp add: reserved_load sint_exact modest_lease_def)
  with fits have "slot_load ?live + sint (lease_Slots l) \<le> sint budget" by simp
  with slot_sum_update [of "entries ?live" i l] live show "slot_load m' \<le> sint budget"
    by (simp add: m' slot_load_def modest_map_def map_put_def)
  show "modest_map m'" using live l by (simp add: m' modest_put)
qed

subsection \<open>The invariant\<close>

text \<open>A version read earlier is either outdated or what is stored now; a held lease is stored until
  a worker's clock may take it for expired. This holds whatever the leases ask for.\<close>

definition seen :: "lease_pool \<Rightarrow> nat \<Rightarrow> (lease_map \<Rightarrow> bool) \<Rightarrow> bool" where
  "seen p v P \<longleftrightarrow> v \<le> lp_version p \<and> (v = lp_version p \<longrightarrow> P (lp_stored p))"

definition current :: "go_duration \<Rightarrow> lease_pool \<Rightarrow> Lease \<Rightarrow> bool" where
  "current skew p l \<longleftrightarrow> \<not> lease_ExpiresAt l < lp_clock p + skew"

fun phase_inv :: "leaseStore \<Rightarrow> go_duration \<Rightarrow> lease_pool \<Rightarrow> string \<Rightarrow> phase \<Rightarrow> bool" where
  "phase_inv s skew p i Fresh \<longleftrightarrow> \<not> map_has (lp_stored p) i"
| "phase_inv s skew p i (Asking l) \<longleftrightarrow> \<not> map_has (lp_stored p) i"
| "phase_inv s skew p i (Loaded l v m) \<longleftrightarrow> \<not> map_has (lp_stored p) i \<and> seen p v (\<lambda>st. m = st)"
| "phase_inv s skew p i (Chosen l v m) \<longleftrightarrow> \<not> map_has (lp_stored p) i \<and>
     seen p v (\<lambda>st. \<exists>now \<le> lp_clock p + skew. reserve now (ls_slotBudget s) i l st = Inr m)"
| "phase_inv s skew p i (Held l) \<longleftrightarrow> (current skew p l \<longrightarrow> map_find (lp_stored p) i = Some l)"
| "phase_inv s skew p i (Listed v m) \<longleftrightarrow> seen p v (\<lambda>st. m = st)"
| "phase_inv s skew p i Returning \<longleftrightarrow> True"
| "phase_inv s skew p i Ended \<longleftrightarrow> True"

definition pool_inv :: "leaseStore \<Rightarrow> go_duration \<Rightarrow> lease_pool \<Rightarrow> bool" where
  "pool_inv s skew p \<longleftrightarrow> map_wf (lp_stored p) \<and> (\<forall>i. phase_inv s skew p i (lp_phase p i))"

lemmas pool_defs = to_phase_def store_def seen_def current_def

lemma pool_invD:
  assumes "pool_inv s skew p"
  shows "map_wf (lp_stored p)" "phase_inv s skew p i (lp_phase p i)"
  using assms by (simp_all add: pool_inv_def)

text \<open>A change of one phase: the other activities see the same store and the same clock.\<close>

lemma phase_inv_to_phase [simp]: "phase_inv s skew (to_phase j ph' p) i ph = phase_inv s skew p i ph"
  by (cases ph) (simp_all add: pool_defs)

lemma to_phase_inv: "pool_inv s skew p \<Longrightarrow> phase_inv s skew p i ph \<Longrightarrow> pool_inv s skew (to_phase i ph p)"
  using phase_inv_to_phase [of s skew i ph p] by (auto simp: pool_inv_def) (auto simp: to_phase_def)

lemma seen_mono: "seen p v P \<Longrightarrow> (\<And>st. P st \<Longrightarrow> Q st) \<Longrightarrow> seen (p\<lparr>lp_clock := now\<rparr>) v Q"
  by (simp add: seen_def)

lemma phase_inv_later:
  assumes "lp_clock p \<le> now" and "phase_inv s skew p i ph"
  shows "phase_inv s skew (p\<lparr>lp_clock := now\<rparr>) i ph"
proof (cases ph)
  case (Chosen l v m)
  have before: "seen p v (\<lambda>st. \<exists>x\<le>lp_clock p + skew. reserve x (ls_slotBudget s) i l st = Inr m)"
    using assms(2) unfolding Chosen phase_inv.simps by blast
  have "\<exists>x\<le>now + skew. reserve x (ls_slotBudget s) i l st = Inr m"
    if "\<exists>x\<le>lp_clock p + skew. reserve x (ls_slotBudget s) i l st = Inr m" for st
    using that assms(1) by (meson add_right_mono order_trans)
  then have "seen (p\<lparr>lp_clock := now\<rparr>) v (\<lambda>st. \<exists>x\<le>now + skew. reserve x (ls_slotBudget s) i l st = Inr m)"
    by (rule seen_mono [OF before])
  with assms(2) Chosen show ?thesis by simp
qed (use assms in \<open>auto simp: pool_defs\<close>)

text \<open>An accepted update outdates what the others have read. It may drop what has expired, and it
  writes nothing under the identifier of another activity.\<close>

definition keeps_others :: "go_duration \<Rightarrow> string \<Rightarrow> lease_pool \<Rightarrow> lease_map \<Rightarrow> bool" where
  "keeps_others skew i p m \<longleftrightarrow> (\<forall>j. j \<noteq> i \<longrightarrow>
     (case map_find (lp_stored p) j of
        None \<Rightarrow> map_find m j = None
      | Some l \<Rightarrow> map_find m j = Some l \<or> \<not> current skew p l))"

lemma phase_inv_store:
  assumes "keeps_others skew i p m" "j \<noteq> i" "phase_inv s skew p j ph"
  shows "phase_inv s skew (store m p) j ph"
proof -
  have "case map_find (lp_stored p) j of None \<Rightarrow> map_find m j = None
    | Some l \<Rightarrow> map_find m j = Some l \<or> \<not> current skew p l"
    using assms(1,2) by (simp add: keeps_others_def)
  with assms(3) show ?thesis by (cases ph) (auto simp: pool_defs map_has_def)
qed

lemma store_inv:
  assumes p: "pool_inv s skew p" and m: "map_wf m"
    and others: "keeps_others skew i p m" and own: "phase_inv s skew (store m p) i ph"
  shows "pool_inv s skew (store m (to_phase i ph p))"
proof -
  have "store m (to_phase i ph p) = to_phase i ph (store m p)" by (simp add: pool_defs)
  moreover have "phase_inv s skew (store m p) j (lp_phase p j)" if "j \<noteq> i" for j
    using phase_inv_store [OF others that pool_invD(2) [OF p]] .
  ultimately show ?thesis
    using m own by (simp add: pool_inv_def) (simp add: to_phase_def store_def)
qed

lemma update_inv:
  assumes p: "pool_inv s skew p" and i: "lp_phase p i = Chosen l (lp_version p) m" and ph: "ph = Held l \<or> ph = Ended"
  shows "pool_inv s skew (store m (to_phase i ph p))"
proof -
  note inv = pool_invD [OF p]
  obtain now where now: "now \<le> lp_clock p + skew" and r: "reserve now (ls_slotBudget s) i l (lp_stored p) = Inr m"
    using inv(2) [of i] i by (auto simp: seen_def)
  have "keeps_others skew i p m"
    using inv(1) now by (auto simp: keeps_others_def reserve_find [OF r] live_find current_def split: option.split)
  moreover have "phase_inv s skew (store m p) i ph" using ph reserve_find(1) [OF r] by (auto simp: store_def)
  ultimately show ?thesis using store_inv [OF p reserve_wf [OF r inv(1)]] by simp
qed

lemma del_wf: "map_wf m \<Longrightarrow> map_wf (map_del i m)"
  by (cases m) (auto simp: map_del_def AList.delete_eq map_wf_def intro: distinct_map_filter)

lemma release_update_inv:
  assumes p: "pool_inv s skew p" and i: "lp_phase p i = Listed (lp_version p) m" and ph: "ph = Ended \<or> ph = Returning"
  shows "pool_inv s skew (store (map_del i m) (to_phase i ph p))"
proof -
  note inv = pool_invD [OF p]
  have m: "m = lp_stored p" using inv(2) [of i] i by (simp add: seen_def)
  have "keeps_others skew i p (map_del i m)" by (simp add: keeps_others_def m split: option.split)
  with store_inv [OF p del_wf [OF inv(1), of i]] m ph show ?thesis by auto
qed

lemma pool_step_inv:
  assumes step: "pool_step s pool skew p e q" and p: "pool_inv s skew p"
  shows "pool_inv s skew q"
  using step
proof cases
  case (time now)
  then show ?thesis using p phase_inv_later by (auto simp: pool_inv_def)
next
  case (update i lease m)
  then show ?thesis using update_inv [OF p update(3)] by simp
next
  case (update_lost i lease m)
  then show ?thesis using update_inv [OF p update_lost(3)] by simp
next
  case (release_update i m)
  then show ?thesis using release_update_inv [OF p] by simp
next
  case (release_lost i m)
  then show ?thesis using release_update_inv [OF p] by simp
next
  case (ask i lease input now)
  then show ?thesis using to_phase_inv [OF p] pool_invD(2) [OF p, of i] by simp
next
  case (get i lease)
  then show ?thesis using to_phase_inv [OF p] pool_invD(2) [OF p, of i] by (simp add: seen_def)
next
  case (choose i lease v m now m')
  then have "phase_inv s skew p i (Chosen lease v m')" using pool_invD(2) [OF p, of i] by (auto simp: seen_def)
  then show ?thesis using to_phase_inv [OF p] choose(2) by simp
next
  case (conflict i lease v m)
  then show ?thesis using to_phase_inv [OF p] pool_invD(2) [OF p, of i] by simp
qed (use to_phase_inv [OF p] in \<open>simp_all add: seen_def\<close>)

lemma new_pool_inv: "pool_inv s skew (new_pool now)"
  by (simp add: pool_inv_def new_pool_def map_wf_def map_has_def map_find_def)

lemma pool_steps_inv:
  assumes "pool_steps s pool skew p es q" "pool_inv s skew p"
  shows "pool_inv s skew q"
  using assms by (induction rule: pool_steps.induct) (auto intro: pool_step_inv)

subsection \<open>The budget\<close>

text \<open>On top of it, as long as the leases asked for are modest: what is stored fits the budget.\<close>

fun modest_phase :: "phase \<Rightarrow> bool" where
  "modest_phase (Asking l) \<longleftrightarrow> modest_lease l"
| "modest_phase (Loaded l v m) \<longleftrightarrow> modest_lease l"
| "modest_phase (Chosen l v m) \<longleftrightarrow> modest_lease l"
| "modest_phase _ \<longleftrightarrow> True"

definition budget_inv :: "leaseStore \<Rightarrow> lease_pool \<Rightarrow> bool" where
  "budget_inv s p \<longleftrightarrow> modest_map (lp_stored p) \<and> slot_load (lp_stored p) \<le> sint (ls_slotBudget s) \<and>
     (\<forall>i. modest_phase (lp_phase p i))"

lemma budget_phase: "budget_inv s p \<Longrightarrow> modest_phase ph \<Longrightarrow> budget_inv s (to_phase i ph p)"
  by (simp add: budget_inv_def to_phase_def)

lemma budget_store:
  "budget_inv s p \<Longrightarrow> modest_map m \<Longrightarrow> slot_load m \<le> sint (ls_slotBudget s) \<Longrightarrow> modest_phase ph \<Longrightarrow>
   budget_inv s (store m (to_phase i ph p))"
  by (simp add: budget_inv_def to_phase_def store_def)

lemma budget_update:
  assumes p: "pool_inv s skew p" "budget_inv s p" and i: "lp_phase p i = Chosen l (lp_version p) m"
    and b: "sint (ls_slotBudget s) < 2 ^ 62" and ph: "ph = Held l \<or> ph = Ended"
  shows "budget_inv s (store m (to_phase i ph p))"
proof -
  obtain now where r: "reserve now (ls_slotBudget s) i l (lp_stored p) = Inr m" and new: "\<not> map_has (lp_stored p) i"
    using pool_invD(2) [OF p(1), of i] i by (auto simp: seen_def)
  have "modest_phase (lp_phase p i)" using p(2) by (simp add: budget_inv_def)
  then have "modest_lease l" by (simp add: i)
  with reserve_budget [OF r _ _ new _ b] p(2) ph show ?thesis
    by (intro budget_store [OF p(2)]) (auto simp: budget_inv_def)
qed

lemma budget_release:
  assumes p: "pool_inv s skew p" "budget_inv s p" and i: "lp_phase p i = Listed (lp_version p) m"
    and ph: "ph = Ended \<or> ph = Returning"
  shows "budget_inv s (store (map_del i m) (to_phase i ph p))"
proof -
  have "m = lp_stored p" using pool_invD(2) [OF p(1), of i] i by (simp add: seen_def)
  with p(2) ph show ?thesis
    using slot_load_del [of m i] by (intro budget_store [OF p(2)]) (auto simp: budget_inv_def modest_del)
qed

lemma pool_step_budget:
  assumes step: "pool_step s pool skew p e q" and p: "pool_inv s skew p" "budget_inv s p"
    and b: "sint (ls_slotBudget s) < 2 ^ 62" and e: "modest_events [e]"
  shows "budget_inv s q"
proof -
  have own: "modest_phase (lp_phase p i)" for i using p(2) by (simp add: budget_inv_def)
  from step show ?thesis
  proof cases
    case (time now)
    then show ?thesis using p(2) by (simp add: budget_inv_def)
  next
    case (ask i lease input now)
    then show ?thesis using budget_phase [OF p(2)] e by (simp add: modest_events_def)
  next
    case (get i lease)
    then show ?thesis using budget_phase [OF p(2)] own [of i] by simp
  next
    case (choose i lease v m now m')
    then show ?thesis using budget_phase [OF p(2)] own [of i] by simp
  next
    case (conflict i lease v m)
    then show ?thesis using budget_phase [OF p(2)] own [of i] by simp
  next
    case (update i lease m)
    then show ?thesis using budget_update [OF p update(3) b] by simp
  next
    case (update_lost i lease m)
    then show ?thesis using budget_update [OF p update_lost(3) b] by simp
  next
    case (release_update i m)
    then show ?thesis using budget_release [OF p] by simp
  next
    case (release_lost i m)
    then show ?thesis using budget_release [OF p] by simp
  qed (use budget_phase [OF p(2)] in simp_all)
qed

lemma new_pool_budget: "0 \<le> sint (ls_slotBudget s) \<Longrightarrow> budget_inv s (new_pool now)"
  by (simp add: budget_inv_def new_pool_def modest_map_def map_wf_def slot_load_def)

lemma pool_steps_budget:
  assumes "pool_steps s pool skew p es q" "pool_inv s skew p" "budget_inv s p" "sint (ls_slotBudget s) < 2 ^ 62" "modest_events es"
  shows "budget_inv s q"
  using assms
proof (induction rule: pool_steps.induct)
  case (more p es q e r)
  then have "budget_inv s q" by (simp add: modest_events_def)
  with more pool_step_budget [OF more.hyps(2) pool_steps_inv [OF more.hyps(1)]] show ?case
    by (simp add: modest_events_def)
qed simp

subsection \<open>What the workers may rely on\<close>

text \<open>The slots an activity holds: none before its lease is acknowledged, none after a worker's clock may
  take it for expired.\<close>

definition held_slots :: "go_duration \<Rightarrow> lease_pool \<Rightarrow> string \<Rightarrow> int" where
  "held_slots skew p i =
     (case lp_phase p i of
        Held l \<Rightarrow> if current skew p l then sint (lease_Slots l) else 0
      | _ \<Rightarrow> 0)"

definition stored_slots :: "lease_map \<Rightarrow> string \<Rightarrow> int" where
  "stored_slots m i = (case map_find m i of None \<Rightarrow> 0 | Some l \<Rightarrow> sint (lease_Slots l))"

lemma stored_slots_total: "map_wf m \<Longrightarrow> sum (stored_slots m) (fst ` set (entries m)) = slot_load m"
proof -
  have "distinct (map fst es) \<Longrightarrow>
      (\<Sum>i\<in>fst ` set es. case map_of es i of None \<Rightarrow> 0 | Some l \<Rightarrow> sint (lease_Slots l)) =
      (\<Sum>(i, l)\<leftarrow>es. sint (lease_Slots l))" for es :: "(string \<times> Lease) list"
  proof (induction es)
    case (Cons e es)
    obtain j l where e: "e = (j, l)" by (cases e)
    have "(\<Sum>i\<in>fst ` set es. case map_of (e # es) i of None \<Rightarrow> 0 | Some l \<Rightarrow> sint (lease_Slots l)) =
        (\<Sum>i\<in>fst ` set es. case map_of es i of None \<Rightarrow> 0 | Some l \<Rightarrow> sint (lease_Slots l))"
      using Cons.prems by (intro sum.cong) (auto simp: e)
    with Cons e show ?case by simp
  qed simp
  then show "map_wf m \<Longrightarrow> ?thesis" by (simp add: stored_slots_def [abs_def] map_find_def map_wf_def slot_load_def)
qed

lemma stored_slots_nonneg: "modest_map m \<Longrightarrow> 0 \<le> stored_slots m i"
  by (auto simp: stored_slots_def modest_map_def map_find_def split: option.split dest: map_of_SomeD)

lemma stored_slots_load:
  assumes "modest_map m"
  shows "sum (stored_slots m) A \<le> slot_load m"
proof (cases "finite A")
  case True
  let ?keys = "fst ` set (entries m)"
  have "sum (stored_slots m) A = sum (stored_slots m) (A \<inter> ?keys)"
    using True
    by (intro sum.mono_neutral_right) (force simp: stored_slots_def map_find_def split: option.splits dest: map_of_SomeD)+
  also have "\<dots> \<le> sum (stored_slots m) ?keys"
    using stored_slots_nonneg [OF assms] by (intro sum_mono2) auto
  finally show ?thesis using stored_slots_total assms by (simp add: modest_map_def)
qed (use slot_load_nonneg [OF assms] in simp)

lemma held_slots_stored: "pool_inv s skew p \<Longrightarrow> modest_map (lp_stored p) \<Longrightarrow> held_slots skew p i \<le> stored_slots (lp_stored p) i"
  using pool_invD(2) [of s skew p i] stored_slots_nonneg
  by (auto simp: held_slots_def stored_slots_def split: phase.split)


text \<open>C19. A granted lease stays: as long as it is held and its expiry is further away than the workers'
  clocks may be ahead, it is in the ConfigMap as it was granted, whatever the other workers acquire,
  release or prune, and whatever they ask for.\<close>

theorem held_lease_stored:
  assumes "pool_steps (newLeaseStore namespace budget) pool skew (new_pool start) es p"
    and "lp_phase p i = Held l" and "\<not> lease_ExpiresAt l < lp_clock p + skew"
  shows "map_find (lp_stored p) i = Some l"
  using pool_invD(2) [OF pool_steps_inv [OF assms(1) new_pool_inv], of i] assms(2,3) by (simp add: current_def)

subsection \<open>Two workers\<close>

text \<open>Two workers ask for two slots each of a pool of three, and both have read the empty ConfigMap
  before either writes: one gets its lease, the other meets a conflict and is then refused.\<close>

definition two_slots :: AcquireLeaseInput where
  "two_slots =
     \<lparr>ai_Identity = \<lparr>id_Environment = [], id_Namespace = [], id_Name = [], id_Owner = [],
        id_ServiceAccount = [], id_NodePool = ''p'', id_FlinkDashboardURL = []\<rparr>,
      ai_Resources = \<lparr>rs_TaskManagerCPU = f_one, rs_TaskManagerMemory = 1024, rs_TaskManagerCount = 1,
        rs_SlotsPerManager = 2\<rparr>,
      ai_OwnerWorkflow = [], ai_TTL = go_minute\<rparr>"

definition lease_of :: "string \<Rightarrow> Lease" where
  "lease_of i = new_lease two_slots i 0"

abbreviation three_slots :: leaseStore where
  "three_slots \<equiv> newLeaseStore ''ns'' 3"

abbreviation granted_a :: lease_map where
  "granted_a \<equiv> map_put ''a'' (lease_of ''a'') (Some [])"

lemma pool_p [simp]: "stringOr ''p'' ''default'' = ''p''"
  by code_simp

lemma lease_of_simps [simp]:
  "lease_NodePool (lease_of i) = ''p''" "lease_Slots (lease_of i) = 2" "lease_ExpiresAt (lease_of i) = go_minute"
  by (simp_all add: lease_of_def new_lease_def two_slots_def Slots_def)

lemma modest_lease_of [simp]: "modest_lease (lease_of i)"
  by (simp add: modest_lease_def)

lemma choose_a: "reserve 0 3 i (lease_of i) (Some []) = Inr (map_put i (lease_of i) (Some []))"
  by (simp add: reserve_def live_leases_def reserved_slots_def)

lemma refuse_b: "\<exists>e. reserve 0 3 ''b'' (lease_of ''b'') granted_a = Inl e"
  by (simp add: reserve_def live_leases_def reserved_slots_def map_put_def map_has_def map_find_def
      go_minute_def go_second_def)

definition after_race :: lease_pool where
  "after_race =
     \<lparr>lp_clock = 0, lp_version = 1, lp_stored = granted_a,
      lp_phase = (\<lambda>_. Fresh)(''a'' := Held (lease_of ''a''), ''b'' := Ended)\<rparr>"

definition race_events :: "pool_event list" where
  "race_events = [Ask ''a'' (lease_of ''a''), Ask ''b'' (lease_of ''b''), Act ''a'', Act ''b'', Act ''a'', Act ''b'',
     Act ''a'', Act ''b'', Act ''b'', Act ''b'']"

lemma race: "pool_steps three_slots ''p'' 0 (new_pool 0) race_events after_race"
proof -
  let ?a = "lease_of ''a''" and ?b = "lease_of ''b''" and ?step = "pool_step three_slots ''p'' 0"
  let ?p = "\<lambda>v m pa pb. \<lparr>lp_clock = 0, lp_version = v, lp_stored = m,
    lp_phase = (\<lambda>_. Fresh)(''a'' := pa, ''b'' := pb)\<rparr>"
  have start: "new_pool 0 = ?p 0 (Some []) Fresh Fresh" by (auto simp: new_pool_def)
  have [simp]: "ls_slotBudget three_slots = 3" by (simp add: newLeaseStore_def)
  have as_b: "(\<lambda>_. Fresh)(''a'' := pa, ''b'' := pb, ''a'' := pc) = (\<lambda>_. Fresh)(''a'' := pc, ''b'' := pb)"
    for pa pb pc by auto
  note p = to_phase_def store_def as_b
  obtain e where refused: "reserve 0 3 ''b'' ?b granted_a = Inl e" using refuse_b by blast
  have 1: "?step (?p 0 (Some []) Fresh Fresh) (Ask ''a'' ?a) (?p 0 (Some []) (Asking ?a) Fresh)"
    using ask [of "?p 0 (Some []) Fresh Fresh" "''a''" ?a two_slots 0] by (simp add: p flip: lease_of_def)
  have 2: "?step (?p 0 (Some []) (Asking ?a) Fresh) (Ask ''b'' ?b) (?p 0 (Some []) (Asking ?a) (Asking ?b))"
    using ask [of "?p 0 (Some []) (Asking ?a) Fresh" "''b''" ?b two_slots 0] by (simp add: p flip: lease_of_def)
  have 3: "?step (?p 0 (Some []) (Asking ?a) (Asking ?b)) (Act ''a'') (?p 0 (Some []) (Loaded ?a 0 (Some [])) (Asking ?b))"
    using get [of "?p 0 (Some []) (Asking ?a) (Asking ?b)" "''a''" ?a] by (simp add: p)
  let ?la = "Loaded ?a 0 (Some [])" and ?lb = "Loaded ?b 0 (Some [])"
    and ?ca = "Chosen ?a 0 granted_a" and ?cb = "Chosen ?b 0 (map_put ''b'' ?b (Some []))"
  have 4: "?step (?p 0 (Some []) ?la (Asking ?b)) (Act ''b'') (?p 0 (Some []) ?la ?lb)"
    using get [of "?p 0 (Some []) ?la (Asking ?b)" "''b''" ?b] by (simp add: p)
  have 5: "?step (?p 0 (Some []) ?la ?lb) (Act ''a'') (?p 0 (Some []) ?ca ?lb)"
    using choose [of "?p 0 (Some []) ?la ?lb" "''a''" ?a 0 "Some []" 0 0 three_slots granted_a] by (simp add: p choose_a)
  have 6: "?step (?p 0 (Some []) ?ca ?lb) (Act ''b'') (?p 0 (Some []) ?ca ?cb)"
    using choose [of "?p 0 (Some []) ?ca ?lb" "''b''" ?b 0 "Some []" 0 0 three_slots] by (simp add: p choose_a)
  have 7: "?step (?p 0 (Some []) ?ca ?cb) (Act ''a'') (?p 1 granted_a (Held ?a) ?cb)"
    using update [of "?p 0 (Some []) ?ca ?cb" "''a''" ?a granted_a] by (simp add: p)
  have 8: "?step (?p 1 granted_a (Held ?a) ?cb) (Act ''b'') (?p 1 granted_a (Held ?a) (Asking ?b))"
    using conflict [of "?p 1 granted_a (Held ?a) ?cb" "''b''" ?b 0] by (simp add: p)
  have 9: "?step (?p 1 granted_a (Held ?a) (Asking ?b)) (Act ''b'') (?p 1 granted_a (Held ?a) (Loaded ?b 1 granted_a))"
    using get [of "?p 1 granted_a (Held ?a) (Asking ?b)" "''b''" ?b] by (simp add: p)
  have 10: "?step (?p 1 granted_a (Held ?a) (Loaded ?b 1 granted_a)) (Act ''b'') after_race"
    using refuse [of "?p 1 granted_a (Held ?a) (Loaded ?b 1 granted_a)" "''b''" ?b 1 granted_a 0 three_slots e] refused
    by (simp add: p after_race_def)
  have "pool_steps three_slots ''p'' 0 (?p 0 (Some []) Fresh Fresh) ((((((((([] @ [Ask ''a'' ?a]) @ [Ask ''b'' ?b]) @ [Act ''a'']) @
      [Act ''b'']) @ [Act ''a'']) @ [Act ''b'']) @ [Act ''a'']) @ [Act ''b'']) @ [Act ''b'', Act ''b'']) after_race"
    using more [OF more [OF more [OF more [OF more [OF more [OF more [OF more [OF more [OF more [OF none
      1] 2] 3] 4] 5] 6] 7] 8] 9] 10] by simp
  then show ?thesis unfolding start by (simp add: race_events_def)
qed


theorem held_lease_stored_witness:
  "map_find (lp_stored after_race) ''a'' = Some (lease_of ''a'')"
  using held_lease_stored [OF race, of "''a''" "lease_of ''a''"]
  by (simp add: after_race_def go_minute_def go_second_def)

end
