(* ===== verification/Float_Round.thy ===== *)
theory Float_Round
  imports Json_Decode
begin

text \<open>
  Every finite float is written so that reading gives the same float. This theory has the exact value
  of a float and of a decimal, and rounding: what lies between the midpoints around a float rounds to
  it; the shortest decimal lies there.
\<close>

subsection \<open>Fields and bits\<close>

abbreviation scaled :: "nat \<Rightarrow> int \<Rightarrow> real" where
  "scaled m e \<equiv> real m * 2 powi e"

abbreviation decimal :: "nat \<Rightarrow> int \<Rightarrow> real" where
  "decimal d k \<equiv> real d * 10 powi k"

lemma f_mag_lt: "f_mag x < 2 ^ 63"
  by (simp add: f_mag_def)

lemma f_signed_mag: "f_signed (f_neg x) (f_mag x) = x"
proof (cases x)
  case (F64 w)
  have "unat w < 2 ^ 64" using unsigned_less [of w, where ?'a = nat] by simp
  then have eq: "(if 2 ^ 63 \<le> unat w then 2 ^ 63 + unat w mod 2 ^ 63 else unat w mod 2 ^ 63) = unat w"
    by (auto simp: mod_if)
  have "(of_nat (unat w) :: 64 word) = w" by simp
  then show ?thesis unfolding F64 f_signed_def f_neg_def f_mag_def f_bits_def by (simp only: float64.case eq)
qed

lemma f_mag_fields: "f_mag x = nat (f_scale x + 1074) * 2 ^ 52 + f_mant x"
proof -
  have "f_mag x = f_exp x * 2 ^ 52 + f_frac x" by (simp add: f_exp_def f_frac_def)
  moreover have "f_exp x \<noteq> 0 \<Longrightarrow> nat (int (f_exp x) - 1) = f_exp x - 1" by simp
  moreover have "f_exp x \<noteq> 0 \<Longrightarrow> f_exp x = (f_exp x - 1) + 1" by simp
  ultimately show ?thesis
    by (cases "f_exp x") (simp_all add: f_scale_def f_mant_def)
qed

lemma f_mant_lt: "f_mant x < 2 ^ 53"
proof -
  have "f_frac x < 2 ^ 52" by (simp add: f_frac_def)
  then show ?thesis by (simp add: f_mant_def)
qed

lemma f_scale_ge: "- 1074 \<le> f_scale x"
  by (simp add: f_scale_def)

lemma f_normal: "- 1074 < f_scale x \<Longrightarrow> 2 ^ 52 \<le> f_mant x"
  by (auto simp: f_scale_def f_mant_def split: if_splits)

lemma f_finite_mag: "f_finite x \<Longrightarrow> f_mag x < 2047 * 2 ^ 52"
proof -
  assume "f_finite x"
  moreover have "f_mag x div 2 ^ 52 < 2048" using f_mag_lt [of x] by (simp add: div_less_iff_less_mult)
  ultimately have "f_mag x div 2 ^ 52 < 2047" by (simp add: f_finite_def f_exp_def)
  then show ?thesis by (simp add: div_less_iff_less_mult)
qed

lemma f_finite_scale: "f_finite x \<Longrightarrow> f_scale x \<le> 971"
proof -
  assume "f_finite x"
  moreover have "f_exp x < 2048" using f_mag_lt [of x] by (simp add: f_exp_def div_less_iff_less_mult)
  ultimately show ?thesis by (simp add: f_finite_def f_scale_def)
qed

subsection \<open>Rounding\<close>

lemma div_even_nearest:
  fixes m d q :: nat
  assumes "0 < d" and "2 * m \<le> (2 * q + 1) * d" and "2 * q * d \<le> 2 * m + d"
    and "odd q \<Longrightarrow> 2 * m \<noteq> (2 * q + 1) * d" and "odd q \<Longrightarrow> 2 * q * d \<noteq> 2 * m + d"
  shows "div_even m d = q"
proof (cases "q * d \<le> m")
  case True
  then obtain r where r: "m = q * d + r" using le_Suc_ex by blast
  with assms(2) have "2 * r \<le> d" by (simp add: algebra_simps)
  with assms(1) have "r < d" by linarith
  with r have "m div d = q" "m mod d = r" by simp_all
  with \<open>2 * r \<le> d\<close> assms(4) r show ?thesis by (auto simp: div_even_def Let_def algebra_simps)
next
  case False
  then obtain q' where q': "q = Suc q'" by (cases q) auto
  from assms(3) have "2 * (q' * d) + d \<le> 2 * m" by (simp add: q' algebra_simps)
  then have "q' * d \<le> m" by linarith
  then obtain r where r: "m = q' * d + r" using le_Suc_ex by blast
  with False have "r < d" by (simp add: q' algebra_simps)
  with r have "m div d = q'" "m mod d = r" by simp_all
  moreover have "d \<le> 2 * r" using assms(3) r by (simp add: q' algebra_simps)
  ultimately show ?thesis using assms(5) r by (auto simp: div_even_def Let_def q' algebra_simps)
qed

text \<open>The bits of a number, as bounds of its value.\<close>

lemma bits_bounds:
  assumes "0 < m"
  shows "2 powi (e + int (floorlog 2 m) - 1) \<le> scaled m e" "scaled m e < 2 powi (e + int (floorlog 2 m))"
proof -
  have "2 ^ (floorlog 2 m - 1) \<le> m" "m < 2 ^ floorlog 2 m"
    using floorlog_bounds [of m 2] assms by simp_all
  then have b: "(2::real) ^ (floorlog 2 m - 1) \<le> real m" "real m < 2 ^ floorlog 2 m"
    by (metis of_nat_le_iff of_nat_numeral of_nat_power, metis of_nat_less_iff of_nat_numeral of_nat_power)
  have "0 < floorlog 2 m" using assms by (simp add: floorlog_def)
  then have "(2::real) powi (e + int (floorlog 2 m) - 1) = 2 ^ (floorlog 2 m - 1) * 2 powi e"
    by (simp add: power_int_add power_int_diff power_diff)
  with b show "2 powi (e + int (floorlog 2 m) - 1) \<le> scaled m e" by simp
  have "(2::real) powi (e + int (floorlog 2 m)) = 2 ^ floorlog 2 m * 2 powi e" by (simp add: power_int_add)
  with b show "scaled m e < 2 powi (e + int (floorlog 2 m))" by simp
qed

lemma powi_less: "1 < (b :: real) \<Longrightarrow> b powi i < b powi j \<longleftrightarrow> i < j"
  by (meson less_imp_le not_le power_int_increasing power_int_strict_increasing)

text \<open>Rounding at a scale \<open>e'\<close>.\<close>

definition round_at :: "nat \<Rightarrow> int \<Rightarrow> int \<Rightarrow> nat" where
  "round_at m e e' = (if e' \<le> e then m * 2 ^ nat (e - e') else div_even m (2 ^ nat (e' - e)))"

lemma f_round_at:
  "0 < m \<Longrightarrow> f_round neg m e =
     (let e' = max (e + int (floorlog 2 m) - 53) (- 1074)
      in f_signed neg (min (nat (e' + 1074) * 2 ^ 52 + round_at m e e') (2047 * 2 ^ 52)))"
  by (simp add: f_round_def round_at_def Let_def)

lemma round_at_nearest:
  assumes "\<bar>scaled m e - scaled q e'\<bar> \<le> 2 powi e' / 2" and "odd q \<Longrightarrow> \<bar>scaled m e - scaled q e'\<bar> < 2 powi e' / 2"
  shows "round_at m e e' = q"
proof (cases "e' \<le> e")
  case True
  define n where "n = nat (e - e')"
  have e: "e = e' + int n" using True by (simp add: n_def)
  have "scaled m e = real (m * 2 ^ n) * 2 powi e'" by (simp add: e power_int_add)
  then have "scaled m e - scaled q e' = (real (m * 2 ^ n) - real q) * 2 powi e'" by (simp add: algebra_simps)
  with assms(1) have "\<bar>real (m * 2 ^ n) - real q\<bar> * 2 powi e' \<le> 1 / 2 * 2 powi e'" by (simp add: abs_mult)
  then have "\<bar>real (m * 2 ^ n) - real q\<bar> \<le> 1 / 2" by (rule mult_right_le_imp_le) simp
  then have "m * 2 ^ n = q" by linarith
  with True show ?thesis by (simp add: round_at_def n_def)
next
  case False
  define n where "n = nat (e' - e)"
  have e: "e' = e + int n" using False by (simp add: n_def)
  let ?D = "2 ^ n :: nat"
  have "scaled m e - scaled q e' = (real m - real (q * ?D)) * 2 powi e" "2 powi e' / 2 = real ?D / 2 * 2 powi e"
    by (simp_all add: e power_int_add algebra_simps)
  with assms have "\<bar>real m - real (q * ?D)\<bar> * 2 powi e \<le> real ?D / 2 * 2 powi e"
    "odd q \<Longrightarrow> \<bar>real m - real (q * ?D)\<bar> * 2 powi e < real ?D / 2 * 2 powi e" by (simp_all add: abs_mult)
  then have "\<bar>real m - real (q * ?D)\<bar> \<le> real ?D / 2" "odd q \<Longrightarrow> \<bar>real m - real (q * ?D)\<bar> < real ?D / 2"
    by simp_all
  then have a: "2 * real m \<le> 2 * real (q * ?D) + real ?D" "2 * real (q * ?D) \<le> 2 * real m + real ?D"
    "odd q \<Longrightarrow> 2 * real m < 2 * real (q * ?D) + real ?D" "odd q \<Longrightarrow> 2 * real (q * ?D) < 2 * real m + real ?D"
    by linarith+
  have c: "real ((2 * q + 1) * ?D) = 2 * real (q * ?D) + real ?D" "real (2 * q * ?D) = 2 * real (q * ?D)"
    "real (2 * m) = 2 * real m" "real (2 * m + ?D) = 2 * real m + real ?D" by (simp_all add: algebra_simps)
  have "real (2 * m) \<le> real ((2 * q + 1) * ?D)" "real (2 * q * ?D) \<le> real (2 * m + ?D)"
    "odd q \<Longrightarrow> real (2 * m) < real ((2 * q + 1) * ?D)" "odd q \<Longrightarrow> real (2 * q * ?D) < real (2 * m + ?D)"
    unfolding c by (rule a; assumption?)+
  then have "div_even m ?D = q"
    by (intro div_even_nearest) (simp_all only: of_nat_le_iff of_nat_less_iff, simp_all)
  with False show ?thesis by (simp add: round_at_def n_def)
qed

text \<open>What lies between the midpoints around a float rounds to it. Below a power of two the floats are
  twice as dense, so there the lower midpoint is nearer.\<close>

definition rounds_to :: "float64 \<Rightarrow> real \<Rightarrow> bool" where
  "rounds_to x w \<longleftrightarrow>
     (real (f_mant x) - 1 / 2) * 2 powi f_scale x \<le> w \<and> w \<le> (real (f_mant x) + 1 / 2) * 2 powi f_scale x \<and>
     (odd (f_mant x) \<longrightarrow>
        (real (f_mant x) - 1 / 2) * 2 powi f_scale x < w \<and> w < (real (f_mant x) + 1 / 2) * 2 powi f_scale x) \<and>
     (f_mant x = 2 ^ 52 \<and> - 1074 < f_scale x \<longrightarrow> (real (f_mant x) - 1 / 4) * 2 powi f_scale x \<le> w)"

lemma f_round_interval:
  assumes fin: "f_finite x" and M: "0 < M" and near: "rounds_to x (scaled M e)"
  shows "f_round neg M e = f_signed neg (f_mag x)"
proof -
  define m S where "m = f_mant x" and "S = f_scale x"
  define W B where "W = scaled M e" and "B = e + int (floorlog 2 M)"
  define P :: real where "P = 2 powi S"
  have P: "0 < P" by (simp add: P_def)
  have bits: "2 powi (B - 1) \<le> W" "W < 2 powi B" using bits_bounds [OF M, of e] by (simp_all add: W_def B_def)
  have near': "(real m - 1 / 2) * P \<le> W" "W \<le> (real m + 1 / 2) * P"
    "odd m \<Longrightarrow> (real m - 1 / 2) * P < W" "odd m \<Longrightarrow> W < (real m + 1 / 2) * P"
    "m = 2 ^ 52 \<Longrightarrow> - 1074 < S \<Longrightarrow> (real m - 1 / 4) * P \<le> W"
    using near by (simp_all add: rounds_to_def m_def S_def P_def W_def)
  have shift: "2 powi (S + int n) = 2 ^ n * P" for n by (simp add: P_def power_int_add)
  have mag: "f_mag x = nat (S + 1074) * 2 ^ 52 + m" using f_mag_fields [of x] by (simp add: m_def S_def)
  have S: "- 1074 \<le> S" using f_scale_ge [of x] by (simp add: S_def)
  have m: "m < 2 ^ 53" using f_mant_lt [of x] by (simp add: m_def)
  have round: "f_round neg M e = (let e' = max (B - 53) (- 1074)
      in f_signed neg (min (nat (e' + 1074) * 2 ^ 52 + round_at M e e') (2047 * 2 ^ 52)))"
    using f_round_at [OF M, of neg e] by (simp add: B_def)
  show ?thesis
  proof (cases "S = - 1074 \<or> 2 ^ 52 * P \<le> W")
    case True
    have "real m + 1 / 2 < 2 ^ 53" using m by simp
    then have "(real m + 1 / 2) * P < 2 ^ 53 * P" using P by (rule mult_strict_right_mono)
    with near'(2) have "W < 2 powi (S + int 53)" unfolding shift by linarith
    with bits(1) have "(2::real) powi (B - 1) < 2 powi (S + int 53)" by linarith
    then have "B - 1 < S + 53" by (simp add: powi_less)
    moreover have "S < B - 52" if "S \<noteq> - 1074"
    proof -
      from that True have "2 powi (S + int 52) \<le> W" unfolding shift by simp
      with bits(2) have "(2::real) powi (S + int 52) < 2 powi B" by linarith
      then show ?thesis by (simp add: powi_less)
    qed
    ultimately have e': "max (B - 53) (- 1074) = S" using S by (cases "S = - 1074") auto
    have "\<bar>W - real m * P\<bar> \<le> P / 2" "odd m \<Longrightarrow> \<bar>W - real m * P\<bar> < P / 2"
      using near' unfolding left_diff_distrib distrib_right by linarith+
    then have "round_at M e S = m" by (intro round_at_nearest) (simp_all add: W_def P_def)
    then have "nat (S + 1074) * 2 ^ 52 + round_at M e S = f_mag x" by (simp add: mag)
    then show ?thesis using f_finite_mag [OF fin] unfolding round Let_def e' by simp
  next
    case False
    then have S1: "- 1074 < S" and W: "W < 2 ^ 52 * P" using S by auto
    have "2 ^ 52 \<le> m" using f_normal [of x] S1 by (simp add: m_def S_def)
    moreover have "\<not> 2 ^ 52 < m"
    proof
      assume "2 ^ 52 < m"
      then have "2 ^ 52 \<le> real m - 1 / 2" by simp
      then have "2 ^ 52 * P \<le> (real m - 1 / 2) * P" using P by (intro mult_right_mono) simp_all
      with near'(1) W show False by linarith
    qed
    ultimately have m52: "m = 2 ^ 52" by simp
    have low: "(2 ^ 52 - 1 / 4) * P \<le> W" using near'(5) m52 S1 by simp
    have "(2::real) ^ 51 * P \<le> (2 ^ 52 - 1 / 4) * P" using P by (intro mult_right_mono) simp_all
    with low bits(2) have "(2::real) powi (S + int 51) < 2 powi B" unfolding shift by linarith
    moreover have "(2::real) powi (B - 1) < 2 powi (S + int 52)" using bits(1) W unfolding shift by linarith
    ultimately have B: "B = S + 52" by (simp add: powi_less)
    then have e': "max (B - 53) (- 1074) = S - 1" using S1 by simp
    have half: "2 powi (S - 1) = P / 2" by (simp add: P_def power_int_diff)
    have "round_at M e (S - 1) = 2 ^ 53"
    proof (intro round_at_nearest)
      have "\<bar>W - 2 ^ 52 * P\<bar> \<le> P / 4" using low W unfolding left_diff_distrib by linarith
      then show "\<bar>scaled M e - scaled (2 ^ 53) (S - 1)\<bar> \<le> 2 powi (S - 1) / 2" by (simp add: W_def [symmetric] half)
    qed simp
    moreover have "nat (S - 1 + 1074) * 2 ^ 52 + 2 ^ 53 = f_mag x"
    proof -
      have "nat (S + 1074) = nat (S - 1 + 1074) + 1" using S1 by simp
      then show ?thesis by (simp add: mag m52)
    qed
    ultimately show ?thesis using f_finite_mag [OF fin] by (simp add: round e')
  qed
qed

subsection \<open>The shortest decimal\<close>

lemma dec_cmp_real:
  "real_of_int (dec_cmp d k v e) = (decimal d k - scaled v e) * (2 ^ nat (- e) * 10 ^ nat (- k))"
proof -
  have "(10::real) ^ nat k = 10 powi k * 10 ^ nat (- k)" "(2::real) ^ nat e = 2 powi e * 2 ^ nat (- e)"
    by (simp_all add: power_int_def power_mult_distrib [symmetric])
  then show ?thesis by (simp add: dec_cmp_def left_diff_distrib)
qed

lemma dec_cmp_sign:
  "0 < dec_cmp d k v e \<longleftrightarrow> scaled v e < decimal d k" "dec_cmp d k v e < 0 \<longleftrightarrow> decimal d k < scaled v e"
  "dec_cmp d k v e = 0 \<longleftrightarrow> decimal d k = scaled v e"
proof -
  define F :: real where "F = 2 ^ nat (- e) * 10 ^ nat (- k)"
  have F: "0 < F" by (simp add: F_def)
  have r: "real_of_int (dec_cmp d k v e) = (decimal d k - scaled v e) * F" unfolding F_def by (rule dec_cmp_real)
  have "0 < dec_cmp d k v e \<longleftrightarrow> 0 < (decimal d k - scaled v e) * F" using r by linarith
  with F show "0 < dec_cmp d k v e \<longleftrightarrow> scaled v e < decimal d k" by (simp add: zero_less_mult_iff)
  have "dec_cmp d k v e < 0 \<longleftrightarrow> (decimal d k - scaled v e) * F < 0" using r by linarith
  with F show "dec_cmp d k v e < 0 \<longleftrightarrow> decimal d k < scaled v e" by (simp add: mult_less_0_iff)
  have "dec_cmp d k v e = 0 \<longleftrightarrow> (decimal d k - scaled v e) * F = 0" using r by linarith
  with F show "dec_cmp d k v e = 0 \<longleftrightarrow> decimal d k = scaled v e" by simp
qed

lemma dec_floor_bounds: "decimal (dec_floor v e k) k \<le> scaled v e" "scaled v e < decimal (dec_floor v e k + 1) k"
proof -
  let ?a = "v * 2 ^ nat e * 10 ^ nat (- k)" and ?b = "10 ^ nat k * 2 ^ nat (- e) :: nat"
  have d: "dec_floor v e k = ?a div ?b" by (simp add: dec_floor_def)
  have b: "0 < ?b" by simp
  have "?a div ?b * ?b \<le> ?a" "?a < (?a div ?b + 1) * ?b"
    using b div_mult_mod_eq [of ?a ?b] mod_less_divisor [of ?b ?a] by (simp_all add: dividend_less_div_times)
  then have "dec_cmp (dec_floor v e k) k v e \<le> 0" "0 < dec_cmp (dec_floor v e k + 1) k v e"
    unfolding d dec_cmp_def by (simp_all only: mult.assoc [symmetric] of_nat_less_iff of_nat_le_iff diff_le_0_iff_le diff_gt_0_iff_gt)
  then show "decimal (dec_floor v e k) k \<le> scaled v e" "scaled v e < decimal (dec_floor v e k + 1) k"
    using dec_cmp_sign [of "dec_floor v e k" k v e] dec_cmp_sign [of "dec_floor v e k + 1" k v e] by linarith+
qed

lemma shortest_at_sound:
  assumes "shortest_at v e lo hi incl k = Some (d, k')" and "lo < v" "v < hi"
  shows "k' = k" "scaled lo e \<le> decimal d k" "decimal d k \<le> scaled hi e"
    "\<not> incl \<Longrightarrow> scaled lo e < decimal d k" "\<not> incl \<Longrightarrow> decimal d k < scaled hi e"
proof -
  define f where "f = dec_floor v e k"
  have v: "scaled lo e < scaled v e" "scaled v e < scaled hi e" using assms(2,3) by simp_all
  have fl: "decimal f k \<le> scaled v e" "scaled v e < decimal (f + 1) k" using dec_floor_bounds [of v e k] by (simp_all add: f_def)
  define down where "down \<longleftrightarrow> (0 < dec_cmp f k lo e \<or> (incl \<and> dec_cmp f k lo e = 0))"
  define up where "up \<longleftrightarrow> (dec_cmp (f + 1) k hi e < 0 \<or> (incl \<and> dec_cmp (f + 1) k hi e = 0))"
  have down: "down \<Longrightarrow> scaled lo e \<le> decimal f k" "down \<Longrightarrow> \<not> incl \<Longrightarrow> scaled lo e < decimal f k"
    unfolding down_def dec_cmp_sign by auto
  have up: "up \<Longrightarrow> decimal (f + 1) k \<le> scaled hi e" "up \<Longrightarrow> \<not> incl \<Longrightarrow> decimal (f + 1) k < scaled hi e"
    unfolding up_def dec_cmp_sign by auto
  have "k' = k \<and> (d = f \<and> down \<or> d = f + 1 \<and> up)"
    using assms(1) unfolding shortest_at_def Let_def f_def [symmetric] down_def [symmetric] up_def [symmetric]
    by (auto split: if_splits)
  then consider "k' = k" "d = f" down | "k' = k" "d = f + 1" up by blast
  then show "k' = k" "scaled lo e \<le> decimal d k" "decimal d k \<le> scaled hi e"
    "\<not> incl \<Longrightarrow> scaled lo e < decimal d k" "\<not> incl \<Longrightarrow> decimal d k < scaled hi e"
    using v fl down up by (cases; simp only:; linarith)+
qed

lemma shortest_at_finds:
  assumes "10 powi k < scaled 1 e * 4 \<and> lo + 2 \<le> v \<and> v + 2 \<le> hi \<or>
           10 powi k < scaled 1 e * 2 \<and> lo + 1 \<le> v \<and> v + 2 \<le> hi"
  shows "shortest_at v e lo hi incl k \<noteq> None"
proof
  assume none: "shortest_at v e lo hi incl k = None"
  define f where "f = dec_floor v e k"
  have fl: "decimal f k \<le> scaled v e" "scaled v e < decimal (f + 1) k" using dec_floor_bounds [of v e k] by (simp_all add: f_def)
  have "\<not> 0 < dec_cmp f k lo e" "\<not> dec_cmp (f + 1) k hi e < 0"
    using none unfolding shortest_at_def Let_def f_def [symmetric] by (auto split: if_splits)
  then have d: "decimal f k \<le> scaled lo e" "scaled hi e \<le> decimal f k + 10 powi k"
    unfolding dec_cmp_sign by (simp_all add: distrib_right)
  have mono: "a \<le> b \<Longrightarrow> scaled a e \<le> scaled b e" for a b by simp
  have pos: "0 < (2::real) powi e" by simp
  from assms show False
  proof
    assume a: "10 powi k < scaled 1 e * 4 \<and> lo + 2 \<le> v \<and> v + 2 \<le> hi"
    then have "scaled (lo + 2) e \<le> scaled v e" "scaled (v + 2) e \<le> scaled hi e" using mono by blast+
    with d a show False by (simp add: distrib_right)
  next
    assume a: "10 powi k < scaled 1 e * 2 \<and> lo + 1 \<le> v \<and> v + 2 \<le> hi"
    then have "scaled (lo + 1) e \<le> scaled v e" "scaled (v + 2) e \<le> scaled hi e" using mono by blast+
    then have "scaled lo e + 2 powi e \<le> scaled v e" "scaled v e + 2 * 2 powi e \<le> scaled hi e" by (simp_all add: distrib_right)
    moreover have "(10::real) powi k < 2 * 2 powi e" using a by simp
    ultimately show False using d pos by linarith
  qed
qed

lemma strip_zeros_value: "strip_zeros n d k = (d', k') \<Longrightarrow> decimal d' k' = decimal d k"
proof (induction n arbitrary: d k)
  case (Suc n)
  show ?case
  proof (cases "d \<noteq> 0 \<and> d mod 10 = 0")
    case True
    then have "real d = real (d div 10) * 10" by (metis div_mult_mod_eq add.right_neutral of_nat_mult of_nat_numeral)
    moreover have "decimal d' k' = decimal (d div 10) (k + 1)" using Suc True by simp
    ultimately show ?thesis by (simp add: power_int_add)
  next
    case False
    then show ?thesis using Suc.prems by (auto split: if_splits)
  qed
qed simp

lemma first_some_works: "first_some f xs = Some y \<Longrightarrow> \<exists>x\<in>set xs. f x = Some y"
  by (induction xs) (auto split: option.splits)

lemma first_some_finds: "x \<in> set xs \<Longrightarrow> f x \<noteq> None \<Longrightarrow> first_some f xs \<noteq> None"
  by (induction xs) (auto split: option.splits)

text \<open>The magnitude: the least power of ten above the value.\<close>

lemma find_upto:
  assumes "\<not> P lo" and "P hi" and "lo < hi" and "\<And>i j. i \<le> j \<Longrightarrow> P i \<Longrightarrow> P j"
  shows "\<exists>p. find P [lo..hi] = Some p \<and> P p \<and> \<not> P (p - 1)"
proof -
  have "find P [a..hi] \<noteq> None" if "a \<le> hi" for a using that assms(2) by (auto simp: find_None_iff)
  moreover have "find P [a..hi] = Some p \<Longrightarrow> \<not> P (a - 1) \<Longrightarrow> P p \<and> \<not> P (p - 1)" for a p
  proof (induction "nat (hi - a + 1)" arbitrary: a)
    case 0
    then show ?case by simp
  next
    case (Suc n)
    then have a: "a \<le> hi" by simp
    show ?case
    proof (cases "P a")
      case True
      with Suc.prems a show ?thesis by (simp add: upto_rec1)
    next
      case False
      with Suc.prems(1) a have "find P [a + 1..hi] = Some p" by (simp add: upto_rec1)
      moreover have "n = nat (hi - (a + 1) + 1)" using Suc.hyps(2) by simp
      ultimately show ?thesis using Suc.hyps(1) [of "a + 1"] False by simp
    qed
  qed
  moreover have "\<not> P (lo - 1)" using assms(1,4) by (meson diff_add_cancel zle_add1_eq_le less_le_not_le linorder_le_cases assms(4) diff_le_eq)
  ultimately show ?thesis using assms(3) by (metis less_imp_le option.exhaust_sel)
qed

lemma powers_apart: "(10::real) powi (- 330) \<le> 2 powi (- 1076)" "(2::real) powi 1024 \<le> 10 powi 310"
proof -
  have "inverse ((10::real) ^ 330) \<le> inverse (2 ^ 1076)" by (rule le_imp_inverse_le) simp_all
  then show "(10::real) powi (- 330) \<le> 2 powi (- 1076)" unfolding power_int_minus power_int_numeral .
  show "(2::real) powi 1024 \<le> 10 powi 310" unfolding power_int_numeral by simp
qed

lemma f_shortest_near:
  assumes fin: "f_finite x" and pos: "0 < f_mant x" and fs: "f_shortest x = (d, k)"
  shows "rounds_to x (decimal d k)" "0 < d"
proof -
  define m S e where "m = f_mant x" and "S = f_scale x" and "e = f_scale x - 2"
  define lo hi where "lo = (if f_frac x = 0 \<and> 1 < f_exp x then 4 * m - 1 else 4 * m - 2)" and "hi = 4 * m + 2"
  let ?v = "scaled (4 * m) e" and ?P = "\<lambda>p. dec_cmp 1 p (4 * m) e > 0"
  have m: "0 < m" "m < 2 ^ 53" using pos f_mant_lt [of x] by (simp_all add: m_def)
  have e: "- 1076 \<le> e" "e \<le> 969" using f_scale_ge [of x] f_finite_scale [OF fin] by (simp_all add: e_def)
  have P: "?P p \<longleftrightarrow> ?v < 10 powi p" for p by (simp add: dec_cmp_sign(1))
  have "2 powi (- 1076) \<le> (2::real) powi e" using e(1) by (intro power_int_increasing) simp_all
  moreover have "1 * (2::real) powi e \<le> ?v" using m(1) by (intro mult_right_mono) simp_all
  ultimately have "10 powi (- 330) \<le> ?v" using powers_apart(1) unfolding mult_1 by (meson order_trans)
  then have p1: "\<not> ?P (- 330)" unfolding P by (simp only: not_less)
  have p2: "?P 310"
  proof -
    have "real (4 * m) < 2 ^ 55" using m(2) by simp
    then have "?v < 2 ^ 55 * 2 powi e" by (intro mult_strict_right_mono) simp_all
    also have "\<dots> = 2 powi (int 55 + e)" by (simp add: power_int_add)
    also have "\<dots> \<le> (2::real) powi 1024" using e(2) by (intro power_int_increasing) simp_all
    finally show ?thesis unfolding P using powers_apart(2) by linarith
  qed
  have p3: "?P j" if "i \<le> j" "?P i" for i j
    using that(2) power_int_increasing [OF that(1), of "10 :: real"] unfolding P by linarith
  have "\<exists>p. find ?P [- 330..310] = Some p \<and> ?P p \<and> \<not> ?P (p - 1)"
    by (rule find_upto [of ?P, OF p1 p2 _ p3]) simp_all
  then obtain p where p: "find ?P [- 330..310] = Some p" "?v < 10 powi p" "10 powi (p - 1) \<le> ?v"
    unfolding P not_less by blast
  define f where "f = (\<lambda>n. shortest_at (4 * m) e lo hi (even m) (p - n))"
  have order: "lo < 4 * m" "4 * m < hi" using m(1) by (simp_all add: lo_def hi_def)
  have m52: "2 ^ 52 \<le> m \<and> S = int (f_exp x) - 1075" if "1 < f_exp x" using that by (simp add: m_def S_def f_mant_def f_scale_def)
  have "f 17 \<noteq> None"
  proof -
    have tens: "(10::real) powi (p - 17) * 10 ^ 16 = 10 powi (p - 1)"
      using power_int_add [of "10 :: real" "p - 17" "int 16"] by simp
    have k: "10 powi (p - 17) * 10 ^ 16 \<le> scaled m e * 4" unfolding tens using p(3) by simp
    show ?thesis
    proof (cases "f_frac x = 0 \<and> 1 < f_exp x")
      case True
      then have "m = 2 ^ 52" by (simp add: m_def f_mant_def)
      then have "scaled m e * 4 < scaled 1 e * 2 * 10 ^ 16" by simp
      with k have "10 powi (p - 17) * 10 ^ 16 < scaled 1 e * 2 * 10 ^ 16" by (rule le_less_trans)
      then have "10 powi (p - 17) < scaled 1 e * 2" by (rule mult_right_less_imp_less) simp
      with True m(1) show ?thesis
        unfolding f_def by (intro shortest_at_finds disjI2) (simp add: lo_def hi_def)
    next
      case False
      have "real m * (2::real) powi e < 2 ^ 53 * 2 powi e" using m(2) by (intro mult_strict_right_mono) simp_all
      then have "scaled m e * 4 < scaled 1 e * 4 * 10 ^ 16" by simp
      with k have "10 powi (p - 17) * 10 ^ 16 < scaled 1 e * 4 * 10 ^ 16" by (rule le_less_trans)
      then have "10 powi (p - 17) < scaled 1 e * 4" by (rule mult_right_less_imp_less) simp
      with False m(1) show ?thesis
        unfolding f_def by (intro shortest_at_finds disjI1) (auto simp: lo_def hi_def)
    qed
  qed
  moreover have "17 \<in> set [1..17 :: int]" by (simp only: set_upto atLeastAtMost_iff) simp
  ultimately have "first_some f [1..17] \<noteq> None" by (intro first_some_finds)
  then obtain y where y: "first_some f [1..17] = Some y" by blast
  obtain d0 k0 where "y = (d0, k0)" by (cases y)
  with y have f0: "first_some f [1..17] = Some (d0, k0)" by (simp only:)
  obtain n where n: "f n = Some (d0, k0)" using first_some_works [OF f0] by blast
  have "f_shortest x = strip_zeros 20 d0 k0"
  proof -
    have "f_shortest x = (case first_some f [1..17] of Some (d, k) \<Rightarrow> strip_zeros 20 d k | None \<Rightarrow> (0, 0))"
      unfolding f_shortest_def Let_def m_def [symmetric] e_def [symmetric] lo_def [symmetric] hi_def [symmetric] p(1) f_def option.case ..
    then show ?thesis unfolding f0 by (simp only: option.case prod.case)
  qed
  with fs have dec: "decimal d k = decimal d0 k0" by (intro strip_zeros_value) simp
  note sound = shortest_at_sound [OF n [unfolded f_def] order]
  have P2: "2 powi S = 4 * (2::real) powi e" by (simp add: S_def e_def power_int_diff)
  have bound: "scaled lo e \<le> decimal d k" "decimal d k \<le> scaled hi e"
    "odd m \<Longrightarrow> scaled lo e < decimal d k" "odd m \<Longrightarrow> decimal d k < scaled hi e"
    using sound unfolding dec by simp_all
  have hi: "scaled hi e = (real m + 1 / 2) * 2 powi S" unfolding hi_def P2 by (simp add: algebra_simps)
  have lo: "(real m - 1 / 2) * 2 powi S \<le> scaled lo e" "f_frac x = 0 \<and> 1 < f_exp x \<Longrightarrow> (real m - 1 / 4) * 2 powi S = scaled lo e"
    using m(1) unfolding lo_def P2 by (simp_all add: of_nat_diff algebra_simps)
  have "0 < scaled lo e" using m(1) by (simp add: lo_def)
  with bound(1) have "0 < decimal d k" by linarith
  then show "0 < d" by (cases d) simp_all
  have "f_frac x = 0 \<and> 1 < f_exp x" if "m = 2 ^ 52" "- 1074 < S"
    using that by (auto simp: m_def S_def f_mant_def f_scale_def f_frac_def split: if_splits)
  then show "rounds_to x (decimal d k)"
    using bound lo hi unfolding rounds_to_def m_def [symmetric] S_def [symmetric] by auto
qed

subsection \<open>Reading a decimal\<close>

lemma rounds_to_lt: "rounds_to x w \<Longrightarrow> w < 2 powi (f_scale x + 53)"
proof -
  assume "rounds_to x w"
  then have "w \<le> (real (f_mant x) + 1 / 2) * 2 powi f_scale x" by (simp add: rounds_to_def)
  also have "real (f_mant x) + 1 / 2 < 2 ^ 53" using f_mant_lt [of x] by simp
  then have "(real (f_mant x) + 1 / 2) * 2 powi f_scale x < 2 ^ 53 * 2 powi f_scale x" by (intro mult_strict_right_mono) simp_all
  also have "\<dots> = 2 powi (f_scale x + int 53)" by (simp add: power_int_add)
  finally show ?thesis by simp
qed

text \<open>Between two neighbours of a fine grid no midpoint lies.\<close>

lemma rounds_to_grid:
  assumes near: "rounds_to x w" and s: "2 - f_scale x \<le> int s"
    and w: "real q / 2 ^ s < w" "w < (real q + 1) / 2 ^ s" and v: "real q / 2 ^ s < v" "v < (real q + 1) / 2 ^ s"
  shows "rounds_to x v"
proof -
  define n where "n = nat (f_scale x - 2 + int s)"
  have "f_scale x = int n + 2 - int s" using s by (simp add: n_def)
  then have "(2::real) powi f_scale x = 2 powi (int n + 2) / 2 powi int s" by (simp add: power_int_diff)
  then have P: "2 powi f_scale x = 4 * 2 ^ n / (2 :: real) ^ s" by (simp add: power_int_add)
  have grid: "real_of_int c / 2 ^ s \<le> w \<Longrightarrow> real_of_int c / 2 ^ s < v" "w \<le> real_of_int c / 2 ^ s \<Longrightarrow> v < real_of_int c / 2 ^ s" for c
  proof -
    assume "real_of_int c / 2 ^ s \<le> w"
    with w(2) have "real_of_int c / 2 ^ s < (real q + 1) / 2 ^ s" by linarith
    then have "real_of_int c < real q + 1" by (simp add: divide_less_cancel)
    then have "real_of_int c < real_of_int (int q + 1)" by simp
    then have "c \<le> int q" unfolding of_int_less_iff by simp
    then have "real_of_int c \<le> real q" by (metis of_int_le_iff of_int_of_nat_eq)
    then have "real_of_int c / 2 ^ s \<le> real q / 2 ^ s" by (simp add: divide_right_mono)
    with v(1) show "real_of_int c / 2 ^ s < v" by linarith
  next
    assume "w \<le> real_of_int c / 2 ^ s"
    with w(1) have "real q / 2 ^ s < real_of_int c / 2 ^ s" by linarith
    then have "real q < real_of_int c" by (simp add: divide_less_cancel)
    then have "real_of_int (int q) < real_of_int c" by simp
    then have "int q + 1 \<le> c" unfolding of_int_less_iff by simp
    then have "real_of_int (int q + 1) \<le> real_of_int c" unfolding of_int_le_iff .
    then have "real q + 1 \<le> real_of_int c" by simp
    then have "(real q + 1) / 2 ^ s \<le> real_of_int c / 2 ^ s" by (simp add: divide_right_mono)
    with v(2) show "v < real_of_int c / 2 ^ s" by linarith
  qed
  let ?m = "f_mant x" and ?P = "(2::real) powi f_scale x"
  have c: "(real ?m - 1 / 2) * ?P = real_of_int ((4 * int ?m - 2) * 2 ^ n) / 2 ^ s"
    "(real ?m + 1 / 2) * ?P = real_of_int ((4 * int ?m + 2) * 2 ^ n) / 2 ^ s"
    "(real ?m - 1 / 4) * ?P = real_of_int ((4 * int ?m - 1) * 2 ^ n) / 2 ^ s"
    unfolding P by (simp_all add: algebra_simps)
  show ?thesis using near unfolding rounds_to_def c by (metis grid less_imp_le)
qed

lemma f_of_decimal_near:
  assumes fin: "f_finite x" and d: "0 < d" and near: "rounds_to x (decimal d e)"
  shows "f_of_decimal neg d e = f_signed neg (f_mag x)"
proof (cases "0 \<le> e")
  case True
  then have "decimal d e = scaled (d * 10 ^ nat e) 0" by (simp add: power_int_def)
  with near d fin have "f_round neg (d * 10 ^ nat e) 0 = f_signed neg (f_mag x)" by (intro f_round_interval) simp_all
  with True show ?thesis by (simp add: f_of_decimal_def)
next
  case False
  define p s where "p = (10::nat) ^ nat (- e)" and "s = floorlog 2 p + 66"
  define q r where "q = d * 2 ^ s div p" and "r = d * 2 ^ s mod p"
  define M where "M = 2 * q + (if r = 0 then 0 else 1)"
  have p: "0 < p" by (simp add: p_def)
  have W: "decimal d e = real d / real p" using False by (simp add: p_def power_int_def power_one_over)
  have "d * 2 ^ s = q * p + r" by (simp add: q_def r_def)
  then have "real (d * 2 ^ s) = real (q * p + r)" by (simp only:)
  then have qr: "real d * 2 ^ s = real q * real p + real r" by simp
  have rp: "r < p" using p by (simp add: r_def)
  have W': "decimal d e = (real q + real r / real p) / 2 ^ s"
    unfolding W using qr p by (simp add: field_simps)
  have V: "scaled M (- int (s + 1)) = (real q + (if r = 0 then 0 else 1 / 2)) / 2 ^ s"
  proof -
    have f: "(2::real) powi (- int (s + 1)) = 1 / 2 / 2 ^ s" unfolding power_int_minus power_int_of_nat by (simp add: inverse_eq_divide)
    show ?thesis unfolding f M_def by (cases "r = 0") (simp_all add: add_divide_distrib)
  qed
  have "rounds_to x (scaled M (- int (s + 1)))"
  proof (cases "r = 0")
    case True
    with near show ?thesis unfolding V W' by simp
  next
    case r: False
    have fr: "0 < real r / real p" "real r / real p < 1" using r rp by simp_all
    have "2 - f_scale x \<le> int s"
    proof -
      have "p < 2 ^ floorlog 2 p" using floorlog_bounds [of p 2] p by simp
      then have "real p < 2 ^ floorlog 2 p" by (metis of_nat_less_iff of_nat_numeral of_nat_power)
      then have "1 / 2 ^ floorlog 2 p < 1 / real p" using p by (intro divide_strict_left_mono) simp_all
      also have "\<dots> \<le> decimal d e" unfolding W using d by (intro divide_right_mono) simp_all
      also have "\<dots> < 2 powi (f_scale x + 53)" by (rule rounds_to_lt [OF near])
      finally have "(2::real) powi (- int (floorlog 2 p)) < 2 powi (f_scale x + 53)" by (simp add: power_int_minus divide_inverse)
      then show ?thesis by (simp add: powi_less s_def)
    qed
    then show ?thesis
    proof (rule rounds_to_grid [OF near])
      show "real q / 2 ^ s < decimal d e" "decimal d e < (real q + 1) / 2 ^ s" unfolding W' using fr by (simp_all add: divide_strict_right_mono)
      show "real q / 2 ^ s < scaled M (- int (s + 1))" "scaled M (- int (s + 1)) < (real q + 1) / 2 ^ s"
        unfolding V using r by (simp_all add: divide_strict_right_mono)
    qed
  qed
  moreover have "0 < M"
  proof (rule ccontr)
    assume "\<not> 0 < M"
    then have "q = 0" "r = 0" by (auto simp: M_def split: if_splits)
    with qr d show False by simp
  qed
  ultimately have "f_round neg M (- int (s + 1)) = f_signed neg (f_mag x)" using fin by (intro f_round_interval)
  then show ?thesis using False unfolding f_of_decimal_def Let_def p_def [symmetric] s_def [symmetric] q_def [symmetric] r_def [symmetric] M_def
    by simp
qed

end
