(* ===== verification/Time_Text.thy ===== *)
theory Time_Text
  imports Lease_Text Json_Parse
begin

text \<open>
  Times as text, read back: every time RFC 3339 can express (the years 0 to 9999, in nanoseconds) is
  written so that reading gives the same time. The calendar first, then the fields of the text.
\<close>

subsection \<open>The calendar\<close>

lemma ceil_div: "(y + (d - 1)) div d = y div d + (if y mod d = 0 then 0 else 1)" if "0 < d" for y d :: nat
proof -
  have "(d * q + r) div d = q + r div d" for q r using that by simp
  then have "(d * (y div d) + (y mod d + (d - 1))) div d = y div d + (y mod d + (d - 1)) div d" .
  moreover have "d * (y div d) + (y mod d + (d - 1)) = y + (d - 1)" by (simp only: add.assoc [symmetric] mult_div_mod_eq)
  moreover have "(y mod d + (d - 1)) div d = (if y mod d = 0 then 0 else 1)"
  proof (cases "y mod d = 0")
    case False
    then have "y mod d + (d - 1) = (y mod d - 1) + d" using that by simp
    moreover have "y mod d - 1 < d" using mod_less_divisor [OF that, of y] by linarith
    then have "(y mod d - 1 + d) div d = 1" using that by simp
    ultimately show ?thesis using False by (simp only: if_False)
  qed (use that in simp)
  ultimately show ?thesis by simp
qed

lemma ceil_div_Suc: "(Suc y + (d - 1)) div d = (y + (d - 1)) div d + (if y mod d = 0 then 1 else 0)" if "0 < d" for y d :: nat
proof -
  have "Suc y + (d - 1) = y + d" using that by simp
  then show ?thesis using ceil_div [OF that, of y] that by simp
qed

lemma centuries_le: "(y + 99) div 100 \<le> (y + 3) div (4::nat)"
proof -
  have "100 * ((y + 99) div 100) \<le> y + 99" by (rule times_div_less_eq_dividend)
  moreover have "y + 3 < 4 * ((y + 3) div 4) + 4"
    using mult_div_mod_eq [of 4 "y + 3"] mod_less_divisor [of 4 "y + 3"] by linarith
  ultimately show ?thesis by linarith
qed

lemma days_before_year_Suc: "days_before_year (Suc y) = days_before_year y + (if leap y then 366 else 365)"
proof -
  have "y mod 400 = 0 \<Longrightarrow> y mod 100 = 0" "y mod 100 = 0 \<Longrightarrow> y mod 4 = 0"
    using dvd_trans [of 100 400 y] dvd_trans [of 4 100 y] by (simp_all add: dvd_eq_mod_eq_0)
  moreover have "(Suc y + 3) div 4 = (y + 3) div 4 + (if y mod 4 = 0 then 1 else 0)"
    "(Suc y + 99) div 100 = (y + 99) div 100 + (if y mod 100 = 0 then 1 else 0)"
    "(Suc y + 399) div 400 = (y + 399) div 400 + (if y mod 400 = 0 then 1 else 0)"
    using ceil_div_Suc [of 4 y] ceil_div_Suc [of 100 y] ceil_div_Suc [of 400 y] by simp_all
  moreover have "365 * Suc y + (a + (if p then 1 else 0)) - (b + (if q then 1 else 0)) + (c + (if r then 1 else 0)) =
      365 * y + a - b + c + (if p \<and> (\<not> q \<or> r) then 366 else 365)"
    if "b \<le> a" "r \<Longrightarrow> q" "q \<Longrightarrow> p" for p q r and a b c :: nat
    using that by (cases p; cases q; cases r) simp_all
  ultimately show ?thesis
    using centuries_le [of y] by (simp only: days_before_year_def leap_def)
qed

lemma days_before_year_mono: "y \<le> z \<Longrightarrow> days_before_year y \<le> days_before_year z"
  by (induction z) (auto simp: days_before_year_Suc le_Suc_eq)

lemma days_before_year_ge: "365 * y \<le> days_before_year y"
  using centuries_le [of y] by (simp add: days_before_year_def)

lemma last_such_works:
  assumes "P 0" and "\<not> P (Suc n)"
  shows "P (last_such P n)" "\<not> P (Suc (last_such P n))"
proof -
  have "P (last_such P n) \<and> (\<forall>k\<le>n. last_such P n < k \<longrightarrow> \<not> P k) \<and> last_such P n \<le> n"
  proof (induction n)
    case (Suc n)
    then show ?case by (auto simp: le_Suc_eq)
  qed (use assms(1) in simp)
  then have l: "P (last_such P n)" "\<And>k. k \<le> n \<Longrightarrow> last_such P n < k \<Longrightarrow> \<not> P k" "last_such P n \<le> n" by auto
  show "P (last_such P n)" by (rule l(1))
  show "\<not> P (Suc (last_such P n))"
  proof (cases "last_such P n = n")
    case True
    with assms(2) show ?thesis by simp
  next
    case False
    with l(3) have "Suc (last_such P n) \<le> n" by simp
    from l(2) [OF this] show ?thesis by simp
  qed
qed

lemma last_such_le: "last_such P n \<le> n"
  by (induction n) (auto simp: le_SucI)

lemma year_of_works:
  "days_before_year (year_of n) \<le> n" "n < days_before_year (Suc (year_of n))"
proof -
  let ?P = "\<lambda>y. days_before_year y \<le> n"
  have "n < 365 * Suc (n div 365)" using mult_div_mod_eq [of 365 n] mod_less_divisor [of 365 n] by simp
  then have "\<not> ?P (Suc (n div 365))" using days_before_year_ge [of "Suc (n div 365)"] by linarith
  moreover have "?P 0" by (simp add: days_before_year_def)
  ultimately have "?P (year_of n)" "\<not> ?P (Suc (year_of n))"
    unfolding year_of_def by (intro last_such_works [of ?P]; blast)+
  then show "days_before_year (year_of n) \<le> n" "n < days_before_year (Suc (year_of n))" by simp_all
qed

lemma length_month_days [simp]: "length (month_days y) = 12"
  by (simp add: month_days_def)

lemma days_before_month_Suc:
  "m < 12 \<Longrightarrow> days_before_month y (Suc m + 1) = days_before_month y (m + 1) + month_days y ! m"
  by (simp add: days_before_month_def take_Suc_conv_app_nth)

lemma days_before_month_mono: "i \<le> j \<Longrightarrow> days_before_month y i \<le> days_before_month y j"
proof -
  assume "i \<le> j"
  then obtain t where "take (j - 1) (month_days y) = take (i - 1) (month_days y) @ t"
    by (metis append_take_drop_id diff_le_mono min.absorb1 take_take)
  then show ?thesis by (simp add: days_before_month_def)
qed

lemma days_in_year: "days_before_month y 13 = (if leap y then 366 else 365)"
  by (simp add: days_before_month_def month_days_def)

lemma days_before_month_1 [simp]: "days_before_month y (Suc 0) = 0"
  by (simp add: days_before_month_def)

lemma month_days_le: "m < 12 \<Longrightarrow> month_days y ! m \<le> 31"
  by (simp add: month_days_def nth_Cons split: nat.split)

lemma date_round:
  assumes "date_of n = (y, m, d)"
  shows "date_days y m d = n" "1 \<le> m" "m \<le> 12" "1 \<le> d" "d \<le> month_days y ! (m - 1)" "d \<le> 31"
proof -
  let ?r = "n - days_before_year y"
  let ?P = "\<lambda>k. days_before_month y (k + 1) \<le> ?r"
  have y: "y = year_of n" using assms by (simp add: date_of_def Let_def)
  have r: "days_before_year y + ?r = n" "?r < days_before_month y 13"
    using year_of_works [of n] unfolding y days_in_year days_before_year_Suc by auto
  define r k where "r = n - days_before_year y" and "k = last_such ?P 11"
  have "?P 0" by simp
  moreover have "\<not> ?P (Suc 11)" using r(2) by simp
  ultimately have k: "days_before_month y (k + 1) \<le> r" "r < days_before_month y (Suc k + 1)"
    using last_such_works [of ?P 11] unfolding k_def r_def by simp_all
  have k12: "k < 12" using last_such_le [of ?P 11] by (simp add: k_def)
  have md: "m = k + 1" "d = r - days_before_month y (k + 1) + 1"
    using assms unfolding date_of_def Let_def y [symmetric] k_def r_def by auto
  have d: "d \<le> month_days y ! k" using k days_before_month_Suc [OF k12, of y] unfolding md(2) by linarith
  with md k12 show "1 \<le> m" "m \<le> 12" "1 \<le> d" "d \<le> month_days y ! (m - 1)" by simp_all
  show "d \<le> 31" using d month_days_le [OF k12, of y] by simp
  show "date_days y m d = n" using k(1) r(1) unfolding md date_days_def r_def [symmetric] by simp
qed

subsection \<open>The fields\<close>

lemma nat_dec_length: "0 < k \<Longrightarrow> n < 10 ^ k \<Longrightarrow> length (nat_dec n) \<le> k"
proof (induction k arbitrary: n)
  case (Suc k)
  show ?case
  proof (cases "n < 10")
    case True
    then show ?thesis by (subst nat_dec.simps) simp
  next
    case False
    with Suc.prems have "0 < k" "n div 10 < 10 ^ k" by (cases k; simp)+
    from Suc.IH [OF this] False show ?thesis by (subst nat_dec.simps) simp
  qed
qed simp

lemma pad_length: "0 < w \<Longrightarrow> n < 10 ^ w \<Longrightarrow> length (pad w n) = w"
  using nat_dec_length [of w n] by (simp add: pad_def Let_def)

lemma is_digit_zero [simp]: "is_digit (CHR ''0'')"
  by (simp add: is_digit_def in_range_def)

lemma pad_digits: "list_all is_digit (pad w n)"
  using nat_dec_is_digits [of n] by (auto simp: pad_def Let_def list_all_iff)

lemma parse_zeros: "parse_digits 0 (replicate k (CHR ''0'') @ s) = parse_digits 0 s"
  by (induction k) simp_all

lemma parse_pad: "0 < w \<Longrightarrow> parse_nat (pad w n) = Some n"
  by (simp add: pad_def Let_def parse_nat_def parse_zeros parse_digits_nat_dec)

lemma fixed_pad: "0 < w \<Longrightarrow> n < 10 ^ w \<Longrightarrow> fixed_number w (pad w n @ s) = Some (n, s)"
  using pad_length [of w n] pad_digits [of w n] parse_pad [of w n] by (simp add: fixed_number_def)

lemma field_pad:
  "0 < w \<Longrightarrow> n < 10 ^ w \<Longrightarrow> lo \<le> n \<Longrightarrow> n \<le> hi \<Longrightarrow> field w lo hi (Some c) (pad w n @ c # s) = Some (n, s)"
  "0 < w \<Longrightarrow> n < 10 ^ w \<Longrightarrow> lo \<le> n \<Longrightarrow> n \<le> hi \<Longrightarrow> field w lo hi None (pad w n @ s) = Some (n, s)"
  by (simp_all add: field_def fixed_pad read_char_def)

lemma trailing_zeros: "s = rev (dropWhile (\<lambda>c. c = z) (rev s)) @ replicate (length (takeWhile (\<lambda>c. c = z) (rev s))) z"
proof -
  have "takeWhile (\<lambda>c. c = z) xs = replicate (length (takeWhile (\<lambda>c. c = z) xs)) z" for xs
    by (induction xs) auto
  then show ?thesis by (metis rev_append rev_replicate rev_rev_ident takeWhile_dropWhile_id)
qed

lemma read_fraction_text:
  assumes "ns < 1000000000"
  shows "read_fraction (fraction ns @ ''Z'') = Some (ns, ''Z'')"
proof (cases "ns = 0")
  case True
  then show ?thesis by (simp add: fraction_digits_def read_fraction_def read_char_def)
next
  case False
  let ?z = "\<lambda>c. c = CHR ''0''" and ?p = "pad 9 ns"
  define ds where "ds = rev (dropWhile ?z (rev ?p))"
  obtain k where p: "?p = ds @ replicate k (CHR ''0'')" using trailing_zeros [of ?p "CHR ''0''"] unfolding ds_def by blast
  have parse: "parse_nat ?p = Some ns" by (rule parse_pad) simp
  have "ds \<noteq> []"
  proof
    assume "ds = []"
    with p have "parse_digits 0 ?p = Some 0" using parse_zeros [of k "[]"] by simp
    with parse False show False by (simp add: parse_nat_def split: if_splits)
  qed
  have len: "length ?p = 9" by (rule pad_length) (use assms in simp_all)
  then have "k \<le> 9" "length ds = 9 - k" unfolding p by simp_all
  then have take9: "take 9 (ds @ replicate 9 (CHR ''0'')) = ?p" by (simp add: p)
  have "list_all is_digit ds" using pad_digits [of 9 ns] unfolding p by simp
  moreover have "\<not> is_digit (CHR ''Z'')" by (simp add: is_digit_def in_range_def)
  ultimately have "takeWhile is_digit (ds @ ''Z'') = ds" "dropWhile is_digit (ds @ ''Z'') = ''Z''"
    by (simp_all add: list_all_iff takeWhile_append2 dropWhile_append2)
  moreover have "fraction ns = CHR ''.'' # ds" using False by (simp add: fraction_digits_def ds_def)
  ultimately show ?thesis using \<open>ds \<noteq> []\<close> take9 parse by (simp add: read_fraction_def read_char_def)
qed

subsection \<open>The round trip\<close>

lemma rfc3339_round:
  assumes "rfc3339 t = Some s"
  shows "parse_rfc3339 s = Some t"
proof -
  define n where "n = t + 366 * day_ns"
  define days ns where "days = nat (n div day_ns)" and "ns = nat (n mod day_ns)"
  define secs where "secs = ns div 1000000000"
  obtain y m d where date: "date_of days = (y, m, d)" by (metis prod_cases3)
  have n: "0 \<le> n" "y \<le> 9999" and s: "s = pad 4 y @ CHR ''-'' # pad 2 m @ CHR ''-'' # pad 2 d @ CHR ''T'' #
      pad 2 (secs div 3600) @ CHR '':'' # pad 2 (secs div 60 mod 60) @ CHR '':'' # pad 2 (secs mod 60) @
      fraction (ns mod 1000000000) @ ''Z''"
    using assms date unfolding rfc3339_def Let_def n_def [symmetric] days_def [symmetric] ns_def [symmetric] secs_def [symmetric]
    by (auto split: if_splits)
  have day: "day_ns = 86400000000000" by (simp add: day_ns_def go_second_def)
  then have "int ns < 86400000000000" unfolding ns_def by simp
  then have "secs < 86400" unfolding secs_def by linarith
  then have h: "secs div 3600 < 24" by linarith
  note dr = date_round [OF date]
  have two: "m < 10 ^ 2" "d < 10 ^ 2" "secs div 3600 < 10 ^ 2" "secs div 60 mod 60 < 10 ^ 2" "secs mod 60 < 10 ^ 2"
    using dr h by simp_all
  have "parse_rfc3339 s = Some ((int days - 366) * day_ns +
      int (secs div 3600 * 3600 + secs div 60 mod 60 * 60 + secs mod 60) * go_second + int (ns mod 1000000000))"
    unfolding parse_rfc3339_def s using n(2) dr h two
    by (simp add: field_pad read_fraction_text read_zone_def)
  also have "secs div 3600 * 3600 + secs div 60 mod 60 * 60 + secs mod 60 = secs"
  proof -
    have "secs div 3600 = secs div 60 div 60" by (simp add: div_mult2_eq [symmetric])
    then show ?thesis using mult_div_mod_eq [of 60 "secs div 60"] mult_div_mod_eq [of 60 secs] by linarith
  qed
  also have "(int days - 366) * day_ns + int secs * go_second + int (ns mod 1000000000) = t"
  proof -
    have "int days = n div day_ns" "int ns = n mod day_ns" using n(1) by (simp_all add: days_def ns_def day)
    then have "int days * day_ns + int ns = n" by simp
    moreover have "int secs * go_second + int (ns mod 1000000000) = int ns"
      unfolding secs_def go_second_def using div_mult_mod_eq [of "int ns" 1000000000] by (simp add: zdiv_int zmod_int)
    ultimately show ?thesis by (simp add: n_def left_diff_distrib)
  qed
  finally show ?thesis .
qed

subsection \<open>Times are ASCII\<close>

definition ascii_text :: "string \<Rightarrow> bool" where
  "ascii_text s \<longleftrightarrow> list_all (\<lambda>c. (of_char c :: nat) < 128) s"

lemma digits_ascii: "list_all is_digit s \<Longrightarrow> ascii_text s"
  by (auto simp: ascii_text_def list_all_iff is_digit_def in_range_def)

lemma fraction_ascii: "ascii_text (fraction_digits w n)"
proof -
  have "ascii_text (pad w n)" by (rule digits_ascii [OF pad_digits])
  then show ?thesis
    by (auto simp: fraction_digits_def ascii_text_def list_all_iff dest: set_dropWhileD)
qed

lemma rfc3339_utf8: "rfc3339 t = Some s \<Longrightarrow> utf8 s"
proof -
  assume "rfc3339 t = Some s"
  moreover have "ascii_text (pad w n)" for w n by (rule digits_ascii [OF pad_digits])
  ultimately have "ascii_text s"
    using fraction_ascii by (auto simp: rfc3339_def Let_def ascii_text_def split: if_splits prod.splits)
  then show ?thesis by (intro utf8_ascii) (simp add: ascii_text_def)
qed

end
