(* ===== verification/Float_Text.thy ===== *)
theory Float_Text
  imports Float_Round Time_Text
begin

text \<open>
  The text of a float: it is a JSON number, and reading it gives the float back, for every finite
  float. With the times of \<open>Time_Text\<close> this makes the JSON of a lease read back as the lease.
\<close>

subsection \<open>The shape of a number\<close>

definition frac_part :: "string \<Rightarrow> bool" where
  "frac_part f \<longleftrightarrow> f = [] \<or> (hd f = CHR ''.'' \<and> tl f \<noteq> [] \<and> list_all is_digit (tl f))"

definition exp_part :: "string \<Rightarrow> int \<Rightarrow> bool" where
  "exp_part x e \<longleftrightarrow>
     x = [] \<and> e = 0 \<or>
     (\<exists>c. (c = CHR ''+'' \<and> 0 \<le> e \<or> c = CHR ''-'' \<and> e \<le> 0) \<and> x = CHR ''e'' # c # nat_dec (nat \<bar>e\<bar>))"

lemma not_digits: "\<not> is_digit (CHR ''.'')" "\<not> is_digit (CHR ''e'')" "\<not> is_digit (CHR ''-'')" "\<not> is_digit (CHR ''+'')"
  by (simp_all add: is_digit_def in_range_def)

lemma digits_then:
  assumes "list_all is_digit ds" and "z = [] \<or> \<not> is_digit (hd z)"
  shows "takeWhile is_digit (ds @ z) = ds" "dropWhile is_digit (ds @ z) = z"
  using assms by (induction ds; cases z; simp)+

lemma digits_only: "list_all is_digit ds \<Longrightarrow> takeWhile is_digit ds = ds" "list_all is_digit ds \<Longrightarrow> dropWhile is_digit ds = []"
  using digits_then [of ds "[]"] by simp_all

lemma exp_part_head: "exp_part x e \<Longrightarrow> x = [] \<or> hd x = CHR ''e''"
  by (auto simp: exp_part_def)

lemma read_frac_part:
  assumes "frac_part f" "exp_part x e"
  shows "read_frac (f @ x) = Some (f, x)"
proof -
  have x: "x = [] \<or> \<not> is_digit (hd x)" "x = [] \<or> hd x \<noteq> CHR ''.''"
    using exp_part_head [OF assms(2)] not_digits by auto
  show ?thesis
  proof (cases f)
    case Nil
    with x(2) show ?thesis by (cases x) (simp_all add: read_frac_def)
  next
    case (Cons c t)
    with assms(1) have t: "c = CHR ''.''" "t \<noteq> []" "list_all is_digit t" by (simp_all add: frac_part_def)
    show ?thesis using digits_then [OF t(3) x(1)] t by (simp add: read_frac_def Cons)
  qed
qed

lemma nat_dec_digits_only: "takeWhile is_digit (nat_dec n) = nat_dec n" "dropWhile is_digit (nat_dec n) = []"
  by (rule digits_only [OF nat_dec_is_digits])+

lemma read_exp_part: "exp_part x e \<Longrightarrow> read_exp x = Some (x, [])"
  by (auto simp: exp_part_def read_exp_def exp_sign_def Let_def nat_dec_digits_only)

lemma exp_part_value:
  assumes "exp_part x e"
  shows "(case parse_nat (drop (exp_sign (drop 1 x)) (drop 1 x)) of None \<Rightarrow> 0
     | Some n \<Rightarrow> if drop 1 x \<noteq> [] \<and> hd (drop 1 x) = CHR ''-'' then - int n else int n) = e"
  using assms by (auto simp: exp_part_def exp_sign_def parse_nat_def [of "[]"])

lemma int_part_stops:
  assumes "frac_part f" "exp_part x e"
  shows "f @ x = [] \<or> \<not> is_digit (hd (f @ x))"
proof (cases f)
  case Nil
  then show ?thesis using exp_part_head [OF assms(2)] not_digits by auto
next
  case Cons
  then show ?thesis using assms(1) not_digits by (auto simp: frac_part_def)
qed

text \<open>The sign is a parameter: it is written before, and read first.\<close>

definition sign_text :: "bool \<Rightarrow> string" where
  "sign_text neg = (if neg then ''-'' else [])"

lemma number_text:
  assumes ip: "ip \<noteq> []" "list_all is_digit ip" "hd ip = CHR ''0'' \<longrightarrow> tl ip = []" and f: "frac_part f" and x: "exp_part x e"
  shows "is_number (sign_text neg @ ip @ f @ x)"
proof -
  note whole = digits_then [OF ip(2) int_part_stops [OF f x]]
  have len: "(if hd ip = CHR ''0'' then 1 else length ip) = length ip" using ip(1,3) by (cases ip) auto
  have "read_unsigned (ip @ f @ x) = Some (ip @ f @ x, [])"
    using ip(1) by (simp add: read_unsigned_def whole Let_def len read_frac_part [OF f x] read_exp_part [OF x])
  moreover have "hd (ip @ f @ x) \<noteq> CHR ''-''" using ip(1,2) not_digits by (cases ip) auto
  ultimately show ?thesis using ip(1) by (simp add: is_number_def read_number_def sign_text_def)
qed

lemma parse_float_text:
  assumes ip: "ip \<noteq> []" "list_all is_digit ip" and f: "frac_part f" and x: "exp_part x e"
    and d: "parse_nat (ip @ drop 1 f) = Some d" and fin: "f_finite (f_of_decimal neg d (e - int (length (drop 1 f))))"
  shows "parse_float (sign_text neg @ ip @ f @ x) = Some (f_of_decimal neg d (e - int (length (drop 1 f))))"
proof -
  have neg: "hd (ip @ f @ x) \<noteq> CHR ''-''" using ip not_digits by (cases ip) auto
  have body: "Option.bind (read_frac (f @ x)) (\<lambda>(f, r).
         Option.bind (parse_nat (ip @ drop 1 f)) (\<lambda>d.
         let ex = drop 1 r; eneg = (ex \<noteq> [] \<and> hd ex = CHR ''-'');
             e = (case parse_nat (drop (exp_sign ex) ex) of None \<Rightarrow> 0 | Some n \<Rightarrow> if eneg then - int n else int n);
             x = f_of_decimal neg d (e - int (length (drop 1 f)))
         in if f_finite x then Some x else None)) = Some (f_of_decimal neg d (e - int (length (drop 1 f))))"
    using fin d unfolding read_frac_part [OF f x] Let_def by (simp add: exp_part_value [OF x, simplified])
  note whole = digits_then [OF ip(2) int_part_stops [OF f x]]
  have u: "sign_text neg @ ip @ f @ x \<noteq> [] \<and> hd (sign_text neg @ ip @ f @ x) = CHR ''-'' \<longleftrightarrow> neg"
    "(if neg then tl (sign_text neg @ ip @ f @ x) else sign_text neg @ ip @ f @ x) = ip @ f @ x"
    using neg ip(1) by (auto simp: sign_text_def)
  show ?thesis unfolding parse_float_def Let_def u whole using body unfolding Let_def .
qed

subsection \<open>The text of a float\<close>

lemma parse_digits_append_some: "parse_digits a s = Some b \<Longrightarrow> parse_digits a (s @ t) = parse_digits b t"
  by (simp add: parse_digits_append)

lemma parse_digits_zeros: "parse_digits a (zeros n) = Some (a * 10 ^ nat n)"
proof -
  have "parse_digits a (replicate k (CHR ''0'')) = Some (a * 10 ^ k)" for k
    by (induction k arbitrary: a) (simp_all add: algebra_simps)
  then show ?thesis by (simp add: zeros_def)
qed

lemma zeros_digits: "list_all is_digit (zeros n)"
  by (simp add: zeros_def list_all_iff)

lemma signed_text:
  assumes fin: "f_finite x"
    and ip: "ip \<noteq> []" "list_all is_digit ip" "hd ip = CHR ''0'' \<longrightarrow> tl ip = []" and f: "frac_part f" and e: "exp_part z e"
    and D: "parse_nat (ip @ drop 1 f) = Some D" "0 < D" and near: "rounds_to x (decimal D (e - int (length (drop 1 f))))"
  shows "is_number (sign_text (f_neg x) @ ip @ f @ z) \<and> parse_float (sign_text (f_neg x) @ ip @ f @ z) = Some x"
proof -
  have "f_of_decimal (f_neg x) D (e - int (length (drop 1 f))) = x"
    using f_of_decimal_near [OF fin D(2) near, of "f_neg x"] by (simp add: f_signed_mag)
  then show ?thesis using number_text [OF ip f e] parse_float_text [OF ip(1,2) f e D(1), of "f_neg x"] fin by simp
qed

lemma float_text:
  assumes fin: "f_finite x"
  shows "\<exists>t. json_float x = Some t \<and> is_number t \<and> parse_float t = Some x"
proof (cases "f_mag x = 0")
  case True
  have nan: "parse_nat ''0'' = Some 0" by (simp add: parse_nat_def)
  have zero: "f_of_decimal (f_neg x) 0 0 = x" using True f_signed_mag [of x] by (simp add: f_of_decimal_def f_round_def)
  have "exp_part [] 0" "frac_part []" by (simp_all add: exp_part_def frac_part_def)
  with number_text [of "''0''" "[]" "[]" 0 "f_neg x"] parse_float_text [of "''0''" "[]" "[]" 0 0 "f_neg x"] zero nan fin
  have "is_number (sign_text (f_neg x) @ ''0'')" "parse_float (sign_text (f_neg x) @ ''0'') = Some x" by simp_all
  moreover have "json_float x = Some (sign_text (f_neg x) @ ''0'')" using fin True by (simp add: json_float_def sign_text_def)
  ultimately show ?thesis by blast
next
  case False
  obtain d k where fs: "f_shortest x = (d, k)" by (cases "f_shortest x")
  have "0 < f_mant x" using False by (auto simp: f_mag_fields f_mant_def f_scale_def split: if_splits)
  note near = f_shortest_near [OF fin this fs]
  define ds n where "ds = nat_dec d" and "n = int (length ds) + k"
  have ds: "ds \<noteq> []" "list_all is_digit ds" "hd ds \<noteq> CHR ''0''" "parse_digits 0 ds = Some d"
    using nat_dec_is_digits nat_dec_no_leading_zero [of d] near(2) by (auto simp: ds_def parse_digits_nat_dec)
  have shape: "json_float x = Some (sign_text (f_neg x) @
      (if n < - 5 \<or> 21 < n
       then take 1 ds @ (if length ds = 1 then [] else ''.'' @ drop 1 ds) @ (if n - 1 < 0 then ''e-'' else ''e+'') @ nat_dec (nat \<bar>n - 1\<bar>)
       else if 0 \<le> k then ds @ zeros k
       else if 0 < n then take (nat n) ds @ ''.'' @ drop (nat n) ds
       else ''0.'' @ zeros (- n) @ ds))"
    using fin False unfolding json_float_def Let_def fs ds_def n_def sign_text_def by simp
  have sub: "list_all is_digit (take j ds)" "list_all is_digit (drop j ds)" for j
    using ds(2) by (auto simp: list_all_iff dest: in_set_takeD in_set_dropD)
  consider (sci) "n < - 5 \<or> 21 < n" | (whole) "\<not> (n < - 5 \<or> 21 < n)" "0 \<le> k"
    | (split) "\<not> (n < - 5 \<or> 21 < n)" "k < 0" "0 < n" | (small) "\<not> (n < - 5 \<or> 21 < n)" "k < 0" "n \<le> 0" by linarith
  then show ?thesis
  proof cases
    case sci
    let ?f = "if length ds = 1 then [] else ''.'' @ drop 1 ds"
    let ?z = "(if n - 1 < 0 then ''e-'' else ''e+'') @ nat_dec (nat \<bar>n - 1\<bar>)"
    have len: "length ds \<noteq> 1 \<longrightarrow> drop 1 ds \<noteq> []" using ds(1) by (cases ds) auto
    have "is_number (sign_text (f_neg x) @ take 1 ds @ ?f @ ?z) \<and> parse_float (sign_text (f_neg x) @ take 1 ds @ ?f @ ?z) = Some x"
    proof (rule signed_text [OF fin, where e = "n - 1" and D = d])
      show "take 1 ds \<noteq> []" "hd (take 1 ds) = CHR ''0'' \<longrightarrow> tl (take 1 ds) = []" using ds(1,3) by simp_all
      show "frac_part ?f" using sub(2) [of 1] len by (simp add: frac_part_def)
      show "exp_part ?z (n - 1)" by (simp add: exp_part_def)
      have all: "take 1 ds @ drop 1 ?f = ds" using ds(1) by (cases ds) auto
      then show "parse_nat (take 1 ds @ drop 1 ?f) = Some d" using ds by (simp add: parse_nat_def)
      have "int (length (drop 1 ?f)) = int (length ds) - 1" using ds(1) by (cases ds) auto
      then show "rounds_to x (decimal d (n - 1 - int (length (drop 1 ?f))))" using near(1) by (simp add: n_def)
    qed (use sub near in simp_all)
    then show ?thesis using sci shape by simp
  next
    case whole
    have "is_number (sign_text (f_neg x) @ (ds @ zeros k) @ [] @ []) \<and> parse_float (sign_text (f_neg x) @ (ds @ zeros k) @ [] @ []) = Some x"
    proof (rule signed_text [OF fin, where e = 0 and D = "d * 10 ^ nat k"])
      show "parse_nat ((ds @ zeros k) @ drop 1 []) = Some (d * 10 ^ nat k)"
        using ds by (simp add: parse_nat_def parse_digits_append_some [OF ds(4)] parse_digits_zeros)
      have eq: "real d * 10 ^ nat k = decimal d k" using whole by (simp add: power_int_def)
      show "rounds_to x (decimal (d * 10 ^ nat k) (0 - int (length (drop 1 []))))" using near(1) by (simp add: eq)
    qed (use ds near zeros_digits in \<open>simp_all add: frac_part_def exp_part_def\<close>)
    then show ?thesis using whole shape by simp
  next
    case split
    then have n: "0 < nat n" "nat n < length ds" by (simp_all add: n_def)
    have "is_number (sign_text (f_neg x) @ take (nat n) ds @ (''.'' @ drop (nat n) ds) @ []) \<and>
      parse_float (sign_text (f_neg x) @ take (nat n) ds @ (''.'' @ drop (nat n) ds) @ []) = Some x"
    proof (rule signed_text [OF fin, where e = 0 and D = d])
      show "take (nat n) ds \<noteq> []" "hd (take (nat n) ds) = CHR ''0'' \<longrightarrow> tl (take (nat n) ds) = []" using ds(1,3) n by simp_all
      show "frac_part (''.'' @ drop (nat n) ds)" using sub(2) n by (simp add: frac_part_def)
      show "parse_nat (take (nat n) ds @ drop 1 (''.'' @ drop (nat n) ds)) = Some d" using ds by (simp add: parse_nat_def)
      have "0 - int (length (drop 1 (''.'' @ drop (nat n) ds))) = k" using n split by (simp add: n_def)
      then show "rounds_to x (decimal d (0 - int (length (drop 1 (''.'' @ drop (nat n) ds)))))" using near(1) by simp
    qed (use sub near in \<open>simp_all add: exp_part_def\<close>)
    then show ?thesis using split shape by simp
  next
    case small
    have "is_number (sign_text (f_neg x) @ ''0'' @ (''.'' @ zeros (- n) @ ds) @ []) \<and>
      parse_float (sign_text (f_neg x) @ ''0'' @ (''.'' @ zeros (- n) @ ds) @ []) = Some x"
    proof (rule signed_text [OF fin, where e = 0 and D = d])
      show "frac_part (''.'' @ zeros (- n) @ ds)" using ds zeros_digits by (simp add: frac_part_def)
      show "parse_nat (''0'' @ drop 1 (''.'' @ zeros (- n) @ ds)) = Some d"
        using ds(4) by (simp add: parse_nat_def zeros_def parse_zeros)
      have "0 - int (length (drop 1 (''.'' @ zeros (- n) @ ds))) = k" using small by (simp add: n_def zeros_def)
      then show "rounds_to x (decimal d (0 - int (length (drop 1 (''.'' @ zeros (- n) @ ds)))))" using near(1) by simp
    qed (use near in \<open>simp_all add: exp_part_def\<close>)
    then show ?thesis using small shape by simp
  qed
qed

end
