(* ===== verification/Lease_Codec.thy ===== *)
theory Lease_Codec
  imports Lease_Store Float_Text
begin

text \<open>
  The lease store's ConfigMap as text (backends/kubernetes/leases.go, lines 131 to 158): a map of leases
  that was saved is loaded as it was, and saving fails only on a lease that has no JSON. This is why
  \<open>Lease_Pool\<close> may speak of decoded leases.
\<close>

definition utf8_lease :: "Lease \<Rightarrow> bool" where
  "utf8_lease l \<longleftrightarrow> utf8 (lease_ID l) \<and> utf8 (lease_NodePool l) \<and> utf8 (lease_OwnerWorkflow l)"

text \<open>A float that is a number and a time up to the year 9999.\<close>

definition writable_lease :: "Lease \<Rightarrow> bool" where
  "writable_lease l \<longleftrightarrow> f_finite (lease_CPU l) \<and> rfc3339 (lease_ExpiresAt l) \<noteq> None"

lemma lease_json_fails: "lease_json l = None \<longleftrightarrow> \<not> writable_lease l"
  using float_text [of "lease_CPU l"]
  by (auto simp: lease_json_def writable_lease_def json_float_def [of "lease_CPU l"])

lemma lease_round:
  assumes "lease_json l = Some raw" and "utf8_lease l"
  shows "unmarshal_lease raw = Some l"
proof -
  have fin: "f_finite (lease_CPU l)" using assms(1) lease_json_fails [of l] by (simp add: writable_lease_def)
  obtain cpu where cpu: "json_float (lease_CPU l) = Some cpu" "is_number cpu" "parse_float cpu = Some (lease_CPU l)"
    using float_text [OF fin] by blast
  obtain t where t: "rfc3339 (lease_ExpiresAt l) = Some t"
    using assms(1) lease_json_fails [of l] by (auto simp: writable_lease_def)
  let ?j = "JObj [(''id'', JStr (lease_ID l)), (''nodePool'', JStr (lease_NodePool l)), (''cpu'', JNum cpu),
    (''memoryMiB'', json_int (lease_MemoryMiB l)), (''slots'', json_int (lease_Slots l)),
    (''ownerWorkflow'', JStr (lease_OwnerWorkflow l)), (''expiresAt'', JStr t)]"
  have raw: "raw = json_print ?j" using assms(1) cpu(1) t by (simp add: lease_json_def)
  have "json_ok 10000 ?j"
    using assms(2) cpu(2) rfc3339_utf8 [OF t] by (simp add: utf8_lease_def json_int_def itoa_is_number utf8_ascii)
  then have "json_parse raw = Some ?j" unfolding raw by (rule json_round)
  moreover have "decode_struct False lease_fields ?j zero_Lease = Some l"
    using rfc3339_round [OF t] cpu(3)
    by (cases l) (simp add: decode_members decode_member_def lease_fields_def into_float_def into_time_def)
  ultimately show ?thesis by (simp add: unmarshal_lease_def)
qed

lemma encode_reads:
  assumes "encode_leases ls = Inr data" and "list_all (\<lambda>(i, l). utf8_lease l) ls"
  shows "List.map_filter (\<lambda>(i, raw). map_option (Pair i) (unmarshal_lease raw)) data = ls"
  using assms
proof (induction ls arbitrary: data)
  case (Cons x ls)
  obtain i l where x: "x = (i, l)" by (cases x)
  from Cons.prems(1) obtain raw rest where r: "lease_json l = Some raw" "encode_leases ls = Inr rest" "data = (i, raw) # rest"
    by (auto simp: x split: option.splits sum.splits)
  with Cons lease_round [OF r(1)] show ?case by (simp add: x List.map_filter_simps)
qed (simp add: List.map_filter_simps)

lemma encode_fails: "encode_leases ls = Inl e \<Longrightarrow> list_ex (\<lambda>(i, l). \<not> writable_lease l) ls"
  by (induction ls arbitrary: e) (auto simp: lease_json_fails [symmetric] split: option.splits sum.splits)

text \<open>C20. What the store saves it loads: the data written for a map of leases decodes to the same map,
  entry by entry and in order, every float and every time exact; writing fails only when a lease has a
  CPU that is no number or expires after the year 9999.\<close>

theorem lease_map_round_trip:
  assumes "list_all (\<lambda>(i, l). utf8_lease l) ls"
  shows "case encode_leases ls of
      Inr data \<Rightarrow> decode_leases (Some data) = Some ls
    | Inl e \<Rightarrow> list_ex (\<lambda>(i, l). \<not> writable_lease l) ls"
  using encode_reads [OF _ assms] encode_fails [of ls] by (simp add: decode_leases_def split: sum.split)

definition two_leases :: "(string \<times> Lease) list" where
  "two_leases =
     [(''a'', zero_Lease\<lparr>lease_ID := ''a'', lease_NodePool := ''pool'', lease_Slots := 4\<rparr>),
      (''b'', zero_Lease\<lparr>lease_ID := ''b'', lease_NodePool := ''pool'', lease_ExpiresAt := 86400 * go_second\<rparr>)]"

theorem lease_map_round_trip_witness:
  "list_all (\<lambda>(i, l). utf8_lease l) two_leases \<and>
   (case encode_leases two_leases of
      Inr data \<Rightarrow> decode_leases (Some data) = Some two_leases
    | Inl e \<Rightarrow> list_ex (\<lambda>(i, l). \<not> writable_lease l) two_leases)"
proof -
  have ok: "list_all (\<lambda>(i, l). utf8_lease l) two_leases"
    by (simp add: two_leases_def utf8_lease_def zero_Lease_def utf8_ascii)
  from lease_map_round_trip [OF this] ok show ?thesis by simp
qed

end
