(* ===== verification/Lease_Refinement.thy ===== *)
theory Lease_Refinement
  imports Lease_Pool Lease_Codec
begin

text \<open>
  \<open>acquire\<close> and \<open>release\<close> of \<open>Lease_Store\<close> are activities of \<open>Lease_Pool\<close>: in front of an API server
  that reads atomically and accepts an update only of the version that was read, whatever other workers
  do between two calls, every run of theirs is a run of \<open>pool_steps\<close> that ends in the phase the result
  says. So what \<open>Lease_Pool\<close> proves of its runs holds of the code's.
\<close>

subsection \<open>The steps of the others\<close>

definition others :: "leaseStore \<Rightarrow> string \<Rightarrow> go_duration \<Rightarrow> string \<Rightarrow> lease_pool \<Rightarrow> lease_pool \<Rightarrow> bool" where
  "others s pool skew i p q \<longleftrightarrow> (\<exists>es. pool_steps s pool skew p es q \<and> list_all (\<lambda>e. actor e \<noteq> Some i) es)"

lemma others_refl [intro]: "others s pool skew i p p"
  unfolding others_def by (intro exI [of _ "[]"]) (simp add: none)

lemma others_trans [trans]: "others s pool skew i p q \<Longrightarrow> others s pool skew i q r \<Longrightarrow> others s pool skew i p r"
  unfolding others_def by (elim exE conjE, intro exI conjI, rule pool_steps_trans, assumption+) simp

lemma to_phase_simps [simp]:
  "lp_clock (to_phase i ph p) = lp_clock p" "lp_version (to_phase i ph p) = lp_version p"
  "lp_stored (to_phase i ph p) = lp_stored p" "lp_phase (to_phase i ph p) j = (if j = i then ph else lp_phase p j)"
  "to_phase i ph (to_phase i ph' p) = to_phase i ph p" "store m (to_phase i ph p) = to_phase i ph (store m p)"
  "lp_version (store m p) = Suc (lp_version p)" "lp_stored (store m p) = m" "lp_clock (store m p) = lp_clock p"
  "lp_phase (store m p) = lp_phase p"
  by (simp_all add: to_phase_def store_def)

lemma to_phase_swap: "i \<noteq> j \<Longrightarrow> to_phase i x (to_phase j y p) = to_phase j y (to_phase i x p)"
  by (auto simp: to_phase_def fun_upd_twist)

lemma to_phase_clock: "to_phase i x (p\<lparr>lp_clock := now\<rparr>) = (to_phase i x p)\<lparr>lp_clock := now\<rparr>"
  by (simp add: to_phase_def)

text \<open>A step of somebody else does not look at the phase of \<open>i\<close> and leaves it.\<close>

lemma step_frame:
  assumes "pool_step s pool skew p e q" and "actor e \<noteq> Some i"
  shows "pool_step s pool skew (to_phase i ph p) e (to_phase i ph q)"
  using assms(1)
proof cases
  case (time now)
  then show ?thesis using pool_step.time [of "to_phase i ph p" now] by (simp add: to_phase_clock)
next
  case (ask j lease input now)
  then show ?thesis using assms(2) pool_step.ask [of "to_phase i ph p" j lease input now] by (simp add: to_phase_swap)
next
  case (get j lease)
  then show ?thesis using assms(2) pool_step.get [of "to_phase i ph p" j lease] by (simp add: to_phase_swap)
next
  case (choose j lease v m now m')
  then show ?thesis using assms(2) pool_step.choose [of "to_phase i ph p" j lease v m now skew s m'] by (simp add: to_phase_swap)
next
  case (refuse j lease v m now e)
  then show ?thesis using assms(2) pool_step.refuse [of "to_phase i ph p" j lease v m now s e] by (simp add: to_phase_swap)
next
  case (update j lease m)
  then show ?thesis using assms(2) pool_step.update [of "to_phase i ph p" j lease m] by (simp add: to_phase_swap)
next
  case (update_lost j lease m)
  then show ?thesis using assms(2) pool_step.update_lost [of "to_phase i ph p" j lease m] by (simp add: to_phase_swap)
next
  case (conflict j lease v m)
  then show ?thesis using assms(2) pool_step.conflict [of "to_phase i ph p" j lease v m] by (simp add: to_phase_swap)
next
  case (return j lease)
  then show ?thesis using assms(2) pool_step.return [of "to_phase i ph p" j lease] by (simp add: to_phase_swap)
next
  case (list j)
  then show ?thesis using assms(2) pool_step.list [of "to_phase i ph p" j] by (simp add: to_phase_swap)
next
  case (release_update j m)
  then show ?thesis using assms(2) pool_step.release_update [of "to_phase i ph p" j m] by (simp add: to_phase_swap)
next
  case (release_lost j m)
  then show ?thesis using assms(2) pool_step.release_lost [of "to_phase i ph p" j m] by (simp add: to_phase_swap)
next
  case (release_again j v m)
  then show ?thesis using assms(2) pool_step.release_again [of "to_phase i ph p" j v m] by (simp add: to_phase_swap)
next
  case (stop j)
  then show ?thesis using assms(2) pool_step.stop [of "to_phase i ph p" j] by (simp add: to_phase_swap)
qed

lemma steps_frame:
  assumes "pool_steps s pool skew p es q" and "list_all (\<lambda>e. actor e \<noteq> Some i) es"
  shows "pool_steps s pool skew (to_phase i ph p) es (to_phase i ph q)"
  using assms by (induction rule: pool_steps.induct) (auto intro: pool_steps.intros step_frame)

text \<open>Runs in which \<open>i\<close> asks for nothing more.\<close>

definition runs :: "leaseStore \<Rightarrow> string \<Rightarrow> go_duration \<Rightarrow> string \<Rightarrow> lease_pool \<Rightarrow> lease_pool \<Rightarrow> bool" where
  "runs s pool skew i p q \<longleftrightarrow> (\<exists>es. pool_steps s pool skew p es q \<and> list_all (\<lambda>e. \<forall>l. e \<noteq> Ask i l) es)"

lemma runs_trans [trans]: "runs s pool skew i p q \<Longrightarrow> runs s pool skew i q r \<Longrightarrow> runs s pool skew i p r"
  unfolding runs_def by (elim exE conjE, intro exI conjI, rule pool_steps_trans, assumption+) simp

lemma others_run: "others s pool skew i p q \<Longrightarrow> runs s pool skew i (to_phase i ph p) (to_phase i ph q)"
  unfolding others_def runs_def by (elim exE, rule exI) (auto intro: steps_frame simp: list_all_iff)

lemma act_run: "pool_step s pool skew p (Act i) q \<Longrightarrow> runs s pool skew i p q"
  unfolding runs_def using pool_steps_one [of s pool skew p "Act i" q] by (intro exI [of _ "[Act i]"]) simp

subsection \<open>The API server\<close>

text \<open>A ConfigMap the workers have written: every entry is a lease that can be read.\<close>

definition readable :: "string_map \<Rightarrow> bool" where
  "readable d \<longleftrightarrow> list_all (\<lambda>(k, raw). \<exists>l. unmarshal_lease raw = Some l \<and> utf8_lease l) (entries d)"

definition reads :: "string \<Rightarrow> (nat \<Rightarrow> string) \<Rightarrow> ConfigMap \<Rightarrow> lease_pool \<Rightarrow> bool" where
  "reads pool ver cm p \<longleftrightarrow> cm_Name cm = leaseConfigMapName pool \<and> cm_ResourceVersion cm = ver (lp_version p) \<and>
     readable (cm_Data cm) \<and> decode_leases (cm_Data cm) = lp_stored p"

text \<open>
  What \<open>acquire\<close> and \<open>release\<close> rely on, for the activity \<open>i\<close>: \<open>view\<close> is the pool as it is in a world,
  which other workers may move on during every call. A worker's clock is ahead of the pool's by \<open>skew\<close>
  at most. What is read is what was stored at one moment of the call; versions are distinct texts; an
  update is accepted, whole, if its version is the stored one, and answered with a conflict only if it
  is not; any other error leaves open whether it was accepted.
\<close>

definition lease_api ::
  "'w kube \<Rightarrow> leaseStore \<Rightarrow> string \<Rightarrow> go_duration \<Rightarrow> string \<Rightarrow> ('w \<Rightarrow> lease_pool) \<Rightarrow> (nat \<Rightarrow> string) \<Rightarrow> bool" where
  "lease_api K s pool skew i view ver \<longleftrightarrow>
     (\<forall>w t w'. kc_Now K w = (t, w') \<longrightarrow>
        (\<exists>p. others s pool skew i (view w) p \<and> t \<le> lp_clock p + skew \<and> others s pool skew i p (view w'))) \<and>
     (\<forall>w r w'. kc_GetConfigMap K (ls_namespace s) (leaseConfigMapName pool) w = (r, w') \<longrightarrow>
        (\<exists>p. others s pool skew i (view w) p \<and> others s pool skew i p (view w') \<and> (\<forall>cm. r = Inr cm \<longrightarrow> reads pool ver cm p))) \<and>
     (\<forall>w r w'. kc_CreateConfigMap K (ls_namespace s) (new_lease_config_map (ls_namespace s) pool) w = (r, w') \<longrightarrow>
        (\<exists>p. others s pool skew i (view w) p \<and> others s pool skew i p (view w') \<and> (\<forall>cm. r = Inr cm \<longrightarrow> reads pool ver cm p))) \<and>
     (\<forall>w r w'. kc_ListConfigMaps K (ls_namespace s) lease_selector w = (r, w') \<longrightarrow>
        (\<exists>p. others s pool skew i (view w) p \<and> others s pool skew i p (view w') \<and>
           (\<forall>cms. r = Inr cms \<longrightarrow> (\<forall>cm \<in> set cms. map_has (cm_Data cm) i \<longrightarrow> reads pool ver cm p)))) \<and>
     (\<forall>w cm v r w'. kc_UpdateConfigMap K (ls_namespace s) cm w = (r, w') \<longrightarrow> cm_Name cm = leaseConfigMapName pool \<longrightarrow>
        cm_ResourceVersion cm = ver v \<longrightarrow>
        (\<exists>p. others s pool skew i (view w) p \<and>
           (lp_version p = v \<and> (\<forall>m. r \<noteq> Some (Conflict m)) \<and>
              others s pool skew i (store (decode_leases (cm_Data cm)) p) (view w') \<or>
            r \<noteq> None \<and> ((\<exists>m. r = Some (Conflict m)) \<longrightarrow> v \<noteq> lp_version p) \<and> others s pool skew i p (view w'))))"

lemma lease_apiD:
  assumes "lease_api K s pool skew i view ver"
  shows "kc_Now K w = (t, w') \<Longrightarrow>
      \<exists>p. others s pool skew i (view w) p \<and> t \<le> lp_clock p + skew \<and> others s pool skew i p (view w')"
    "kc_GetConfigMap K (ls_namespace s) (leaseConfigMapName pool) w = (r, w') \<Longrightarrow>
      \<exists>p. others s pool skew i (view w) p \<and> others s pool skew i p (view w') \<and> (\<forall>cm. r = Inr cm \<longrightarrow> reads pool ver cm p)"
    "kc_CreateConfigMap K (ls_namespace s) (new_lease_config_map (ls_namespace s) pool) w = (r, w') \<Longrightarrow>
      \<exists>p. others s pool skew i (view w) p \<and> others s pool skew i p (view w') \<and> (\<forall>cm. r = Inr cm \<longrightarrow> reads pool ver cm p)"
    "kc_ListConfigMaps K (ls_namespace s) lease_selector w = (l, w') \<Longrightarrow>
      \<exists>p. others s pool skew i (view w) p \<and> others s pool skew i p (view w') \<and>
        (\<forall>cms. l = Inr cms \<longrightarrow> (\<forall>cm \<in> set cms. map_has (cm_Data cm) i \<longrightarrow> reads pool ver cm p))"
    "kc_UpdateConfigMap K (ls_namespace s) cm w = (u, w') \<Longrightarrow> cm_Name cm = leaseConfigMapName pool \<Longrightarrow>
      cm_ResourceVersion cm = ver v \<Longrightarrow>
      \<exists>p. others s pool skew i (view w) p \<and>
        (lp_version p = v \<and> (\<forall>m. u \<noteq> Some (Conflict m)) \<and>
           others s pool skew i (store (decode_leases (cm_Data cm)) p) (view w') \<or>
         u \<noteq> None \<and> ((\<exists>m. u = Some (Conflict m)) \<longrightarrow> v \<noteq> lp_version p) \<and> others s pool skew i p (view w'))"
  by (rule assms [unfolded lease_api_def, THEN conjunct1, rule_format], assumption)
    (rule assms [unfolded lease_api_def, THEN conjunct2, THEN conjunct1, rule_format], assumption,
     rule assms [unfolded lease_api_def, THEN conjunct2, THEN conjunct2, THEN conjunct1, rule_format], assumption,
     rule assms [unfolded lease_api_def, THEN conjunct2, THEN conjunct2, THEN conjunct2, THEN conjunct1, rule_format], assumption,
     rule assms [unfolded lease_api_def, THEN conjunct2, THEN conjunct2, THEN conjunct2, THEN conjunct2, rule_format], assumption+)

subsection \<open>Loading and deciding\<close>

text \<open>What a load reads is what was stored at one moment of it.\<close>

lemma load_reads:
  assumes api: "lease_api K s pool skew i view ver" and "load K s pool w = (r, w')"
  shows "\<exists>p. others s pool skew i (view w) p \<and> others s pool skew i p (view w') \<and>
    (\<forall>cm m. r = Inr (cm, m) \<longrightarrow> reads pool ver cm p \<and> m = lp_stored p)"
proof -
  let ?moment = "\<lambda>r w'. \<exists>p. others s pool skew i (view w) p \<and> others s pool skew i p (view w') \<and>
    (\<forall>cm. r = Inr cm \<longrightarrow> reads pool ver cm p)"
  obtain x w0 where x: "load_config_map K s pool w = (x, w0)" by (cases "load_config_map K s pool w")
  obtain g w1 where g: "kc_GetConfigMap K (ls_namespace s) (leaseConfigMapName pool) w = (g, w1)"
    by (cases "kc_GetConfigMap K (ls_namespace s) (leaseConfigMapName pool) w")
  obtain c w2 where c: "kc_CreateConfigMap K (ls_namespace s) (new_lease_config_map (ls_namespace s) pool) w1 = (c, w2)"
    by (cases "kc_CreateConfigMap K (ls_namespace s) (new_lease_config_map (ls_namespace s) pool) w1")
  obtain g' w3 where g': "kc_GetConfigMap K (ls_namespace s) (leaseConfigMapName pool) w2 = (g', w3)"
    by (cases "kc_GetConfigMap K (ls_namespace s) (leaseConfigMapName pool) w2")
  obtain p1 where p1: "others s pool skew i (view w) p1" "others s pool skew i p1 (view w1)" "\<forall>cm. g = Inr cm \<longrightarrow> reads pool ver cm p1"
    using lease_apiD(2) [OF api g] by blast
  obtain p2 where p2: "others s pool skew i (view w1) p2" "others s pool skew i p2 (view w2)" "\<forall>cm. c = Inr cm \<longrightarrow> reads pool ver cm p2"
    using lease_apiD(3) [OF api c] by blast
  obtain p3 where p3: "others s pool skew i (view w2) p3" "others s pool skew i p3 (view w3)" "\<forall>cm. g' = Inr cm \<longrightarrow> reads pool ver cm p3"
    using lease_apiD(2) [OF api g'] by blast
  note upto2 = others_trans [OF others_trans [OF p1(1,2)] p2(1)]
  note upto3 = others_trans [OF others_trans [OF upto2 p2(2)] p3(1)]
  have "?moment x w0"
  proof (cases "\<exists>t. g = Inl (NotFound t)")
    case False
    with x g have "x = g \<and> w0 = w1"
      by (auto simp: load_config_map_def Let_def split: sum.splits kube_error.splits)
    with p1 show ?thesis by (intro exI [of _ p1]) simp
  next
    case missing: True
    show ?thesis
    proof (cases "\<exists>t. c = Inl (AlreadyExists t)")
      case False
      obtain t where "g = Inl (NotFound t)" using missing by blast
      with x g c False have "x = c \<and> w0 = w2"
        by (auto simp: load_config_map_def Let_def split: sum.splits kube_error.splits)
      with p2 upto2 show ?thesis by (intro exI [of _ p2]) simp
    next
      case True
      then obtain t t' where "g = Inl (NotFound t)" "c = Inl (AlreadyExists t')" using missing by blast
      with x g c g' have "x = g' \<and> w0 = w3" unfolding load_config_map_def Let_def by simp
      with p3 upto3 show ?thesis by (intro exI [of _ p3]) simp
    qed
  qed
  then obtain p where p: "others s pool skew i (view w) p" "others s pool skew i p (view w0)" "\<forall>cm. x = Inr cm \<longrightarrow> reads pool ver cm p"
    by blast
  have w': "w' = w0" using assms(2) x by (auto simp: load_def split: sum.splits)
  have "reads pool ver cm p \<and> m = lp_stored p" if "r = Inr (cm, m)" for cm m
  proof -
    have "x = Inr cm" "m = decode_leases (cm_Data cm)" using that assms(2) x by (auto simp: load_def split: sum.splits)
    with p(3) show ?thesis by (simp add: reads_def)
  qed
  with p(1,2) show ?thesis unfolding w' by blast
qed

lemma readable_leases: "readable d \<Longrightarrow> list_all (\<lambda>(k, l). utf8_lease l) (entries (decode_leases d))"
  by (auto simp: readable_def decode_leases_def list_all_iff List.map_filter_def split: option.splits)

lemma readable_has: "readable d \<Longrightarrow> map_has (decode_leases d) k \<longleftrightarrow> map_has d k"
proof -
  have "list_all (\<lambda>(k, raw). \<exists>l. unmarshal_lease raw = Some l \<and> utf8_lease l) es \<Longrightarrow>
      map_of (List.map_filter (\<lambda>(i, raw). map_option (Pair i) (unmarshal_lease raw)) es) k \<noteq> None \<longleftrightarrow> map_of es k \<noteq> None" for es
    by (induction es) (auto simp: List.map_filter_simps)
  then show "readable d \<Longrightarrow> ?thesis" by (simp add: readable_def map_has_def map_find_def decode_leases_def)
qed

lemma decode_del: "decode_leases (map_del k d) = map_del k (decode_leases d)"
proof -
  let ?f = "List.map_filter (\<lambda>(i, raw). map_option (Pair i) (unmarshal_lease raw))"
  have "?f (filter (\<lambda>(k', v). k \<noteq> k') es) = filter (\<lambda>(k', v). k \<noteq> k') (?f es)" for es
    by (induction es) (auto simp: List.map_filter_simps split: option.splits)
  then show ?thesis
    by (cases d) (simp_all add: decode_leases_def map_del_def AList.delete_eq List.map_filter_simps)
qed

text \<open>What the decision writes is read back as it is.\<close>

lemma written_leases:
  assumes "reads pool ver cm p" and "reserve now budget i l (lp_stored p) = Inr m" and "utf8_lease l"
    and "encode_leases (entries m) = Inr data"
  shows "decode_leases (Some data) = m"
proof -
  have old: "list_all (\<lambda>(k, l). utf8_lease l) (entries (lp_stored p))"
    using readable_leases [of "cm_Data cm"] assms(1) by (auto simp: reads_def)
  have m: "m = Some (AList.update i l (entries (live_leases now (lp_stored p))))"
    using reserve_map [OF assms(2)] by (simp add: map_put_def)
  have "list_all (\<lambda>(k, l). utf8_lease l) (entries m)"
    using old assms(3) subsetD [OF update_entries, of _ i l "entries (live_leases now (lp_stored p))"]
    by (fastforce simp: m list_all_iff live_entries)
  from encode_reads [OF assms(4) this] m show ?thesis by (simp add: decode_leases_def)
qed

subsection \<open>Acquiring\<close>

text \<open>Where an attempt leaves the activity.\<close>

fun attempt_phase :: "Lease \<Rightarrow> kube_error option \<Rightarrow> phase" where
  "attempt_phase l None = Held l"
| "attempt_phase l (Some (Conflict m)) = Asking l"
| "attempt_phase l (Some e) = Ended"

lemma attempt_phase_error: "(\<And>m. e \<noteq> Conflict m) \<Longrightarrow> attempt_phase l (Some e) = Ended"
  by (cases e) auto

lemma stop_run: "lp_phase p i \<noteq> Fresh \<Longrightarrow> runs s pool skew i p (to_phase i Ended p)"
  by (rule act_run) (rule stop)

lemma failed_attempt:
  assumes "runs s pool skew i (to_phase i (Asking l) p) (to_phase i (Asking l) q)"
  shows "runs s pool skew i (to_phase i (Asking l) p) (to_phase i (attempt_phase l (Some e)) q)"
proof -
  have "runs s pool skew i (to_phase i (Asking l) q) (to_phase i Ended q)"
    using stop_run [of "to_phase i (Asking l) q" i s pool skew] by simp
  with assms show ?thesis by (cases e) (auto intro: runs_trans)
qed

text \<open>The update, with the version that was read.\<close>

lemma save_refines:
  assumes api: "lease_api K s pool skew i view ver" and p: "reads pool ver cm p"
    and m: "reserve now (ls_slotBudget s) i l (lp_stored p) = Inr m" and l: "utf8_lease l"
    and "save K s cm m w = (r, w')"
  shows "runs s pool skew i (to_phase i (Chosen l (lp_version p) m) (view w)) (to_phase i (attempt_phase l r) (view w'))"
proof (cases "encode_leases (entries m)")
  case (Inl e)
  with assms(5) have "r = Some (OtherError e)" "w' = w" by (auto simp: save_def)
  then show ?thesis using stop_run [of "to_phase i (Chosen l (lp_version p) m) (view w)" i] by simp
next
  case (Inr data)
  let ?cm = "cm\<lparr>cm_Data := Some data\<rparr>" and ?ch = "Chosen l (lp_version p) m"
  have u: "kc_UpdateConfigMap K (ls_namespace s) ?cm w = (r, w')" using assms(5) Inr by (simp add: save_def)
  have "cm_Name ?cm = leaseConfigMapName pool" "cm_ResourceVersion ?cm = ver (lp_version p)"
    using p by (simp_all add: reads_def)
  from lease_apiD(5) [OF api u this] written_leases [OF p m l Inr] obtain q where
    q: "others s pool skew i (view w) q" and answered:
    "lp_version q = lp_version p \<and> (\<forall>m. r \<noteq> Some (Conflict m)) \<and> others s pool skew i (store m q) (view w') \<or>
     r \<noteq> None \<and> ((\<exists>m. r = Some (Conflict m)) \<longrightarrow> lp_version p \<noteq> lp_version q) \<and> others s pool skew i q (view w')"
    by auto
  note at_q = others_run [OF q, of ?ch]
  from answered show ?thesis
  proof (elim disjE conjE)
    assume v: "lp_version q = lp_version p" and "\<forall>m. r \<noteq> Some (Conflict m)" and w': "others s pool skew i (store m q) (view w')"
    have "pool_step s pool skew (to_phase i ?ch q) (Act i) (to_phase i (Held l) (store m q))"
      "pool_step s pool skew (to_phase i ?ch q) (Act i) (to_phase i Ended (store m q))"
      using update [of "to_phase i ?ch q" i l m] update_lost [of "to_phase i ?ch q" i l m] v by simp_all
    then have "runs s pool skew i (to_phase i ?ch q) (to_phase i (attempt_phase l r) (store m q))"
      using \<open>\<forall>m. r \<noteq> Some (Conflict m)\<close> attempt_phase_error by (cases r) (auto intro: act_run)
    with at_q others_run [OF w'] show ?thesis by (blast intro: runs_trans)
  next
    assume "r \<noteq> None" and c: "(\<exists>m. r = Some (Conflict m)) \<longrightarrow> lp_version p \<noteq> lp_version q" and w': "others s pool skew i q (view w')"
    then obtain e where e: "r = Some e" by auto
    have "runs s pool skew i (to_phase i ?ch q) (to_phase i (attempt_phase l r) q)"
    proof (cases "\<exists>m. e = Conflict m")
      case True
      with c e show ?thesis using conflict [of "to_phase i ?ch q" i l "lp_version p" m] by (auto intro: act_run)
    next
      case False
      then have "attempt_phase l r = Ended" using attempt_phase_error e by auto
      then show ?thesis using stop_run [of "to_phase i ?ch q" i] by simp
    qed
    with at_q others_run [OF w'] show ?thesis by (blast intro: runs_trans)
  qed
qed

lemma acquire_attempt_refines:
  assumes api: "lease_api K s pool skew i view ver" and "acquire_attempt K s i l w = (r, w')"
    and l: "lease_NodePool l = pool" "utf8_lease l"
  shows "runs s pool skew i (to_phase i (Asking l) (view w)) (to_phase i (attempt_phase l r) (view w'))"
proof -
  obtain x w1 where x: "load K s pool w = (x, w1)" by (cases "load K s pool w")
  from load_reads [OF api x] obtain p where p: "others s pool skew i (view w) p" "others s pool skew i p (view w1)"
    "\<And>cm m. x = Inr (cm, m) \<Longrightarrow> reads pool ver cm p \<and> m = lp_stored p" by blast
  show ?thesis
  proof (cases x)
    case (Inl e)
    with assms(2) x l have "r = Some e" "w' = w1" by (simp_all add: acquire_attempt_def)
    with failed_attempt [OF others_run [OF others_trans [OF p(1,2)]]] show ?thesis by simp
  next
    case (Inr cm_m)
    then obtain cm where cm: "x = Inr (cm, lp_stored p)" "reads pool ver cm p" using p(3) by (cases cm_m) auto
    let ?ld = "Loaded l (lp_version p) (lp_stored p)"
    have "pool_step s pool skew (to_phase i (Asking l) p) (Act i) (to_phase i ?ld p)"
      using get [of "to_phase i (Asking l) p" i l] by simp
    from runs_trans [OF others_run [OF p(1)] act_run [OF this]]
    have loaded: "runs s pool skew i (to_phase i (Asking l) (view w)) (to_phase i ?ld p)" .
    obtain now w2 where now: "kc_Now K w1 = (now, w2)" by (cases "kc_Now K w1")
    from lease_apiD(1) [OF api now] obtain q where q: "others s pool skew i (view w1) q" "now \<le> lp_clock q + skew"
      "others s pool skew i q (view w2)" by blast
    from runs_trans [OF loaded others_run [OF others_trans [OF p(2) q(1)]]]
    have asked: "runs s pool skew i (to_phase i (Asking l) (view w)) (to_phase i ?ld q)" .
    show ?thesis
    proof (cases "reserve now (ls_slotBudget s) i l (lp_stored p)")
      case (Inl e)
      with assms(2) x l cm(1) now have r: "r = Some (OtherError e)" "w' = w2" by (simp_all add: acquire_attempt_def)
      have "pool_step s pool skew (to_phase i ?ld q) (Act i) (to_phase i Ended q)"
        using refuse [of "to_phase i ?ld q" i l "lp_version p" "lp_stored p" now s e] Inl by simp
      from runs_trans [OF runs_trans [OF asked act_run [OF this]] others_run [OF q(3)]] r show ?thesis by simp
    next
      case (Inr m)
      with assms(2) x l cm(1) now have "save K s cm m w2 = (r, w')" by (simp add: acquire_attempt_def)
      from save_refines [OF api cm(2) Inr l(2) this]
      have saved: "runs s pool skew i (to_phase i (Chosen l (lp_version p) m) (view w2)) (to_phase i (attempt_phase l r) (view w'))" .
      have "pool_step s pool skew (to_phase i ?ld q) (Act i) (to_phase i (Chosen l (lp_version p) m) q)"
        using choose [of "to_phase i ?ld q" i l "lp_version p" "lp_stored p" now skew s m] Inr q(2) by simp
      from runs_trans [OF runs_trans [OF asked act_run [OF this]] runs_trans [OF others_run [OF q(3)] saved]]
      show ?thesis .
    qed
  qed
qed

lemma retry_refines:
  assumes "\<And>w r w'. f w = (r, w') \<Longrightarrow> runs s pool skew i (to_phase i (Asking l) (view w)) (to_phase i (attempt_phase l r) (view w'))"
    and "retry_on_conflict (Suc n) f w = (r, w')"
  shows "runs s pool skew i (to_phase i (Asking l) (view w)) (to_phase i (attempt_phase l r) (view w'))"
  using assms(2)
proof (induction n arbitrary: w)
  case (Suc n)
  obtain x w1 where x: "f w = (x, w1)" by (cases "f w")
  show ?case
  proof (cases "\<exists>m. x = Some (Conflict m)")
    case True
    then have "retry_on_conflict (Suc n) f w1 = (r, w')" using Suc.prems x by auto
    from runs_trans [OF _ Suc.IH [OF this]] assms(1) [OF x] True show ?thesis by auto
  next
    case False
    with Suc.prems x have "r = x" "w' = w1" by (auto split: option.splits kube_error.splits)
    with assms(1) [OF x] show ?thesis by simp
  qed
qed (use assms(1) in simp)

text \<open>An acquire: a fresh identifier asks for the lease of its input once, and it holds it exactly if
  \<open>acquire\<close> returns it.\<close>

lemma acquire_refines:
  assumes api: "lease_api K s pool skew i view ver" and run: "acquire K s input i w = (r, w')"
    and pool: "stringOr (id_NodePool (ai_Identity input)) ''default'' = pool"
    and text_ok: "utf8 i" "utf8 pool" "utf8 (ai_OwnerWorkflow input)"
  shows "\<exists>es ph. pool_steps s pool skew (to_phase i Fresh (view w)) es (to_phase i ph (view w')) \<and>
    (\<forall>l. Ask i l \<in> set es \<longrightarrow> (\<exists>now. l = new_lease input i now)) \<and>
    (case r of Inr l \<Rightarrow> ph = Held l | Inl e \<Rightarrow> ph = Ended)"
proof -
  obtain now w1 where now: "kc_Now K w = (now, w1)" by (cases "kc_Now K w")
  let ?l = "new_lease input i now"
  obtain x w2 where x: "retry_on_conflict default_retry (acquire_attempt K s i ?l) w1 = (x, w2)"
    by (cases "retry_on_conflict default_retry (acquire_attempt K s i ?l) w1")
  have l: "lease_NodePool ?l = pool" "utf8_lease ?l"
    using pool text_ok by (simp_all add: new_lease_def utf8_lease_def Let_def)
  from lease_apiD(1) [OF api now] obtain p where "others s pool skew i (view w) p" "others s pool skew i p (view w1)" by blast
  then have "others s pool skew i (view w) (view w1)" by (rule others_trans)
  then obtain es where es: "pool_steps s pool skew (view w) es (view w1)" "list_all (\<lambda>e. actor e \<noteq> Some i) es"
    unfolding others_def by blast
  have ask: "pool_step s pool skew (to_phase i Fresh (view w1)) (Ask i ?l) (to_phase i (Asking ?l) (view w1))"
    using ask [of "to_phase i Fresh (view w1)" i ?l input now] l(1) by simp
  have "retry_on_conflict (Suc 4) (acquire_attempt K s i ?l) w1 = (x, w2)"
    using x by (simp only: default_retry_def) simp
  from retry_refines [OF acquire_attempt_refines [OF api _ l] this]
  have "runs s pool skew i (to_phase i (Asking ?l) (view w1)) (to_phase i (attempt_phase ?l x) (view w2))" .
  moreover have "runs s pool skew i (to_phase i (attempt_phase ?l x) (view w2)) (to_phase i Ended (view w2))" if "x = Some e" for e
    using that stop_run [of "to_phase i (attempt_phase ?l x) (view w2)" i] by (cases e) auto
  ultimately have "runs s pool skew i (to_phase i (Asking ?l) (view w1)) (to_phase i (if x = None then Held ?l else Ended) (view w2))"
    by (cases x) (auto intro: runs_trans)
  then obtain fs where fs: "pool_steps s pool skew (to_phase i (Asking ?l) (view w1)) fs
      (to_phase i (if x = None then Held ?l else Ended) (view w2))" "list_all (\<lambda>e. \<forall>l. e \<noteq> Ask i l) fs"
    unfolding runs_def by blast
  have "pool_steps s pool skew (to_phase i Fresh (view w)) ((es @ [Ask i ?l]) @ fs)
      (to_phase i (if x = None then Held ?l else Ended) (view w2))"
    by (rule pool_steps_trans [OF fs(1) more [OF steps_frame [OF es] ask]])
  moreover have "\<forall>l. Ask i l \<in> set ((es @ [Ask i ?l]) @ fs) \<longrightarrow> (\<exists>now. l = new_lease input i now)"
    using es(2) fs(2) by (auto simp: list_all_iff)
  moreover have "w' = w2" "r = (case x of None \<Rightarrow> Inr ?l | Some e \<Rightarrow> Inl e)"
    using run now x by (auto simp: acquire_def Let_def split: option.splits)
  ultimately show ?thesis
    by (intro exI [of _ "(es @ [Ask i ?l]) @ fs"] exI [of _ "if x = None then Held ?l else Ended"]) (simp split: option.split)
qed

subsection \<open>Releasing\<close>

definition release_phase :: "kube_error option \<Rightarrow> phase" where
  "release_phase r = (if r = None then Ended else Returning)"

lemma release_attempt_refines:
  assumes api: "lease_api K s pool skew i view ver" and run: "release_attempt K s i w = (r, w')"
  shows "runs s pool skew i (to_phase i Returning (view w)) (to_phase i (release_phase r) (view w'))"
proof -
  obtain x w1 where x: "kc_ListConfigMaps K (ls_namespace s) lease_selector w = (x, w1)"
    by (cases "kc_ListConfigMaps K (ls_namespace s) lease_selector w")
  from lease_apiD(4) [OF api x] obtain p where p: "others s pool skew i (view w) p" "others s pool skew i p (view w1)"
    "\<forall>cms. x = Inr cms \<longrightarrow> (\<forall>cm \<in> set cms. map_has (cm_Data cm) i \<longrightarrow> reads pool ver cm p)" by blast
  note there = others_run [OF others_trans [OF p(1,2)], of Returning]
  show ?thesis
  proof (cases x)
    case (Inl e)
    with run x have "r = Some e" "w' = w1" by (simp_all add: release_attempt_def)
    with there show ?thesis by (simp add: release_phase_def)
  next
    case (Inr cms)
    show ?thesis
    proof (cases "find (\<lambda>cm. map_has (cm_Data cm) i) cms")
      case None
      with run x Inr have "r = None" "w' = w1" by (simp_all add: release_attempt_def)
      with there stop_run [of "to_phase i Returning (view w1)" i s pool skew] show ?thesis
        by (auto simp: release_phase_def intro: runs_trans)
    next
      case (Some cm)
      then have has: "map_has (cm_Data cm) i" "cm \<in> set cms" by (auto simp: find_Some_iff)
      with p(3) Inr have cm: "reads pool ver cm p" by blast
      let ?cm = "cm\<lparr>cm_Data := map_del i (cm_Data cm)\<rparr>" and ?li = "Listed (lp_version p) (lp_stored p)"
      have "pool_step s pool skew (to_phase i Returning p) (Act i) (to_phase i ?li p)"
        using list [of "to_phase i Returning p" i] by simp
      from runs_trans [OF others_run [OF p(1)] act_run [OF this]]
      have listed: "runs s pool skew i (to_phase i Returning (view w)) (to_phase i ?li p)" .
      have u: "kc_UpdateConfigMap K (ls_namespace s) ?cm w1 = (r, w')"
        using run x Inr Some by (simp add: release_attempt_def)
      have "cm_Name ?cm = leaseConfigMapName pool" "cm_ResourceVersion ?cm = ver (lp_version p)"
        "decode_leases (cm_Data ?cm) = map_del i (lp_stored p)" and stored: "map_has (lp_stored p) i"
        using cm has(1) readable_has [of "cm_Data cm" i] by (simp_all add: reads_def decode_del)
      with lease_apiD(5) [OF api u] obtain q where
        q: "others s pool skew i (view w1) q" and answered:
        "lp_version q = lp_version p \<and> others s pool skew i (store (map_del i (lp_stored p)) q) (view w') \<or>
         r \<noteq> None \<and> others s pool skew i q (view w')"
        by (metis (no_types, lifting))
      from runs_trans [OF listed others_run [OF others_trans [OF p(2) q]]]
      have at_q: "runs s pool skew i (to_phase i Returning (view w)) (to_phase i ?li q)" .
      from answered show ?thesis
      proof (elim disjE conjE)
        assume v: "lp_version q = lp_version p" and w': "others s pool skew i (store (map_del i (lp_stored p)) q) (view w')"
        have "pool_step s pool skew (to_phase i ?li q) (Act i) (to_phase i (release_phase r) (store (map_del i (lp_stored p)) q))"
          using release_update [of "to_phase i ?li q" i "lp_stored p"] release_lost [of "to_phase i ?li q" i "lp_stored p"] v stored
          by (simp add: release_phase_def)
        from runs_trans [OF runs_trans [OF at_q act_run [OF this]] others_run [OF w']] show ?thesis .
      next
        assume "r \<noteq> None" and w': "others s pool skew i q (view w')"
        have "pool_step s pool skew (to_phase i ?li q) (Act i) (to_phase i (release_phase r) q)"
          using release_again [of "to_phase i ?li q" i "lp_version p" "lp_stored p"] \<open>r \<noteq> None\<close>
          by (auto simp: release_phase_def)
        from runs_trans [OF runs_trans [OF at_q act_run [OF this]] others_run [OF w']] show ?thesis .
      qed
    qed
  qed
qed

text \<open>A release with its retries: it has ended exactly if \<open>release\<close> returns without an error.\<close>

lemma release_refines:
  assumes api: "lease_api K s pool skew i view ver" and "release K s i w = (r, w')"
  shows "runs s pool skew i (to_phase i Returning (view w)) (to_phase i (release_phase r) (view w'))"
proof -
  have "runs s pool skew i (to_phase i Returning (view w)) (to_phase i (release_phase r) (view w'))"
    if "retry_on_conflict (Suc n) (release_attempt K s i) w = (r, w')" for n w
    using that
  proof (induction n arbitrary: w)
    case (Suc n)
    obtain x w1 where x: "release_attempt K s i w = (x, w1)" by (cases "release_attempt K s i w")
    note first = release_attempt_refines [OF api x]
    show ?case
    proof (cases "\<exists>m. x = Some (Conflict m)")
      case True
      then have "retry_on_conflict (Suc n) (release_attempt K s i) w1 = (r, w')" using Suc.prems x by auto
      from runs_trans [OF _ Suc.IH [OF this]] first True show ?thesis by (auto simp: release_phase_def)
    next
      case False
      with Suc.prems x have "r = x" "w' = w1" by (auto split: option.splits kube_error.splits)
      with first show ?thesis by simp
    qed
  qed (use release_attempt_refines [OF api] in simp)
  moreover have "retry_on_conflict (Suc 4) (release_attempt K s i) w = (r, w')"
    using assms(2) by (simp only: release_def default_retry_def) simp
  ultimately show ?thesis by blast
qed

subsection \<open>The promises for a run of the code\<close>

text \<open>The lease an \<open>acquire\<close> returns in the midst of other workers is stored as it was returned.\<close>

lemma acquired_lease_stored:
  assumes api: "lease_api K (newLeaseStore namespace budget) pool skew i view ver"
    and run: "acquire K (newLeaseStore namespace budget) input i w = (Inr l, w')"
    and pool: "stringOr (id_NodePool (ai_Identity input)) ''default'' = pool"
    and text_ok: "utf8 i" "utf8 pool" "utf8 (ai_OwnerWorkflow input)"
    and before: "pool_steps (newLeaseStore namespace budget) pool skew (new_pool start) es (to_phase i Fresh (view w))"
    and after: "current skew (view w') l"
  shows "map_find (lp_stored (view w')) i = Some l"
proof -
  from acquire_refines [OF api run pool text_ok] obtain fs where
    "pool_steps (newLeaseStore namespace budget) pool skew (to_phase i Fresh (view w)) fs (to_phase i (Held l) (view w'))"
    by auto
  from pool_steps_inv [OF pool_steps_trans [OF this before] new_pool_inv]
  have "phase_inv (newLeaseStore namespace budget) skew (to_phase i (Held l) (view w')) i (Held l)"
    using pool_invD(2) [where i = i] by (metis to_phase_simps(4))
  with after show ?thesis by (simp add: current_def)
qed

subsection \<open>A server\<close>

text \<open>The contract is that of a server with one ConfigMap and a version number, in a world of its own.\<close>

definition stored_cm :: "string \<Rightarrow> nat \<times> (string \<times> string) list \<Rightarrow> ConfigMap" where
  "stored_cm pool w = (new_lease_config_map ''ns'' pool)\<lparr>cm_Data := Some (snd w), cm_ResourceVersion := nat_dec (fst w)\<rparr>"

definition map_server :: "string \<Rightarrow> (nat \<times> (string \<times> string) list) kube" where
  "map_server pool =
     \<lparr>kc_Now = (\<lambda>w. (0, w)), kc_Tick = (\<lambda>w. (None, w)), kc_Rand = (\<lambda>n w. (None, w)), kc_Cached = (\<lambda>l ns name w. (None, w)),
      kc_GetDeployment = (\<lambda>ns name w. (Inl (NotFound ''no''), w)), kc_ApplyDeployment = (\<lambda>ns name v w. (Inl (NotFound ''no''), w)),
      kc_PatchDeployment = (\<lambda>ns name t w. (Some (NotFound ''no''), w)), kc_CreateSnapshot = (\<lambda>ns v w. (Some (NotFound ''no''), w)),
      kc_GetSnapshot = (\<lambda>ns name w. (Inl (NotFound ''no''), w)), kc_CreateEvent = (\<lambda>ns ev w. (None, w)),
      kc_GetConfigMap = (\<lambda>ns name w. (if readable (Some (snd w)) then Inr (stored_cm pool w) else Inl (OtherError ''broken''), w)),
      kc_CreateConfigMap = (\<lambda>ns cm w. (Inl (AlreadyExists ''exists''), w)),
      kc_UpdateConfigMap = (\<lambda>ns cm w. if cm_ResourceVersion cm = nat_dec (fst w) then (None, (Suc (fst w), entries (cm_Data cm)))
        else (Some (Conflict ''conflict''), w)),
      kc_ListConfigMaps = (\<lambda>ns sel w. (if readable (Some (snd w)) then Inr [stored_cm pool w] else Inl (OtherError ''broken''), w)),
      kc_SyncCache = (\<lambda>l w. ([], w))\<rparr>"

definition server_view :: "nat \<times> (string \<times> string) list \<Rightarrow> lease_pool" where
  "server_view w = \<lparr>lp_clock = 0, lp_version = fst w, lp_stored = decode_leases (Some (snd w)), lp_phase = (\<lambda>_. Fresh)\<rparr>"

lemma server_reads: "readable (Some (snd w)) \<Longrightarrow> reads pool nat_dec (stored_cm pool w) (server_view w)"
  by (simp add: reads_def stored_cm_def server_view_def new_lease_config_map_def)

lemma server_update: "server_view (Suc v, entries (cm_Data cm)) = store (decode_leases (cm_Data cm)) (server_view (v, d))"
  by (simp add: server_view_def store_def decode_leases_def)

lemma map_server_api: "lease_api (map_server pool) (newLeaseStore ''ns'' budget) pool 0 i server_view nat_dec"
proof -
  let ?o = "others (newLeaseStore ''ns'' budget) pool 0 i"
  have still: "?o p p" for p by (rule others_refl)
  have accepted: "lp_version (server_view (v, d)) = v" for v d by (simp add: server_view_def)
  show ?thesis unfolding lease_api_def
  proof (intro conjI allI impI, goal_cases)
    case (1 w t w')
    then show ?case using still by (intro exI [of _ "server_view w"]) (auto simp: map_server_def server_view_def)
  next
    case (2 w r w')
    then show ?case using still server_reads [of w pool]
      by (intro exI [of _ "server_view w"]) (auto simp: map_server_def split: if_splits)
  next
    case (3 w r w')
    then show ?case using still by (intro exI [of _ "server_view w"]) (auto simp: map_server_def)
  next
    case (4 w r w')
    then show ?case using still server_reads [of w pool]
      by (intro exI [of _ "server_view w"]) (auto simp: map_server_def split: if_splits)
  next
    case (5 w cm v r w')
    then show ?case using still server_update [of "fst w" cm "snd w"] accepted [of "fst w" "snd w"]
      by (intro exI [of _ "server_view w"]) (auto simp: map_server_def nat_dec_inj split: if_splits)
  qed
qed

end
