(* ===== verification/Sdk_Types.thy ===== *)
theory Sdk_Types
  imports Lease_Text Change
begin

text \<open>
  The types of the Go SDK (sdk/go/cohestra/types.go) and their JSON. Structs that repeat those of the
  package \<open>domain\<close> field by field are the same records here; where the SDK has plain strings for the
  domain's constants it has a record of its own. A request is written by \<open>json.Marshal\<close>, which fails
  on a float it cannot write (\<open>None\<close>); an answer is read by \<open>json.Unmarshal\<close>, which skips members it
  does not know.
\<close>

subsection \<open>Structs\<close>

type_synonym sdk_ResourceShape = ResourceShape
type_synonym sdk_StateCompatibility = StateCompatibility
type_synonym sdk_DeploymentSpec = DeploymentSpec
type_synonym sdk_DeploymentIdentity = DeploymentIdentity
type_synonym sdk_HealthSummary = HealthSummary
type_synonym sdk_DeploymentVersion = DeploymentVersion
type_synonym sdk_SavepointRecord = SavepointRecord
type_synonym sdk_DeploymentSummary = DeploymentSummary
type_synonym sdk_DeploymentList = DeploymentList
type_synonym sdk_ClusterActorState = ClusterActorState
type_synonym sdk_Policy = Policy
type_synonym sdk_ListOptions = DeploymentListOptions

record sdk_OperationRecord =
  ko_OperationID :: string
  ko_IdempotencyKey :: string
  ko_Requester :: string
  ko_CommandType :: string
  ko_Status :: string
  ko_ChildWorkflowID :: string
  ko_LeaseID :: string
  ko_Result :: string
  ko_StartedAt :: go_time
  ko_CompletedAt :: go_time

record sdk_DeploymentActorView =
  kv_Identity :: sdk_DeploymentIdentity
  kv_Status :: string
  kv_CurrentVersion :: "sdk_DeploymentVersion option"
  kv_LastHealthyVersion :: "sdk_DeploymentVersion option"
  kv_LastSavepoint :: "sdk_SavepointRecord option"
  kv_ActiveOperation :: "sdk_OperationRecord option"
  kv_PendingOperations :: go_int
  kv_RecentOperations :: "sdk_OperationRecord list"
  kv_AutoscalerEnabled :: bool
  kv_AutoscalerFrozen :: bool
  kv_LastError :: string

record sdk_DeploymentCardSummary =
  kc_Identity :: sdk_DeploymentIdentity
  kc_WorkflowID :: string
  kc_StartedAt :: go_time
  kc_Status :: string
  kc_Version :: go_int
  kc_ImageDigest :: string
  kc_Parallelism :: go_int
  kc_Healthy :: "bool option"
  kc_HealthMessage :: string
  kc_Pending :: go_int
  kc_Error :: string

record CommandResponse =
  cr_OperationID :: string
  cr_WorkflowID :: string
  cr_Status :: string

record RegisterResponse =
  rr_WorkflowID :: string

record RegisterRequest =
  qr_Owner :: string
  qr_ServiceAccount :: string
  qr_NodePool :: string
  qr_FlinkDashboardURL :: string
  qr_Policy :: "sdk_Policy option"

record DeployRequest =
  qd_Requester :: string
  qd_Approved :: bool
  qd_Incident :: bool
  qd_Reason :: string
  qd_Spec :: sdk_DeploymentSpec

record ScaleRequest =
  qs_Requester :: string
  qs_Parallelism :: go_int
  qs_Approved :: bool
  qs_Reason :: string

record RollbackRequest =
  qb_Requester :: string
  qb_TargetVersion :: go_int
  qb_Approved :: bool
  qb_Reason :: string

record SimpleRequest =
  qm_Requester :: string
  qm_Approved :: bool
  qm_Incident :: bool
  qm_Reason :: string

record ClusterCommandRequest =
  qc_Requester :: string
  qc_Reason :: string

datatype sdk_error =
  APIError nat string
| OtherError go_error

definition sdk_error_text :: "sdk_error \<Rightarrow> string" where
  "sdk_error_text e = (case e of APIError _ m \<Rightarrow> ''cohestra: '' @ m | OtherError m \<Rightarrow> m)"

subsection \<open>Writing requests\<close>

definition json_policy :: "sdk_Policy \<Rightarrow> json option" where
  "json_policy p =
     map_option (\<lambda>ratio. JObj
       [(''requireProdApproval'', JBool (pol_RequireProdApproval p)), (''gitOpsOnly'', JBool (pol_GitOpsOnly p)),
        (''allowIncidentDirectPatch'', JBool (pol_AllowIncidentDirectPatch p)),
        (''requireRiskySavepoint'', JBool (pol_RequireRiskySavepoint p)),
        (''requireFirstCheckpoint'', JBool (pol_RequireFirstCheckpoint p)),
        (''requireHealthySink'', JBool (pol_RequireHealthySink p)), (''maxRestartCount'', json_int (pol_MaxRestartCount p)),
        (''maxBackpressureRatio'', JNum ratio), (''maxKafkaLag'', json_int (pol_MaxKafkaLag p))])
       (json_float (pol_MaxBackpressureRatio p))"

definition json_RegisterRequest :: "RegisterRequest \<Rightarrow> json option" where
  "json_RegisterRequest q =
     map_option (\<lambda>policy. JObj (string_member ''owner'' (qr_Owner q) @ string_member ''serviceAccount'' (qr_ServiceAccount q) @
         string_member ''nodePool'' (qr_NodePool q) @ string_member ''flinkDashboardUrl'' (qr_FlinkDashboardURL q) @ policy))
       (case qr_Policy q of None \<Rightarrow> Some [] | Some p \<Rightarrow> map_option (\<lambda>j. [(''policy'', j)]) (json_policy p))"

definition json_DeployRequest :: "DeployRequest \<Rightarrow> json option" where
  "json_DeployRequest q =
     map_option (\<lambda>spec. JObj ([(''requester'', JStr (qd_Requester q))] @ bool_member ''approved'' (qd_Approved q) @
         bool_member ''incident'' (qd_Incident q) @ string_member ''reason'' (qd_Reason q) @ [(''spec'', spec)]))
       (json_spec (qd_Spec q))"

definition json_ScaleRequest :: "ScaleRequest \<Rightarrow> json option" where
  "json_ScaleRequest q =
     Some (JObj ([(''requester'', JStr (qs_Requester q)), (''parallelism'', json_int (qs_Parallelism q))] @
       bool_member ''approved'' (qs_Approved q) @ string_member ''reason'' (qs_Reason q)))"

definition json_RollbackRequest :: "RollbackRequest \<Rightarrow> json option" where
  "json_RollbackRequest q =
     Some (JObj ([(''requester'', JStr (qb_Requester q)), (''targetVersion'', json_int (qb_TargetVersion q))] @
       bool_member ''approved'' (qb_Approved q) @ string_member ''reason'' (qb_Reason q)))"

definition json_SimpleRequest :: "SimpleRequest \<Rightarrow> json option" where
  "json_SimpleRequest q =
     Some (JObj ([(''requester'', JStr (qm_Requester q))] @ bool_member ''approved'' (qm_Approved q) @
       bool_member ''incident'' (qm_Incident q) @ string_member ''reason'' (qm_Reason q)))"

definition json_ClusterCommandRequest :: "ClusterCommandRequest \<Rightarrow> json option" where
  "json_ClusterCommandRequest q =
     Some (JObj ([(''requester'', JStr (qc_Requester q))] @ string_member ''reason'' (qc_Reason q)))"

subsection \<open>Reading answers\<close>

definition member ::
  "string \<Rightarrow> ('a \<Rightarrow> json \<Rightarrow> 'a option) \<Rightarrow> ('r \<Rightarrow> 'a) \<Rightarrow> (('a \<Rightarrow> 'a) \<Rightarrow> 'r \<Rightarrow> 'r) \<Rightarrow> 'r field" where
  "member n into get upd = (n, \<lambda>v r. map_option (\<lambda>x. upd (\<lambda>_. x) r) (into (get r) v))"

definition into_struct :: "'r field list \<Rightarrow> 'r \<Rightarrow> json \<Rightarrow> 'r option" where
  "into_struct fs old v = decode_struct False fs v old"

text \<open>A pointer, and a slice; the elements an earlier member of the name put there are decoded into.\<close>

definition into_pointer :: "('a \<Rightarrow> json \<Rightarrow> 'a option) \<Rightarrow> 'a \<Rightarrow> 'a option \<Rightarrow> json \<Rightarrow> 'a option option" where
  "into_pointer into zero old v =
     (case v of
        JNull \<Rightarrow> Some None
      | _ \<Rightarrow> map_option Some (into (case old of None \<Rightarrow> zero | Some x \<Rightarrow> x) v))"

definition into_slice :: "('a \<Rightarrow> json \<Rightarrow> 'a option) \<Rightarrow> 'a \<Rightarrow> 'a list \<Rightarrow> json \<Rightarrow> 'a list option" where
  "into_slice into zero old v =
     (case v of
        JNull \<Rightarrow> Some []
      | JArr xs \<Rightarrow> those (map (\<lambda>(i, x). into (if i < length old then old ! i else zero) x) (enumerate 0 xs))
      | _ \<Rightarrow> None)"

definition identity_fields :: "sdk_DeploymentIdentity field list" where
  "identity_fields =
     [member ''environment'' into_string id_Environment id_Environment_update,
      member ''namespace'' into_string id_Namespace id_Namespace_update,
      member ''name'' into_string id_Name id_Name_update,
      member ''owner'' into_string id_Owner id_Owner_update,
      member ''serviceAccount'' into_string id_ServiceAccount id_ServiceAccount_update,
      member ''nodePool'' into_string id_NodePool id_NodePool_update,
      member ''flinkDashboardUrl'' into_string id_FlinkDashboardURL id_FlinkDashboardURL_update]"

definition health_fields :: "sdk_HealthSummary field list" where
  "health_fields =
     [member ''healthy'' into_bool hs_Healthy hs_Healthy_update,
      member ''running'' into_bool hs_Running hs_Running_update,
      member ''checkpointCompleted'' into_bool hs_CheckpointCompleted hs_CheckpointCompleted_update,
      member ''restartCount'' into_int hs_RestartCount hs_RestartCount_update,
      member ''backpressureRatio'' into_float hs_BackpressureRatio hs_BackpressureRatio_update,
      member ''kafkaLag'' into_int hs_KafkaLag hs_KafkaLag_update,
      member ''sinkHealthy'' into_bool hs_SinkHealthy hs_SinkHealthy_update,
      member ''message'' into_string hs_Message hs_Message_update,
      member ''observedAt'' into_time hs_ObservedAt hs_ObservedAt_update]"

definition version_fields :: "sdk_DeploymentVersion field list" where
  "version_fields =
     [member ''versionId'' into_int ver_VersionID ver_VersionID_update,
      member ''spec'' (into_struct (spec_fields False)) ver_Spec ver_Spec_update,
      member ''manifestHash'' into_string ver_ManifestHash ver_ManifestHash_update,
      member ''jobArgsHash'' into_string ver_JobArgsHash ver_JobArgsHash_update,
      member ''flinkConfigHash'' into_string ver_FlinkConfigHash ver_FlinkConfigHash_update,
      member ''savepointUri'' into_string ver_SavepointURI ver_SavepointURI_update,
      member ''operatorObservedGeneration'' into_int ver_OperatorObservedGeneration ver_OperatorObservedGeneration_update,
      member ''healthSummary'' (into_struct health_fields) ver_HealthSummary ver_HealthSummary_update,
      member ''createdAt'' into_time ver_CreatedAt ver_CreatedAt_update]"

definition savepoint_fields :: "sdk_SavepointRecord field list" where
  "savepoint_fields =
     [member ''uri'' into_string sp_URI sp_URI_update,
      member ''triggerId'' into_string sp_TriggerID sp_TriggerID_update,
      member ''flinkJobId'' into_string sp_FlinkJobID sp_FlinkJobID_update,
      member ''deploymentVersion'' into_int sp_DeploymentVersion sp_DeploymentVersion_update,
      member ''imageDigest'' into_string sp_ImageDigest sp_ImageDigest_update,
      member ''jobArgsHash'' into_string sp_JobArgsHash sp_JobArgsHash_update,
      member ''parallelism'' into_int sp_Parallelism sp_Parallelism_update,
      member ''maxParallelism'' into_int sp_MaxParallelism sp_MaxParallelism_update,
      member ''compatibilityNotes'' into_string sp_CompatibilityNotes sp_CompatibilityNotes_update,
      member ''createdAt'' into_time sp_CreatedAt sp_CreatedAt_update]"

definition operation_fields :: "sdk_OperationRecord field list" where
  "operation_fields =
     [member ''operationId'' into_string ko_OperationID ko_OperationID_update,
      member ''idempotencyKey'' into_string ko_IdempotencyKey ko_IdempotencyKey_update,
      member ''requester'' into_string ko_Requester ko_Requester_update,
      member ''commandType'' into_string ko_CommandType ko_CommandType_update,
      member ''status'' into_string ko_Status ko_Status_update,
      member ''childWorkflowId'' into_string ko_ChildWorkflowID ko_ChildWorkflowID_update,
      member ''leaseId'' into_string ko_LeaseID ko_LeaseID_update,
      member ''result'' into_string ko_Result ko_Result_update,
      member ''startedAt'' into_time ko_StartedAt ko_StartedAt_update,
      member ''completedAt'' into_time ko_CompletedAt ko_CompletedAt_update]"

definition zero_SavepointRecord :: sdk_SavepointRecord where
  "zero_SavepointRecord =
     \<lparr>sp_URI = [], sp_TriggerID = [], sp_FlinkJobID = [], sp_DeploymentVersion = 0, sp_ImageDigest = [],
      sp_JobArgsHash = [], sp_Parallelism = 0, sp_MaxParallelism = 0, sp_CompatibilityNotes = [], sp_CreatedAt = 0\<rparr>"

definition zero_operation :: sdk_OperationRecord where
  "zero_operation =
     \<lparr>ko_OperationID = [], ko_IdempotencyKey = [], ko_Requester = [], ko_CommandType = [], ko_Status = [],
      ko_ChildWorkflowID = [], ko_LeaseID = [], ko_Result = [], ko_StartedAt = 0, ko_CompletedAt = 0\<rparr>"

definition zero_identity :: sdk_DeploymentIdentity where
  "zero_identity =
     \<lparr>id_Environment = [], id_Namespace = [], id_Name = [], id_Owner = [], id_ServiceAccount = [], id_NodePool = [],
      id_FlinkDashboardURL = []\<rparr>"

definition view_fields :: "sdk_DeploymentActorView field list" where
  "view_fields =
     [member ''identity'' (into_struct identity_fields) kv_Identity kv_Identity_update,
      member ''status'' into_string kv_Status kv_Status_update,
      member ''currentVersion'' (into_pointer (into_struct version_fields) zero_DeploymentVersion)
        kv_CurrentVersion kv_CurrentVersion_update,
      member ''lastHealthyVersion'' (into_pointer (into_struct version_fields) zero_DeploymentVersion)
        kv_LastHealthyVersion kv_LastHealthyVersion_update,
      member ''lastSavepoint'' (into_pointer (into_struct savepoint_fields) zero_SavepointRecord)
        kv_LastSavepoint kv_LastSavepoint_update,
      member ''activeOperation'' (into_pointer (into_struct operation_fields) zero_operation)
        kv_ActiveOperation kv_ActiveOperation_update,
      member ''pendingOperations'' into_int kv_PendingOperations kv_PendingOperations_update,
      member ''recentOperations'' (into_slice (into_struct operation_fields) zero_operation)
        kv_RecentOperations kv_RecentOperations_update,
      member ''autoscalerEnabled'' into_bool kv_AutoscalerEnabled kv_AutoscalerEnabled_update,
      member ''autoscalerFrozen'' into_bool kv_AutoscalerFrozen kv_AutoscalerFrozen_update,
      member ''lastError'' into_string kv_LastError kv_LastError_update]"

definition zero_sdk_view :: sdk_DeploymentActorView where
  "zero_sdk_view =
     \<lparr>kv_Identity = zero_identity, kv_Status = [], kv_CurrentVersion = None, kv_LastHealthyVersion = None,
      kv_LastSavepoint = None, kv_ActiveOperation = None, kv_PendingOperations = 0, kv_RecentOperations = [],
      kv_AutoscalerEnabled = False, kv_AutoscalerFrozen = False, kv_LastError = []\<rparr>"

definition summary_fields :: "sdk_DeploymentSummary field list" where
  "summary_fields =
     [member ''identity'' (into_struct identity_fields) sum_Identity sum_Identity_update,
      member ''workflowId'' into_string sum_WorkflowID sum_WorkflowID_update,
      member ''startedAt'' into_time sum_StartedAt sum_StartedAt_update]"

definition deployment_list_fields :: "sdk_DeploymentList field list" where
  "deployment_list_fields =
     [member ''deployments'' (into_slice (into_struct summary_fields)
        \<lparr>sum_Identity = zero_identity, sum_WorkflowID = [], sum_StartedAt = 0\<rparr>) dl_Deployments dl_Deployments_update,
      member ''nextPageToken'' into_string dl_NextPageToken dl_NextPageToken_update]"

definition card_fields :: "sdk_DeploymentCardSummary field list" where
  "card_fields =
     [member ''identity'' (into_struct identity_fields) kc_Identity kc_Identity_update,
      member ''workflowId'' into_string kc_WorkflowID kc_WorkflowID_update,
      member ''startedAt'' into_time kc_StartedAt kc_StartedAt_update,
      member ''status'' into_string kc_Status kc_Status_update,
      member ''version'' into_int kc_Version kc_Version_update,
      member ''imageDigest'' into_string kc_ImageDigest kc_ImageDigest_update,
      member ''parallelism'' into_int kc_Parallelism kc_Parallelism_update,
      member ''healthy'' (into_pointer into_bool False) kc_Healthy kc_Healthy_update,
      member ''healthMessage'' into_string kc_HealthMessage kc_HealthMessage_update,
      member ''pendingOperations'' into_int kc_Pending kc_Pending_update,
      member ''error'' into_string kc_Error kc_Error_update]"

definition zero_sdk_card :: sdk_DeploymentCardSummary where
  "zero_sdk_card =
     \<lparr>kc_Identity = zero_identity, kc_WorkflowID = [], kc_StartedAt = 0, kc_Status = [], kc_Version = 0,
      kc_ImageDigest = [], kc_Parallelism = 0, kc_Healthy = None, kc_HealthMessage = [], kc_Pending = 0, kc_Error = []\<rparr>"

definition cluster_state_fields :: "sdk_ClusterActorState field list" where
  "cluster_state_fields =
     [member ''environment'' into_string cs_Environment cs_Environment_update,
      member ''namespace'' into_string cs_Namespace cs_Namespace_update,
      member ''frozen'' into_bool cs_Frozen cs_Frozen_update,
      member ''reason'' into_string cs_Reason cs_Reason_update,
      member ''requester'' into_string cs_Requester cs_Requester_update,
      member ''updatedAt'' into_time cs_UpdatedAt cs_UpdatedAt_update]"

definition command_response_fields :: "CommandResponse field list" where
  "command_response_fields =
     [member ''operationId'' into_string cr_OperationID cr_OperationID_update,
      member ''workflowId'' into_string cr_WorkflowID cr_WorkflowID_update,
      member ''status'' into_string cr_Status cr_Status_update]"

definition register_response_fields :: "RegisterResponse field list" where
  "register_response_fields = [member ''workflowId'' into_string rr_WorkflowID rr_WorkflowID_update]"

end
