(* ===== verification/Sdk_Client.thy ===== *)
theory Sdk_Client
  imports Sdk_Types Digest
begin

text \<open>
  The client of the Go SDK (sdk/go/cohestra/client.go, deployment.go). The HTTP client it is given,
  the clock and the random source are functions of a state \<open>'w\<close> of the world in the record \<open>net\<close>, as
  are the texts of the errors of the JSON package and the check \<open>http.NewRequest\<close> makes of a URL.
\<close>

subsection \<open>The network\<close>

record sdk_http_request =
  hq_Method :: string
  hq_URL :: string
  hq_Header :: "(string \<times> string) list"
  hq_Body :: "string option"

text \<open>The body is what reading the first mebibyte of it gives.\<close>

record sdk_http_response =
  ht_Status :: nat
  ht_Body :: "string result"

record 'w net =
  nt_BadURL :: "string \<Rightarrow> go_error option"
  nt_Do :: "sdk_http_request \<Rightarrow> 'w \<Rightarrow> sdk_http_response result \<times> 'w"
  nt_Now :: "'w \<Rightarrow> go_time \<times> 'w"
  nt_Rand :: "nat \<Rightarrow> 'w \<Rightarrow> string \<times> 'w"
  nt_Wait :: "go_duration \<Rightarrow> 'w \<Rightarrow> go_error option \<times> 'w"
  nt_MarshalError :: go_error
  nt_UnmarshalError :: "string \<Rightarrow> go_error"

text \<open>\<open>http.StatusText\<close> on the error codes; the empty string for a code without a name.\<close>

definition StatusText :: "nat \<Rightarrow> string" where
  "StatusText code =
     (case map_of
       [(400, ''Bad Request''), (401, ''Unauthorized''), (402, ''Payment Required''), (403, ''Forbidden''), (404, ''Not Found''),
        (405, ''Method Not Allowed''), (406, ''Not Acceptable''), (407, ''Proxy Authentication Required''),
        (408, ''Request Timeout''), (409, ''Conflict''), (410, ''Gone''), (411, ''Length Required''),
        (412, ''Precondition Failed''), (413, ''Request Entity Too Large''), (414, ''Request URI Too Long''),
        (415, ''Unsupported Media Type''), (416, ''Requested Range Not Satisfiable''), (417, ''Expectation Failed''),
        (418, ''I'' @ [CHR 0x27] @ ''m a teapot''), (421, ''Misdirected Request''), (422, ''Unprocessable Entity''),
        (423, ''Locked''), (424, ''Failed Dependency''), (425, ''Too Early''), (426, ''Upgrade Required''),
        (428, ''Precondition Required''), (429, ''Too Many Requests''), (431, ''Request Header Fields Too Large''),
        (451, ''Unavailable For Legal Reasons''), (500, ''Internal Server Error''), (501, ''Not Implemented''),
        (502, ''Bad Gateway''), (503, ''Service Unavailable''), (504, ''Gateway Timeout''),
        (505, ''HTTP Version Not Supported''), (506, ''Variant Also Negotiates''), (507, ''Insufficient Storage''),
        (508, ''Loop Detected''), (510, ''Not Extended''), (511, ''Network Authentication Required'')] code of None \<Rightarrow> [] | Some t \<Rightarrow> t)"

subsection \<open>Queries in a URL\<close>

definition hex_upper :: "nat \<Rightarrow> char" where
  "hex_upper d = char_of (if d < 10 then 48 + d else 55 + d)"

definition unreserved :: "char \<Rightarrow> bool" where
  "unreserved c \<longleftrightarrow> is_digit c \<or> in_range 65 90 c \<or> in_range 97 122 c \<or> c \<in> {CHR ''-'', CHR ''_'', CHR ''.'', CHR ''~''}"

definition query_escape :: "string \<Rightarrow> string" where
  "query_escape s =
     concat (map (\<lambda>c. if unreserved c then [c] else if c = CHR '' '' then ''+''
        else [CHR ''%'', hex_upper (of_char c div 16), hex_upper (of_char c mod 16)]) s)"

fun join_with :: "string \<Rightarrow> string list \<Rightarrow> string" where
  "join_with sep [] = []"
| "join_with sep [x] = x"
| "join_with sep (x # y # zs) = x @ sep @ join_with sep (y # zs)"

text \<open>\<open>Values.Encode\<close> on parameters in the order of their names.\<close>

definition values_encode :: "(string \<times> string) list \<Rightarrow> string" where
  "values_encode kvs = join_with ''&'' (map (\<lambda>(k, v). query_escape k @ ''='' @ query_escape v) kvs)"

subsection \<open>The client\<close>

record Client =
  cl_baseURL :: string
  cl_token :: string

definition trim_right :: "char \<Rightarrow> string \<Rightarrow> string" where
  "trim_right c s = rev (dropWhile (\<lambda>x. x = c) (rev s))"

definition NewClient :: "string \<Rightarrow> Client" where
  "NewClient baseURL = \<lparr>cl_baseURL = trim_right (CHR ''/'') baseURL, cl_token = []\<rparr>"

definition WithToken :: "string \<Rightarrow> Client \<Rightarrow> Client" where
  "WithToken t c = c\<lparr>cl_token := t\<rparr>"

type_synonym 'a sdk_result = "sdk_error + 'a"

text \<open>The message of an error body; whatever is wrong with it leaves the message empty.\<close>

definition error_body :: "string \<Rightarrow> string" where
  "error_body data =
     (case json_parse data of
        Some (JObj kvs) \<Rightarrow>
          fold (\<lambda>(k, v) m. if equal_fold ''error'' k then (case into_string m v of Some s \<Rightarrow> s | None \<Rightarrow> m) else m) kvs []
      | _ \<Rightarrow> [])"

text \<open>Sending a request and reading the answer into \<open>out\<close>, a decoder and the value it starts from;
  \<open>None\<close> where the caller passes nil.\<close>

definition client_do ::
  "'w net \<Rightarrow> Client \<Rightarrow> sdk_http_request \<Rightarrow> ('a \<Rightarrow> json \<Rightarrow> 'a option) option \<Rightarrow> 'a \<Rightarrow> 'w \<Rightarrow> 'a sdk_result \<times> 'w" where
  "client_do N c req out zero w =
     (let req = (if cl_token c = [] then req
                 else req\<lparr>hq_Header := hq_Header req @ [(''Authorization'', ''Bearer '' @ cl_token c)]\<rparr>)
      in case nt_Do N req w of
           (Inl e, w1) \<Rightarrow> (Inl (OtherError e), w1)
         | (Inr resp, w1) \<Rightarrow>
             (case ht_Body resp of
                Inl e \<Rightarrow> (Inl (OtherError e), w1)
              | Inr body \<Rightarrow>
                  let data = take 1048576 body
                  in if 400 \<le> ht_Status resp
                     then let msg = error_body data
                          in (Inl (APIError (ht_Status resp) (if msg = [] then StatusText (ht_Status resp) else msg)), w1)
                     else case out of
                         None \<Rightarrow> (Inr zero, w1)
                       | Some into \<Rightarrow>
                           if data = [] then (Inr zero, w1)
                           else (case Option.bind (json_parse data) (into zero) of
                                   None \<Rightarrow> (Inl (OtherError (nt_UnmarshalError N data)), w1)
                                 | Some x \<Rightarrow> (Inr x, w1))))"

definition client_get ::
  "'w net \<Rightarrow> Client \<Rightarrow> string \<Rightarrow> ('a \<Rightarrow> json \<Rightarrow> 'a option) \<Rightarrow> 'a \<Rightarrow> 'w \<Rightarrow> 'a sdk_result \<times> 'w" where
  "client_get N c path into zero w =
     (let url = cl_baseURL c @ path
      in case nt_BadURL N url of
           Some e \<Rightarrow> (Inl (OtherError e), w)
         | None \<Rightarrow> client_do N c \<lparr>hq_Method = ''GET'', hq_URL = url, hq_Header = [], hq_Body = None\<rparr> (Some into) zero w)"

text \<open>Milliseconds since 1970 and eight random bytes.\<close>

definition generateKey :: "'w net \<Rightarrow> 'w \<Rightarrow> string \<times> 'w" where
  "generateKey N w =
     (case nt_Rand N 8 w of
        (b, w1) \<Rightarrow>
          (case nt_Now N w1 of
             (now, w2) \<Rightarrow> (int_dec ((now - 62135596800 * go_second) div 1000000) @ ''-'' @ hex_encode b, w2)))"

text \<open>Every caller passes a body, so there is always one to marshal.\<close>

definition postMutation ::
  "'w net \<Rightarrow> Client \<Rightarrow> string \<Rightarrow> json option \<Rightarrow> string \<Rightarrow> ('a \<Rightarrow> json \<Rightarrow> 'a option) option \<Rightarrow> 'a \<Rightarrow> 'w \<Rightarrow>
   'a sdk_result \<times> 'w" where
  "postMutation N c path body idempotencyKey out zero w =
     (case (if idempotencyKey = [] then generateKey N w else (idempotencyKey, w)) of
        (key, w1) \<Rightarrow>
          (case body of
             None \<Rightarrow> (Inl (OtherError (nt_MarshalError N)), w1)
           | Some j \<Rightarrow>
               let url = cl_baseURL c @ path
               in case nt_BadURL N url of
                    Some e \<Rightarrow> (Inl (OtherError e), w1)
                  | None \<Rightarrow> client_do N c
                      \<lparr>hq_Method = ''POST'', hq_URL = url,
                       hq_Header = [(''Idempotency-Key'', key), (''Content-Type'', ''application/json'')],
                       hq_Body = Some (json_print j)\<rparr> out zero w1))"

definition putJSON ::
  "'w net \<Rightarrow> Client \<Rightarrow> string \<Rightarrow> json option \<Rightarrow> ('a \<Rightarrow> json \<Rightarrow> 'a option) option \<Rightarrow> 'a \<Rightarrow> 'w \<Rightarrow> 'a sdk_result \<times> 'w" where
  "putJSON N c path body out zero w =
     (case body of
        None \<Rightarrow> (Inl (OtherError (nt_MarshalError N)), w)
      | Some j \<Rightarrow>
          let url = cl_baseURL c @ path
          in case nt_BadURL N url of
               Some e \<Rightarrow> (Inl (OtherError e), w)
             | None \<Rightarrow> client_do N c
                 \<lparr>hq_Method = ''PUT'', hq_URL = url, hq_Header = [(''Content-Type'', ''application/json'')],
                  hq_Body = Some (json_print j)\<rparr> out zero w)"

definition list_params :: "sdk_ListOptions \<Rightarrow> (string \<times> string) list" where
  "list_params opts =
     (if lo_Environment opts = [] then [] else [(''environment'', lo_Environment opts)]) @
     (if go_lt 0 (lo_Limit opts) then [(''limit'', itoa (lo_Limit opts))] else []) @
     (if lo_Namespace opts = [] then [] else [(''namespace'', lo_Namespace opts)]) @
     (if lo_PageToken opts = [] then [] else [(''pageToken'', lo_PageToken opts)])"

definition sdk_ListDeployments :: "'w net \<Rightarrow> Client \<Rightarrow> sdk_ListOptions \<Rightarrow> 'w \<Rightarrow> sdk_DeploymentList sdk_result \<times> 'w" where
  "sdk_ListDeployments N c opts =
     client_get N c (''/api/v1/deployments?'' @ values_encode (list_params opts)) (into_struct deployment_list_fields)
       \<lparr>dl_Deployments = [], dl_NextPageToken = []\<rparr>"

definition sdk_Summary :: "'w net \<Rightarrow> Client \<Rightarrow> 'w \<Rightarrow> sdk_DeploymentCardSummary list sdk_result \<times> 'w" where
  "sdk_Summary N c = client_get N c ''/api/v1/deployments/summary'' (into_slice (into_struct card_fields) zero_sdk_card) []"

definition cluster_path :: "string \<Rightarrow> string \<Rightarrow> string \<Rightarrow> string" where
  "cluster_path env ns op = ''/api/v1/clusters/'' @ env @ ''/'' @ ns @ op"

definition ClusterState :: "'w net \<Rightarrow> Client \<Rightarrow> string \<Rightarrow> string \<Rightarrow> 'w \<Rightarrow> sdk_ClusterActorState sdk_result \<times> 'w" where
  "ClusterState N c env ns =
     client_get N c (cluster_path env ns ''/actor'') (into_struct cluster_state_fields)
       \<lparr>cs_Environment = [], cs_Namespace = [], cs_Frozen = False, cs_Reason = [], cs_Requester = [], cs_UpdatedAt = 0\<rparr>"

definition FreezeCluster ::
  "'w net \<Rightarrow> Client \<Rightarrow> string \<Rightarrow> string \<Rightarrow> ClusterCommandRequest \<Rightarrow> 'w \<Rightarrow> unit sdk_result \<times> 'w" where
  "FreezeCluster N c env ns req =
     postMutation N c (cluster_path env ns ''/freeze'') (json_ClusterCommandRequest req) [] None ()"

definition UnfreezeCluster ::
  "'w net \<Rightarrow> Client \<Rightarrow> string \<Rightarrow> string \<Rightarrow> ClusterCommandRequest \<Rightarrow> 'w \<Rightarrow> unit sdk_result \<times> 'w" where
  "UnfreezeCluster N c env ns req =
     postMutation N c (cluster_path env ns ''/unfreeze'') (json_ClusterCommandRequest req) [] None ()"

subsection \<open>Deployments\<close>

record Deployment =
  dep_client :: Client
  dep_Env :: string
  dep_Namespace :: string
  dep_Name :: string

definition client_Deployment :: "Client \<Rightarrow> string \<Rightarrow> string \<Rightarrow> string \<Rightarrow> Deployment" where
  "client_Deployment c env ns name = \<lparr>dep_client = c, dep_Env = env, dep_Namespace = ns, dep_Name = name\<rparr>"

definition deployment_path :: "Deployment \<Rightarrow> string \<Rightarrow> string" where
  "deployment_path d op = ''/api/v1/deployments/'' @ dep_Env d @ ''/'' @ dep_Namespace d @ ''/'' @ dep_Name d @ op"

definition Register :: "'w net \<Rightarrow> Deployment \<Rightarrow> RegisterRequest \<Rightarrow> 'w \<Rightarrow> RegisterResponse sdk_result \<times> 'w" where
  "Register N d req =
     putJSON N (dep_client d) (deployment_path d []) (json_RegisterRequest req) (Some (into_struct register_response_fields))
       \<lparr>rr_WorkflowID = []\<rparr>"

definition sdk_Status :: "'w net \<Rightarrow> Deployment \<Rightarrow> 'w \<Rightarrow> sdk_DeploymentActorView sdk_result \<times> 'w" where
  "sdk_Status N d = client_get N (dep_client d) (deployment_path d ''/actor'') (into_struct view_fields) zero_sdk_view"

definition sdk_Versions :: "'w net \<Rightarrow> Deployment \<Rightarrow> 'w \<Rightarrow> sdk_DeploymentVersion list sdk_result \<times> 'w" where
  "sdk_Versions N d =
     client_get N (dep_client d) (deployment_path d ''/versions'')
       (into_slice (into_struct version_fields) zero_DeploymentVersion) []"

text \<open>A command: a POST with a fresh key, whose answer is a command response.\<close>

definition post_command :: "'w net \<Rightarrow> Deployment \<Rightarrow> string \<Rightarrow> json option \<Rightarrow> 'w \<Rightarrow> CommandResponse sdk_result \<times> 'w" where
  "post_command N d op body =
     postMutation N (dep_client d) (deployment_path d op) body [] (Some (into_struct command_response_fields))
       \<lparr>cr_OperationID = [], cr_WorkflowID = [], cr_Status = []\<rparr>"

definition Deploy :: "'w net \<Rightarrow> Deployment \<Rightarrow> DeployRequest \<Rightarrow> 'w \<Rightarrow> CommandResponse sdk_result \<times> 'w" where
  "Deploy N d req = post_command N d ''/deploy'' (json_DeployRequest req)"

definition Scale :: "'w net \<Rightarrow> Deployment \<Rightarrow> ScaleRequest \<Rightarrow> 'w \<Rightarrow> CommandResponse sdk_result \<times> 'w" where
  "Scale N d req = post_command N d ''/scale'' (json_ScaleRequest req)"

definition Savepoint :: "'w net \<Rightarrow> Deployment \<Rightarrow> SimpleRequest \<Rightarrow> 'w \<Rightarrow> CommandResponse sdk_result \<times> 'w" where
  "Savepoint N d req = post_command N d ''/savepoint'' (json_SimpleRequest req)"

definition Suspend :: "'w net \<Rightarrow> Deployment \<Rightarrow> SimpleRequest \<Rightarrow> 'w \<Rightarrow> CommandResponse sdk_result \<times> 'w" where
  "Suspend N d req = post_command N d ''/suspend'' (json_SimpleRequest req)"

definition Resume :: "'w net \<Rightarrow> Deployment \<Rightarrow> SimpleRequest \<Rightarrow> 'w \<Rightarrow> CommandResponse sdk_result \<times> 'w" where
  "Resume N d req = post_command N d ''/resume'' (json_SimpleRequest req)"

definition Rollback :: "'w net \<Rightarrow> Deployment \<Rightarrow> RollbackRequest \<Rightarrow> 'w \<Rightarrow> CommandResponse sdk_result \<times> 'w" where
  "Rollback N d req = post_command N d ''/rollback'' (json_RollbackRequest req)"

definition EnableAutoscaler :: "'w net \<Rightarrow> Deployment \<Rightarrow> SimpleRequest \<Rightarrow> 'w \<Rightarrow> CommandResponse sdk_result \<times> 'w" where
  "EnableAutoscaler N d req = post_command N d ''/autoscaler/enable'' (json_SimpleRequest req)"

definition FreezeAutoscaler :: "'w net \<Rightarrow> Deployment \<Rightarrow> SimpleRequest \<Rightarrow> 'w \<Rightarrow> CommandResponse sdk_result \<times> 'w" where
  "FreezeAutoscaler N d req = post_command N d ''/autoscaler/freeze'' (json_SimpleRequest req)"

definition ContinueAsNew :: "'w net \<Rightarrow> Deployment \<Rightarrow> SimpleRequest \<Rightarrow> 'w \<Rightarrow> CommandResponse sdk_result \<times> 'w" where
  "ContinueAsNew N d req = post_command N d ''/continue-as-new'' (json_SimpleRequest req)"

subsection \<open>Waiting\<close>

text \<open>\<open>Duration.String\<close>: below a second in one unit, above it in hours, minutes and seconds.\<close>

definition duration_text :: "go_duration \<Rightarrow> string" where
  "duration_text d =
     (let u = nat \<bar>d\<bar>;
          part = (\<lambda>w n. nat_dec (n div 10 ^ w) @ fraction_digits w (n mod 10 ^ w));
          secs = u div 1000000000; mins = secs div 60; hours = mins div 60;
          body =
            (if u = 0 then ''0s''
             else if u < 1000 then nat_dec u @ ''ns''
             else if u < 1000000 then part 3 u @ [CHR 0xC2, CHR 0xB5, CHR ''s'']
             else if u < 1000000000 then part 6 u @ ''ms''
             else (if hours = 0 then [] else nat_dec hours @ ''h'') @
                  (if mins = 0 then [] else nat_dec (mins mod 60) @ ''m'') @
                  nat_dec (secs mod 60) @ fraction_digits 9 (u mod 1000000000) @ ''s'')
      in (if d < 0 then ''-'' else []) @ body)"

text \<open>The view and the error the wait returns; the text of the timeout's error names the status.\<close>

definition view_healthy :: "sdk_DeploymentActorView \<Rightarrow> bool" where
  "view_healthy v \<longleftrightarrow> (case kv_CurrentVersion v of None \<Rightarrow> False | Some x \<Rightarrow> hs_Healthy (ver_HealthSummary x))"

type_synonym wait_result = "sdk_DeploymentActorView option \<times> sdk_error option"

definition not_healthy :: "string \<Rightarrow> sdk_DeploymentActorView \<Rightarrow> sdk_error" where
  "not_healthy timeout_text v =
     OtherError (''cohestra: deployment not healthy after '' @ timeout_text @ '' (status='' @ kv_Status v @ '')'')"

text \<open>One turn: an answer, or the world after the pause.\<close>

definition wait_turn ::
  "'w net \<Rightarrow> Deployment \<Rightarrow> string \<Rightarrow> go_time \<Rightarrow> 'w \<Rightarrow> (wait_result \<times> 'w) + 'w" where
  "wait_turn N d timeout_text deadline w =
     (case sdk_Status N d w of
        (Inl e, w1) \<Rightarrow> Inl ((None, Some e), w1)
      | (Inr v, w1) \<Rightarrow>
          if view_healthy v then Inl ((Some v, None), w1)
          else case nt_Now N w1 of
              (now, w2) \<Rightarrow>
                if deadline < now then Inl ((Some v, Some (not_healthy timeout_text v)), w2)
                else case nt_Wait N (2 * go_second) w2 of
                    (Some e, w3) \<Rightarrow> Inl ((None, Some (OtherError e)), w3)
                  | (None, w3) \<Rightarrow> Inr w3)"

partial_function (option) wait_loop ::
  "'w net \<Rightarrow> Deployment \<Rightarrow> string \<Rightarrow> go_time \<Rightarrow> 'w \<Rightarrow> (wait_result \<times> 'w) option" where
  "wait_loop N d timeout_text deadline w =
     (case wait_turn N d timeout_text deadline w of
        Inl out \<Rightarrow> Some out
      | Inr w' \<Rightarrow> wait_loop N d timeout_text deadline w')"

definition WaitHealthy ::
  "'w net \<Rightarrow> Deployment \<Rightarrow> go_duration \<Rightarrow> 'w \<Rightarrow> (wait_result \<times> 'w) option" where
  "WaitHealthy N d timeout w =
     (case nt_Now N w of (now, w1) \<Rightarrow> wait_loop N d (duration_text timeout) (now + timeout) w1)"

subsection \<open>The autoscaler\<close>

text \<open>What the caller's evaluator answers: an error, no target, or a target.\<close>

type_synonym 'w evaluator = "sdk_DeploymentActorView \<Rightarrow> 'w \<Rightarrow> go_int option result \<times> 'w"

definition current_parallelism :: "sdk_DeploymentActorView \<Rightarrow> go_int" where
  "current_parallelism v = (case kv_CurrentVersion v of None \<Rightarrow> 0 | Some x \<Rightarrow> spec_Parallelism (ver_Spec x))"

definition autoscaler_request :: "go_int \<Rightarrow> ScaleRequest" where
  "autoscaler_request target =
     \<lparr>qs_Requester = ''autoscaler'', qs_Parallelism = target, qs_Approved = False, qs_Reason = ''autoscaler decision''\<rparr>"

text \<open>One tick. Errors go to the log only.\<close>

definition autoscaler_tick :: "'w net \<Rightarrow> Deployment \<Rightarrow> 'w evaluator \<Rightarrow> 'w \<Rightarrow> 'w" where
  "autoscaler_tick N d evaluator w =
     (case sdk_Status N d w of
        (Inl e, w1) \<Rightarrow> w1
      | (Inr v, w1) \<Rightarrow>
          if kv_AutoscalerFrozen v \<or> \<not> kv_AutoscalerEnabled v then w1
          else case evaluator v w1 of
              (Inl e, w2) \<Rightarrow> w2
            | (Inr None, w2) \<Rightarrow> w2
            | (Inr (Some target), w2) \<Rightarrow>
                if target = current_parallelism v then w2
                else snd (Scale N d (autoscaler_request target) w2))"

text \<open>What the \<open>select\<close> takes, one thing after the other: a tick, or the end of the context.\<close>

datatype autoscaler_event = Tick | ContextDone go_error

fun RunAutoscaler :: "'w net \<Rightarrow> Deployment \<Rightarrow> 'w evaluator \<Rightarrow> autoscaler_event list \<Rightarrow> 'w \<Rightarrow> go_error option \<times> 'w" where
  "RunAutoscaler N d evaluator [] w = (None, w)"
| "RunAutoscaler N d evaluator (ContextDone e # es) w = (Some e, w)"
| "RunAutoscaler N d evaluator (Tick # es) w = RunAutoscaler N d evaluator es (autoscaler_tick N d evaluator w)"

end
