(* ===== verification/Http.thy ===== *)
theory Http
  imports Json_Decode Page_Cursor
begin

text \<open>
  Requests and responses of Go's \<open>net/http\<close>, as far as the API server and the SDK use them, and the
  matching of paths by \<open>http.ServeMux\<close>.
\<close>

subsection \<open>Requests\<close>

text \<open>
  \<open>rq_Segments\<close> is the escaped path cut at its slashes after the first one, each part decoded; a
  trailing slash leaves an empty last part. \<open>rq_Path\<close> is the decoded path as a whole, and \<open>rq_Unclean\<close>
  the clean path if the escaped path has empty parts or dots, which \<open>ServeMux\<close> answers with a redirect.
  A body of unknown length has content length -1.
\<close>

record http_request =
  rq_Method :: string
  rq_Path :: string
  rq_Segments :: "string list"
  rq_Unclean :: "string option"
  rq_Query :: "(string \<times> string) list"
  rq_Header :: "(string \<times> string) list"
  rq_Cookies :: "(string \<times> string) list"
  rq_Body :: "string option"
  rq_ContentLength :: int

definition first_value :: "(string \<times> string) list \<Rightarrow> string \<Rightarrow> string" where
  "first_value kvs k = (case map_of kvs k of None \<Rightarrow> [] | Some v \<Rightarrow> v)"

definition query_get :: "http_request \<Rightarrow> string \<Rightarrow> string" where
  "query_get r k = first_value (rq_Query r) k"

definition header_get :: "http_request \<Rightarrow> string \<Rightarrow> string" where
  "header_get r k = first_value (rq_Header r) k"

definition cookie :: "http_request \<Rightarrow> string \<Rightarrow> string option" where
  "cookie r k = map_of (rq_Cookies r) k"

subsection \<open>Responses\<close>

text \<open>What a handler hands to the JSON encoder, and what else it can answer with. A panic in a handler
  is caught by the server, which closes the connection.\<close>

datatype json_reply =
  ReplyMap "(string \<times> string) list"
| ReplyView DeploymentActorView
| ReplyVersions "DeploymentVersion list"
| ReplyList DeploymentList
| ReplyCards "DeploymentCardSummary list"
| ReplyCluster ClusterActorState
| ReplyClusterCommand ClusterCommand

datatype content =
  CJson json_reply
| CFile string
| CText string
| CRedirect string
| CAborted

record set_cookie =
  ck_Name :: string
  ck_Value :: string
  ck_MaxAge :: int
  ck_HttpOnly :: bool

record http_response =
  rp_Status :: nat
  rp_Content :: content
  rp_Cookies :: "set_cookie list"

definition reply :: "nat \<Rightarrow> content \<Rightarrow> http_response" where
  "reply status c = \<lparr>rp_Status = status, rp_Content = c, rp_Cookies = []\<rparr>"

subsection \<open>Matching paths\<close>

datatype seg = Lit string | Wild string

text \<open>A wildcard stands for one part that is not empty. The bindings are the path values.\<close>

fun match_segs :: "seg list \<Rightarrow> string list \<Rightarrow> (string \<times> string) list option" where
  "match_segs [] [] = Some []"
| "match_segs (Lit l # ps) (s # ss) = (if s = l then match_segs ps ss else None)"
| "match_segs (Wild n # ps) (s # ss) =
     (if s = [] then None else map_option ((#) (n, s)) (match_segs ps ss))"
| "match_segs _ _ = None"

text \<open>A pattern is a path, or a path and everything below it.\<close>

datatype pattern = Exactly "seg list" | Below "seg list"

definition match_pattern :: "pattern \<Rightarrow> string list \<Rightarrow> (string \<times> string) list option" where
  "match_pattern p ss =
     (case p of
        Exactly ps \<Rightarrow> match_segs ps ss
      | Below ps \<Rightarrow> if length ps < length ss then match_segs ps (take (length ps) ss) else None)"

text \<open>A pattern for GET also serves HEAD.\<close>

definition method_matches :: "string \<Rightarrow> string \<Rightarrow> bool" where
  "method_matches pattern_method m \<longleftrightarrow> m = pattern_method \<or> pattern_method = ''GET'' \<and> m = ''HEAD''"

end
