(* ===== verification/Configuration.thy ===== *)
theory Configuration
  imports Json_Decode
begin

text \<open>
  The configuration (internal/config/config.go): defaults, then the YAML file, then the environment.
  The file system, the environment and the YAML decoder are arguments; \<open>time.ParseDuration\<close> and
  \<open>strconv.Atoi\<close> are functions of the standard library and written out. Warnings go to the log only.
\<close>

subsection \<open>Durations as text\<close>

text \<open>\<open>f * (unit / 10 ^ k)\<close> in floats, cut to a whole number.\<close>

definition f_trunc :: "float64 \<Rightarrow> nat" where
  "f_trunc x = (if 0 \<le> f_scale x then f_mant x * 2 ^ nat (f_scale x) else f_mant x div 2 ^ nat (- f_scale x))"

definition fraction_part :: "nat \<Rightarrow> nat \<Rightarrow> nat \<Rightarrow> nat" where
  "fraction_part f k unit = f_trunc (f_mul (f_of_int (int f)) (f_of_decimal False unit (- int k)))"

definition duration_unit :: "string \<Rightarrow> nat option" where
  "duration_unit u =
     (if u = ''ns'' then Some 1
      else if u = ''us'' \<or> u = [CHR 0xC2, CHR 0xB5, CHR ''s''] \<or> u = [CHR 0xCE, CHR 0xBC, CHR ''s''] then Some (10 ^ 3)
      else if u = ''ms'' then Some (10 ^ 6)
      else if u = ''s'' then Some (10 ^ 9)
      else if u = ''m'' then Some (60 * 10 ^ 9)
      else if u = ''h'' then Some (3600 * 10 ^ 9)
      else None)"

text \<open>Digits before the point: an error beyond two to the 63.\<close>

fun leading_int :: "nat \<Rightarrow> string \<Rightarrow> (nat \<times> string) option" where
  "leading_int x [] = Some (x, [])"
| "leading_int x (c # s) =
     (if \<not> is_digit c then Some (x, c # s)
      else if 2 ^ 63 div 10 < x then None
      else let y = x * 10 + (of_char c - 48) in if 2 ^ 63 < y then None else leading_int y s)"

text \<open>Digits after it: those that no longer fit are skipped. The second number is how many count.\<close>

fun leading_fraction :: "bool \<Rightarrow> nat \<Rightarrow> nat \<Rightarrow> string \<Rightarrow> nat \<times> nat \<times> string" where
  "leading_fraction full x k [] = (x, k, [])"
| "leading_fraction full x k (c # s) =
     (if \<not> is_digit c then (x, k, c # s)
      else if full \<or> (2 ^ 63 - 1) div 10 < x then leading_fraction True x k s
      else let y = x * 10 + (of_char c - 48)
           in if 2 ^ 63 < y then leading_fraction True x k s else leading_fraction False y (k + 1) s)"

definition number_char :: "char \<Rightarrow> bool" where
  "number_char c \<longleftrightarrow> c = CHR ''.'' \<or> is_digit c"

text \<open>One number with its unit; what it adds, and the rest.\<close>

definition duration_term :: "string \<Rightarrow> (nat \<times> string) option" where
  "duration_term s =
     (if s = [] \<or> \<not> number_char (hd s) then None
      else Option.bind (leading_int 0 s) (\<lambda>(v, s1).
        let (f, k, s2) = (if s1 \<noteq> [] \<and> hd s1 = CHR ''.'' then leading_fraction False 0 0 (tl s1) else (0, 0, s1));
            pre = (length s1 \<noteq> length s); post = (s1 \<noteq> [] \<and> hd s1 = CHR ''.'' \<and> length s2 \<noteq> length (tl s1));
            u = takeWhile (\<lambda>c. \<not> number_char c) s2
        in if \<not> pre \<and> \<not> post \<or> u = [] then None
           else Option.bind (duration_unit u) (\<lambda>unit.
             if 2 ^ 63 div unit < v then None
             else let w = v * unit + (if 0 < f then fraction_part f k unit else 0)
                  in if 2 ^ 63 < w then None else Some (w, dropWhile (\<lambda>c. \<not> number_char c) s2))))"

text \<open>Every term takes at least one character, so the length of the text is enough fuel.\<close>

fun duration_terms :: "nat \<Rightarrow> nat \<Rightarrow> string \<Rightarrow> nat option" where
  "duration_terms 0 d s = (if s = [] then Some d else None)"
| "duration_terms (Suc n) d s =
     (if s = [] then Some d
      else case duration_term s of
          None \<Rightarrow> None
        | Some (w, r) \<Rightarrow> if 2 ^ 63 < d + w then None else duration_terms n (d + w) r)"

definition parse_duration :: "string \<Rightarrow> go_duration option" where
  "parse_duration t =
     (let neg = (t \<noteq> [] \<and> hd t = CHR ''-'');
          s = (if t \<noteq> [] \<and> (hd t = CHR ''-'' \<or> hd t = CHR ''+'') then tl t else t)
      in if s = ''0'' then Some 0
         else if s = [] then None
         else case duration_terms (length s) 0 s of
             None \<Rightarrow> None
           | Some d \<Rightarrow> if neg then Some (- int d) else if 2 ^ 63 - 1 < d then None else Some (int d))"

subsection \<open>The configuration\<close>

record TemporalConfig =
  tm_Address :: string
  tm_Namespace :: string

record HTTPConfig =
  hp_Address :: string

record AuthConfig =
  ac_GoogleClientID :: string
  ac_GoogleClientSecret :: string
  ac_RedirectURL :: string

record ActorConfig =
  at_TaskQueue :: string
  at_ActivityTaskQueue :: string
  at_Shards :: go_int
  at_ContinueAfter :: go_int

record SimConfig =
  sm_Delay :: go_duration

record config_Config =
  cg_Temporal :: TemporalConfig
  cg_HTTP :: HTTPConfig
  cg_Auth :: AuthConfig
  cg_Actor :: ActorConfig
  cg_Simulator :: SimConfig

text \<open>A variable that is not set reads as the empty string. A file that cannot be read is an error. The
  decoder stores what it can read into the configuration, also when it ends with an error.\<close>

record process_env =
  pe_Getenv :: "string \<Rightarrow> string"
  pe_ReadFile :: "string \<Rightarrow> string result"
  pe_Unmarshal :: "string \<Rightarrow> config_Config \<Rightarrow> go_error option \<times> config_Config"

definition config_defaults :: config_Config where
  "config_defaults =
     \<lparr>cg_Temporal = \<lparr>tm_Address = ''localhost:7233'', tm_Namespace = ''default''\<rparr>,
      cg_HTTP = \<lparr>hp_Address = '':8080''\<rparr>,
      cg_Auth = \<lparr>ac_GoogleClientID = [], ac_GoogleClientSecret = [],
                 ac_RedirectURL = ''http://localhost:8080/auth/callback''\<rparr>,
      cg_Actor = \<lparr>at_TaskQueue = ''flink-control-actors'', at_ActivityTaskQueue = ''flink-control-activities'',
                  at_Shards = 1, at_ContinueAfter = 500\<rparr>,
      cg_Simulator = \<lparr>sm_Delay = 100 * 1000000\<rparr>\<rparr>"

definition loadFile :: "process_env \<Rightarrow> config_Config \<Rightarrow> config_Config" where
  "loadFile P cfg =
     (let path = pe_Getenv P ''COHESTRA_CONFIG'';
          path = (if path = [] then ''config.yaml'' else path)
      in case pe_ReadFile P path of
           Inl e \<Rightarrow> cfg
         | Inr data \<Rightarrow> snd (pe_Unmarshal P data cfg))"

definition envStr :: "process_env \<Rightarrow> string \<Rightarrow> string \<Rightarrow> string" where
  "envStr P key dst = (let v = pe_Getenv P key in if v \<noteq> [] then v else dst)"

definition envInt :: "process_env \<Rightarrow> string \<Rightarrow> go_int \<Rightarrow> go_int" where
  "envInt P key dst =
     (let v = pe_Getenv P key
      in if v \<noteq> [] then (case atoi v of Some parsed \<Rightarrow> parsed | None \<Rightarrow> dst) else dst)"

definition envDuration :: "process_env \<Rightarrow> string \<Rightarrow> go_duration \<Rightarrow> go_duration" where
  "envDuration P key dst =
     (let v = pe_Getenv P key
      in if v \<noteq> [] then (case parse_duration v of Some parsed \<Rightarrow> parsed | None \<Rightarrow> dst) else dst)"

definition applyEnv :: "process_env \<Rightarrow> config_Config \<Rightarrow> config_Config" where
  "applyEnv P cfg =
     (let t = cg_Temporal cfg; a = cg_Auth cfg; c = cg_Actor cfg
      in cfg\<lparr>cg_Temporal := t\<lparr>tm_Address := envStr P ''TEMPORAL_ADDRESS'' (tm_Address t),
                tm_Namespace := envStr P ''TEMPORAL_NAMESPACE'' (tm_Namespace t)\<rparr>,
             cg_HTTP := (cg_HTTP cfg)\<lparr>hp_Address := envStr P ''HTTP_ADDRESS'' (hp_Address (cg_HTTP cfg))\<rparr>,
             cg_Auth := a\<lparr>ac_GoogleClientID := envStr P ''GOOGLE_CLIENT_ID'' (ac_GoogleClientID a),
                ac_GoogleClientSecret := envStr P ''GOOGLE_CLIENT_SECRET'' (ac_GoogleClientSecret a),
                ac_RedirectURL := envStr P ''OAUTH_REDIRECT_URL'' (ac_RedirectURL a)\<rparr>,
             cg_Actor := c\<lparr>at_TaskQueue := envStr P ''ACTOR_TASK_QUEUE'' (at_TaskQueue c),
                at_ActivityTaskQueue := envStr P ''ACTIVITY_TASK_QUEUE'' (at_ActivityTaskQueue c),
                at_Shards := envInt P ''ACTOR_TASK_QUEUE_SHARDS'' (at_Shards c),
                at_ContinueAfter := envInt P ''CONTINUE_AS_NEW_AFTER'' (at_ContinueAfter c)\<rparr>,
             cg_Simulator := (cg_Simulator cfg)\<lparr>sm_Delay := envDuration P ''SIMULATION_DELAY''
                (sm_Delay (cg_Simulator cfg))\<rparr>\<rparr>)"

definition Load :: "process_env \<Rightarrow> config_Config" where
  "Load P = applyEnv P (loadFile P config_defaults)"

subsection \<open>The parser of durations\<close>

lemma leading_int_length: "leading_int x s = Some (v, r) \<Longrightarrow> length r \<le> length s"
proof (induction x s rule: leading_int.induct)
  case (2 x c s)
  then show ?case by (cases "is_digit c"; cases "2 ^ 63 div 10 < x"; cases "2 ^ 63 < x * 10 + (of_char c - 48)")
      (simp_all only: leading_int.simps Let_def if_True if_False simp_thms option.inject prod.inject option.distinct, auto)
qed simp

lemma leading_fraction_length: "leading_fraction full x k s = (f, j, r) \<Longrightarrow> length r \<le> length s"
proof (induction full x k s rule: leading_fraction.induct)
  case (2 full x k c s)
  let ?y = "x * 10 + (of_char c - 48)"
  consider "\<not> is_digit c" | "is_digit c" "full \<or> (2 ^ 63 - 1) div 10 < x"
    | "is_digit c" "\<not> (full \<or> (2 ^ 63 - 1) div 10 < x)" "2 ^ 63 < ?y"
    | "is_digit c" "\<not> (full \<or> (2 ^ 63 - 1) div 10 < x)" "\<not> 2 ^ 63 < ?y" by blast
  then show ?case
  proof cases
    case 1
    then show ?thesis using "2.prems" by auto
  next
    case two: 2
    then have "leading_fraction True x k s = (f, j, r)" using "2.prems" by (simp only: leading_fraction.simps simp_thms if_True if_False)
    from "2.IH"(1) [OF _ two(2) this] two(1) show ?thesis by simp
  next
    case 3
    then have "leading_fraction True x k s = (f, j, r)"
      using "2.prems" by (simp only: leading_fraction.simps simp_thms if_True if_False Let_def)
    from "2.IH"(2) [OF _ 3(2) refl 3(3) this] 3(1) show ?thesis by simp
  next
    case 4
    then have "leading_fraction False ?y (k + 1) s = (f, j, r)"
      using "2.prems" by (simp only: leading_fraction.simps simp_thms if_True if_False Let_def)
    from "2.IH"(3) [OF _ 4(2) refl 4(3) this] 4(1) show ?thesis by simp
  qed
qed simp

lemma duration_term_shrinks:
  assumes "duration_term s = Some (w, r)"
  shows "length r < length s"
proof -
  from assms obtain v s1 where v: "leading_int 0 s = Some (v, s1)"
    by (auto simp: duration_term_def bind_eq_Some_conv split: if_splits)
  let ?t = "if s1 \<noteq> [] \<and> hd s1 = CHR ''.'' then leading_fraction False 0 0 (tl s1) else (0, 0, s1)"
  obtain f k s2 where t: "?t = (f, k, s2)" by (cases ?t)
  from assms v t have u: "takeWhile (\<lambda>c. \<not> number_char c) s2 \<noteq> []" "r = dropWhile (\<lambda>c. \<not> number_char c) s2"
    unfolding duration_term_def by (auto simp: bind_eq_Some_conv Let_def simp del: takeWhile_eq_Nil_iff split: if_split_asm)
  have "length s2 = length (takeWhile (\<lambda>c. \<not> number_char c) s2) + length r"
    unfolding u(2) by (metis length_append takeWhile_dropWhile_id)
  then have "length r < length s2" using u(1) by simp
  also have "length s2 \<le> length s1" using t leading_fraction_length by (auto split: if_splits dest: leading_fraction_length)
  also have "\<dots> \<le> length s" by (rule leading_int_length [OF v])
  finally show ?thesis .
qed

lemma duration_fuel: "length s \<le> n \<Longrightarrow> duration_terms n d s = duration_terms (length s) d s"
proof (induction s arbitrary: n d rule: length_induct)
  case (1 s)
  show ?case
  proof (cases "s = []")
    case True
    then show ?thesis by (cases n) simp_all
  next
    case False
    then obtain n' m where nm: "n = Suc n'" "length s = Suc m" using "1.prems" by (cases n; cases s) auto
    show ?thesis
    proof (cases "duration_term s")
      case None
      with False show ?thesis by (simp only: nm duration_terms.simps option.case if_False)
    next
      case (Some y)
      obtain w r where y: "y = (w, r)" by (cases y)
      from duration_term_shrinks [OF Some [unfolded y]] have r: "length r < length s" .
      then have "duration_terms n' (d + w) r = duration_terms m (d + w) r"
        using "1.IH" [rule_format, OF r, of n' "d + w"] "1.IH" [rule_format, OF r, of m "d + w"] nm "1.prems" by simp
      with False Some y show ?thesis by (simp only: nm duration_terms.simps option.case prod.case if_False)
    qed
  qed
qed

lemma duration_terms_bound: "duration_terms n d s = Some e \<Longrightarrow> d \<le> 2 ^ 63 \<Longrightarrow> e \<le> 2 ^ 63"
  by (induction n d s rule: duration_terms.induct) (auto split: if_splits option.splits)

text \<open>A duration fits into 64 bits.\<close>

lemma parse_duration_range: "parse_duration t = Some d \<Longrightarrow> - (2 ^ 63) \<le> d \<and> d < 2 ^ 63"
  by (auto simp: parse_duration_def Let_def split: if_splits option.splits dest!: duration_terms_bound)

end
