(* ===== verification/Auth.thy ===== *)
theory Auth
  imports Http Digest Configuration
begin

text \<open>
  Authentication (internal/auth/auth.go): the OAuth configuration, the sessions in memory, the
  middleware in front of every handler and the three handlers of a login. The clock, the random
  source and the token exchange are functions of a state \<open>'w\<close> of the world.
\<close>

subsection \<open>State\<close>

record oauth_config =
  oc_ClientID :: string
  oc_ClientSecret :: string
  oc_RedirectURL :: string
  oc_Scopes :: "string list"

record auth_state =
  au_cfg :: "oauth_config option"
  au_sessions :: "(string, go_time) go_map"

record 'w auth_env =
  an_Now :: "'w \<Rightarrow> go_time \<times> 'w"
  an_Rand :: "nat \<Rightarrow> 'w \<Rightarrow> string \<times> 'w"
  an_AuthCodeURL :: "oauth_config \<Rightarrow> string \<Rightarrow> string"
  an_Exchange :: "oauth_config \<Rightarrow> string \<Rightarrow> 'w \<Rightarrow> go_error option \<times> 'w"

definition no_auth :: auth_state where
  "no_auth = \<lparr>au_cfg = None, au_sessions = Some []\<rparr>"

definition auth_init :: "AuthConfig \<Rightarrow> auth_state \<Rightarrow> auth_state" where
  "auth_init auth a =
     (if ac_GoogleClientID auth = [] then a
      else a\<lparr>au_cfg := Some
        \<lparr>oc_ClientID = ac_GoogleClientID auth, oc_ClientSecret = ac_GoogleClientSecret auth,
         oc_RedirectURL = (if ac_RedirectURL auth = [] then ''http://localhost:8080/auth/callback'' else ac_RedirectURL auth),
         oc_Scopes = [''openid'', ''email'']\<rparr>\<rparr>)"

definition Enabled :: "auth_state \<Rightarrow> bool" where
  "Enabled a \<longleftrightarrow> au_cfg a \<noteq> None"

definition isPublicPath :: "string \<Rightarrow> bool" where
  "isPublicPath path \<longleftrightarrow> path = ''/login'' \<or> path = ''/auth/login'' \<or> path = ''/auth/callback'' \<or>
     path = ''/auth/logout'' \<or> path = ''/healthz''"

definition randHex :: "'w auth_env \<Rightarrow> nat \<Rightarrow> 'w \<Rightarrow> string \<times> 'w" where
  "randHex E n w = (case an_Rand E n w of (b, w1) \<Rightarrow> (hex_encode b, w1))"

text \<open>A handler may not return, as the listing behind it may not.\<close>

type_synonym 'w handler = "http_request \<Rightarrow> auth_state \<times> 'w \<Rightarrow> (http_response \<times> auth_state \<times> 'w) option"

subsection \<open>The middleware\<close>

text \<open>Whether the request carries the cookie of a session that has not expired. Only then is the clock read.\<close>

definition session_check :: "'w auth_env \<Rightarrow> http_request \<Rightarrow> auth_state \<Rightarrow> 'w \<Rightarrow> bool \<times> 'w" where
  "session_check E r a w =
     (case cookie r ''cohestra_session'' of
        None \<Rightarrow> (False, w)
      | Some token \<Rightarrow>
          (case map_find (au_sessions a) token of
             None \<Rightarrow> (False, w)
           | Some expires \<Rightarrow> (case an_Now E w of (now, w1) \<Rightarrow> (now < expires, w1))))"

definition Middleware :: "'w auth_env \<Rightarrow> 'w handler \<Rightarrow> 'w handler" where
  "Middleware E handle r s =
     (case s of (a, w) \<Rightarrow>
       if \<not> Enabled a \<or> isPublicPath (rq_Path r) then handle r (a, w)
       else case session_check E r a w of
           (True, w1) \<Rightarrow> handle r (a, w1)
         | (False, w1) \<Rightarrow>
             if has_prefix (rq_Path r) ''/api/''
             then Some (reply 401 (CText ''{\"error\":\"unauthorized\"}''), (a, w1))
             else Some (reply 302 (CRedirect ''/login''), (a, w1)))"

subsection \<open>Logging in and out\<close>

definition OAuthStartHandler :: "'w auth_env \<Rightarrow> 'w handler" where
  "OAuthStartHandler E r s =
     (case s of (a, w) \<Rightarrow>
       (case au_cfg a of
          None \<Rightarrow> Some (reply 302 (CRedirect ''/''), (a, w))
        | Some cfg \<Rightarrow>
            (case randHex E 16 w of
               (state, w1) \<Rightarrow>
                 Some ((reply 302 (CRedirect (an_AuthCodeURL E cfg state)))
                   \<lparr>rp_Cookies := [\<lparr>ck_Name = ''cohestra_state'', ck_Value = state, ck_MaxAge = 0, ck_HttpOnly = True\<rparr>]\<rparr>,
                   (a, w1)))))"

text \<open>Without a configuration the exchange is called on a nil pointer, which panics.\<close>

definition OAuthCallbackHandler :: "'w auth_env \<Rightarrow> 'w handler" where
  "OAuthCallbackHandler E r s =
     (case s of (a, w) \<Rightarrow>
       if cookie r ''cohestra_state'' \<noteq> Some (query_get r ''state'')
       then Some (reply 400 (CText ''invalid state''), (a, w))
       else case au_cfg a of
           None \<Rightarrow> Some (reply 0 CAborted, (a, w))
         | Some cfg \<Rightarrow>
             (case an_Exchange E cfg (query_get r ''code'') w of
                (Some e, w1) \<Rightarrow> Some (reply 401 (CText (''token exchange failed: '' @ e)), (a, w1))
              | (None, w1) \<Rightarrow>
                  (case randHex E 32 w1 of
                     (token, w2) \<Rightarrow>
                       (case an_Now E w2 of
                          (now, w3) \<Rightarrow>
                            Some ((reply 302 (CRedirect ''/''))
                              \<lparr>rp_Cookies := [\<lparr>ck_Name = ''cohestra_session'', ck_Value = token, ck_MaxAge = 28800,
                                 ck_HttpOnly = True\<rparr>]\<rparr>,
                              (a\<lparr>au_sessions := map_put token (now + 480 * go_minute) (au_sessions a)\<rparr>, w3))))))"

definition LogoutHandler :: "'w handler" where
  "LogoutHandler r s =
     (case s of (a, w) \<Rightarrow>
       let a' = (case cookie r ''cohestra_session'' of
                   None \<Rightarrow> a
                 | Some token \<Rightarrow> a\<lparr>au_sessions := map_del token (au_sessions a)\<rparr>)
       in Some ((reply 302 (CRedirect ''/login''))
            \<lparr>rp_Cookies := [\<lparr>ck_Name = ''cohestra_session'', ck_Value = [], ck_MaxAge = - 1, ck_HttpOnly = False\<rparr>]\<rparr>,
            (a', w)))"

end
