(* ===== verification/Api_Server.thy ===== *)
theory Api_Server
  imports Auth
begin

text \<open>
  The HTTP API (internal/api/server.go, ui.go): the control service it needs as a record of
  functions, the routes, the decoding of requests and one handler per endpoint. The error texts of
  the JSON decoder are the library's, an argument of the definitions.
\<close>

subsection \<open>The control service behind the API\<close>

record 'w control =
  ctl_Now :: "'w \<Rightarrow> go_time \<times> 'w"
  ctl_EnsureDeploymentActor :: "DeploymentIdentity \<Rightarrow> Policy option \<Rightarrow> 'w \<Rightarrow> unit service_result \<times> 'w"
  ctl_SendCommand :: "DeploymentIdentity \<Rightarrow> DeploymentCommand \<Rightarrow> 'w \<Rightarrow> unit service_result \<times> 'w"
  ctl_ListDeployments :: "DeploymentListOptions \<Rightarrow> 'w \<Rightarrow> (DeploymentList service_result \<times> 'w) option"
  ctl_DescribeAll :: "'w \<Rightarrow> (DeploymentCardSummary list service_result \<times> 'w) option"
  ctl_Describe :: "DeploymentIdentity \<Rightarrow> 'w \<Rightarrow> DeploymentActorView service_result \<times> 'w"
  ctl_Versions :: "DeploymentIdentity \<Rightarrow> 'w \<Rightarrow> DeploymentVersion list service_result \<times> 'w"
  ctl_SetClusterFreeze :: "string \<Rightarrow> string \<Rightarrow> ClusterCommand \<Rightarrow> 'w \<Rightarrow> unit service_result \<times> 'w"
  ctl_DescribeCluster :: "string \<Rightarrow> string \<Rightarrow> 'w \<Rightarrow> ClusterActorState service_result \<times> 'w"
  ctl_DecodeError :: "string \<Rightarrow> string"

subsection \<open>Routes\<close>

datatype endpoint =
  EndUI | EndDocs | EndIndex | EndSwagger | EndLogin | EndOAuthStart | EndOAuthCallback | EndLogout | EndHealthz
| EndSummary | EndList | EndRegister | EndDescribe | EndVersions | EndDeploy | EndSimple CommandType
| EndRollback | EndScale | EndDescribeCluster | EndCluster ClusterCommandType

definition deployment_segs :: "seg list" where
  "deployment_segs =
     [Lit ''api'', Lit ''v1'', Lit ''deployments'', Wild ''env'', Wild ''namespace'', Wild ''name'']"

definition cluster_segs :: "seg list" where
  "cluster_segs = [Lit ''api'', Lit ''v1'', Lit ''clusters'', Wild ''env'', Wild ''namespace'']"

text \<open>No two patterns but the two catch-alls of the user interface match the same path, so the order
  only matters at the end, where the general ones stand.\<close>

definition routes :: "(string \<times> pattern \<times> endpoint) list" where
  "routes =
     [(''GET'', Exactly [Lit ''docs''], EndDocs),
      (''GET'', Exactly [Lit ''swagger''], EndSwagger),
      (''GET'', Exactly [Lit ''login''], EndLogin),
      (''GET'', Exactly [Lit ''auth'', Lit ''login''], EndOAuthStart),
      (''GET'', Exactly [Lit ''auth'', Lit ''callback''], EndOAuthCallback),
      (''GET'', Exactly [Lit ''auth'', Lit ''logout''], EndLogout),
      (''GET'', Exactly [Lit ''healthz''], EndHealthz),
      (''GET'', Exactly [Lit ''api'', Lit ''v1'', Lit ''deployments'', Lit ''summary''], EndSummary),
      (''GET'', Exactly [Lit ''api'', Lit ''v1'', Lit ''deployments''], EndList),
      (''PUT'', Exactly deployment_segs, EndRegister),
      (''GET'', Exactly (deployment_segs @ [Lit ''actor'']), EndDescribe),
      (''GET'', Exactly (deployment_segs @ [Lit ''versions'']), EndVersions),
      (''POST'', Exactly (deployment_segs @ [Lit ''deploy'']), EndDeploy),
      (''POST'', Exactly (deployment_segs @ [Lit ''savepoint'']), EndSimple CommandRequestSavepoint),
      (''POST'', Exactly (deployment_segs @ [Lit ''suspend'']), EndSimple CommandSuspend),
      (''POST'', Exactly (deployment_segs @ [Lit ''resume'']), EndSimple CommandResume),
      (''POST'', Exactly (deployment_segs @ [Lit ''rollback'']), EndRollback),
      (''POST'', Exactly (deployment_segs @ [Lit ''scale'']), EndScale),
      (''POST'', Exactly (deployment_segs @ [Lit ''autoscaler'', Lit ''enable'']), EndSimple CommandEnableAutoscaler),
      (''POST'', Exactly (deployment_segs @ [Lit ''autoscaler'', Lit ''freeze'']), EndSimple CommandFreezeAutoscaler),
      (''POST'', Exactly (deployment_segs @ [Lit ''continue-as-new'']), EndSimple CommandContinueAsNew),
      (''GET'', Exactly (cluster_segs @ [Lit ''actor'']), EndDescribeCluster),
      (''POST'', Exactly (cluster_segs @ [Lit ''freeze'']), EndCluster ClusterFreeze),
      (''POST'', Exactly (cluster_segs @ [Lit ''unfreeze'']), EndCluster ClusterUnfreeze),
      (''GET'', Below [Lit ''ui''], EndUI),
      (''GET'', Below [], EndIndex)]"

fun find_route :: "(string \<times> pattern \<times> endpoint) list \<Rightarrow> string \<Rightarrow> string list \<Rightarrow>
    (endpoint \<times> (string \<times> string) list) option" where
  "find_route [] m ss = None"
| "find_route ((rm, p, e) # rs) m ss =
     (if method_matches rm m then
        (case match_pattern p ss of Some b \<Rightarrow> Some (e, b) | None \<Rightarrow> find_route rs m ss)
      else find_route rs m ss)"

subsection \<open>Requests\<close>

record simpleRequest =
  sr_Requester :: string
  sr_Approved :: bool
  sr_Incident :: bool
  sr_Reason :: string

record registrationRequest =
  rg_Owner :: string
  rg_ServiceAccount :: string
  rg_NodePool :: string
  rg_FlinkDashboardURL :: string
  rg_Policy :: "Policy option"

record deployRequest =
  dr_Requester :: string
  dr_Approved :: bool
  dr_Incident :: bool
  dr_Reason :: string
  dr_Spec :: DeploymentSpec

record rollbackRequest =
  rb_Requester :: string
  rb_TargetVersion :: go_int
  rb_Reason :: string
  rb_Approved :: bool

record scaleRequest =
  sq_Requester :: string
  sq_Parallelism :: go_int
  sq_Approved :: bool
  sq_Reason :: string

definition simple_fields :: "simpleRequest field list" where
  "simple_fields =
     [(''requester'', \<lambda>v r. map_option (\<lambda>x. r\<lparr>sr_Requester := x\<rparr>) (into_string (sr_Requester r) v)),
      (''approved'', \<lambda>v r. map_option (\<lambda>x. r\<lparr>sr_Approved := x\<rparr>) (into_bool (sr_Approved r) v)),
      (''incident'', \<lambda>v r. map_option (\<lambda>x. r\<lparr>sr_Incident := x\<rparr>) (into_bool (sr_Incident r) v)),
      (''reason'', \<lambda>v r. map_option (\<lambda>x. r\<lparr>sr_Reason := x\<rparr>) (into_string (sr_Reason r) v))]"

definition registration_fields :: "registrationRequest field list" where
  "registration_fields =
     [(''owner'', \<lambda>v r. map_option (\<lambda>x. r\<lparr>rg_Owner := x\<rparr>) (into_string (rg_Owner r) v)),
      (''serviceAccount'', \<lambda>v r. map_option (\<lambda>x. r\<lparr>rg_ServiceAccount := x\<rparr>) (into_string (rg_ServiceAccount r) v)),
      (''nodePool'', \<lambda>v r. map_option (\<lambda>x. r\<lparr>rg_NodePool := x\<rparr>) (into_string (rg_NodePool r) v)),
      (''flinkDashboardUrl'', \<lambda>v r. map_option (\<lambda>x. r\<lparr>rg_FlinkDashboardURL := x\<rparr>) (into_string (rg_FlinkDashboardURL r) v)),
      (''policy'', \<lambda>v r. map_option (\<lambda>x. r\<lparr>rg_Policy := x\<rparr>) (into_policy True (rg_Policy r) v))]"

definition deploy_fields :: "deployRequest field list" where
  "deploy_fields =
     [(''requester'', \<lambda>v r. map_option (\<lambda>x. r\<lparr>dr_Requester := x\<rparr>) (into_string (dr_Requester r) v)),
      (''approved'', \<lambda>v r. map_option (\<lambda>x. r\<lparr>dr_Approved := x\<rparr>) (into_bool (dr_Approved r) v)),
      (''incident'', \<lambda>v r. map_option (\<lambda>x. r\<lparr>dr_Incident := x\<rparr>) (into_bool (dr_Incident r) v)),
      (''reason'', \<lambda>v r. map_option (\<lambda>x. r\<lparr>dr_Reason := x\<rparr>) (into_string (dr_Reason r) v)),
      (''spec'', \<lambda>v r. map_option (\<lambda>x. r\<lparr>dr_Spec := x\<rparr>) (decode_struct True (spec_fields True) v (dr_Spec r)))]"

definition rollback_fields :: "rollbackRequest field list" where
  "rollback_fields =
     [(''requester'', \<lambda>v r. map_option (\<lambda>x. r\<lparr>rb_Requester := x\<rparr>) (into_string (rb_Requester r) v)),
      (''targetVersion'', \<lambda>v r. map_option (\<lambda>x. r\<lparr>rb_TargetVersion := x\<rparr>) (into_int (rb_TargetVersion r) v)),
      (''reason'', \<lambda>v r. map_option (\<lambda>x. r\<lparr>rb_Reason := x\<rparr>) (into_string (rb_Reason r) v)),
      (''approved'', \<lambda>v r. map_option (\<lambda>x. r\<lparr>rb_Approved := x\<rparr>) (into_bool (rb_Approved r) v))]"

definition scale_fields :: "scaleRequest field list" where
  "scale_fields =
     [(''requester'', \<lambda>v r. map_option (\<lambda>x. r\<lparr>sq_Requester := x\<rparr>) (into_string (sq_Requester r) v)),
      (''parallelism'', \<lambda>v r. map_option (\<lambda>x. r\<lparr>sq_Parallelism := x\<rparr>) (into_int (sq_Parallelism r) v)),
      (''approved'', \<lambda>v r. map_option (\<lambda>x. r\<lparr>sq_Approved := x\<rparr>) (into_bool (sq_Approved r) v)),
      (''reason'', \<lambda>v r. map_option (\<lambda>x. r\<lparr>sq_Reason := x\<rparr>) (into_string (sq_Reason r) v))]"

definition zero_simple :: simpleRequest where
  "zero_simple = \<lparr>sr_Requester = [], sr_Approved = False, sr_Incident = False, sr_Reason = []\<rparr>"
definition zero_registration :: registrationRequest where
  "zero_registration =
     \<lparr>rg_Owner = [], rg_ServiceAccount = [], rg_NodePool = [], rg_FlinkDashboardURL = [], rg_Policy = None\<rparr>"
definition zero_deploy :: deployRequest where
  "zero_deploy =
     \<lparr>dr_Requester = [], dr_Approved = False, dr_Incident = False, dr_Reason = [], dr_Spec = zero_DeploymentSpec\<rparr>"
definition zero_rollback :: rollbackRequest where
  "zero_rollback = \<lparr>rb_Requester = [], rb_TargetVersion = 0, rb_Reason = [], rb_Approved = False\<rparr>"
definition zero_scale :: scaleRequest where
  "zero_scale = \<lparr>sq_Requester = [], sq_Parallelism = 0, sq_Approved = False, sq_Reason = []\<rparr>"

text \<open>At most one mebibyte of the body is read, and of that one value; unknown fields are refused.\<close>

definition decode :: "'w control \<Rightarrow> http_request \<Rightarrow> 'r field list \<Rightarrow> 'r \<Rightarrow> 'r result" where
  "decode C r fs target =
     (case rq_Body r of
        None \<Rightarrow> Inl ''request body is required''
      | Some body \<Rightarrow>
          let limited = take 1048576 body
          in case Option.bind (json_prefix limited) (\<lambda>v. decode_struct True fs v target) of
               None \<Rightarrow> Inl (ctl_DecodeError C limited)
             | Some x \<Rightarrow> Inr x)"

definition decodeOptional :: "'w control \<Rightarrow> http_request \<Rightarrow> 'r field list \<Rightarrow> 'r \<Rightarrow> 'r result" where
  "decodeOptional C r fs target =
     (if rq_Body r = None \<or> rq_ContentLength r = 0 then Inr target else decode C r fs target)"

subsection \<open>Replies and commands\<close>

definition writeJSON :: "nat \<Rightarrow> json_reply \<Rightarrow> http_response" where
  "writeJSON status v = reply status (CJson v)"

definition writeError :: "nat \<Rightarrow> string \<Rightarrow> http_response" where
  "writeError status e = writeJSON status (ReplyMap [(''error'', e)])"

text \<open>The reply to an error of the control service that is not told apart.\<close>

definition bad_gateway :: "service_error \<Rightarrow> http_response" where
  "bad_gateway e = (if e = Panicked then reply 0 CAborted else writeError 502 (error_text e))"

definition path_value :: "(string \<times> string) list \<Rightarrow> string \<Rightarrow> string" where
  "path_value b k = first_value b k"

definition identityFrom :: "(string \<times> string) list \<Rightarrow> string \<Rightarrow> string \<Rightarrow> string \<Rightarrow> DeploymentIdentity" where
  "identityFrom b owner serviceAccount nodePool =
     \<lparr>id_Environment = path_value b ''env'', id_Namespace = path_value b ''namespace'', id_Name = path_value b ''name'',
      id_Owner = owner, id_ServiceAccount = serviceAccount, id_NodePool = nodePool, id_FlinkDashboardURL = []\<rparr>"

definition validateIdentity :: "DeploymentIdentity \<Rightarrow> unit result" where
  "validateIdentity identity =
     (if trim_space (id_Environment identity) = [] \<or> trim_space (id_Namespace identity) = [] \<or>
         trim_space (id_Name identity) = []
      then Inl ''environment, namespace, and name are required'' else Inr ())"

definition baseCommand ::
  "'w control \<Rightarrow> http_request \<Rightarrow> CommandType \<Rightarrow> string \<Rightarrow> 'w \<Rightarrow> DeploymentCommand result \<times> 'w" where
  "baseCommand C r commandType requester w =
     (let key = trim_space (header_get r ''Idempotency-Key'')
      in if key = [] then (Inl ''Idempotency-Key header is required'', w)
         else case ctl_Now C w of
             (now, w1) \<Rightarrow>
               (Inr \<lparr>cmd_OperationID = key, cmd_IdempotencyKey = key, cmd_Type = commandType,
                     cmd_Requester = (if requester = [] then ''api'' else requester), cmd_RequestedAt = now,
                     cmd_TargetSpec = None, cmd_TargetVersion = 0, cmd_Parallelism = 0, cmd_Approved = False,
                     cmd_Incident = False, cmd_Reason = []\<rparr>, w1))"

definition send_identity :: "http_request \<Rightarrow> (string \<times> string) list \<Rightarrow> DeploymentIdentity" where
  "send_identity r b =
     (let pool = query_get r ''nodePool'' in identityFrom b [] [] (if pool = [] then ''default'' else pool))"

definition send ::
  "'w control \<Rightarrow> http_request \<Rightarrow> (string \<times> string) list \<Rightarrow> DeploymentCommand \<Rightarrow> 'w \<Rightarrow> http_response \<times> 'w" where
  "send C r b command w =
     (let identity = send_identity r b
      in case ctl_SendCommand C identity command w of
           (Inl (ClusterFrozenError requester reason), w1) \<Rightarrow>
             (writeError 409 (error_text (ClusterFrozenError requester reason)), w1)
         | (Inl e, w1) \<Rightarrow> (bad_gateway e, w1)
         | (Inr _, w1) \<Rightarrow>
             (writeJSON 202 (ReplyMap [(''operationId'', cmd_OperationID command), (''status'', ''QUEUED''),
                (''workflowId'', WorkflowID identity)]), w1))"

text \<open>Decode, make the command, fill it in, send it.\<close>

definition command_handler ::
  "'w control \<Rightarrow> http_request \<Rightarrow> (string \<times> string) list \<Rightarrow> 'r result \<Rightarrow> CommandType \<Rightarrow> ('r \<Rightarrow> string) \<Rightarrow>
   ('r \<Rightarrow> DeploymentCommand \<Rightarrow> DeploymentCommand) \<Rightarrow> 'w \<Rightarrow> http_response \<times> 'w" where
  "command_handler C r b decoded commandType requester fill w =
     (case decoded of
        Inl e \<Rightarrow> (writeError 400 e, w)
      | Inr request \<Rightarrow>
          (case baseCommand C r commandType (requester request) w of
             (Inl e, w1) \<Rightarrow> (writeError 400 e, w1)
           | (Inr command, w1) \<Rightarrow> send C r b (fill request command) w1))"

subsection \<open>The handlers\<close>

definition deploymentSummary :: "'w control \<Rightarrow> 'w \<Rightarrow> (http_response \<times> 'w) option" where
  "deploymentSummary C w =
     (case ctl_DescribeAll C w of
        None \<Rightarrow> None
      | Some (Inl e, w1) \<Rightarrow> Some (bad_gateway e, w1)
      | Some (Inr cards, w1) \<Rightarrow> Some (writeJSON 200 (ReplyCards cards), w1))"

text \<open>The limit of a list request: 100 unless given, and then between 1 and 500.\<close>

definition request_limit :: "http_request \<Rightarrow> go_int result" where
  "request_limit r =
     (let value = trim_space (query_get r ''limit'')
      in if value = [] then Inr 100
         else case atoi value of
             None \<Rightarrow> Inl ''limit must be between 1 and 500''
           | Some parsed \<Rightarrow>
               if go_lt parsed 1 \<or> go_lt 500 parsed then Inl ''limit must be between 1 and 500'' else Inr parsed)"

definition listDeployments :: "'w control \<Rightarrow> http_request \<Rightarrow> 'w \<Rightarrow> (http_response \<times> 'w) option" where
  "listDeployments C r w =
     (case request_limit r of
        Inl e \<Rightarrow> Some (writeError 400 e, w)
      | Inr limit \<Rightarrow>
          (case ctl_ListDeployments C
             \<lparr>lo_Environment = trim_space (query_get r ''environment''),
              lo_Namespace = trim_space (query_get r ''namespace''), lo_Limit = limit,
              lo_PageToken = trim_space (query_get r ''pageToken'')\<rparr> w of
             None \<Rightarrow> None
           | Some (Inl InvalidDeploymentPageToken, w1) \<Rightarrow> Some (writeError 400 (error_text InvalidDeploymentPageToken), w1)
           | Some (Inl e, w1) \<Rightarrow> Some (bad_gateway e, w1)
           | Some (Inr result, w1) \<Rightarrow> Some (writeJSON 200 (ReplyList result), w1)))"

definition describeCluster :: "'w control \<Rightarrow> (string \<times> string) list \<Rightarrow> 'w \<Rightarrow> http_response \<times> 'w" where
  "describeCluster C b w =
     (case ctl_DescribeCluster C (path_value b ''env'') (path_value b ''namespace'') w of
        (Inl e, w1) \<Rightarrow> (bad_gateway e, w1)
      | (Inr state, w1) \<Rightarrow> (writeJSON 200 (ReplyCluster state), w1))"

definition clusterCommand ::
  "'w control \<Rightarrow> ClusterCommandType \<Rightarrow> http_request \<Rightarrow> (string \<times> string) list \<Rightarrow> 'w \<Rightarrow> http_response \<times> 'w" where
  "clusterCommand C commandType r b w =
     (case decode C r simple_fields zero_simple of
        Inl e \<Rightarrow> (writeError 400 e, w)
      | Inr request \<Rightarrow>
          (case ctl_Now C w of
             (now, w1) \<Rightarrow>
               let command = \<lparr>cc_Type = commandType,
                     cc_Requester = (if sr_Requester request = [] then ''api'' else sr_Requester request),
                     cc_Reason = sr_Reason request, cc_At = now\<rparr>
               in case ctl_SetClusterFreeze C (path_value b ''env'') (path_value b ''namespace'') command w1 of
                    (Inl e, w2) \<Rightarrow> (bad_gateway e, w2)
                  | (Inr _, w2) \<Rightarrow> (writeJSON 202 (ReplyClusterCommand command), w2)))"

definition register :: "'w control \<Rightarrow> http_request \<Rightarrow> (string \<times> string) list \<Rightarrow> 'w \<Rightarrow> http_response \<times> 'w" where
  "register C r b w =
     (case decodeOptional C r registration_fields zero_registration of
        Inl e \<Rightarrow> (writeError 400 e, w)
      | Inr request \<Rightarrow>
          let identity = (identityFrom b (rg_Owner request) (rg_ServiceAccount request) (rg_NodePool request))
                \<lparr>id_FlinkDashboardURL := trim_space (rg_FlinkDashboardURL request)\<rparr>
          in case validateIdentity identity of
               Inl e \<Rightarrow> (writeError 400 e, w)
             | Inr _ \<Rightarrow>
                 (case ctl_EnsureDeploymentActor C identity (rg_Policy request) w of
                    (Inl e, w1) \<Rightarrow> (bad_gateway e, w1)
                  | (Inr _, w1) \<Rightarrow> (writeJSON 201 (ReplyMap [(''workflowId'', WorkflowID identity)]), w1)))"

definition describe :: "'w control \<Rightarrow> (string \<times> string) list \<Rightarrow> 'w \<Rightarrow> http_response \<times> 'w" where
  "describe C b w =
     (case ctl_Describe C (identityFrom b [] [] ''default'') w of
        (Inl e, w1) \<Rightarrow> (bad_gateway e, w1)
      | (Inr v, w1) \<Rightarrow> (writeJSON 200 (ReplyView v), w1))"

definition versions :: "'w control \<Rightarrow> (string \<times> string) list \<Rightarrow> 'w \<Rightarrow> http_response \<times> 'w" where
  "versions C b w =
     (case ctl_Versions C (identityFrom b [] [] ''default'') w of
        (Inl e, w1) \<Rightarrow> (bad_gateway e, w1)
      | (Inr vs, w1) \<Rightarrow> (writeJSON 200 (ReplyVersions vs), w1))"

definition deployHandler :: "'w control \<Rightarrow> http_request \<Rightarrow> (string \<times> string) list \<Rightarrow> 'w \<Rightarrow> http_response \<times> 'w" where
  "deployHandler C r b =
     command_handler C r b (decode C r deploy_fields zero_deploy) CommandDeployVersion dr_Requester
       (\<lambda>request command. command\<lparr>cmd_Approved := dr_Approved request, cmd_Incident := dr_Incident request,
          cmd_Reason := dr_Reason request, cmd_TargetSpec := Some (dr_Spec request)\<rparr>)"

definition simpleCommand ::
  "'w control \<Rightarrow> CommandType \<Rightarrow> http_request \<Rightarrow> (string \<times> string) list \<Rightarrow> 'w \<Rightarrow> http_response \<times> 'w" where
  "simpleCommand C commandType r b =
     command_handler C r b (decodeOptional C r simple_fields zero_simple) commandType sr_Requester
       (\<lambda>request command. command\<lparr>cmd_Approved := sr_Approved request, cmd_Incident := sr_Incident request,
          cmd_Reason := sr_Reason request\<rparr>)"

definition rollbackHandler :: "'w control \<Rightarrow> http_request \<Rightarrow> (string \<times> string) list \<Rightarrow> 'w \<Rightarrow> http_response \<times> 'w" where
  "rollbackHandler C r b =
     command_handler C r b (decode C r rollback_fields zero_rollback) CommandRollback rb_Requester
       (\<lambda>request command. command\<lparr>cmd_TargetVersion := rb_TargetVersion request,
          cmd_Approved := rb_Approved request, cmd_Reason := rb_Reason request\<rparr>)"

definition positive_scale :: "scaleRequest result \<Rightarrow> scaleRequest result" where
  "positive_scale decoded =
     (case decoded of
        Inl e \<Rightarrow> Inl e
      | Inr request \<Rightarrow> if go_le (sq_Parallelism request) 0 then Inl ''parallelism must be positive'' else Inr request)"

definition scaleHandler :: "'w control \<Rightarrow> http_request \<Rightarrow> (string \<times> string) list \<Rightarrow> 'w \<Rightarrow> http_response \<times> 'w" where
  "scaleHandler C r b =
     command_handler C r b (positive_scale (decode C r scale_fields zero_scale)) CommandScaleTo sq_Requester
       (\<lambda>request command. command\<lparr>cmd_Parallelism := sq_Parallelism request,
          cmd_Approved := sq_Approved request, cmd_Reason := sq_Reason request\<rparr>)"

subsection \<open>The server\<close>

text \<open>An API endpoint works on the world only.\<close>

definition api_endpoint ::
  "'w control \<Rightarrow> endpoint \<Rightarrow> http_request \<Rightarrow> (string \<times> string) list \<Rightarrow> 'w \<Rightarrow> (http_response \<times> 'w) option" where
  "api_endpoint C e r b w =
     (case e of
        EndHealthz \<Rightarrow> Some (writeJSON 200 (ReplyMap [(''status'', ''ok'')]), w)
      | EndSummary \<Rightarrow> deploymentSummary C w
      | EndList \<Rightarrow> listDeployments C r w
      | EndRegister \<Rightarrow> Some (register C r b w)
      | EndDescribe \<Rightarrow> Some (describe C b w)
      | EndVersions \<Rightarrow> Some (versions C b w)
      | EndDeploy \<Rightarrow> Some (deployHandler C r b w)
      | EndSimple t \<Rightarrow> Some (simpleCommand C t r b w)
      | EndRollback \<Rightarrow> Some (rollbackHandler C r b w)
      | EndScale \<Rightarrow> Some (scaleHandler C r b w)
      | EndDescribeCluster \<Rightarrow> Some (describeCluster C b w)
      | EndCluster t \<Rightarrow> Some (clusterCommand C t r b w)
      | EndDocs \<Rightarrow> Some (reply 200 (CFile ''web/docs.html''), w)
      | EndLogin \<Rightarrow> Some (reply 200 (CFile ''web/login.html''), w)
      | EndSwagger \<Rightarrow> Some (reply 301 (CRedirect ''/docs''), w)
      | EndUI \<Rightarrow> Some (reply 200 (CFile (''web'' @ drop 3 (rq_Path r))), w)
      | EndIndex \<Rightarrow>
          Some (if rq_Path r = ''/'' then reply 200 (CFile ''web/index.html'') else reply 404 (CText ''404 page not found''), w)
      | _ \<Rightarrow> None)"

definition dispatch_endpoint ::
  "'w auth_env \<Rightarrow> 'w control \<Rightarrow> endpoint \<Rightarrow> (string \<times> string) list \<Rightarrow> 'w handler" where
  "dispatch_endpoint E C e b r s =
     (case e of
        EndOAuthStart \<Rightarrow> OAuthStartHandler E r s
      | EndOAuthCallback \<Rightarrow> OAuthCallbackHandler E r s
      | EndLogout \<Rightarrow> LogoutHandler r s
      | _ \<Rightarrow>
          (case s of (a, w) \<Rightarrow>
            (case api_endpoint C e r b w of None \<Rightarrow> None | Some (rp, w1) \<Rightarrow> Some (rp, (a, w1)))))"

text \<open>The mux: an unclean path and the root of the file server are redirected; every path is known for
  GET, so what is not found is known with another method.\<close>

definition mux :: "'w auth_env \<Rightarrow> 'w control \<Rightarrow> 'w handler" where
  "mux E C r s =
     (case rq_Unclean r of
        Some target \<Rightarrow> Some (reply 301 (CRedirect target), s)
      | None \<Rightarrow>
          if rq_Segments r = [''ui''] \<and> method_matches ''GET'' (rq_Method r)
          then Some (reply 301 (CRedirect ''/ui/''), s)
          else case find_route routes (rq_Method r) (rq_Segments r) of
              Some (e, b) \<Rightarrow> dispatch_endpoint E C e b r s
            | None \<Rightarrow> Some (reply 405 (CText ''Method Not Allowed''), s))"

text \<open>The request logger only writes to the log.\<close>

definition Handler :: "'w auth_env \<Rightarrow> 'w control \<Rightarrow> 'w handler" where
  "Handler E C = Middleware E (mux E C)"

end
