(* ===== verification/Api_Control.thy ===== *)
theory Api_Control
  imports Api_Server Deployment_Listing
begin

text \<open>
  What the API promises when the control service keeps its side. The interface is the locale
  \<open>control_service\<close>: which signals its operations send. It is discharged by the service itself
  (control/service.go), and the properties speak about the whole stack, from the request to the
  signal.
\<close>

subsection \<open>The interface\<close>

type_synonym signal = "string \<times> string \<times> signal_arg"

definition command_signal :: "DeploymentIdentity \<Rightarrow> DeploymentCommand \<Rightarrow> signal" where
  "command_signal d c = (WorkflowID d, ''deployment-command'', DeploymentSignal c)"

definition cluster_signal :: "string \<Rightarrow> string \<Rightarrow> ClusterCommand \<Rightarrow> signal" where
  "cluster_signal env ns c =
     (ClusterActorState_WorkflowID (new_cluster_state env ns), ''cluster-command'', ClusterSignal c)"

text \<open>What a request to an endpoint asks for.\<close>

fun command_type :: "endpoint \<Rightarrow> CommandType option" where
  "command_type EndDeploy = Some CommandDeployVersion"
| "command_type (EndSimple t) = Some t"
| "command_type EndRollback = Some CommandRollback"
| "command_type EndScale = Some CommandScaleTo"
| "command_type _ = None"

definition request_key :: "http_request \<Rightarrow> string" where
  "request_key r = trim_space (header_get r ''Idempotency-Key'')"

definition asks :: "endpoint \<Rightarrow> http_request \<Rightarrow> (string \<times> string) list \<Rightarrow> signal \<Rightarrow> bool" where
  "asks e r b sig \<longleftrightarrow>
     (\<exists>c t. command_type e = Some t \<and> sig = command_signal (send_identity r b) c \<and> cmd_Type c = t \<and>
        cmd_OperationID c = request_key r \<and> cmd_IdempotencyKey c = request_key r \<and> request_key r \<noteq> []) \<or>
     (\<exists>c t. e = EndCluster t \<and> sig = cluster_signal (path_value b ''env'') (path_value b ''namespace'') c \<and> cc_Type c = t)"

locale control_service =
  fixes C :: "'w control" and sent :: "'w \<Rightarrow> signal list"
  assumes send_signals: "ctl_SendCommand C d c w = (x, w') \<Longrightarrow>
      sent w' = sent w @ [command_signal d c] \<or> sent w' = sent w \<and> x \<noteq> Inr ()"
    and freeze_signals: "ctl_SetClusterFreeze C env ns k w = (x, w') \<Longrightarrow>
      sent w' = sent w @ [cluster_signal env ns k] \<or> sent w' = sent w \<and> x \<noteq> Inr ()"
    and now_silent: "ctl_Now C w = (t, w') \<Longrightarrow> sent w' = sent w"
    and ensure_silent: "ctl_EnsureDeploymentActor C d p w = (x, w') \<Longrightarrow> sent w' = sent w"
    and list_silent: "ctl_ListDeployments C opts w = Some (l, w') \<Longrightarrow> sent w' = sent w"
    and summary_silent: "ctl_DescribeAll C w = Some (cards, w') \<Longrightarrow> sent w' = sent w"
    and describe_silent: "ctl_Describe C d w = (v, w') \<Longrightarrow> sent w' = sent w"
    and versions_silent: "ctl_Versions C d w = (vs, w') \<Longrightarrow> sent w' = sent w"
    and cluster_silent: "ctl_DescribeCluster C env ns w = (cs, w') \<Longrightarrow> sent w' = sent w"
begin

text \<open>A request sends nothing, or exactly what it asks for; accepted means sent.\<close>

definition faithful :: "endpoint \<Rightarrow> http_request \<Rightarrow> (string \<times> string) list \<Rightarrow> 'w \<Rightarrow> http_response \<Rightarrow> 'w \<Rightarrow> bool" where
  "faithful e r b w rp w' \<longleftrightarrow>
     sent w' = sent w \<and> rp_Status rp \<noteq> 202 \<or> (\<exists>sig. sent w' = sent w @ [sig] \<and> asks e r b sig)"

lemma send_faithful:
  assumes "send C r b c w = (rp, w')" and "command_type e = Some (cmd_Type c)"
    and "cmd_OperationID c = request_key r" "cmd_IdempotencyKey c = request_key r" "request_key r \<noteq> []"
  shows "faithful e r b w rp w'"
proof -
  obtain x w1 where x: "ctl_SendCommand C (send_identity r b) c w = (x, w1)"
    by (cases "ctl_SendCommand C (send_identity r b) c w")
  have w': "w' = w1" "x \<noteq> Inr () \<Longrightarrow> rp_Status rp \<noteq> 202"
    using assms(1) x
    by (auto simp: send_def Let_def bad_gateway_def writeError_def writeJSON_def reply_def
        split: sum.splits service_error.splits if_splits)
  from send_signals [OF x] show ?thesis
  proof
    assume "sent w1 = sent w @ [command_signal (send_identity r b) c]"
    with assms(2-5) w' show ?thesis unfolding faithful_def asks_def by blast
  next
    assume "sent w1 = sent w \<and> x \<noteq> Inr ()"
    with w' show ?thesis unfolding faithful_def by simp
  qed
qed

lemma command_faithful:
  assumes "command_handler C r b decoded t requester fill w = (rp, w')" and "command_type e = Some t"
    and "\<And>q c. cmd_Type (fill q c) = cmd_Type c \<and> cmd_OperationID (fill q c) = cmd_OperationID c \<and>
      cmd_IdempotencyKey (fill q c) = cmd_IdempotencyKey c"
  shows "faithful e r b w rp w'"
proof (cases decoded)
  case (Inl err)
  with assms(1) show ?thesis by (auto simp: command_handler_def faithful_def writeError_def writeJSON_def reply_def)
next
  case (Inr q)
  show ?thesis
  proof (cases "request_key r = []")
    case True
    with assms(1) Inr show ?thesis
      by (auto simp: command_handler_def baseCommand_def request_key_def faithful_def writeError_def writeJSON_def reply_def)
  next
    case False
    obtain now w1 where now: "ctl_Now C w = (now, w1)" by (cases "ctl_Now C w")
    obtain c where c: "baseCommand C r t (requester q) w = (Inr c, w1)" "cmd_Type c = t"
        "cmd_OperationID c = request_key r" "cmd_IdempotencyKey c = request_key r"
      using False now by (simp add: baseCommand_def request_key_def Let_def)
    with assms(1) Inr have "send C r b (fill q c) w1 = (rp, w')" by (simp add: command_handler_def)
    from send_faithful [OF this, of e] assms(2,3) c False now_silent [OF now] show ?thesis
      by (simp add: faithful_def)
  qed
qed

lemmas reply_defs = writeError_def writeJSON_def bad_gateway_def reply_def

lemma cluster_faithful:
  assumes "clusterCommand C t r b w = (rp, w')"
  shows "faithful (EndCluster t) r b w rp w'"
proof (cases "decode C r simple_fields zero_simple")
  case (Inl err)
  with assms show ?thesis by (auto simp: clusterCommand_def faithful_def reply_defs)
next
  case (Inr q)
  obtain now w1 where now: "ctl_Now C w = (now, w1)" by (cases "ctl_Now C w")
  let ?k = "\<lparr>cc_Type = t, cc_Requester = (if sr_Requester q = [] then ''api'' else sr_Requester q),
    cc_Reason = sr_Reason q, cc_At = now\<rparr>"
  obtain x w2 where x: "ctl_SetClusterFreeze C (path_value b ''env'') (path_value b ''namespace'') ?k w1 = (x, w2)"
    by (cases "ctl_SetClusterFreeze C (path_value b ''env'') (path_value b ''namespace'') ?k w1")
  have w': "w' = w2" "x \<noteq> Inr () \<Longrightarrow> rp_Status rp \<noteq> 202"
    using assms Inr now x by (auto simp: clusterCommand_def Let_def reply_defs split: sum.splits if_splits)
  from freeze_signals [OF x] show ?thesis
  proof
    assume "sent w2 = sent w1 @ [cluster_signal (path_value b ''env'') (path_value b ''namespace'') ?k]"
    moreover have "asks (EndCluster t) r b (cluster_signal (path_value b ''env'') (path_value b ''namespace'') ?k)"
      unfolding asks_def by (intro disjI2 exI [of _ ?k] exI [of _ t]) simp
    ultimately show ?thesis using w' now_silent [OF now] unfolding faithful_def by auto
  next
    assume "sent w2 = sent w1 \<and> x \<noteq> Inr ()"
    with w' now_silent [OF now] show ?thesis by (simp add: faithful_def)
  qed
qed

lemma query_faithful:
  "describeCluster C b w = (rp, w') \<Longrightarrow> faithful e r b w rp w'"
  "describe C b w = (rp, w') \<Longrightarrow> faithful e r b w rp w'"
  "versions C b w = (rp, w') \<Longrightarrow> faithful e r b w rp w'"
  "register C r b w = (rp, w') \<Longrightarrow> faithful e r b w rp w'"
  "deploymentSummary C w = Some (rp, w') \<Longrightarrow> faithful e r b w rp w'"
  "listDeployments C r w = Some (rp, w') \<Longrightarrow> faithful e r b w rp w'"
  by (auto simp: describeCluster_def describe_def versions_def register_def deploymentSummary_def listDeployments_def
      faithful_def reply_defs Let_def
      split: sum.splits prod.splits option.splits service_error.splits if_splits
      dest!: cluster_silent describe_silent versions_silent ensure_silent summary_silent list_silent)

lemma endpoint_faithful:
  assumes "api_endpoint C e r b w = Some (rp, w')"
  shows "faithful e r b w rp w'"
proof (cases e)
  case EndDeploy
  with assms show ?thesis by (auto simp: api_endpoint_def deployHandler_def intro!: command_faithful)
next
  case (EndSimple t)
  with assms show ?thesis by (auto simp: api_endpoint_def simpleCommand_def intro!: command_faithful)
next
  case EndRollback
  with assms show ?thesis by (auto simp: api_endpoint_def rollbackHandler_def intro!: command_faithful)
next
  case EndScale
  with assms show ?thesis by (auto simp: api_endpoint_def scaleHandler_def intro!: command_faithful)
next
  case (EndCluster t)
  with assms show ?thesis by (auto simp: api_endpoint_def intro: cluster_faithful)
qed (use assms in \<open>auto simp: api_endpoint_def intro: query_faithful\<close>,
  use assms in \<open>auto simp: api_endpoint_def faithful_def reply_defs\<close>)

end

subsection \<open>The control service behind the API\<close>

text \<open>The API on the service of control/service.go: the world is Temporal's, with the history of calls
  and a clock; \<open>schedule\<close> orders the answers of a summary.\<close>

definition service_control ::
  "'w temporal \<Rightarrow> Service \<Rightarrow> (nat \<Rightarrow> nat list) \<Rightarrow> ('w \<Rightarrow> go_time) \<Rightarrow> (string \<Rightarrow> string) \<Rightarrow> 'w cctx control" where
  "service_control T s schedule clk decode_error =
     \<lparr>ctl_Now = (\<lambda>ctx. (clk (snd ctx), ctx)),
      ctl_EnsureDeploymentActor = EnsureDeploymentActor T s,
      ctl_SendCommand = SendCommand T s,
      ctl_ListDeployments = ListDeployments T,
      ctl_DescribeAll = DescribeAll T schedule,
      ctl_Describe = Describe T,
      ctl_Versions = Versions T,
      ctl_SetClusterFreeze = SetClusterFreeze T s,
      ctl_DescribeCluster = DescribeCluster T,
      ctl_DecodeError = decode_error\<rparr>"

definition signals_of :: "'w cctx \<Rightarrow> signal list" where
  "signals_of ctx = signals_sent (fst ctx)"

lemma adds_signals: "adds ctx ctx' cs \<Longrightarrow> signals_of ctx' = signals_of ctx @ signals_sent cs"
  by (simp add: adds_def signals_of_def)

lemma call_list_silent: "call (\<lambda>_. CallList q) f ctx = (x, ctx') \<Longrightarrow> signals_of ctx' = signals_of ctx"
  by (auto dest!: call_adds adds_signals)

lemma list_round_silent:
  "list_round T options limit cursor acc ctx = Inl (l, ctx') \<Longrightarrow> signals_of ctx' = signals_of ctx"
  "list_round T options limit cursor acc ctx = Inr (cursor', acc', ctx') \<Longrightarrow> signals_of ctx' = signals_of ctx"
  by (auto simp: list_round_def Let_def split: if_split_asm sum.split_asm prod.split_asm option.split_asm
      dest!: call_list_silent)

lemma list_loop_silent:
  fixes T :: "'w temporal"
  assumes "list_loop T options limit cursor acc ctx = Some (l, ctx')"
  shows "signals_of ctx' = signals_of ctx"
proof -
  let ?P = "\<lambda>(T :: 'w temporal) options limit cursor acc ctx (out :: DeploymentList service_result \<times> 'w cctx).
    signals_of (snd out) = signals_of ctx"
  have "?P T options limit cursor acc ctx (l, ctx')"
  proof (rule list_loop.raw_induct [where P = ?P, OF _ assms])
    fix loop and T :: "'w temporal" and options limit cursor acc ctx and out :: "DeploymentList service_result \<times> 'w cctx"
    assume IH: "\<And>T options limit cursor acc ctx out.
        loop T options limit cursor acc ctx = Some out \<Longrightarrow> ?P T options limit cursor acc ctx out"
      and step: "(case list_round T options limit cursor acc ctx of Inl out \<Rightarrow> Some out
        | Inr (cursor', acc', ctx') \<Rightarrow> loop T options limit cursor' acc' ctx') = Some out"
    show "?P T options limit cursor acc ctx out"
    proof (cases "list_round T options limit cursor acc ctx")
      case (Inl o')
      with step list_round_silent(1) [of T options limit cursor acc ctx "fst out" "snd out"] show ?thesis by simp
    next
      case (Inr y)
      obtain cursor' acc' c2 where y: "y = (cursor', acc', c2)" by (cases y) auto
      with step Inr have "loop T options limit cursor' acc' c2 = Some out" by simp
      from IH [OF this] list_round_silent(2) [OF Inr [unfolded y]] show ?thesis by simp
    qed
  qed
  then show ?thesis by simp
qed

lemma list_deployments_silent:
  "ListDeployments T options ctx = Some (l, ctx') \<Longrightarrow> signals_of ctx' = signals_of ctx"
  by (auto simp: ListDeployments_def split: sum.splits dest: list_loop_silent)

lemma query_silent: "query ask wfid name failed undecoded initial ctx = (x, ctx') \<Longrightarrow> signals_of ctx' = signals_of ctx"
  by (drule query_adds) (simp add: adds_signals)

lemmas silent_queries = Describe_def Versions_def DescribeCluster_def Let_def

lemma describe_cards_silent: "signals_of (snd (describe_cards T schedule deps ctx)) = signals_of ctx"
proof -
  have "signals_of (snd (fold (describe_all_step T deps) is s)) = signals_of (snd s)" for "is" s
  proof (induction "is" arbitrary: s)
    case (Cons i "is")
    have "signals_of (snd (describe_all_step T deps i s)) = signals_of (snd s)"
      by (auto simp: describe_all_step_def silent_queries split: prod.splits dest: query_silent)
    with Cons show ?case by simp
  qed simp
  then show ?thesis by (simp add: describe_cards_def)
qed

interpretation service: control_service "service_control T s schedule clk decode_error" signals_of
  for T s schedule clk decode_error
proof unfold_locales
  let ?C = "service_control T s schedule clk decode_error"
  note C = service_control_def
  show "signals_of w' = signals_of w @ [command_signal d c] \<or> signals_of w' = signals_of w \<and> x \<noteq> Inr ()"
    if "ctl_SendCommand ?C d c w = (x, w')" for d c w x w'
  proof -
    have "SendCommand T s d c w = (x, w')" using that by (simp add: C)
    then show ?thesis
      by (cases rule: SendCommand_cases) (auto simp: adds_signals starts_send_nothing command_signal_def split: option.splits)
  qed
  show "signals_of w' = signals_of w @ [cluster_signal env ns k] \<or> signals_of w' = signals_of w \<and> x \<noteq> Inr ()"
    if "ctl_SetClusterFreeze ?C env ns k w = (x, w')" for env ns k w x w'
  proof -
    obtain y w1 where y: "EnsureClusterActor T s env ns w = (y, w1)" by (cases "EnsureClusterActor T s env ns w")
    obtain cs where cs: "adds w w1 cs" "list_all (starts_well s env ns) cs"
      using EnsureClusterActor_calls [OF y] by blast
    then have w1: "signals_of w1 = signals_of w" by (simp add: adds_signals starts_send_nothing)
    show ?thesis
    proof (cases y)
      case (Inl e)
      with that y w1 show ?thesis by (auto simp: C SetClusterFreeze_def)
    next
      case (Inr u)
      with that y have "send_signal T (ClusterActorState_WorkflowID (new_cluster_state env ns)) ''cluster-command''
          (ClusterSignal k) ''signal cluster actor: '' w1 = (x, w')"
        by (simp add: C SetClusterFreeze_def)
      then show ?thesis
        by (cases rule: send_signal_cases) (auto simp: adds_signals w1 cluster_signal_def)
    qed
  qed
  show "signals_of w' = signals_of w" if "ctl_EnsureDeploymentActor ?C d p w = (x, w')" for d p w x w'
  proof -
    have "EnsureDeploymentActor T s d p w = (x, w')" using that by (simp add: C)
    from EnsureDeploymentActor_calls [OF this] show ?thesis by (auto simp: adds_signals starts_send_nothing)
  qed
  show "signals_of w' = signals_of w" if "ctl_DescribeAll ?C w = Some (x, w')" for w x w'
    using that describe_cards_silent [of T]
    by (auto simp: C DescribeAll_def split: option.splits sum.splits prod.splits dest!: list_deployments_silent)
       (metis snd_conv)
qed (auto simp: service_control_def silent_queries dest: query_silent list_deployments_silent)

subsection \<open>Who can send what\<close>

text \<open>The clock, the random source and the token exchange of the login do not touch Temporal.\<close>

definition beside :: "('w \<Rightarrow> 'a \<times> 'w) \<Rightarrow> 'w cctx \<Rightarrow> 'a \<times> 'w cctx" where
  "beside f ctx = (case f (snd ctx) of (x, w) \<Rightarrow> (x, (fst ctx, w)))"

definition service_auth :: "'w auth_env \<Rightarrow> 'w cctx auth_env" where
  "service_auth A =
     \<lparr>an_Now = beside (an_Now A), an_Rand = (\<lambda>n. beside (an_Rand A n)), an_AuthCodeURL = an_AuthCodeURL A,
      an_Exchange = (\<lambda>cfg code. beside (an_Exchange A cfg code))\<rparr>"

lemma beside_silent: "beside f ctx = (x, ctx') \<Longrightarrow> signals_of ctx' = signals_of ctx"
  by (auto simp: beside_def signals_of_def split: prod.splits)

lemma service_auth_silent:
  "an_Now (service_auth A) ctx = (t, ctx') \<Longrightarrow> signals_of ctx' = signals_of ctx"
  "an_Rand (service_auth A) n ctx = (b, ctx') \<Longrightarrow> signals_of ctx' = signals_of ctx"
  "an_Exchange (service_auth A) cfg code ctx = (e, ctx') \<Longrightarrow> signals_of ctx' = signals_of ctx"
  by (simp_all add: service_auth_def beside_silent)

text \<open>The path of a request is its parts.\<close>

definition well_formed :: "http_request \<Rightarrow> bool" where
  "well_formed r \<longleftrightarrow> rq_Path r = concat (map (\<lambda>s. ''/'' @ s) (rq_Segments r))"

definition logged_in :: "'w auth_env \<Rightarrow> http_request \<Rightarrow> auth_state \<Rightarrow> 'w \<Rightarrow> bool" where
  "logged_in E r a w \<longleftrightarrow>
     (\<exists>token expires. cookie r ''cohestra_session'' = Some token \<and> map_find (au_sessions a) token = Some expires \<and>
        fst (an_Now E w) < expires)"

lemma session_check_iff: "fst (session_check E r a w) \<longleftrightarrow> logged_in E r a w"
  by (auto simp: session_check_def logged_in_def split: option.split prod.split)

lemma session_check_silent:
  "session_check (service_auth A) r a ctx = (x, ctx') \<Longrightarrow> signals_of ctx' = signals_of ctx"
  by (auto simp: session_check_def split: option.splits prod.splits dest: service_auth_silent)

lemma public_slashes: "isPublicPath p \<Longrightarrow> length (filter (\<lambda>c. c = CHR ''/'') p) \<le> 2"
  by (auto simp: isPublicPath_def)

lemma segment_slashes: "length ss \<le> length (filter (\<lambda>c. c = CHR ''/'') (concat (map (\<lambda>s. ''/'' @ s) ss)))"
  by (induction ss) auto

lemma match_segs_length: "match_segs ps ss = Some b \<Longrightarrow> length ss = length ps"
  by (induction ps ss arbitrary: b rule: match_segs.induct) (auto split: if_splits)

lemma find_route_in:
  "find_route rs m ss = Some (e, b) \<Longrightarrow>
   \<exists>rm p. (rm, p, e) \<in> set rs \<and> method_matches rm m \<and> match_pattern p ss = Some b"
  by (induction rs m ss rule: find_route.induct) (auto split: if_splits option.splits)

lemma asking_routes:
  assumes "(rm, p, e) \<in> set routes" "asks e r b sig" "match_pattern p ss = Some b'"
  shows "3 \<le> length ss"
  using assms unfolding routes_def
  by (auto simp: asks_def match_pattern_def deployment_segs_def cluster_segs_def dest!: match_segs_length)

lemma oauth_silent:
  "OAuthStartHandler (service_auth A) r (a, ctx) = Some (rp, (a', ctx')) \<Longrightarrow> signals_of ctx' = signals_of ctx \<and> rp_Status rp \<noteq> 202"
  "OAuthCallbackHandler (service_auth A) r (a, ctx) = Some (rp, (a', ctx')) \<Longrightarrow> signals_of ctx' = signals_of ctx \<and> rp_Status rp \<noteq> 202"
  "LogoutHandler r (a, ctx) = Some (rp, (a', ctx')) \<Longrightarrow> signals_of ctx' = signals_of ctx \<and> rp_Status rp \<noteq> 202"
  by (auto simp: OAuthStartHandler_def OAuthCallbackHandler_def LogoutHandler_def randHex_def reply_def Let_def
      split: option.splits prod.splits if_splits dest!: service_auth_silent)

lemma mux_signals:
  assumes "mux (service_auth A) (service_control T s schedule clk de) r (a, ctx) = Some (rp, (a', ctx'))"
  shows "signals_of ctx' = signals_of ctx \<and> rp_Status rp \<noteq> 202 \<or>
    (\<exists>e b sig. find_route routes (rq_Method r) (rq_Segments r) = Some (e, b) \<and>
       signals_of ctx' = signals_of ctx @ [sig] \<and> asks e r b sig)"
proof (cases "rq_Unclean r = None \<and> find_route routes (rq_Method r) (rq_Segments r) \<noteq> None \<and>
    \<not> (rq_Segments r = [''ui''] \<and> method_matches ''GET'' (rq_Method r))")
  case False
  with assms show ?thesis by (auto simp: mux_def reply_def split: option.splits if_splits)
next
  case True
  then obtain e b where route: "find_route routes (rq_Method r) (rq_Segments r) = Some (e, b)" by auto
  with True assms have d: "dispatch_endpoint (service_auth A) (service_control T s schedule clk de) e b r (a, ctx) = Some (rp, (a', ctx'))"
    by (auto simp: mux_def split: if_splits)
  show ?thesis
  proof (cases "e \<in> {EndOAuthStart, EndOAuthCallback, EndLogout}")
    case True
    with d show ?thesis by (auto simp: dispatch_endpoint_def dest: oauth_silent)
  next
    case False
    with d have "api_endpoint (service_control T s schedule clk de) e r b ctx = Some (rp, ctx')"
      by (auto simp: dispatch_endpoint_def split: endpoint.splits option.splits)
    from service.endpoint_faithful [OF this] route show ?thesis unfolding service.faithful_def by blast
  qed
qed

text \<open>C4. Only what is asked for, only by who may ask: whatever Temporal answers, a request to the API
  sends no signal, or exactly one, which is the command or freeze its endpoint stands for, to the
  deployment or cluster its path names, a command with the request's key; a request that is answered
  with 202 has sent it; and with authentication configured only a request with the cookie of a live
  session sends anything.\<close>

theorem api_signals:
  assumes "Handler (service_auth A) (service_control T s schedule clk de) r (a, ctx) = Some (rp, (a', ctx'))"
    and "well_formed r"
  shows "signals_of ctx' = signals_of ctx \<and> rp_Status rp \<noteq> 202 \<or>
    (\<not> Enabled a \<or> logged_in (service_auth A) r a ctx) \<and>
    (\<exists>e b sig. find_route routes (rq_Method r) (rq_Segments r) = Some (e, b) \<and>
       signals_of ctx' = signals_of ctx @ [sig] \<and> asks e r b sig)"
proof (cases "\<not> Enabled a \<or> isPublicPath (rq_Path r)")
  case True
  with assms(1) have m: "mux (service_auth A) (service_control T s schedule clk de) r (a, ctx) = Some (rp, (a', ctx'))"
    by (auto simp: Handler_def Middleware_def)
  have "\<not> Enabled a" if "find_route routes (rq_Method r) (rq_Segments r) = Some (e, b)" "asks e r b sig" for e b sig
  proof -
    from find_route_in [OF that(1)] asking_routes [OF _ that(2)] have "3 \<le> length (rq_Segments r)" by blast
    moreover have "length (rq_Segments r) \<le> 2" if "isPublicPath (rq_Path r)"
      using segment_slashes [of "rq_Segments r"] public_slashes [OF that] assms(2) by (simp add: well_formed_def)
    ultimately show ?thesis using True by auto
  qed
  with mux_signals [OF m] show ?thesis by blast
next
  case False
  obtain ok ctx1 where ok: "session_check (service_auth A) r a ctx = (ok, ctx1)" by (cases "session_check (service_auth A) r a ctx")
  note silent = session_check_silent [OF ok]
  show ?thesis
  proof (cases ok)
    case True
    with False ok assms(1) have "mux (service_auth A) (service_control T s schedule clk de) r (a, ctx1) = Some (rp, (a', ctx'))"
      by (auto simp: Handler_def Middleware_def)
    moreover have "logged_in (service_auth A) r a ctx" using session_check_iff [of "service_auth A" r a ctx] ok True by simp
    ultimately show ?thesis using mux_signals silent by fastforce
  next
    case refused: False
    with False ok assms(1) silent show ?thesis by (auto simp: Handler_def Middleware_def reply_def split: if_splits)
  qed
qed

end
