(* ===== verification/Api_Sessions.thy ===== *)
theory Api_Sessions
  imports Api_Control
begin

text \<open>
  Sessions over a sequence of requests to the API: every session is earned by a login, and none
  survives a logout.
\<close>

subsection \<open>Sessions\<close>

text \<open>Requests one after the other, with their responses.\<close>

fun serve :: "'w handler \<Rightarrow> http_request list \<Rightarrow> auth_state \<times> 'w \<Rightarrow> (http_response list \<times> auth_state \<times> 'w) option" where
  "serve H [] s = Some ([], s)"
| "serve H (r # rs) s =
     (case H r s of
        None \<Rightarrow> None
      | Some (rp, s1) \<Rightarrow> (case serve H rs s1 of None \<Rightarrow> None | Some (rps, s2) \<Rightarrow> Some (rp # rps, s2)))"

text \<open>A callback whose state was the one in the cookie, and whose answer hands out the token; a logout
  with that token.\<close>

definition issues :: "http_request \<Rightarrow> http_response \<Rightarrow> string \<Rightarrow> bool" where
  "issues r rp token \<longleftrightarrow>
     rq_Segments r = [''auth'', ''callback''] \<and> cookie r ''cohestra_state'' = Some (query_get r ''state'') \<and>
     rp_Status rp = 302 \<and>
     rp_Cookies rp = [\<lparr>ck_Name = ''cohestra_session'', ck_Value = token, ck_MaxAge = 28800, ck_HttpOnly = True\<rparr>]"

definition logs_out :: "http_request \<Rightarrow> string \<Rightarrow> bool" where
  "logs_out r token \<longleftrightarrow>
     rq_Method r = ''GET'' \<and> rq_Unclean r = None \<and> rq_Path r = ''/auth/logout'' \<and>
     rq_Segments r = [''auth'', ''logout''] \<and> cookie r ''cohestra_session'' = Some token"

lemma logout_route: "find_route routes ''GET'' [''auth'', ''logout''] = Some (EndLogout, [])"
  by (simp add: routes_def match_pattern_def deployment_segs_def cluster_segs_def method_matches_def)

lemma callback_patterns: "(rm, p, EndOAuthCallback) \<in> set routes \<Longrightarrow> p = Exactly [Lit ''auth'', Lit ''callback'']"
  by (simp add: routes_def)

lemma callback_route:
  assumes "find_route routes m ss = Some (EndOAuthCallback, b)"
  shows "ss = [''auth'', ''callback'']"
proof -
  from find_route_in [OF assms] obtain rm p
    where p: "(rm, p, EndOAuthCallback) \<in> set routes" "match_pattern p ss = Some b" by blast
  from callback_patterns [OF p(1)] p(2) have "match_segs [Lit ''auth'', Lit ''callback''] ss = Some b"
    by (simp add: match_pattern_def)
  then show ?thesis by (cases ss; cases "tl ss"; cases "tl (tl ss)") (auto split: if_splits)
qed

text \<open>What one request does to the sessions.\<close>

lemma handler_sessions:
  assumes "Handler E C r (a, w) = Some (rp, (a', w'))" and "map_has (au_sessions a') token"
  shows "(map_has (au_sessions a) token \<and> \<not> logs_out r token) \<or> issues r rp token"
proof (cases "logs_out r token")
  case True
  then have "Handler E C r (a, w) = LogoutHandler r (a, w)"
    by (simp add: Handler_def Middleware_def isPublicPath_def logs_out_def mux_def logout_route dispatch_endpoint_def)
  with assms True show ?thesis by (auto simp: LogoutHandler_def logs_out_def map_has_def)
next
  case False
  have mux: "map_has (au_sessions a) token \<or> issues r rp token" if m: "mux E C r (a, v) = Some (rp, (a', w'))" for v
  proof (cases "rq_Unclean r = None \<and> find_route routes (rq_Method r) (rq_Segments r) \<noteq> None \<and>
      \<not> (rq_Segments r = [''ui''] \<and> method_matches ''GET'' (rq_Method r))")
    case False
    with m assms(2) show ?thesis by (auto simp: mux_def split: option.splits if_splits)
  next
    case True
    then obtain e b where route: "find_route routes (rq_Method r) (rq_Segments r) = Some (e, b)" by auto
    with True m have d: "dispatch_endpoint E C e b r (a, v) = Some (rp, (a', w'))"
      by (auto simp: mux_def split: if_splits)
    consider "e = EndOAuthStart" | "e = EndOAuthCallback" | "e = EndLogout"
      | "e \<notin> {EndOAuthStart, EndOAuthCallback, EndLogout}" by blast
    then show ?thesis
    proof cases
      case 1
      with d assms(2) show ?thesis
        by (auto simp: dispatch_endpoint_def OAuthStartHandler_def split: option.splits prod.splits)
    next
      case 2
      with d assms(2) callback_route route show ?thesis
        by (auto simp: dispatch_endpoint_def OAuthCallbackHandler_def issues_def reply_def
            split: option.splits prod.splits if_splits)
    next
      case 3
      with d assms(2) show ?thesis
        by (auto simp: dispatch_endpoint_def LogoutHandler_def map_has_def Let_def split: option.splits if_splits)
    next
      case 4
      with d assms(2) show ?thesis by (auto simp: dispatch_endpoint_def split: endpoint.splits option.splits)
    qed
  qed
  with False assms(1,2) show ?thesis
    by (auto simp: Handler_def Middleware_def split: if_splits prod.splits bool.splits)
qed

lemma serve_append:
  "serve H (rs @ [r]) s = Some (rps, s') \<Longrightarrow>
   \<exists>rps1 s1 rp. serve H rs s = Some (rps1, s1) \<and> H r s1 = Some (rp, s') \<and> rps = rps1 @ [rp]"
  by (induction rs arbitrary: s rps) (fastforce split: option.splits)+

lemma serve_length: "serve H rs s = Some (rps, s') \<Longrightarrow> length rps = length rs"
  by (induction rs arbitrary: s rps) (auto split: option.splits)

text \<open>C36. Sessions are earned: whatever requests the server has answered since it started, a token it
  accepts was handed out by the answer to a callback that carried the state of its own cookie, and
  no logout with it came after.\<close>

theorem sessions_earned:
  assumes "serve (Handler E C) rs (auth_init auth no_auth, w) = Some (rps, (a, w'))"
    and "map_has (au_sessions a) token"
  shows "\<exists>i < length rs. issues (rs ! i) (rps ! i) token \<and> (\<forall>j < length rs. i < j \<longrightarrow> \<not> logs_out (rs ! j) token)"
  using assms
proof (induction rs arbitrary: rps a w' rule: rev_induct)
  case Nil
  then show ?case by (auto simp: auth_init_def no_auth_def map_has_def map_find_def split: if_splits)
next
  case (snoc r rs)
  obtain rps1 a1 w1 rp where s: "serve (Handler E C) rs (auth_init auth no_auth, w) = Some (rps1, (a1, w1))"
    and h: "Handler E C r (a1, w1) = Some (rp, (a, w'))" and rps: "rps = rps1 @ [rp]"
    using serve_append [OF snoc.prems(1)] by auto
  note len = serve_length [OF s]
  from handler_sessions [OF h snoc.prems(2)] show ?case
  proof
    assume old: "map_has (au_sessions a1) token \<and> \<not> logs_out r token"
    with snoc.IH [OF s] obtain i where "i < length rs" "issues (rs ! i) (rps1 ! i) token"
      "\<forall>j < length rs. i < j \<longrightarrow> \<not> logs_out (rs ! j) token" by blast
    with old show ?case by (intro exI [of _ i]) (auto simp: rps len nth_append less_Suc_eq)
  next
    assume "issues r rp token"
    then show ?case by (intro exI [of _ "length rs"]) (auto simp: rps len nth_append)
  qed
qed

end
