(* ===== verification/Api_Json.thy ===== *)
theory Api_Json
  imports Http Lease_Text Change
begin

text \<open>
  What \<open>json.NewEncoder(w).Encode\<close> writes for the replies of the API: the JSON of the domain's structs
  with their tags (model.go, command.go, cluster.go, list.go). A struct is a list of members, each of
  which may be left out or may fail: a float that is NaN or infinite and a year beyond 9999 cannot be
  written, and then nothing is written at all.
\<close>

subsection \<open>Members\<close>

type_synonym members = "(string \<times> json) list"

definition json_struct :: "members option list \<Rightarrow> json option" where
  "json_struct ms = map_option (\<lambda>xs. JObj (concat xs)) (those ms)"

definition must :: "string \<Rightarrow> json option \<Rightarrow> members option" where
  "must k v = map_option (\<lambda>j. [(k, j)]) v"

definition omit :: "bool \<Rightarrow> string \<Rightarrow> json \<Rightarrow> members option" where
  "omit empty_value k v = Some (opt_member (\<not> empty_value) k v)"

definition pointer :: "string \<Rightarrow> ('a \<Rightarrow> json option) \<Rightarrow> 'a option \<Rightarrow> members option" where
  "pointer k enc p = (case p of None \<Rightarrow> Some [] | Some x \<Rightarrow> must k (enc x))"

definition json_time :: "go_time \<Rightarrow> json option" where
  "json_time t = map_option JStr (rfc3339 t)"

definition json_number :: "float64 \<Rightarrow> json option" where
  "json_number x = map_option JNum (json_float x)"

definition json_slice :: "('a \<Rightarrow> json option) \<Rightarrow> 'a list \<Rightarrow> json option" where
  "json_slice enc xs = map_option JArr (those (map enc xs))"

abbreviation str :: "string \<Rightarrow> string \<Rightarrow> members option" where
  "str k s \<equiv> must k (Some (JStr s))"

abbreviation int_member :: "string \<Rightarrow> go_int \<Rightarrow> members option" where
  "int_member k n \<equiv> must k (Some (json_int n))"

abbreviation flag :: "string \<Rightarrow> bool \<Rightarrow> members option" where
  "flag k b \<equiv> must k (Some (JBool b))"

abbreviation str_omit :: "string \<Rightarrow> string \<Rightarrow> members option" where
  "str_omit k s \<equiv> omit (s = []) k (JStr s)"

abbreviation int_omit :: "string \<Rightarrow> go_int \<Rightarrow> members option" where
  "int_omit k n \<equiv> omit (n = 0) k (json_int n)"

subsection \<open>Constants\<close>

fun OperationStatus_string :: "OperationStatus \<Rightarrow> string" where
  "OperationStatus_string OperationQueued = ''QUEUED''"
| "OperationStatus_string OperationRunning = ''RUNNING''"
| "OperationStatus_string OperationSucceeded = ''SUCCEEDED''"
| "OperationStatus_string OperationFailed = ''FAILED''"
| "OperationStatus_string OperationRejected = ''REJECTED''"

fun ActorStatus_string :: "ActorStatus \<Rightarrow> string" where
  "ActorStatus_string ActorUnset = []"
| "ActorStatus_string ActorIdle = ''IDLE''"
| "ActorStatus_string ActorOperating = ''OPERATING''"
| "ActorStatus_string ActorFailed = ''FAILED''"
| "ActorStatus_string ActorSuspended = ''SUSPENDED''"
| "ActorStatus_string ActorUnreachable = ''UNREACHABLE''"

fun ClusterCommandType_string :: "ClusterCommandType \<Rightarrow> string" where
  "ClusterCommandType_string ClusterFreeze = ''Freeze''"
| "ClusterCommandType_string ClusterUnfreeze = ''Unfreeze''"
| "ClusterCommandType_string (ClusterOther s) = s"

subsection \<open>Structs\<close>

definition json_identity :: "DeploymentIdentity \<Rightarrow> json option" where
  "json_identity d = json_struct
     [str ''environment'' (id_Environment d), str ''namespace'' (id_Namespace d), str ''name'' (id_Name d),
      str_omit ''owner'' (id_Owner d), str_omit ''serviceAccount'' (id_ServiceAccount d),
      str_omit ''nodePool'' (id_NodePool d), str_omit ''flinkDashboardUrl'' (id_FlinkDashboardURL d)]"

definition json_health :: "HealthSummary \<Rightarrow> json option" where
  "json_health h = json_struct
     [flag ''healthy'' (hs_Healthy h), flag ''running'' (hs_Running h),
      flag ''checkpointCompleted'' (hs_CheckpointCompleted h), int_member ''restartCount'' (hs_RestartCount h),
      must ''backpressureRatio'' (json_number (hs_BackpressureRatio h)), int_member ''kafkaLag'' (hs_KafkaLag h),
      flag ''sinkHealthy'' (hs_SinkHealthy h), str_omit ''message'' (hs_Message h),
      must ''observedAt'' (json_time (hs_ObservedAt h))]"

definition json_version :: "DeploymentVersion \<Rightarrow> json option" where
  "json_version v = json_struct
     [int_member ''versionId'' (ver_VersionID v), must ''spec'' (json_spec (ver_Spec v)),
      str ''manifestHash'' (ver_ManifestHash v), str ''jobArgsHash'' (ver_JobArgsHash v),
      str ''flinkConfigHash'' (ver_FlinkConfigHash v), str_omit ''savepointUri'' (ver_SavepointURI v),
      int_omit ''operatorObservedGeneration'' (ver_OperatorObservedGeneration v),
      must ''healthSummary'' (json_health (ver_HealthSummary v)), must ''createdAt'' (json_time (ver_CreatedAt v))]"

definition json_savepoint :: "SavepointRecord \<Rightarrow> json option" where
  "json_savepoint s = json_struct
     [str ''uri'' (sp_URI s), str ''triggerId'' (sp_TriggerID s), str ''flinkJobId'' (sp_FlinkJobID s),
      int_member ''deploymentVersion'' (sp_DeploymentVersion s), str ''imageDigest'' (sp_ImageDigest s),
      str ''jobArgsHash'' (sp_JobArgsHash s), int_member ''parallelism'' (sp_Parallelism s),
      int_member ''maxParallelism'' (sp_MaxParallelism s), str_omit ''compatibilityNotes'' (sp_CompatibilityNotes s),
      must ''createdAt'' (json_time (sp_CreatedAt s))]"

text \<open>\<open>omitempty\<close> does not leave out a struct, and a time is one.\<close>

definition json_operation :: "OperationRecord \<Rightarrow> json option" where
  "json_operation r = json_struct
     [str ''operationId'' (rec_OperationID r), str ''idempotencyKey'' (rec_IdempotencyKey r),
      str ''requester'' (rec_Requester r), str ''commandType'' (CommandType_string (rec_CommandType r)),
      str ''status'' (OperationStatus_string (rec_Status r)), str_omit ''childWorkflowId'' (rec_ChildWorkflowID r),
      str_omit ''leaseId'' (rec_LeaseID r), str_omit ''result'' (rec_Result r),
      must ''startedAt'' (json_time (rec_StartedAt r)), must ''completedAt'' (json_time (rec_CompletedAt r))]"

definition json_view :: "DeploymentActorView \<Rightarrow> json option" where
  "json_view v = json_struct
     [must ''identity'' (json_identity (view_Identity v)), str ''status'' (ActorStatus_string (view_Status v)),
      pointer ''currentVersion'' json_version (view_CurrentVersion v),
      pointer ''lastHealthyVersion'' json_version (view_LastHealthyVersion v),
      pointer ''lastSavepoint'' json_savepoint (view_LastSavepoint v),
      pointer ''activeOperation'' json_operation (view_ActiveOperation v),
      must ''pendingOperations'' (Some (JNum (nat_dec (view_PendingOperations v)))),
      (if view_RecentOperations v = [] then Some []
       else must ''recentOperations'' (json_slice json_operation (view_RecentOperations v))),
      flag ''autoscalerEnabled'' (view_AutoscalerEnabled v), flag ''autoscalerFrozen'' (view_AutoscalerFrozen v),
      str_omit ''lastError'' (view_LastError v)]"

definition json_summary :: "DeploymentSummary \<Rightarrow> json option" where
  "json_summary s = json_struct
     [must ''identity'' (json_identity (sum_Identity s)), str ''workflowId'' (sum_WorkflowID s),
      must ''startedAt'' (json_time (sum_StartedAt s))]"

definition json_list :: "DeploymentList \<Rightarrow> json option" where
  "json_list l = json_struct
     [must ''deployments'' (json_slice json_summary (dl_Deployments l)), str_omit ''nextPageToken'' (dl_NextPageToken l)]"

definition json_card :: "DeploymentCardSummary \<Rightarrow> json option" where
  "json_card c = json_struct
     [must ''identity'' (json_identity (card_Identity c)), str ''workflowId'' (card_WorkflowID c),
      must ''startedAt'' (json_time (card_StartedAt c)), str ''status'' (ActorStatus_string (card_Status c)),
      int_omit ''version'' (card_Version c), str_omit ''imageDigest'' (card_ImageDigest c),
      int_omit ''parallelism'' (card_Parallelism c), pointer ''healthy'' (\<lambda>b. Some (JBool b)) (card_Healthy c),
      str_omit ''healthMessage'' (card_HealthMessage c),
      must ''pendingOperations'' (Some (JNum (nat_dec (card_Pending c)))), str_omit ''error'' (card_Error c)]"

definition json_cluster_state :: "ClusterActorState \<Rightarrow> json option" where
  "json_cluster_state s = json_struct
     [str ''environment'' (cs_Environment s), str ''namespace'' (cs_Namespace s), flag ''frozen'' (cs_Frozen s),
      str_omit ''reason'' (cs_Reason s), str_omit ''requester'' (cs_Requester s),
      must ''updatedAt'' (json_time (cs_UpdatedAt s))]"

definition json_cluster_command :: "ClusterCommand \<Rightarrow> json option" where
  "json_cluster_command c = json_struct
     [str ''type'' (ClusterCommandType_string (cc_Type c)), str ''requester'' (cc_Requester c),
      str ''reason'' (cc_Reason c), must ''at'' (json_time (cc_At c))]"

subsection \<open>Replies\<close>

text \<open>A map has its keys in order. The list of an actor without versions is a nil slice, which is
  written as null; the other slices of a reply are made by the service and are never nil.\<close>

definition reply_json :: "json_reply \<Rightarrow> json option" where
  "reply_json r =
     (case r of
        ReplyMap kvs \<Rightarrow> Some (json_string_map (Some kvs))
      | ReplyView v \<Rightarrow> json_view v
      | ReplyVersions vs \<Rightarrow> if vs = [] then Some JNull else json_slice json_version vs
      | ReplyList l \<Rightarrow> json_list l
      | ReplyCards cs \<Rightarrow> json_slice json_card cs
      | ReplyCluster s \<Rightarrow> json_cluster_state s
      | ReplyClusterCommand c \<Rightarrow> json_cluster_command c)"

text \<open>The encoder writes a line feed after the value. When it fails the body is empty: the status has
  been sent, and the handler drops the error.\<close>

definition reply_text :: "json_reply \<Rightarrow> string" where
  "reply_text r = (case reply_json r of None \<Rightarrow> [] | Some j \<Rightarrow> json_print j @ [CHR 0x0A])"

lemma reply_text_map: "reply_text (ReplyMap kvs) = json_print (json_string_map (Some kvs)) @ [CHR 0x0A]"
  by (simp add: reply_text_def reply_json_def)

end
