(* ===== verification/Sdk_Wire.thy ===== *)
theory Sdk_Wire
  imports Sdk_Client Api_Sessions Api_Json
begin

text \<open>
  The SDK in front of the API server. What the SDK needs of the network between them is the locale
  \<open>api_network\<close>: a request with a plain path reaches the server's handler with its method, path,
  headers and body, and no cookies, and the SDK gets the handler's status and text. It is discharged
  by a network that calls the handler in the same process. The lemmas at the end say what a command
  and an answer look like on the other side.
\<close>

subsection \<open>Plain paths\<close>

text \<open>Path parts that need no escaping and that no server cleans away.\<close>

definition plain :: "string \<Rightarrow> bool" where
  "plain s \<longleftrightarrow> s \<noteq> [] \<and> s \<noteq> ''.'' \<and> s \<noteq> ''..'' \<and> list_all unreserved s"

definition path_of :: "string list \<Rightarrow> string" where
  "path_of segs = concat (map (\<lambda>s. ''/'' @ s) segs)"

definition server_request :: "string \<Rightarrow> string list \<Rightarrow> (string \<times> string) list \<Rightarrow> string option \<Rightarrow> http_request" where
  "server_request m segs h b =
     \<lparr>rq_Method = m, rq_Path = path_of segs, rq_Segments = segs, rq_Unclean = None, rq_Query = [], rq_Header = h,
      rq_Cookies = [], rq_Body = Some (case b of None \<Rightarrow> [] | Some t \<Rightarrow> t),
      rq_ContentLength = (case b of None \<Rightarrow> 0 | Some t \<Rightarrow> int (length t))\<rparr>"

text \<open>The text of an answer: JSON as in \<open>Api_Json\<close>, and a text of \<open>http.Error\<close> with a line feed. The
  pages the server embeds and the link in the body of a redirection are left to \<open>render\<close>.\<close>

definition body_text :: "(content \<Rightarrow> string) \<Rightarrow> content \<Rightarrow> string" where
  "body_text render c =
     (case c of
        CJson r \<Rightarrow> reply_text r
      | CText t \<Rightarrow> t @ [CHR 0x0A]
      | _ \<Rightarrow> render c)"

definition answer :: "(content \<Rightarrow> string) \<Rightarrow> http_response \<Rightarrow> sdk_http_response" where
  "answer render rp = \<lparr>ht_Status = rp_Status rp, ht_Body = Inr (body_text render (rp_Content rp))\<rparr>"

text \<open>An aborted answer, status 0 here, is an error of the transport. Redirections, which an HTTP client
  follows by itself, are not covered; no endpoint of the API redirects.\<close>

locale api_network =
  fixes N :: "(auth_state \<times> 'w) net" and base :: string and H :: "'w handler"
    and render :: "content \<Rightarrow> string" and sent :: "'w \<Rightarrow> signal list"
  assumes good_urls: "list_all plain segs \<Longrightarrow> nt_BadURL N (base @ path_of segs) = None"
    and delivers: "list_all plain segs \<Longrightarrow> H (server_request m segs h b) s = Some (rp, s') \<Longrightarrow> rp_Status rp \<notin> {301, 302} \<Longrightarrow>
      \<exists>e. nt_Do N \<lparr>hq_Method = m, hq_URL = base @ path_of segs, hq_Header = h, hq_Body = b\<rparr> s =
        (if rp_Status rp = 0 then Inl e else Inr (answer render rp), s')"
    and clock_silent: "nt_Now N (a, w) = (t, (a', w')) \<Longrightarrow> a' = a \<and> sent w' = sent w"
    and rand_silent: "nt_Rand N n (a, w) = (bytes, (a', w')) \<Longrightarrow> a' = a \<and> sent w' = sent w"
begin

lemma key_silent:
  assumes "generateKey N (a, w) = (key, (a', w'))"
  shows "a' = a \<and> sent w' = sent w"
proof -
  obtain b a1 w1 where r: "nt_Rand N 8 (a, w) = (b, (a1, w1))" by (metis prod_cases3)
  obtain t a2 w2 where n: "nt_Now N (a1, w1) = (t, (a2, w2))" by (metis prod_cases3)
  from r n assms have "a' = a2" "w' = w2" by (auto simp: generateKey_def)
  with rand_silent [OF r] clock_silent [OF n] show ?thesis by simp
qed

text \<open>What becomes of one request.\<close>

lemma do_answers:
  assumes "list_all plain segs" and "cl_baseURL c = base"
    and "H (server_request m segs (h @ (if cl_token c = [] then [] else [(''Authorization'', ''Bearer '' @ cl_token c)])) b) s =
      Some (rp, s')"
    and "rp_Status rp \<notin> {301, 302}"
    and "client_do N c \<lparr>hq_Method = m, hq_URL = base @ path_of segs, hq_Header = h, hq_Body = b\<rparr> out zero s = (x, s'')"
  shows "s'' = s' \<and> (rp_Status rp = 0 \<longrightarrow> (\<exists>e. x = Inl e)) \<and>
    (400 \<le> rp_Status rp \<longrightarrow>
       (let m = error_body (take 1048576 (body_text render (rp_Content rp)))
        in x = Inl (APIError (rp_Status rp) (if m = [] then StatusText (rp_Status rp) else m))))"
proof -
  let ?h = "h @ (if cl_token c = [] then [] else [(''Authorization'', ''Bearer '' @ cl_token c)])"
  obtain e where d: "nt_Do N \<lparr>hq_Method = m, hq_URL = base @ path_of segs, hq_Header = ?h, hq_Body = b\<rparr> s =
      (if rp_Status rp = 0 then Inl e else Inr (answer render rp), s')"
    using delivers [OF assms(1,3,4)] by blast
  have "client_do N c \<lparr>hq_Method = m, hq_URL = base @ path_of segs, hq_Header = h, hq_Body = b\<rparr> out zero s =
      client_do N (c\<lparr>cl_token := []\<rparr>) \<lparr>hq_Method = m, hq_URL = base @ path_of segs, hq_Header = ?h, hq_Body = b\<rparr> out zero s"
    by (simp add: client_do_def Let_def)
  with d assms(5) show ?thesis
    by (auto simp: client_do_def answer_def Let_def split: if_splits option.splits)
qed

end

subsection \<open>A network in the process\<close>

text \<open>The parts of a path.\<close>

fun segments :: "string \<Rightarrow> string list" where
  "segments [] = []"
| "segments (c # s) =
     (if c = CHR ''/'' then [] # segments s
      else case segments s of [] \<Rightarrow> [[c]] | p # ps \<Rightarrow> (c # p) # ps)"

definition in_process ::
  "(nat \<Rightarrow> 'w \<Rightarrow> string \<times> 'w) \<Rightarrow> ('w \<Rightarrow> go_time \<times> 'w) \<Rightarrow> (content \<Rightarrow> string) \<Rightarrow> string \<Rightarrow> 'w handler \<Rightarrow> (auth_state \<times> 'w) net" where
  "in_process rnd now render base H =
     \<lparr>nt_BadURL = (\<lambda>url. None),
      nt_Do = (\<lambda>rq s.
        let segs = segments (drop (length base + 1) (hq_URL rq))
        in case H (server_request (hq_Method rq) segs (hq_Header rq) (hq_Body rq)) s of
             None \<Rightarrow> (Inl ''timeout'', s)
           | Some (rp, s1) \<Rightarrow> (if rp_Status rp = 0 then Inl ''EOF'' else Inr (answer render rp), s1)),
      nt_Now = (\<lambda>s. case now (snd s) of (t, w) \<Rightarrow> (t, (fst s, w))),
      nt_Rand = (\<lambda>n s. case rnd n (snd s) of (b, w) \<Rightarrow> (b, (fst s, w))),
      nt_Wait = (\<lambda>d s. (None, s)), nt_MarshalError = ''json: unsupported value'', nt_UnmarshalError = (\<lambda>t. ''invalid json'')\<rparr>"

lemma plain_no_slash: "plain s \<Longrightarrow> CHR ''/'' \<notin> set s"
  by (auto simp: plain_def list_all_iff unreserved_def is_digit_def in_range_def)

lemma segments_one: "CHR ''/'' \<notin> set s \<Longrightarrow> s \<noteq> [] \<Longrightarrow> segments s = [s]"
proof (induction s)
  case (Cons c s)
  then show ?case by (cases s) auto
qed simp

lemma segments_more: "CHR ''/'' \<notin> set s \<Longrightarrow> s \<noteq> [] \<Longrightarrow> segments (s @ CHR ''/'' # t) = s # segments t"
proof (induction s)
  case (Cons c s)
  then show ?case by (cases s) auto
qed simp

lemma segments_path: "list_all plain segs \<Longrightarrow> segments (drop 1 (path_of segs)) = segs"
proof (induction segs)
  case (Cons s segs)
  then have s: "CHR ''/'' \<notin> set s" "s \<noteq> []" using plain_no_slash by (auto simp: plain_def)
  show ?case
  proof (cases segs)
    case Nil
    then show ?thesis using segments_one [OF s] by (simp add: path_of_def)
  next
    case c: (Cons u us)
    have "segments (drop 1 (path_of (s # segs))) = segments (s @ CHR ''/'' # drop 1 (path_of segs))"
      by (simp add: path_of_def c)
    with segments_more [OF s] Cons show ?thesis by simp
  qed
qed (simp add: path_of_def)

text \<open>In front of the API of the control service, with a clock and a random source of their own.\<close>

interpretation direct: api_network "in_process (\<lambda>n. beside (rnd n)) (beside now) render base H" base H render signals_of
  for rnd now render base and H :: "'w cctx handler"
proof unfold_locales
  let ?N = "in_process (\<lambda>n. beside (rnd n)) (beside now) render base H"
  show "nt_BadURL ?N (base @ path_of segs) = None" for segs by (simp add: in_process_def)
  show "\<exists>e. nt_Do ?N \<lparr>hq_Method = m, hq_URL = base @ path_of segs, hq_Header = h, hq_Body = b\<rparr> s =
      (if rp_Status rp = 0 then Inl e else Inr (answer render rp), s')"
    if "list_all plain segs" "H (server_request m segs h b) s = Some (rp, s')" for segs m h b s rp s'
  proof -
    have "segments (drop (length base + 1) (base @ path_of segs)) = segs"
      using segments_path [OF that(1)] by simp
    with that(2) show ?thesis by (auto simp: in_process_def)
  qed
  show "a' = a \<and> signals_of w' = signals_of w" if "nt_Now ?N (a, w) = (t, (a', w'))" for a w t a' w'
    using that by (auto simp: in_process_def split: prod.splits dest: beside_silent)
  show "a' = a \<and> signals_of w' = signals_of w" if "nt_Rand ?N n (a, w) = (bytes, (a', w'))" for n a w bytes a' w'
    using that by (auto simp: in_process_def split: prod.splits dest: beside_silent)
qed

subsection \<open>Keys and requests on the other side\<close>

definition graphic :: "char \<Rightarrow> bool" where
  "graphic c \<longleftrightarrow> 33 \<le> (of_char c :: nat) \<and> (of_char c :: nat) < 127"

lemma no_space_prefix:
  assumes "s \<noteq> []" and "graphic (hd s)"
  shows "find (has_prefix s) space_runes = None" "find (has_prefix s) (map rev space_runes) = None"
proof -
  obtain c t where s: "s = c # t" using assms(1) by (cases s) auto
  have ne: "c \<noteq> CHR 0x09" "c \<noteq> CHR 0x0A" "c \<noteq> CHR 0x0B" "c \<noteq> CHR 0x0C" "c \<noteq> CHR 0x0D" "c \<noteq> CHR 0x20"
    using assms(2) s by (auto simp: graphic_def)
  have high: "128 \<le> (of_char d :: nat) \<Longrightarrow> c \<noteq> d" for d
    using assms(2) s by (auto simp: graphic_def)
  show "find (has_prefix s) space_runes = None" "find (has_prefix s) (map rev space_runes) = None"
    by (simp_all add: space_runes_def s has_prefix_def ne high)
qed

lemma strip_front_id: "find (has_prefix s) ws = None \<Longrightarrow> strip_front n ws s = s"
  by (cases n) simp_all

lemma trim_space_id:
  assumes "s \<noteq> []" "graphic (hd s)" "graphic (last s)"
  shows "trim_space s = s"
proof -
  have "strip_front (length s) space_runes s = s"
    by (rule strip_front_id [OF no_space_prefix(1) [OF assms(1,2)]])
  moreover have "strip_front (length s) (map rev space_runes) (rev s) = rev s"
    by (rule strip_front_id [OF no_space_prefix(2)]) (use assms in \<open>simp_all add: hd_rev\<close>)
  ultimately show ?thesis by (simp add: trim_space_def)
qed

end
