(* ===== verification/Sdk_Commands.thy ===== *)
theory Sdk_Commands
  imports Sdk_Wire Float_Text
begin

text \<open>
  Commands from the SDK to the actor: the request a command of the SDK becomes, how the API reads it,
  and what is signalled when the SDK reports success; and what a client sees of a server with
  authentication.
\<close>

subsection \<open>Generated keys\<close>

lemma hex_byte_graphic: "list_all graphic (hex_byte c)"
proof -
  have "d < 16 \<Longrightarrow> graphic (hex_digit d)" for d by (auto simp: graphic_def hex_digit_def)
  moreover have "(of_char c :: nat) div 16 < 16" using nat_of_char_less_256 [of c] by linarith
  ultimately show ?thesis by (simp add: hex_byte_def Let_def)
qed

lemma hex_encode_graphic: "list_all graphic (hex_encode b)"
  using hex_byte_graphic by (induction b) (simp_all add: hex_encode_def)

lemma nat_dec_graphic: "list_all graphic (nat_dec n)"
proof -
  have "graphic c" if "c \<in> set (nat_dec n)" for c
    using nat_dec_digits [OF that] by (auto simp: graphic_def of_char_digit)
  then show ?thesis by (simp add: list_all_iff)
qed

lemma int_dec_graphic: "list_all graphic (int_dec i)" "int_dec i \<noteq> []"
  using nat_dec_graphic by (simp_all add: int_dec_def graphic_def)

lemma key_trimmed:
  assumes "generateKey N s = (key, s')"
  shows "key \<noteq> []" "trim_space key = key"
proof -
  obtain n b where key: "key = int_dec n @ ''-'' @ hex_encode b"
    using assms by (auto simp: generateKey_def split: prod.splits)
  then show "key \<noteq> []" by simp
  have "list_all graphic key" using int_dec_graphic hex_encode_graphic by (simp add: key graphic_def)
  with \<open>key \<noteq> []\<close> show "trim_space key = key" by (intro trim_space_id) (auto simp: list_all_iff)
qed

text \<open>The key a client draws in a world of its own clock and random source: the milliseconds since 1970,
  a dash and the eight random bytes in hexadecimal.\<close>

definition drawn_key :: "(nat \<Rightarrow> 'w \<Rightarrow> string \<times> 'w) \<Rightarrow> ('w \<Rightarrow> go_time \<times> 'w) \<Rightarrow> 'w \<Rightarrow> string" where
  "drawn_key rnd now w =
     int_dec ((fst (now (snd (rnd 8 w))) - 62135596800 * go_second) div 1000000) @ ''-'' @ hex_encode (fst (rnd 8 w))"

lemma hex_no_dash: "CHR ''-'' \<notin> set (hex_encode b)"
proof -
  have "hex_digit d = CHR ''-'' \<Longrightarrow> \<not> d < 16" for d
  proof
    assume "hex_digit d = CHR ''-''" and "d < 16"
    then have "(of_char (hex_digit d) :: nat) = 45" by simp
    with \<open>d < 16\<close> show False by (auto simp: hex_digit_def split: if_splits)
  qed
  moreover have "(of_char c :: nat) div 16 < 16" for c using nat_of_char_less_256 [of c] by linarith
  ultimately have "CHR ''-'' \<notin> set (hex_byte c)" for c
    by (auto simp: hex_byte_def Let_def) (metis mod_less_divisor zero_less_numeral)+
  then show ?thesis by (induction b) (simp_all add: hex_encode_def)
qed

text \<open>Other random bytes give another key, whatever the clock says.\<close>

lemma drawn_key_fresh:
  assumes "drawn_key rnd now w = drawn_key rnd' now' w'"
  shows "fst (rnd 8 w) = fst (rnd' 8 w')"
proof -
  have tail: "takeWhile (\<lambda>c. c \<noteq> CHR ''-'') (rev (t @ ''-'' @ hex_encode b)) = rev (hex_encode b)" for t b
    using hex_no_dash [of b] by (auto simp: takeWhile_append)
  from assms have "rev (hex_encode (fst (rnd 8 w))) = rev (hex_encode (fst (rnd' 8 w')))"
    unfolding drawn_key_def by (metis tail)
  then show ?thesis by (simp add: hex_encode_inj)
qed

subsection \<open>Reading a request\<close>

lemma prefix_printed: "json_ok 10000 j \<Longrightarrow> json_prefix (json_print j) = Some j"
proof -
  assume ok: "json_ok 10000 j"
  have "parse_value (2 * length (json_print j) + 2) 10000 (json_print j @ []) = Some (j, [])"
    by (rule parse_print [OF ok, rule_format]) simp_all
  then show ?thesis unfolding json_prefix_def using skip_ws_printed [OF ok, of "[]"] by simp
qed

lemma decode_printed:
  assumes "json_ok 10000 j" and "length (json_print j) \<le> 1048576" and "decode_struct True fs j target = Some x"
  shows "decode C (server_request m segs h (Some (json_print j))) fs target = Inr x"
    "decodeOptional C (server_request m segs h (Some (json_print j))) fs target = Inr x"
  using assms print_head(1) [OF assms(1)]
  by (simp_all add: decodeOptional_def decode_def server_request_def prefix_printed Let_def)

lemma decode_ScaleRequest:
  "decode_struct True scale_fields (the (json_ScaleRequest q)) zero_scale =
     Some \<lparr>sq_Requester = qs_Requester q, sq_Parallelism = qs_Parallelism q, sq_Approved = qs_Approved q, sq_Reason = qs_Reason q\<rparr>"
proof -
  have "decode_struct True scale_fields (the (json_ScaleRequest q)) zero_scale =
    decode_struct True scale_fields (JObj (bool_member ''approved'' (qs_Approved q) @ string_member ''reason'' (qs_Reason q) @ []))
      (zero_scale\<lparr>sq_Requester := qs_Requester q, sq_Parallelism := qs_Parallelism q\<rparr>)"
    by (simp add: json_ScaleRequest_def decode_members decode_member_def scale_fields_def)
  also have "\<dots> = decode_struct True scale_fields (JObj [])
      (zero_scale\<lparr>sq_Requester := qs_Requester q, sq_Parallelism := qs_Parallelism q, sq_Approved := qs_Approved q,
         sq_Reason := qs_Reason q\<rparr>)"
    unfolding bool_member_def string_member_def
    by (subst decode_opt_member, simp add: decode_member_def scale_fields_def, simp add: zero_scale_def)+ simp
  finally show ?thesis by (simp add: decode_members zero_scale_def)
qed

lemma decode_RollbackRequest:
  "decode_struct True rollback_fields (the (json_RollbackRequest q)) zero_rollback =
     Some \<lparr>rb_Requester = qb_Requester q, rb_TargetVersion = qb_TargetVersion q, rb_Reason = qb_Reason q, rb_Approved = qb_Approved q\<rparr>"
proof -
  have "decode_struct True rollback_fields (the (json_RollbackRequest q)) zero_rollback =
    decode_struct True rollback_fields (JObj (bool_member ''approved'' (qb_Approved q) @ string_member ''reason'' (qb_Reason q) @ []))
      (zero_rollback\<lparr>rb_Requester := qb_Requester q, rb_TargetVersion := qb_TargetVersion q\<rparr>)"
    by (simp add: json_RollbackRequest_def decode_members decode_member_def rollback_fields_def)
  also have "\<dots> = decode_struct True rollback_fields (JObj [])
      (zero_rollback\<lparr>rb_Requester := qb_Requester q, rb_TargetVersion := qb_TargetVersion q, rb_Approved := qb_Approved q,
         rb_Reason := qb_Reason q\<rparr>)"
    unfolding bool_member_def string_member_def
    by (subst decode_opt_member, simp add: decode_member_def rollback_fields_def, simp add: zero_rollback_def)+ simp
  finally show ?thesis by (simp add: decode_members zero_rollback_def)
qed

lemma decode_SimpleRequest:
  "decode_struct True simple_fields (the (json_SimpleRequest q)) zero_simple =
     Some \<lparr>sr_Requester = qm_Requester q, sr_Approved = qm_Approved q, sr_Incident = qm_Incident q, sr_Reason = qm_Reason q\<rparr>"
proof -
  have "decode_struct True simple_fields (the (json_SimpleRequest q)) zero_simple =
    decode_struct True simple_fields (JObj (bool_member ''approved'' (qm_Approved q) @
      bool_member ''incident'' (qm_Incident q) @ string_member ''reason'' (qm_Reason q) @ []))
      (zero_simple\<lparr>sr_Requester := qm_Requester q\<rparr>)"
    by (simp add: json_SimpleRequest_def decode_members decode_member_def simple_fields_def)
  also have "\<dots> = decode_struct True simple_fields (JObj [])
      (zero_simple\<lparr>sr_Requester := qm_Requester q, sr_Approved := qm_Approved q, sr_Incident := qm_Incident q,
         sr_Reason := qm_Reason q\<rparr>)"
    unfolding bool_member_def string_member_def
    by (subst decode_opt_member, simp add: decode_member_def simple_fields_def, simp add: zero_simple_def)+ simp
  finally show ?thesis by (simp add: decode_members zero_simple_def)
qed

subsection \<open>Reading a specification\<close>

text \<open>What a map of strings is on the other side: no map if it is empty, and its entries in order.\<close>

definition wire_strings :: "string_map \<Rightarrow> string_map" where
  "wire_strings m = (if entries m = [] then None else Some (map (\<lambda>k. (k, map_str m k)) (sorted_keys m)))"

definition sent_spec :: "DeploymentSpec \<Rightarrow> DeploymentSpec" where
  "sent_spec s = s\<lparr>spec_JobArgs := wire_strings (spec_JobArgs s), spec_FlinkConfig := wire_strings (spec_FlinkConfig s)\<rparr>"

lemma update_new: "k \<notin> fst ` set es \<Longrightarrow> AList.update k v es = es @ [(k, v)]"
  by (induction es) auto

lemma into_map_fold:
  assumes "distinct ks" and "set ks \<inter> fst ` set es = {}"
  shows "fold (\<lambda>(k, x) m. Option.bind m (\<lambda>m. map_option (\<lambda>s. map_put k s m) (into_string [] x)))
      (map (\<lambda>k. (k, JStr (f k))) ks) (Some (Some es)) = Some (Some (es @ map (\<lambda>k. (k, f k)) ks))"
  using assms
proof (induction ks arbitrary: es)
  case (Cons k ks)
  then have "k \<notin> fst ` set es" by auto
  then have "map_put k (f k) (Some es) = Some (es @ [(k, f k)])" by (simp add: map_put_def update_new)
  moreover have "set ks \<inter> fst ` set (es @ [(k, f k)]) = {}" using Cons.prems by auto
  ultimately show ?case using Cons.IH [of "es @ [(k, f k)]"] Cons.prems by simp
qed simp

lemma into_map_strings:
  assumes "map_wf m" and "entries m \<noteq> []"
  shows "into_map None (json_string_map m) = Some (wire_strings m)"
proof -
  obtain es where m: "m = Some es" using assms(2) by (cases m) auto
  have "distinct (sorted_keys m)" using assms(1) by (simp add: sorted_keys_def map_wf_def)
  from into_map_fold [OF this, of "[]" "map_str m"] show ?thesis
    using assms(2) by (simp add: into_map_def json_string_map_def m wire_strings_def)
qed

lemma decode_resources:
  assumes "f_finite (rs_TaskManagerCPU r)"
  shows "\<exists>j. json_resources r = Some j \<and> decode_struct strict resources_fields j r0 = Some r \<and> (1 < d \<longrightarrow> json_ok d j)"
proof -
  from assms obtain t where t: "json_float (rs_TaskManagerCPU r) = Some t" "is_number t" "parse_float t = Some (rs_TaskManagerCPU r)"
    using float_text [OF assms] by blast
  have "utf8 ''taskManagerCpu''" "utf8 ''taskManagerMemoryMiB''" "utf8 ''taskManagerCount''" "utf8 ''slotsPerManager''"
    by (rule utf8_ascii; simp)+
  with t show ?thesis
    by (cases r) (auto simp: json_resources_def decode_members decode_member_def resources_fields_def into_float_def
        json_int_def itoa_is_number into_int_def atoi_itoa)
qed

lemma decode_state: "decode_struct strict state_fields (json_state s) s0 = Some s"
  by (cases s) (simp add: json_state_def decode_members decode_member_def state_fields_def)

text \<open>What a specification needs to arrive as it is: UTF-8 throughout, one entry per key, and a
  finite float.\<close>

definition utf8_map :: "string_map \<Rightarrow> bool" where
  "utf8_map m \<longleftrightarrow> map_wf m \<and> list_all (\<lambda>(k, v). utf8 k \<and> utf8 v) (entries m)"

definition sendable_spec :: "DeploymentSpec \<Rightarrow> bool" where
  "sendable_spec s \<longleftrightarrow>
     utf8 (spec_ImageDigest s) \<and> utf8 (spec_GitRef s) \<and> utf8 (spec_FlinkVersion s) \<and> utf8_map (spec_JobArgs s) \<and>
     utf8_map (spec_FlinkConfig s) \<and> f_finite (rs_TaskManagerCPU (spec_Resources s))"

lemma map_str_utf8: "utf8_map m \<Longrightarrow> k \<in> fst ` set (entries m) \<Longrightarrow> utf8 k \<and> utf8 (map_str m k)"
  by (auto simp: utf8_map_def map_str_def map_find_def list_all_iff dest!: map_of_SomeD split: option.split)

lemma string_map_ok: "utf8_map m \<Longrightarrow> 0 < d \<Longrightarrow> json_ok d (json_string_map m)"
  using map_str_utf8 [of m] by (cases m) (auto simp: json_string_map_def list_all_iff)

lemma spec_names:
  "utf8 ''imageDigest''" "utf8 ''gitRef''" "utf8 ''flinkVersion''" "utf8 ''jobArgs''" "utf8 ''flinkConfig''" "utf8 ''parallelism''"
  "utf8 ''maxParallelism''" "utf8 ''resources''" "utf8 ''stateCompatibility''" "utf8 ''autoscalerEnabled''"
  "utf8 ''jobGraphCompatible''" "utf8 ''operatorUidsStable''" "utf8 ''allowNonRestored''" "utf8 ''freshStartApproved''"
  "utf8 ''requester''" "utf8 ''approved''" "utf8 ''incident''" "utf8 ''reason''" "utf8 ''spec''" "utf8 ''targetVersion''"
  by (rule utf8_ascii; simp)+

lemma members_ok [simp]:
  "json_ok d (json_int n)"
  "list_all P (opt_member present k v) \<longleftrightarrow> (present \<longrightarrow> P (k, v))"
  "list_all P (string_member k s) \<longleftrightarrow> (s \<noteq> [] \<longrightarrow> P (k, JStr s))"
  "list_all P (bool_member k b) \<longleftrightarrow> (b \<longrightarrow> P (k, JBool b))"
  by (auto simp: json_int_def itoa_is_number opt_member_def string_member_def bool_member_def)

lemma decode_spec:
  assumes "sendable_spec s"
  shows "\<exists>j. json_spec s = Some j \<and> decode_struct strict (spec_fields strict) j zero_DeploymentSpec = Some (sent_spec s) \<and>
    (2 < d \<longrightarrow> json_ok d j)"
proof -
  let ?F = "spec_fields strict" and ?D = "\<lambda>kvs. decode_struct strict (spec_fields strict) (JObj kvs)"
  from assms have m: "map_wf (spec_JobArgs s)" "map_wf (spec_FlinkConfig s)" and f: "f_finite (rs_TaskManagerCPU (spec_Resources s))"
    by (simp_all add: sendable_spec_def utf8_map_def)
  obtain res where res: "json_resources (spec_Resources s) = Some res" "decode_struct strict resources_fields res r0 = Some (spec_Resources s)"
    "1 < d - 1 \<longrightarrow> json_ok (d - 1) res" for r0
    using decode_resources [OF f, of strict _ "d - 1"] by (metis option.inject)
  define tail where "tail = [(''parallelism'', json_int (spec_Parallelism s)), (''maxParallelism'', json_int (spec_MaxParallelism s)),
    (''resources'', res), (''stateCompatibility'', json_state (spec_State s)), (''autoscalerEnabled'', JBool (spec_AutoscalerEnabled s))]"
  let ?j = "[(''imageDigest'', JStr (spec_ImageDigest s))] @ opt_member (spec_GitRef s \<noteq> []) ''gitRef'' (JStr (spec_GitRef s)) @
    [(''flinkVersion'', JStr (spec_FlinkVersion s))] @
    opt_member (entries (spec_JobArgs s) \<noteq> []) ''jobArgs'' (json_string_map (spec_JobArgs s)) @
    opt_member (entries (spec_FlinkConfig s) \<noteq> []) ''flinkConfig'' (json_string_map (spec_FlinkConfig s)) @ tail"
  have j: "json_spec s = Some (JObj ?j)" by (simp add: json_spec_def res(1) tail_def)
  let ?a = "zero_DeploymentSpec\<lparr>spec_ImageDigest := spec_ImageDigest s, spec_GitRef := spec_GitRef s\<rparr>"
  let ?b = "?a\<lparr>spec_FlinkVersion := spec_FlinkVersion s\<rparr>"
  let ?c = "?b\<lparr>spec_JobArgs := wire_strings (spec_JobArgs s)\<rparr>"
  let ?e = "?c\<lparr>spec_FlinkConfig := wire_strings (spec_FlinkConfig s)\<rparr>"
  note one = decode_member_def spec_fields_def
  have args: "decode_struct strict ?F (JObj (opt_member (entries (spec_JobArgs s) \<noteq> []) ''jobArgs'' (json_string_map (spec_JobArgs s)) @ kvs)) ?b
      = ?D kvs ?c" for kvs
  proof (cases "entries (spec_JobArgs s) = []")
    case True
    then show ?thesis by (simp add: opt_member_def wire_strings_def zero_DeploymentSpec_def)
  next
    case False
    then show ?thesis using into_map_strings [OF m(1) False]
      by (simp add: opt_member_def decode_members one zero_DeploymentSpec_def)
  qed
  have config: "decode_struct strict ?F (JObj (opt_member (entries (spec_FlinkConfig s) \<noteq> []) ''flinkConfig''
      (json_string_map (spec_FlinkConfig s)) @ kvs)) ?c = ?D kvs ?e" for kvs
  proof (cases "entries (spec_FlinkConfig s) = []")
    case True
    then show ?thesis by (simp add: opt_member_def wire_strings_def zero_DeploymentSpec_def)
  next
    case False
    then show ?thesis using into_map_strings [OF m(2) False]
      by (simp add: opt_member_def decode_members one zero_DeploymentSpec_def)
  qed
  have tail: "?D tail ?e = Some (sent_spec s)"
    unfolding tail_def
    by (cases s) (simp add: decode_members one res(2) decode_state sent_spec_def zero_DeploymentSpec_def)
  have git: "?D (opt_member (spec_GitRef s \<noteq> []) ''gitRef'' (JStr (spec_GitRef s)) @ kvs)
      (zero_DeploymentSpec\<lparr>spec_ImageDigest := spec_ImageDigest s\<rparr>) = ?D kvs ?a" for kvs
    by (rule decode_opt_member) (simp_all add: one zero_DeploymentSpec_def)
  have "?D ?j zero_DeploymentSpec = ?D (opt_member (spec_GitRef s \<noteq> []) ''gitRef'' (JStr (spec_GitRef s)) @
      [(''flinkVersion'', JStr (spec_FlinkVersion s))] @
      opt_member (entries (spec_JobArgs s) \<noteq> []) ''jobArgs'' (json_string_map (spec_JobArgs s)) @
      opt_member (entries (spec_FlinkConfig s) \<noteq> []) ''flinkConfig'' (json_string_map (spec_FlinkConfig s)) @ tail)
      (zero_DeploymentSpec\<lparr>spec_ImageDigest := spec_ImageDigest s\<rparr>)"
    by (simp add: decode_members one)
  also have "\<dots> = ?D (opt_member (entries (spec_JobArgs s) \<noteq> []) ''jobArgs'' (json_string_map (spec_JobArgs s)) @
      opt_member (entries (spec_FlinkConfig s) \<noteq> []) ''flinkConfig'' (json_string_map (spec_FlinkConfig s)) @ tail) ?b"
    unfolding git by (simp add: decode_members one)
  also have "\<dots> = Some (sent_spec s)" unfolding args config by (rule tail)
  finally have "?D ?j zero_DeploymentSpec = Some (sent_spec s)" .
  moreover have "json_ok d (JObj ?j)" if "2 < d"
    using assms res(3) that string_map_ok
    by (simp add: tail_def sendable_spec_def spec_names json_state_def)
  ultimately show ?thesis using j by blast
qed

lemma decode_DeployRequest:
  assumes "sendable_spec (qd_Spec q)" and "utf8 (qd_Requester q)" and "utf8 (qd_Reason q)"
  shows "\<exists>j. json_DeployRequest q = Some j \<and> json_ok 10000 j \<and>
    decode_struct True deploy_fields j zero_deploy =
      Some \<lparr>dr_Requester = qd_Requester q, dr_Approved = qd_Approved q, dr_Incident = qd_Incident q, dr_Reason = qd_Reason q,
        dr_Spec = sent_spec (qd_Spec q)\<rparr>"
proof -
  obtain spec where spec: "json_spec (qd_Spec q) = Some spec"
    "decode_struct True (spec_fields True) spec zero_DeploymentSpec = Some (sent_spec (qd_Spec q))" "json_ok 9999 spec"
    using decode_spec [OF assms(1), of True 9999] by auto
  let ?j = "JObj ([(''requester'', JStr (qd_Requester q))] @ bool_member ''approved'' (qd_Approved q) @
    bool_member ''incident'' (qd_Incident q) @ string_member ''reason'' (qd_Reason q) @ [(''spec'', spec)])"
  have "decode_struct True deploy_fields ?j zero_deploy =
    decode_struct True deploy_fields (JObj (bool_member ''approved'' (qd_Approved q) @
      bool_member ''incident'' (qd_Incident q) @ string_member ''reason'' (qd_Reason q) @ [(''spec'', spec)]))
      (zero_deploy\<lparr>dr_Requester := qd_Requester q\<rparr>)"
    by (simp add: decode_members decode_member_def deploy_fields_def)
  also have "\<dots> = decode_struct True deploy_fields (JObj [(''spec'', spec)])
      (zero_deploy\<lparr>dr_Requester := qd_Requester q, dr_Approved := qd_Approved q, dr_Incident := qd_Incident q,
         dr_Reason := qd_Reason q\<rparr>)"
    unfolding bool_member_def string_member_def
    by (subst decode_opt_member, simp add: decode_member_def deploy_fields_def, simp add: zero_deploy_def)+ simp
  also have "\<dots> = Some \<lparr>dr_Requester = qd_Requester q, dr_Approved = qd_Approved q, dr_Incident = qd_Incident q,
      dr_Reason = qd_Reason q, dr_Spec = sent_spec (qd_Spec q)\<rparr>"
    by (simp add: decode_members decode_member_def deploy_fields_def zero_deploy_def spec(2))
  finally show ?thesis
    using spec(1,3) assms(2,3) by (auto simp: json_DeployRequest_def spec_names)
qed

subsection \<open>Through the server\<close>

definition api_command :: "string \<Rightarrow> CommandType \<Rightarrow> string \<Rightarrow> go_time \<Rightarrow> DeploymentCommand" where
  "api_command key t requester now =
     \<lparr>cmd_OperationID = key, cmd_IdempotencyKey = key, cmd_Type = t,
      cmd_Requester = (if requester = [] then ''api'' else requester), cmd_RequestedAt = now, cmd_TargetSpec = None,
      cmd_TargetVersion = 0, cmd_Parallelism = 0, cmd_Approved = False, cmd_Incident = False, cmd_Reason = []\<rparr>"

definition deployment_parts :: "Deployment \<Rightarrow> string list" where
  "deployment_parts d = [''api'', ''v1'', ''deployments'', dep_Env d, dep_Namespace d, dep_Name d]"

definition plain_deployment :: "Deployment \<Rightarrow> bool" where
  "plain_deployment d \<longleftrightarrow> plain (dep_Env d) \<and> plain (dep_Namespace d) \<and> plain (dep_Name d)"

definition path_bindings :: "Deployment \<Rightarrow> (string \<times> string) list" where
  "path_bindings d = [(''env'', dep_Env d), (''namespace'', dep_Namespace d), (''name'', dep_Name d)]"

lemma deployment_path_parts: "deployment_path d (path_of ops) = path_of (deployment_parts d @ ops)"
  by (simp add: deployment_path_def path_of_def deployment_parts_def)

lemma plain_words: "plain ''api''" "plain ''v1''" "plain ''deployments''" "plain ''deploy''" "plain ''scale''" "plain ''rollback''"
    "plain ''suspend''" "plain ''resume''" "plain ''savepoint''" "plain ''actor''"
  by (simp_all add: plain_def unreserved_def is_digit_def in_range_def)

lemma parts_plain: "plain_deployment d \<Longrightarrow> list_all plain ops \<Longrightarrow> list_all plain (deployment_parts d @ ops)"
  by (simp add: plain_deployment_def deployment_parts_def plain_words)

lemma api_paths:
  "has_prefix (path_of (deployment_parts d @ ops)) ''/api/''" "\<not> isPublicPath (path_of (deployment_parts d @ ops))"
  by (simp_all add: path_of_def deployment_parts_def has_prefix_def isPublicPath_def)

lemma handler_unauthorized:
  "Enabled a \<Longrightarrow> Handler E C (server_request m (deployment_parts d @ ops) h b) (a, w) =
     Some (reply 401 (CText ''{\"error\":\"unauthorized\"}''), (a, w))"
  using api_paths [of d ops] by (simp add: Handler_def Middleware_def session_check_def cookie_def server_request_def)

lemma handler_endpoint:
  assumes "\<not> Enabled a" and "find_route routes m (deployment_parts d @ ops) = Some (e, b)" and "command_type e = Some t"
  shows "Handler E C (server_request m (deployment_parts d @ ops) h body) (a, w) =
    (case api_endpoint C e (server_request m (deployment_parts d @ ops) h body) b w of
       None \<Rightarrow> None | Some (rp, w1) \<Rightarrow> Some (rp, (a, w1)))"
proof -
  have "deployment_parts d @ ops \<noteq> [''ui'']" by (simp add: deployment_parts_def)
  with assms show ?thesis
    by (cases e) (simp_all add: Handler_def Middleware_def mux_def server_request_def dispatch_endpoint_def)
qed

lemma send_identity_parts:
  "rq_Query r = [] \<Longrightarrow> WorkflowID (send_identity r (path_bindings d)) = WorkflowID (bare_identity (dep_Env d) (dep_Namespace d) (dep_Name d))"
  by (simp add: send_identity_def identityFrom_def path_value_def first_value_def path_bindings_def query_get_def
      WorkflowID_def bare_identity_def)

lemma handled_command:
  assumes "command_handler (service_control T s schedule clk de) r b decoded t requester fill ctx = (rp, ctx')"
    and "request_key r = key" "key \<noteq> []"
  shows "signals_of ctx' = signals_of ctx \<and> rp_Status rp \<in> {0, 400, 409, 502} \<or>
    rp_Status rp \<in> {0, 202, 409, 502} \<and>
    (\<exists>q. decoded = Inr q \<and> signals_of ctx' = signals_of ctx @
       [command_signal (send_identity r b) (fill q (api_command key t (requester q) (clk (snd ctx))))])"
proof (cases decoded)
  case (Inl e)
  with assms(1) show ?thesis by (auto simp: command_handler_def writeError_def writeJSON_def reply_def)
next
  case (Inr q)
  let ?c = "fill q (api_command key t (requester q) (clk (snd ctx)))"
  have base: "baseCommand (service_control T s schedule clk de) r t (requester q) ctx =
      (Inr (api_command key t (requester q) (clk (snd ctx))), ctx)"
    using assms(2,3) by (simp add: baseCommand_def request_key_def api_command_def service_control_def Let_def)
  obtain x ctx2 where x: "SendCommand T s (send_identity r b) ?c ctx = (x, ctx2)"
    by (cases "SendCommand T s (send_identity r b) ?c ctx")
  have ctl: "ctl_SendCommand (service_control T s schedule clk de) (send_identity r b) ?c ctx = (x, ctx2)"
    using x by (simp add: service_control_def)
  have "ctx' = ctx2" "rp_Status rp \<in> {0, 202, 409, 502}" "x \<noteq> Inr () \<Longrightarrow> rp_Status rp \<noteq> 202"
    using assms(1) base ctl Inr
    by (auto simp: command_handler_def send_def writeError_def writeJSON_def bad_gateway_def reply_def Let_def
        split: sum.splits service_error.splits if_splits)
  with service.send_signals [OF ctl] Inr show ?thesis by auto
qed

text \<open>The API of the control service behind a network in the process.\<close>

definition api_net ::
  "(nat \<Rightarrow> 'w \<Rightarrow> string \<times> 'w) \<Rightarrow> ('w \<Rightarrow> go_time \<times> 'w) \<Rightarrow> (content \<Rightarrow> string) \<Rightarrow> string \<Rightarrow> 'w auth_env \<Rightarrow> 'w temporal \<Rightarrow>
   Service \<Rightarrow> (nat \<Rightarrow> nat list) \<Rightarrow> ('w \<Rightarrow> go_time) \<Rightarrow> (string \<Rightarrow> string) \<Rightarrow> (auth_state \<times> 'w cctx) net" where
  "api_net rnd now render base A T s schedule clk de =
     in_process (\<lambda>n. beside (rnd n)) (beside now) render base
       (Handler (service_auth A) (service_control T s schedule clk de))"

lemma api_net_key:
  "fst (generateKey (api_net rnd now render base A T s schedule clk de) (a, ctx)) = drawn_key rnd now (snd ctx)"
  by (simp add: generateKey_def api_net_def in_process_def beside_def drawn_key_def split: prod.split)

lemma post_command_exchange:
  assumes "post_command (api_net rnd now render base A T s schedule clk de) d (path_of ops) (Some j) (a, ctx) = (x, (a', ctx'))"
    and "cl_baseURL (dep_client d) = base" "plain_deployment d" "list_all plain ops"
  obtains key ctx1 h where
    "generateKey (api_net rnd now render base A T s schedule clk de) (a, ctx) = (key, (a, ctx1))"
    "signals_of ctx1 = signals_of ctx" "\<And>segs b. header_get (server_request ''POST'' segs h b) ''Idempotency-Key'' = key"
    "\<And>rp s'. Handler (service_auth A) (service_control T s schedule clk de)
        (server_request ''POST'' (deployment_parts d @ ops) h (Some (json_print j))) (a, ctx1) = Some (rp, s') \<Longrightarrow>
      rp_Status rp \<notin> {301, 302} \<Longrightarrow>
      (a', ctx') = s' \<and> (rp_Status rp = 0 \<longrightarrow> (\<exists>e. x = Inl e)) \<and>
      (400 \<le> rp_Status rp \<longrightarrow>
         (let m = error_body (take 1048576 (body_text render (rp_Content rp)))
          in x = Inl (APIError (rp_Status rp) (if m = [] then StatusText (rp_Status rp) else m))))"
proof -
  let ?N = "api_net rnd now render base A T s schedule clk de"
  obtain key a1 ctx1 where key: "generateKey ?N (a, ctx) = (key, (a1, ctx1))" by (metis prod_cases3)
  note silent = direct.key_silent [OF key [unfolded api_net_def]]
  let ?h = "[(''Idempotency-Key'', key), (''Content-Type'', ''application/json'')] @
    (if cl_token (dep_client d) = [] then [] else [(''Authorization'', ''Bearer '' @ cl_token (dep_client d))])"
  have "post_command ?N d (path_of ops) (Some j) (a, ctx) = client_do ?N (dep_client d)
      \<lparr>hq_Method = ''POST'', hq_URL = base @ path_of (deployment_parts d @ ops),
       hq_Header = [(''Idempotency-Key'', key), (''Content-Type'', ''application/json'')], hq_Body = Some (json_print j)\<rparr>
      (Some (into_struct command_response_fields)) \<lparr>cr_OperationID = [], cr_WorkflowID = [], cr_Status = []\<rparr> (a1, ctx1)"
    using key assms(2)
    by (simp add: post_command_def postMutation_def deployment_path_parts api_net_def Let_def
        direct.good_urls [OF parts_plain [OF assms(3,4)]])
  with assms(1) have "client_do ?N (dep_client d)
      \<lparr>hq_Method = ''POST'', hq_URL = base @ path_of (deployment_parts d @ ops),
       hq_Header = [(''Idempotency-Key'', key), (''Content-Type'', ''application/json'')], hq_Body = Some (json_print j)\<rparr>
      (Some (into_struct command_response_fields)) \<lparr>cr_OperationID = [], cr_WorkflowID = [], cr_Status = []\<rparr> (a1, ctx1) =
      (x, (a', ctx'))" by simp
  note ans = direct.do_answers [OF parts_plain [OF assms(3,4)] assms(2) _ _ this [unfolded api_net_def]]
  show ?thesis
    by (rule that [of key ctx1 ?h]) (use key silent ans in \<open>simp_all add: header_get_def first_value_def server_request_def\<close>)
qed

text \<open>A command of the client: nothing is signalled, and the client is told so; or exactly this command is.\<close>

lemma command_sent:
  assumes "post_command (api_net rnd now render base A T s schedule clk de) d (path_of ops) (Some j) (a, ctx) = (x, (a', ctx'))"
    and "cl_baseURL (dep_client d) = base" "plain_deployment d" "list_all plain ops"
    and "find_route routes ''POST'' (deployment_parts d @ ops) = Some (e, path_bindings d)" "command_type e = Some t"
    and "\<And>h ctx. api_endpoint (service_control T s schedule clk de) e
        (server_request ''POST'' (deployment_parts d @ ops) h (Some (json_print j))) (path_bindings d) ctx =
      Some (command_handler (service_control T s schedule clk de)
        (server_request ''POST'' (deployment_parts d @ ops) h (Some (json_print j))) (path_bindings d) decoded t requester fill ctx)"
  shows "signals_of ctx' = signals_of ctx \<and> (\<exists>e. x = Inl e) \<or>
    (\<exists>now' q. decoded = Inr q \<and> signals_of ctx' = signals_of ctx @
      [command_signal (bare_identity (dep_Env d) (dep_Namespace d) (dep_Name d))
        (fill q (api_command (drawn_key rnd now (snd ctx)) t (requester q) now'))])"
proof -
  let ?N = "api_net rnd now render base A T s schedule clk de" and ?C = "service_control T s schedule clk de"
  let ?r = "\<lambda>h. server_request ''POST'' (deployment_parts d @ ops) h (Some (json_print j))"
  obtain key ctx1 h where k: "generateKey ?N (a, ctx) = (key, (a, ctx1))" "signals_of ctx1 = signals_of ctx"
    "\<And>segs b. header_get (server_request ''POST'' segs h b) ''Idempotency-Key'' = key"
    and ans: "\<And>rp s'. Handler (service_auth A) ?C (?r h) (a, ctx1) = Some (rp, s') \<Longrightarrow> rp_Status rp \<notin> {301, 302} \<Longrightarrow>
      (a', ctx') = s' \<and> (rp_Status rp = 0 \<longrightarrow> (\<exists>e. x = Inl e)) \<and>
      (400 \<le> rp_Status rp \<longrightarrow>
         (let m = error_body (take 1048576 (body_text render (rp_Content rp)))
          in x = Inl (APIError (rp_Status rp) (if m = [] then StatusText (rp_Status rp) else m))))"
    by (rule post_command_exchange [OF assms(1-4)]) blast
  show ?thesis
  proof (cases "Enabled a")
    case True
    from ans [OF handler_unauthorized [OF True]] k(2) show ?thesis by (simp add: reply_def Let_def)
  next
    case off: False
    obtain rp ctx2 where rp: "command_handler ?C (?r h) (path_bindings d) decoded t requester fill ctx1 = (rp, ctx2)"
      by (cases "command_handler ?C (?r h) (path_bindings d) decoded t requester fill ctx1")
    have H: "Handler (service_auth A) ?C (?r h) (a, ctx1) = Some (rp, (a, ctx2))"
      by (subst handler_endpoint [OF off assms(5,6)]) (simp add: assms(7) rp)
    note key = key_trimmed [OF k(1)]
    have drawn: "key = drawn_key rnd now (snd ctx)"
      using api_net_key [of rnd now render base A T s schedule clk de a ctx] k(1) by simp
    have "request_key (?r h) = key" using key k(3) by (simp add: request_key_def)
    from handled_command [OF rp this key(1)] show ?thesis
    proof
      assume none: "signals_of ctx2 = signals_of ctx1 \<and> rp_Status rp \<in> {0, 400, 409, 502}"
      then have "rp_Status rp \<notin> {301, 302}" by auto
      from ans [OF H this] none k(2) show ?thesis by (auto simp: Let_def)
    next
      assume one: "rp_Status rp \<in> {0, 202, 409, 502} \<and> (\<exists>q. decoded = Inr q \<and> signals_of ctx2 = signals_of ctx1 @
        [command_signal (send_identity (?r h) (path_bindings d)) (fill q (api_command key t (requester q) (clk (snd ctx1))))])"
      then have "rp_Status rp \<notin> {301, 302}" by auto
      from ans [OF H this] have "ctx' = ctx2" by simp
      with one k(2) send_identity_parts [of "?r h" d] show ?thesis
        unfolding drawn by (auto simp: command_signal_def server_request_def)
    qed
  qed
qed

text \<open>The answer of the server, read back.\<close>

lemma parse_line:
  assumes ok: "json_ok 10000 j"
  shows "json_parse (json_print j @ [CHR 0x0A]) = Some j"
proof -
  let ?t = "json_print j @ [CHR 0x0A]"
  have "stops [CHR 0x0A]" by (simp add: stops_def is_digit_def in_range_def)
  then have "parse_value (2 * length ?t + 2) 10000 ?t = Some (j, [CHR 0x0A])"
    by (intro parse_print [OF ok, rule_format]) simp_all
  moreover have "skip_ws [CHR 0x0A] = []" by (simp add: skip_ws_def json_space_def)
  ultimately show ?thesis unfolding json_parse_def using skip_ws_printed [OF ok, of "[CHR 0x0A]"] by simp
qed

definition accepted_map :: "string \<Rightarrow> Deployment \<Rightarrow> string_map" where
  "accepted_map key d = Some [(''operationId'', key), (''status'', ''QUEUED''),
     (''workflowId'', WorkflowID (bare_identity (dep_Env d) (dep_Namespace d) (dep_Name d)))]"

lemma accepted_json:
  "json_string_map (accepted_map key d) = JObj [(''operationId'', JStr key), (''status'', JStr ''QUEUED''),
     (''workflowId'', JStr (WorkflowID (bare_identity (dep_Env d) (dep_Namespace d) (dep_Name d))))]"
proof -
  have "sort [''operationId'', ''status'', ''workflowId''] = [''operationId'', ''status'', ''workflowId'']"
    by code_simp
  then show ?thesis by (simp add: json_string_map_def accepted_map_def sorted_keys_def map_str_def map_find_def)
qed

lemma plain_utf8: "plain s \<Longrightarrow> utf8 s"
  by (rule utf8_ascii) (auto simp: plain_def list_all_iff unreserved_def is_digit_def in_range_def)

lemma client_do_read:
  assumes "nt_Do N (rq\<lparr>hq_Header := hq_Header rq @ (if cl_token c = [] then [] else [(''Authorization'', ''Bearer '' @ cl_token c)])\<rparr>) w =
      (Inr \<lparr>ht_Status = n, ht_Body = Inr t\<rparr>, w1)"
    and "n < 400" and "json_parse t = Some j" and "length t \<le> 1048576" and "into zero j = Some x"
  shows "client_do N c rq (Some into) zero w = (Inr x, w1)"
proof -
  have "json_parse [] = None" by code_simp
  with assms(3) have "t \<noteq> []" by auto
  with assms show ?thesis by (cases "cl_token c") (auto simp: client_do_def)
qed

text \<open>A command that the control service accepts is reported as accepted.\<close>

lemma command_accepted:
  assumes "cl_baseURL (dep_client d) = base" "plain_deployment d" "list_all plain ops"
    and "find_route routes ''POST'' (deployment_parts d @ ops) = Some (e, path_bindings d)" "command_type e = Some t"
    and "\<And>h ctx. api_endpoint (service_control T s schedule clk de) e
        (server_request ''POST'' (deployment_parts d @ ops) h (Some (json_print j))) (path_bindings d) ctx =
      Some (command_handler (service_control T s schedule clk de)
        (server_request ''POST'' (deployment_parts d @ ops) h (Some (json_print j))) (path_bindings d) (Inr q) t requester fill ctx)"
    and "\<And>q c. cmd_OperationID (fill q c) = cmd_OperationID c"
    and "\<not> Enabled a"
    and "\<And>r c ctx. fst (SendCommand T s (send_identity r (path_bindings d)) c ctx) = Inr ()"
    and "generateKey (api_net rnd now render base A T s schedule clk de) (a, ctx) = (key, (a, ctx1))"
    and "json_ok 10000 (json_string_map (accepted_map key d))"
    and "length (json_print (json_string_map (accepted_map key d))) < 1048576"
  shows "\<exists>ctx'. post_command (api_net rnd now render base A T s schedule clk de) d (path_of ops) (Some j) (a, ctx) =
    (Inr \<lparr>cr_OperationID = key, cr_WorkflowID = WorkflowID (bare_identity (dep_Env d) (dep_Namespace d) (dep_Name d)),
       cr_Status = ''QUEUED''\<rparr>, (a, ctx'))"
proof -
  let ?N = "api_net rnd now render base A T s schedule clk de" and ?C = "service_control T s schedule clk de"
  let ?h = "[(''Idempotency-Key'', key), (''Content-Type'', ''application/json'')] @
    (if cl_token (dep_client d) = [] then [] else [(''Authorization'', ''Bearer '' @ cl_token (dep_client d))])"
  let ?r = "server_request ''POST'' (deployment_parts d @ ops) ?h (Some (json_print j))"
  let ?c = "api_command key t (requester q) (clk (snd ctx1))"
  note key = key_trimmed [OF assms(10)]
  obtain ctx2 where sent: "SendCommand T s (send_identity ?r (path_bindings d)) (fill q ?c) ctx1 = (Inr (), ctx2)"
    using assms(9) by (metis prod.collapse)
  have "baseCommand ?C ?r t (requester q) ctx1 = (Inr ?c, ctx1)"
    using key by (simp add: baseCommand_def api_command_def service_control_def header_get_def first_value_def server_request_def Let_def)
  moreover have "WorkflowID (send_identity ?r (path_bindings d)) = WorkflowID (bare_identity (dep_Env d) (dep_Namespace d) (dep_Name d))"
    by (rule send_identity_parts) (simp add: server_request_def)
  moreover have "cmd_OperationID (fill q ?c) = key" using assms(7) by (simp add: api_command_def)
  ultimately have "command_handler ?C ?r (path_bindings d) (Inr q) t requester fill ctx1 =
      (writeJSON 202 (ReplyMap (the (accepted_map key d))), ctx2)"
    using sent by (simp add: command_handler_def send_def service_control_def accepted_map_def Let_def)
  then have H: "Handler (service_auth A) ?C ?r (a, ctx1) = Some (writeJSON 202 (ReplyMap (the (accepted_map key d))), (a, ctx2))"
    by (subst handler_endpoint [OF assms(8,4,5)]) (simp add: assms(6))
  let ?body = "json_print (json_string_map (accepted_map key d)) @ [CHR 0x0A]"
  have "body_text render (CJson (ReplyMap (the (accepted_map key d)))) = ?body"
    by (simp add: body_text_def reply_text_map accepted_map_def)
  note network = direct.delivers [where H = "Handler (service_auth A) ?C" and segs = "deployment_parts d @ ops" and
      m = "''POST''" and h = ?h and b = "Some (json_print j)" and s = "(a, ctx1)" and rnd = rnd and now = now and
      render = render and base = base, OF parts_plain [OF assms(2,3)] H]
  from network \<open>body_text render (CJson (ReplyMap (the (accepted_map key d)))) = ?body\<close>
  have exchange: "nt_Do ?N \<lparr>hq_Method = ''POST'', hq_URL = base @ path_of (deployment_parts d @ ops), hq_Header = ?h,
      hq_Body = Some (json_print j)\<rparr> (a, ctx1) = (Inr \<lparr>ht_Status = 202, ht_Body = Inr ?body\<rparr>, (a, ctx2))"
    by (simp add: api_net_def answer_def writeJSON_def reply_def)
  have "decode_struct False command_response_fields (json_string_map (accepted_map key d))
      \<lparr>cr_OperationID = [], cr_WorkflowID = [], cr_Status = []\<rparr> =
    Some \<lparr>cr_OperationID = key, cr_WorkflowID = WorkflowID (bare_identity (dep_Env d) (dep_Namespace d) (dep_Name d)),
      cr_Status = ''QUEUED''\<rparr>"
    by (simp add: accepted_json decode_members decode_member_def command_response_fields_def member_def)
  note read = this
  have got: "client_do ?N (dep_client d)
      \<lparr>hq_Method = ''POST'', hq_URL = base @ path_of (deployment_parts d @ ops),
       hq_Header = [(''Idempotency-Key'', key), (''Content-Type'', ''application/json'')], hq_Body = Some (json_print j)\<rparr>
      (Some (into_struct command_response_fields)) \<lparr>cr_OperationID = [], cr_WorkflowID = [], cr_Status = []\<rparr> (a, ctx1) =
    (Inr \<lparr>cr_OperationID = key, cr_WorkflowID = WorkflowID (bare_identity (dep_Env d) (dep_Namespace d) (dep_Name d)),
      cr_Status = ''QUEUED''\<rparr>, (a, ctx2))"
    by (rule client_do_read [OF _ _ parse_line [OF assms(11)], where n = 202])
      (use exchange assms(12) read in \<open>simp_all add: into_struct_def\<close>)
  have "nt_BadURL ?N (base @ path_of (deployment_parts d @ ops)) = None"
    unfolding api_net_def by (rule direct.good_urls [OF parts_plain [OF assms(2,3)]])
  then show ?thesis
    using assms(1,10) got by (simp add: post_command_def postMutation_def deployment_path_parts)
qed

lemma deploy_route:
  "plain_deployment d \<Longrightarrow> find_route routes ''POST'' (deployment_parts d @ [''deploy'']) = Some (EndDeploy, path_bindings d)"
  "plain_deployment d \<Longrightarrow> find_route routes ''POST'' (deployment_parts d @ [''scale'']) = Some (EndScale, path_bindings d)"
  by (simp_all add: deployment_parts_def path_bindings_def plain_deployment_def plain_def routes_def match_pattern_def
      deployment_segs_def cluster_segs_def method_matches_def)

text \<open>The command a request of the SDK stands for.\<close>

definition asked_command :: "string \<Rightarrow> DeployRequest \<Rightarrow> go_time \<Rightarrow> DeploymentCommand" where
  "asked_command key req now =
     (api_command key CommandDeployVersion (qd_Requester req) now)
       \<lparr>cmd_Approved := qd_Approved req, cmd_Incident := qd_Incident req, cmd_Reason := qd_Reason req,
        cmd_TargetSpec := Some (sent_spec (qd_Spec req))\<rparr>"

lemma deploy_sent:
  assumes "Deploy (api_net rnd now render base A T s schedule clk de) d req (a, ctx) = (Inr resp, (a', ctx'))"
    and "cl_baseURL (dep_client d) = base" "plain_deployment d"
    and "sendable_spec (qd_Spec req)" "utf8 (qd_Requester req)" "utf8 (qd_Reason req)"
    and "length (json_print (the (json_DeployRequest req))) \<le> 1048576"
  shows "\<exists>now'. signals_of ctx' = signals_of ctx @
    [command_signal (bare_identity (dep_Env d) (dep_Namespace d) (dep_Name d))
      (asked_command (drawn_key rnd now (snd ctx)) req now')]"
proof -
  obtain j where j: "json_DeployRequest req = Some j" "json_ok 10000 j"
    "decode_struct True deploy_fields j zero_deploy =
      Some \<lparr>dr_Requester = qd_Requester req, dr_Approved = qd_Approved req, dr_Incident = qd_Incident req,
        dr_Reason = qd_Reason req, dr_Spec = sent_spec (qd_Spec req)\<rparr>"
    using decode_DeployRequest [OF assms(4-6)] by blast
  have op: "''/deploy'' = path_of [''deploy'']" by (simp add: path_of_def)
  have d: "post_command (api_net rnd now render base A T s schedule clk de) d (path_of [''deploy'']) (Some j) (a, ctx) =
      (Inr resp, (a', ctx'))"
    using assms(1) j(1) by (simp add: Deploy_def op)
  from assms(7) j(1) have len: "length (json_print j) \<le> 1048576" by simp
  have plain: "list_all plain [''deploy'']" by (simp add: plain_words)
  from command_sent [OF d assms(2,3) plain deploy_route(1) [OF assms(3)] command_type.simps(1),
      where fill = "\<lambda>request command. command\<lparr>cmd_Approved := dr_Approved request, cmd_Incident := dr_Incident request,
        cmd_Reason := dr_Reason request, cmd_TargetSpec := Some (dr_Spec request)\<rparr>" and requester = dr_Requester and
      decoded = "Inr \<lparr>dr_Requester = qd_Requester req, dr_Approved = qd_Approved req, dr_Incident = qd_Incident req,
        dr_Reason = qd_Reason req, dr_Spec = sent_spec (qd_Spec req)\<rparr>"]
  show ?thesis by (simp add: asked_command_def api_endpoint_def deployHandler_def decode_printed(1) [OF j(2) len j(3)])
qed

text \<open>C5. What the SDK reports as accepted has been asked for exactly: when \<open>Deploy\<close> on a deployment with
  plain names returns a response, whatever Temporal answered, one signal has been sent, to that
  deployment's actor, and it is the deploy command with the requester, the flags, the reason and the
  specification of the request, its maps in order and an empty map absent. Its key is the one
  \<open>generateKey\<close> draws: the milliseconds of the client's clock, a dash and the eight bytes its random
  source gave, so that two calls have one key only if they drew the same bytes.\<close>

theorem sdk_deploy_arrives:
  assumes "Deploy (api_net rnd now render base A T s schedule clk de) d req (a, ctx) = (Inr resp, (a', ctx'))"
    and "cl_baseURL (dep_client d) = base" "plain_deployment d"
    and "sendable_spec (qd_Spec req)" "utf8 (qd_Requester req)" "utf8 (qd_Reason req)"
    and "length (json_print (the (json_DeployRequest req))) \<le> 1048576"
  shows "\<exists>now'. signals_of ctx' = signals_of ctx @
    [command_signal (bare_identity (dep_Env d) (dep_Namespace d) (dep_Name d))
      (asked_command
        (int_dec ((fst (now (snd (rnd 8 (snd ctx)))) - 62135596800 * go_second) div 1000000) @ ''-'' @
          hex_encode (fst (rnd 8 (snd ctx)))) req now')]"
  using deploy_sent [OF assms] by (simp add: drawn_key_def)

subsection \<open>A server with authentication\<close>

lemma unauthorized_body: "error_body (take 1048576 (body_text render (CText ''{\"error\":\"unauthorized\"}''))) = ''unauthorized''"
proof -
  have "json_parse (''{\"error\":\"unauthorized\"}'' @ [CHR 0x0A]) = Some (JObj [(''error'', JStr ''unauthorized'')])"
    by code_simp
  then show ?thesis by (simp add: body_text_def error_body_def)
qed

lemma unauthorized_handled:
  "Enabled a \<Longrightarrow> has_prefix (path_of segs) ''/api/'' \<Longrightarrow> \<not> isPublicPath (path_of segs) \<Longrightarrow>
   Handler E C (server_request m segs h b) (a, w) = Some (reply 401 (CText ''{\"error\":\"unauthorized\"}''), (a, w))"
  by (simp add: Handler_def Middleware_def session_check_def cookie_def server_request_def)

text \<open>What an exchange with such a server gives, for either method the client sends a body with.\<close>

lemma exchange_unauthorized:
  assumes "list_all plain segs" "has_prefix (path_of segs) ''/api/''" "\<not> isPublicPath (path_of segs)"
    and "cl_baseURL c = base" "Enabled a"
    and "client_do (api_net rnd now render base A T s schedule clk de) c
      \<lparr>hq_Method = m, hq_URL = base @ path_of segs, hq_Header = h, hq_Body = Some t\<rparr> out zero (a, ctx) = (x, w')"
  shows "x = Inl (APIError 401 ''unauthorized'') \<and> w' = (a, ctx)"
  using direct.do_answers [OF assms(1,4) unauthorized_handled [OF assms(5,2,3)] _ assms(6) [unfolded api_net_def]]
  by (simp add: reply_def Let_def unauthorized_body)

lemma post_unauthorized:
  assumes "list_all plain segs" "has_prefix (path_of segs) ''/api/''" "\<not> isPublicPath (path_of segs)"
    and "cl_baseURL c = base" "Enabled a"
    and "postMutation (api_net rnd now render base A T s schedule clk de) c (path_of segs) body [] out zero (a, ctx) = (x, (a', ctx'))"
  shows "x = Inl (if body = None then OtherError (nt_MarshalError (api_net rnd now render base A T s schedule clk de))
      else APIError 401 ''unauthorized'') \<and> a' = a \<and> signals_of ctx' = signals_of ctx"
proof -
  let ?N = "api_net rnd now render base A T s schedule clk de"
  obtain key a1 ctx1 where key: "generateKey ?N (a, ctx) = (key, (a1, ctx1))" by (metis prod_cases3)
  note silent = direct.key_silent [OF key [unfolded api_net_def]]
  show ?thesis
  proof (cases body)
    case None
    with assms(6) key silent show ?thesis by (simp add: postMutation_def)
  next
    case (Some j)
    have "nt_BadURL ?N (base @ path_of segs) = None" unfolding api_net_def by (rule direct.good_urls [OF assms(1)])
    with Some assms(4,6) key silent have
      "client_do ?N c \<lparr>hq_Method = ''POST'', hq_URL = base @ path_of segs,
        hq_Header = [(''Idempotency-Key'', key), (''Content-Type'', ''application/json'')], hq_Body = Some (json_print j)\<rparr>
        out zero (a, ctx1) = (x, (a', ctx'))" by (simp add: postMutation_def Let_def)
    from exchange_unauthorized [OF assms(1-5) this] Some silent show ?thesis by simp
  qed
qed

lemma put_unauthorized:
  assumes "list_all plain segs" "has_prefix (path_of segs) ''/api/''" "\<not> isPublicPath (path_of segs)"
    and "cl_baseURL c = base" "Enabled a"
    and "putJSON (api_net rnd now render base A T s schedule clk de) c (path_of segs) body out zero (a, ctx) = (x, (a', ctx'))"
  shows "x = Inl (if body = None then OtherError (nt_MarshalError (api_net rnd now render base A T s schedule clk de))
      else APIError 401 ''unauthorized'') \<and> a' = a \<and> signals_of ctx' = signals_of ctx"
proof (cases body)
  case None
  with assms(6) show ?thesis by (simp add: putJSON_def)
next
  case (Some j)
  let ?N = "api_net rnd now render base A T s schedule clk de"
  have "nt_BadURL ?N (base @ path_of segs) = None" unfolding api_net_def by (rule direct.good_urls [OF assms(1)])
  with Some assms(4,6) have
    "client_do ?N c \<lparr>hq_Method = ''PUT'', hq_URL = base @ path_of segs, hq_Header = [(''Content-Type'', ''application/json'')],
      hq_Body = Some (json_print j)\<rparr> out zero (a, ctx) = (x, (a', ctx'))" by (simp add: putJSON_def Let_def)
  from exchange_unauthorized [OF assms(1-5) this] Some show ?thesis by simp
qed

text \<open>The commands of the SDK on a deployment and on its cluster, one name for each method that changes
  something.\<close>

datatype sdk_command =
    SdkRegister RegisterRequest
  | SdkDeploy DeployRequest
  | SdkScale ScaleRequest
  | SdkSavepoint SimpleRequest
  | SdkSuspend SimpleRequest
  | SdkResume SimpleRequest
  | SdkRollback RollbackRequest
  | SdkEnableAutoscaler SimpleRequest
  | SdkFreezeAutoscaler SimpleRequest
  | SdkContinueAsNew SimpleRequest
  | SdkFreezeCluster ClusterCommandRequest
  | SdkUnfreezeCluster ClusterCommandRequest

definition failure :: "'a sdk_result \<times> 'w \<Rightarrow> sdk_error option \<times> 'w" where
  "failure r = (case fst r of Inl e \<Rightarrow> Some e | Inr x \<Rightarrow> None, snd r)"

fun run_command :: "'w net \<Rightarrow> Deployment \<Rightarrow> sdk_command \<Rightarrow> 'w \<Rightarrow> sdk_error option \<times> 'w" where
  "run_command N d (SdkRegister q) w = failure (Register N d q w)"
| "run_command N d (SdkDeploy q) w = failure (Deploy N d q w)"
| "run_command N d (SdkScale q) w = failure (Scale N d q w)"
| "run_command N d (SdkSavepoint q) w = failure (Savepoint N d q w)"
| "run_command N d (SdkSuspend q) w = failure (Suspend N d q w)"
| "run_command N d (SdkResume q) w = failure (Resume N d q w)"
| "run_command N d (SdkRollback q) w = failure (Rollback N d q w)"
| "run_command N d (SdkEnableAutoscaler q) w = failure (EnableAutoscaler N d q w)"
| "run_command N d (SdkFreezeAutoscaler q) w = failure (FreezeAutoscaler N d q w)"
| "run_command N d (SdkContinueAsNew q) w = failure (Sdk_Client.ContinueAsNew N d q w)"
| "run_command N d (SdkFreezeCluster q) w = failure (FreezeCluster N (dep_client d) (dep_Env d) (dep_Namespace d) q w)"
| "run_command N d (SdkUnfreezeCluster q) w = failure (UnfreezeCluster N (dep_client d) (dep_Env d) (dep_Namespace d) q w)"

text \<open>What is sent, unless it cannot be marshalled.\<close>

fun command_json :: "sdk_command \<Rightarrow> json option" where
  "command_json (SdkRegister q) = json_RegisterRequest q"
| "command_json (SdkDeploy q) = json_DeployRequest q"
| "command_json (SdkScale q) = json_ScaleRequest q"
| "command_json (SdkRollback q) = json_RollbackRequest q"
| "command_json (SdkSavepoint q) = json_SimpleRequest q"
| "command_json (SdkSuspend q) = json_SimpleRequest q"
| "command_json (SdkResume q) = json_SimpleRequest q"
| "command_json (SdkEnableAutoscaler q) = json_SimpleRequest q"
| "command_json (SdkFreezeAutoscaler q) = json_SimpleRequest q"
| "command_json (SdkContinueAsNew q) = json_SimpleRequest q"
| "command_json (SdkFreezeCluster q) = json_ClusterCommandRequest q"
| "command_json (SdkUnfreezeCluster q) = json_ClusterCommandRequest q"

lemma command_words: "plain ''autoscaler''" "plain ''enable''" "plain ''freeze''" "plain ''unfreeze''" "plain ''continue-as-new''"
    "plain ''clusters''"
  by (simp_all add: plain_def unreserved_def is_digit_def in_range_def)

definition cluster_parts :: "Deployment \<Rightarrow> string list" where
  "cluster_parts d = [''api'', ''v1'', ''clusters'', dep_Env d, dep_Namespace d]"

lemma cluster_path_parts: "cluster_path (dep_Env d) (dep_Namespace d) (path_of ops) = path_of (cluster_parts d @ ops)"
  by (simp add: cluster_path_def path_of_def cluster_parts_def)

lemma cluster_paths:
  "plain_deployment d \<Longrightarrow> list_all plain ops \<Longrightarrow> list_all plain (cluster_parts d @ ops)"
  "has_prefix (path_of (cluster_parts d @ ops)) ''/api/''" "\<not> isPublicPath (path_of (cluster_parts d @ ops))"
  by (simp_all add: plain_deployment_def cluster_parts_def plain_words command_words path_of_def has_prefix_def isPublicPath_def)

lemma failed_command:
  assumes "\<And>x a' ctx'. r = (x, (a', ctx')) \<Longrightarrow> x = Inl e \<and> a' = a \<and> signals_of ctx' = signals_of ctx"
  shows "fst (failure r) = Some e \<and> fst (snd (failure r)) = a \<and> signals_of (snd (snd (failure r))) = signals_of ctx"
  using assms [of "fst r" "fst (snd r)" "snd (snd r)"] by (simp add: failure_def)

lemma deployment_unauthorized:
  fixes rnd now render A T s schedule clk de body ctx
  assumes "cl_baseURL (dep_client d) = base" "plain_deployment d" "Enabled a" "list_all plain ops" "op = path_of ops"
  defines "N \<equiv> api_net rnd now render base A T s schedule clk de"
  defines "r \<equiv> failure (post_command N d op body (a, ctx))"
  shows "fst r = Some (if body = None then OtherError (nt_MarshalError N) else APIError 401 ''unauthorized'') \<and>
    fst (snd r) = a \<and> signals_of (snd (snd r)) = signals_of ctx"
  unfolding r_def N_def
  by (rule failed_command, rule post_unauthorized [OF parts_plain [OF assms(2,4)] api_paths assms(1,3)])
    (simp add: post_command_def deployment_path_parts assms(5))

lemma cluster_unauthorized:
  fixes rnd now render A T s schedule clk de body ctx
  assumes "cl_baseURL (dep_client d) = base" "plain_deployment d" "Enabled a" "list_all plain ops" "op = path_of ops"
  defines "N \<equiv> api_net rnd now render base A T s schedule clk de"
  defines "r \<equiv> failure (postMutation N (dep_client d) (cluster_path (dep_Env d) (dep_Namespace d) op) body [] None () (a, ctx))"
  shows "fst r = Some (if body = None then OtherError (nt_MarshalError N) else APIError 401 ''unauthorized'') \<and>
    fst (snd r) = a \<and> signals_of (snd (snd r)) = signals_of ctx"
  unfolding r_def N_def
  by (rule failed_command, rule post_unauthorized [OF cluster_paths(1) [OF assms(2,4)] cluster_paths(2,3) assms(1,3)])
    (simp add: cluster_path_parts assms(5))

lemma register_unauthorized:
  fixes rnd now render A T s schedule clk de q ctx
  assumes "cl_baseURL (dep_client d) = base" "plain_deployment d" "Enabled a"
  defines "N \<equiv> api_net rnd now render base A T s schedule clk de"
  defines "r \<equiv> failure (Register N d q (a, ctx))"
  shows "fst r = Some (if json_RegisterRequest q = None then OtherError (nt_MarshalError N) else APIError 401 ''unauthorized'') \<and>
    fst (snd r) = a \<and> signals_of (snd (snd r)) = signals_of ctx"
proof -
  have "deployment_path d [] = path_of (deployment_parts d @ [])" using deployment_path_parts [of d "[]"] by (simp add: path_of_def)
  then show ?thesis unfolding r_def N_def
    by (intro failed_command put_unauthorized [OF parts_plain [OF assms(2), of "[]"] api_paths assms(1,3)])
      (simp_all add: Register_def)
qed

text \<open>C32. A token opens nothing: in front of a server with authentication configured every command of the
  SDK, on a deployment or on its cluster, whatever token its client carries, fails with 401 and the
  message of the server, unless its body cannot be marshalled and the client fails before; and nothing
  is signalled, and no session is touched.\<close>

theorem sdk_unauthorized:
  fixes rnd now render base A T s schedule clk de
  defines "N \<equiv> api_net rnd now render base A T s schedule clk de"
  assumes "cl_baseURL (dep_client d) = base" "plain_deployment d" "Enabled a"
  shows "fst (run_command N d cmd (a, ctx)) =
      Some (if command_json cmd = None then OtherError (nt_MarshalError N) else APIError 401 ''unauthorized'') \<and>
    fst (snd (run_command N d cmd (a, ctx))) = a \<and>
    signals_of (snd (snd (run_command N d cmd (a, ctx)))) = signals_of ctx"
proof -
  note post = deployment_unauthorized [OF assms(2-4), where rnd = rnd and now = now and render = render and A = A and
    T = T and s = s and schedule = schedule and clk = clk and de = de, folded N_def]
  note cluster = cluster_unauthorized [OF assms(2-4), where rnd = rnd and now = now and render = render and A = A and
    T = T and s = s and schedule = schedule and clk = clk and de = de, folded N_def]
  show ?thesis
  proof (cases cmd)
    case (SdkRegister q)
    show ?thesis unfolding SdkRegister N_def run_command.simps command_json.simps by (rule register_unauthorized [OF assms(2-4)])
  next
    case (SdkFreezeCluster q)
    then show ?thesis using cluster [of "[''freeze'']" "''/freeze''"]
      by (simp add: FreezeCluster_def path_of_def command_words)
  next
    case (SdkUnfreezeCluster q)
    then show ?thesis using cluster [of "[''unfreeze'']" "''/unfreeze''"]
      by (simp add: UnfreezeCluster_def path_of_def command_words)
  next
    case (SdkEnableAutoscaler q)
    then show ?thesis using post [of "[''autoscaler'', ''enable'']" "''/autoscaler/enable''"]
      by (simp add: EnableAutoscaler_def path_of_def command_words)
  next
    case (SdkFreezeAutoscaler q)
    then show ?thesis using post [of "[''autoscaler'', ''freeze'']" "''/autoscaler/freeze''"]
      by (simp add: FreezeAutoscaler_def path_of_def command_words)
  next
    case (SdkContinueAsNew q)
    then show ?thesis using post [of "[''continue-as-new'']" "''/continue-as-new''"]
      by (simp add: Sdk_Client.ContinueAsNew_def path_of_def command_words)
  next
    case (SdkDeploy q)
    then show ?thesis using post [of "[''deploy'']" "''/deploy''"] by (simp add: Deploy_def path_of_def plain_words)
  next
    case (SdkScale q)
    then show ?thesis using post [of "[''scale'']" "''/scale''"] by (simp add: Scale_def path_of_def plain_words)
  next
    case (SdkSavepoint q)
    then show ?thesis using post [of "[''savepoint'']" "''/savepoint''"] by (simp add: Savepoint_def path_of_def plain_words)
  next
    case (SdkSuspend q)
    then show ?thesis using post [of "[''suspend'']" "''/suspend''"] by (simp add: Suspend_def path_of_def plain_words)
  next
    case (SdkResume q)
    then show ?thesis using post [of "[''resume'']" "''/resume''"] by (simp add: Resume_def path_of_def plain_words)
  next
    case (SdkRollback q)
    then show ?thesis using post [of "[''rollback'']" "''/rollback''"] by (simp add: Rollback_def path_of_def plain_words)
  qed
qed

end
