(* ===== verification/Json_Codec.thy ===== *)
theory Json_Codec
  imports Sdk_Commands
begin

text \<open>
  The answers of the API on the side of the SDK: what the server's encoder writes for a struct of the
  domain is what the SDK's decoder reads. A codec is a locale: an encoder, a decoder, what of a value
  arrives, and which values can be sent. Codecs for slices and pointers follow from those for their
  elements, so each struct is one interpretation.
\<close>

subsection \<open>Codecs\<close>

locale codec =
  fixes enc :: "'a \<Rightarrow> json option" and img :: "'a \<Rightarrow> 'b" and into :: "'b \<Rightarrow> json \<Rightarrow> 'b option"
    and zero :: 'b and sendable :: "'a \<Rightarrow> bool" and depth :: nat
  assumes round_trip: "sendable x \<Longrightarrow> \<exists>j. enc x = Some j \<and> j \<noteq> JNull \<and> into zero j = Some (img x) \<and> (\<forall>d>depth. json_ok d j)"
begin

lemma pointer_round_trip:
  assumes "case p of None \<Rightarrow> True | Some x \<Rightarrow> sendable x"
  shows "\<exists>ms. pointer k enc p = Some ms \<and>
    (ms = [] \<and> p = None \<or> (\<exists>x j. p = Some x \<and> ms = [(k, j)] \<and> into_pointer into zero None j = Some (Some (img x)) \<and> (\<forall>d>depth. json_ok d j)))"
proof (cases p)
  case (Some x)
  with assms obtain j where j: "enc x = Some j" "j \<noteq> JNull" "into zero j = Some (img x)" "\<forall>d>depth. json_ok d j"
    using round_trip [of x] by auto
  then have "into_pointer into zero None j = Some (Some (img x))" by (cases j) (simp_all add: into_pointer_def)
  with Some j show ?thesis by (simp add: pointer_def must_def)
qed (simp add: pointer_def)

lemma pointer_writes:
  assumes "case p of None \<Rightarrow> True | Some x \<Rightarrow> sendable x" and "utf8 k"
  shows "\<exists>ms. pointer k enc p = Some ms \<and> (\<forall>d>depth. list_all (\<lambda>(k, v). utf8 k \<and> json_ok d v) ms)"
  using pointer_round_trip [OF assms(1), of k] assms(2) by auto

lemma pointer_reads:
  assumes "pointer k enc p = Some ms" and "case p of None \<Rightarrow> True | Some x \<Rightarrow> sendable x"
    and "find (\<lambda>f. fst f = k) fs = Some (member k (into_pointer into zero) get upd)" and "get r = None" and "upd (\<lambda>_. None) r = r"
  shows "decode_struct strict fs (JObj (ms @ kvs)) r = decode_struct strict fs (JObj kvs) (upd (\<lambda>_. map_option img p) r)"
  using pointer_round_trip [OF assms(2), of k] assms(1,3-)
  by (auto simp: decode_members decode_member_def member_def)

lemma elements_round_trip:
  assumes "list_all sendable xs"
  shows "\<exists>js. those (map enc xs) = Some js \<and> those (map (into zero) js) = Some (map img xs) \<and> (\<forall>d>depth. list_all (json_ok d) js)"
  using assms
proof (induction xs)
  case (Cons x xs)
  then obtain js where js: "those (map enc xs) = Some js" "those (map (into zero) js) = Some (map img xs)"
    "\<forall>d>depth. list_all (json_ok d) js" by auto
  from Cons.prems obtain j where "enc x = Some j" "into zero j = Some (img x)" "\<forall>d>depth. json_ok d j"
    using round_trip [of x] by auto
  with js show ?case by simp
qed simp

lemma slice_round_trip:
  assumes "list_all sendable xs"
  shows "\<exists>j. json_slice enc xs = Some j \<and> j \<noteq> JNull \<and> into_slice into zero [] j = Some (map img xs) \<and> (\<forall>d>Suc depth. json_ok d j)"
proof -
  from elements_round_trip [OF assms] obtain js where js: "those (map enc xs) = Some js"
    "those (map (into zero) js) = Some (map img xs)" "\<forall>d>depth. list_all (json_ok d) js" by blast
  have "map (\<lambda>(i, x). into (if i < length ([] :: 'b list) then [] ! i else zero) x) (enumerate n js) = map (into zero) js" for n
    by (induction js arbitrary: n) simp_all
  with js show ?thesis by (auto simp: json_slice_def into_slice_def)
qed

end

subsection \<open>Members\<close>

lemma member_simps [simp]:
  "fst (member n into get upd) = n"
  "snd (member n into get upd) v r = map_option (\<lambda>x. upd (\<lambda>_. x) r) (into (get r) v)"
  by (simp_all add: member_def)

text \<open>What struct encoders come to, and reading their members one after the other.\<close>

lemmas struct_defs = json_struct_def must_def omit_def

lemma decode_omitted:
  assumes "decode_member strict fs (k, v) r = Some r'" and "empty_value \<Longrightarrow> r' = r"
  shows "decode_struct strict fs (JObj (opt_member (\<not> empty_value) k v @ kvs)) r = decode_struct strict fs (JObj kvs) r'"
    "decode_struct strict fs (JObj (opt_member (\<not> empty_value) k v)) r = Some r'"
  using assms by (cases empty_value; simp add: opt_member_def decode_members)+

lemmas reads = decode_members decode_member_def into_struct_def

lemma into_leaves [simp]:
  "into_string x (JStr s) = Some s"
  by (simp add: into_string_def)

subsection \<open>Times, floats and counts\<close>

definition sendable_time :: "go_time \<Rightarrow> bool" where
  "sendable_time t \<longleftrightarrow> rfc3339 t \<noteq> None"

interpretation time_codec: codec json_time "\<lambda>t. t" into_time 0 sendable_time 0
  by unfold_locales (auto simp: sendable_time_def json_time_def into_time_def rfc3339_utf8 rfc3339_round)

interpretation float_codec: codec json_number "\<lambda>x. x" into_float f_zero f_finite 0
proof
  fix x
  assume "f_finite x"
  from float_text [OF this] show "\<exists>j. json_number x = Some j \<and> j \<noteq> JNull \<and> into_float f_zero j = Some x \<and> (\<forall>d>0. json_ok d j)"
    by (auto simp: json_number_def into_float_def)
qed

subsection \<open>Structs\<close>

definition sendable_identity :: "DeploymentIdentity \<Rightarrow> bool" where
  "sendable_identity d \<longleftrightarrow>
     list_all utf8 [id_Environment d, id_Namespace d, id_Name d, id_Owner d, id_ServiceAccount d, id_NodePool d, id_FlinkDashboardURL d]"

interpretation identity_codec: codec json_identity "\<lambda>d. d" "into_struct identity_fields" zero_identity sendable_identity 0
proof
  fix d
  assume s: "sendable_identity d"
  let ?kvs = "[(''environment'', JStr (id_Environment d)), (''namespace'', JStr (id_Namespace d)), (''name'', JStr (id_Name d))] @
    opt_member (id_Owner d \<noteq> []) ''owner'' (JStr (id_Owner d)) @
    opt_member (id_ServiceAccount d \<noteq> []) ''serviceAccount'' (JStr (id_ServiceAccount d)) @
    opt_member (id_NodePool d \<noteq> []) ''nodePool'' (JStr (id_NodePool d)) @
    opt_member (id_FlinkDashboardURL d \<noteq> []) ''flinkDashboardUrl'' (JStr (id_FlinkDashboardURL d))"
  have "json_identity d = Some (JObj ?kvs)" by (simp add: json_identity_def struct_defs)
  moreover have "into_struct identity_fields zero_identity (JObj ?kvs) = Some d"
    by (simp add: reads identity_fields_def, (subst decode_omitted, simp add: reads, simp add: zero_identity_def)+,
      cases d, simp add: zero_identity_def)
  moreover have "json_ok n (JObj ?kvs)" if "0 < n" for n
    using that s by (simp add: sendable_identity_def utf8_ascii)
  ultimately show "\<exists>j. json_identity d = Some j \<and> j \<noteq> JNull \<and> into_struct identity_fields zero_identity j = Some d \<and> (\<forall>n>0. json_ok n j)"
    by blast
qed

definition sendable_health :: "HealthSummary \<Rightarrow> bool" where
  "sendable_health h \<longleftrightarrow> utf8 (hs_Message h) \<and> f_finite (hs_BackpressureRatio h) \<and> sendable_time (hs_ObservedAt h)"

interpretation health_codec: codec json_health "\<lambda>h. h" "into_struct health_fields" zero_HealthSummary sendable_health 1
proof
  fix h
  assume s: "sendable_health h"
  obtain jt where t: "json_time (hs_ObservedAt h) = Some jt" "into_time 0 jt = Some (hs_ObservedAt h)" "\<forall>d>0. json_ok d jt"
    using s time_codec.round_trip [of "hs_ObservedAt h"] by (auto simp: sendable_health_def)
  obtain jf where f: "json_number (hs_BackpressureRatio h) = Some jf" "into_float f_zero jf = Some (hs_BackpressureRatio h)"
    "\<forall>d>0. json_ok d jf"
    using s float_codec.round_trip [of "hs_BackpressureRatio h"] by (auto simp: sendable_health_def)
  let ?kvs = "[(''healthy'', JBool (hs_Healthy h)), (''running'', JBool (hs_Running h)),
      (''checkpointCompleted'', JBool (hs_CheckpointCompleted h)), (''restartCount'', json_int (hs_RestartCount h)),
      (''backpressureRatio'', jf), (''kafkaLag'', json_int (hs_KafkaLag h)), (''sinkHealthy'', JBool (hs_SinkHealthy h))] @
      opt_member (hs_Message h \<noteq> []) ''message'' (JStr (hs_Message h)) @ [(''observedAt'', jt)]"
  have "json_health h = Some (JObj ?kvs)" by (simp add: json_health_def struct_defs t(1) f(1))
  moreover have "into_struct health_fields zero_HealthSummary (JObj ?kvs) = Some h"
    by (simp add: reads health_fields_def zero_HealthSummary_def f(2), (subst decode_omitted, simp add: reads, simp)+,
      cases h, simp add: reads t(2))
  moreover have "json_ok n (JObj ?kvs)" if "1 < n" for n
    using that s t(3) f(3) by (simp add: sendable_health_def utf8_ascii)
  ultimately show "\<exists>j. json_health h = Some j \<and> j \<noteq> JNull \<and> into_struct health_fields zero_HealthSummary j = Some h \<and> (\<forall>n>1. json_ok n j)"
    by blast
qed

interpretation spec_codec: codec json_spec sent_spec "into_struct (spec_fields False)" zero_DeploymentSpec sendable_spec 2
proof
  fix x
  assume s: "sendable_spec x"
  have "\<exists>j. json_spec x = Some j \<and> decode_struct False (spec_fields False) j zero_DeploymentSpec = Some (sent_spec x) \<and> (2 < d \<longrightarrow> json_ok d j)" for d
    by (rule decode_spec [OF s])
  moreover have "json_spec x \<noteq> Some JNull" by (simp add: json_spec_def)
  ultimately show "\<exists>j. json_spec x = Some j \<and> j \<noteq> JNull \<and> into_struct (spec_fields False) zero_DeploymentSpec j = Some (sent_spec x) \<and>
      (\<forall>d>2. json_ok d j)"
    unfolding into_struct_def by (metis option.inject)
qed

definition sent_version :: "DeploymentVersion \<Rightarrow> sdk_DeploymentVersion" where
  "sent_version v = v\<lparr>ver_Spec := sent_spec (ver_Spec v)\<rparr>"

definition sendable_version :: "DeploymentVersion \<Rightarrow> bool" where
  "sendable_version v \<longleftrightarrow>
     sendable_spec (ver_Spec v) \<and> sendable_health (ver_HealthSummary v) \<and> sendable_time (ver_CreatedAt v) \<and>
     list_all utf8 [ver_ManifestHash v, ver_JobArgsHash v, ver_FlinkConfigHash v, ver_SavepointURI v]"

interpretation version_codec: codec json_version sent_version "into_struct version_fields" zero_DeploymentVersion sendable_version 3
proof
  fix v
  assume s: "sendable_version v"
  obtain js where sp: "json_spec (ver_Spec v) = Some js" "into_struct (spec_fields False) zero_DeploymentSpec js = Some (sent_spec (ver_Spec v))"
    "\<forall>d>2. json_ok d js"
    using s spec_codec.round_trip [of "ver_Spec v"] by (auto simp: sendable_version_def)
  obtain jh where h: "json_health (ver_HealthSummary v) = Some jh"
    "into_struct health_fields zero_HealthSummary jh = Some (ver_HealthSummary v)" "\<forall>d>1. json_ok d jh"
    using s health_codec.round_trip [of "ver_HealthSummary v"] by (auto simp: sendable_version_def)
  obtain jt where t: "json_time (ver_CreatedAt v) = Some jt" "into_time 0 jt = Some (ver_CreatedAt v)" "\<forall>d>0. json_ok d jt"
    using s time_codec.round_trip [of "ver_CreatedAt v"] by (auto simp: sendable_version_def)
  let ?kvs = "[(''versionId'', json_int (ver_VersionID v)), (''spec'', js), (''manifestHash'', JStr (ver_ManifestHash v)),
      (''jobArgsHash'', JStr (ver_JobArgsHash v)), (''flinkConfigHash'', JStr (ver_FlinkConfigHash v))] @
      opt_member (ver_SavepointURI v \<noteq> []) ''savepointUri'' (JStr (ver_SavepointURI v)) @
      opt_member (ver_OperatorObservedGeneration v \<noteq> 0) ''operatorObservedGeneration'' (json_int (ver_OperatorObservedGeneration v)) @
      [(''healthSummary'', jh), (''createdAt'', jt)]"
  have "json_version v = Some (JObj ?kvs)" by (simp add: json_version_def struct_defs sp(1) h(1) t(1))
  moreover have "into_struct version_fields zero_DeploymentVersion (JObj ?kvs) = Some (sent_version v)"
    unfolding into_struct_def [of version_fields]
    by (simp add: decode_members decode_member_def version_fields_def zero_DeploymentVersion_def sp(2),
      (subst decode_omitted, simp add: decode_member_def, simp)+,
      cases v, simp add: decode_members decode_member_def h(2) [unfolded zero_HealthSummary_def] h(2) t(2) sent_version_def)
  moreover have "json_ok n (JObj ?kvs)" if "3 < n" for n
    using that s sp(3) h(3) t(3) by (simp add: sendable_version_def utf8_ascii)
  ultimately show "\<exists>j. json_version v = Some j \<and> j \<noteq> JNull \<and>
      into_struct version_fields zero_DeploymentVersion j = Some (sent_version v) \<and> (\<forall>n>3. json_ok n j)"
    by blast
qed

definition sendable_savepoint :: "SavepointRecord \<Rightarrow> bool" where
  "sendable_savepoint s \<longleftrightarrow>
     sendable_time (sp_CreatedAt s) \<and>
     list_all utf8 [sp_URI s, sp_TriggerID s, sp_FlinkJobID s, sp_ImageDigest s, sp_JobArgsHash s, sp_CompatibilityNotes s]"

interpretation savepoint_codec: codec json_savepoint "\<lambda>s. s" "into_struct savepoint_fields" zero_SavepointRecord sendable_savepoint 1
proof
  fix s
  assume send: "sendable_savepoint s"
  obtain jt where t: "json_time (sp_CreatedAt s) = Some jt" "into_time 0 jt = Some (sp_CreatedAt s)" "\<forall>d>0. json_ok d jt"
    using send time_codec.round_trip [of "sp_CreatedAt s"] by (auto simp: sendable_savepoint_def)
  let ?kvs = "[(''uri'', JStr (sp_URI s)), (''triggerId'', JStr (sp_TriggerID s)), (''flinkJobId'', JStr (sp_FlinkJobID s)),
      (''deploymentVersion'', json_int (sp_DeploymentVersion s)), (''imageDigest'', JStr (sp_ImageDigest s)),
      (''jobArgsHash'', JStr (sp_JobArgsHash s)), (''parallelism'', json_int (sp_Parallelism s)),
      (''maxParallelism'', json_int (sp_MaxParallelism s))] @
      opt_member (sp_CompatibilityNotes s \<noteq> []) ''compatibilityNotes'' (JStr (sp_CompatibilityNotes s)) @ [(''createdAt'', jt)]"
  have "json_savepoint s = Some (JObj ?kvs)" by (simp add: json_savepoint_def struct_defs t(1))
  moreover have "into_struct savepoint_fields zero_SavepointRecord (JObj ?kvs) = Some s"
    by (simp add: reads savepoint_fields_def zero_SavepointRecord_def, (subst decode_omitted, simp add: reads, simp)+,
      cases s, simp add: reads t(2))
  moreover have "json_ok n (JObj ?kvs)" if "1 < n" for n
    using that send t(3) by (simp add: sendable_savepoint_def utf8_ascii)
  ultimately show "\<exists>j. json_savepoint s = Some j \<and> j \<noteq> JNull \<and> into_struct savepoint_fields zero_SavepointRecord j = Some s \<and>
      (\<forall>n>1. json_ok n j)"
    by blast
qed

text \<open>The SDK has plain strings where the domain has constants.\<close>

definition sent_operation :: "OperationRecord \<Rightarrow> sdk_OperationRecord" where
  "sent_operation r =
     \<lparr>ko_OperationID = rec_OperationID r, ko_IdempotencyKey = rec_IdempotencyKey r, ko_Requester = rec_Requester r,
      ko_CommandType = CommandType_string (rec_CommandType r), ko_Status = OperationStatus_string (rec_Status r),
      ko_ChildWorkflowID = rec_ChildWorkflowID r, ko_LeaseID = rec_LeaseID r, ko_Result = rec_Result r,
      ko_StartedAt = rec_StartedAt r, ko_CompletedAt = rec_CompletedAt r\<rparr>"

definition sendable_operation :: "OperationRecord \<Rightarrow> bool" where
  "sendable_operation r \<longleftrightarrow>
     sendable_time (rec_StartedAt r) \<and> sendable_time (rec_CompletedAt r) \<and>
     list_all utf8 [rec_OperationID r, rec_IdempotencyKey r, rec_Requester r, CommandType_string (rec_CommandType r),
       rec_ChildWorkflowID r, rec_LeaseID r, rec_Result r]"

lemma status_utf8: "utf8 (OperationStatus_string t)" "utf8 (ActorStatus_string u)"
  by (cases t; simp add: utf8_ascii) (cases u; simp add: utf8_ascii)

text \<open>The constants of the SDK (types.go) are the strings the API sends, but for the statuses of a
  deployment that is not running or cannot be reached: these have none.\<close>

definition sdk_OperationStatus :: "string list" where
  "sdk_OperationStatus = [''QUEUED'', ''RUNNING'', ''SUCCEEDED'', ''FAILED'', ''REJECTED'']"

definition sdk_ActorStatus :: "string list" where
  "sdk_ActorStatus = [''IDLE'', ''OPERATING'', ''FAILED'', ''SUSPENDED'']"

lemma statuses_known:
  "OperationStatus_string t \<in> set sdk_OperationStatus"
  "ActorStatus_string u \<in> set sdk_ActorStatus \<longleftrightarrow> u \<noteq> ActorUnset \<and> u \<noteq> ActorUnreachable"
  by (cases t, simp_all add: sdk_OperationStatus_def) (cases u, simp_all add: sdk_ActorStatus_def)

interpretation operation_codec: codec json_operation sent_operation "into_struct operation_fields" zero_operation sendable_operation 1
proof
  fix r
  assume s: "sendable_operation r"
  obtain ja where a: "json_time (rec_StartedAt r) = Some ja" "into_time 0 ja = Some (rec_StartedAt r)" "\<forall>d>0. json_ok d ja"
    using s time_codec.round_trip [of "rec_StartedAt r"] by (auto simp: sendable_operation_def)
  obtain jb where b: "json_time (rec_CompletedAt r) = Some jb" "into_time 0 jb = Some (rec_CompletedAt r)" "\<forall>d>0. json_ok d jb"
    using s time_codec.round_trip [of "rec_CompletedAt r"] by (auto simp: sendable_operation_def)
  let ?kvs = "[(''operationId'', JStr (rec_OperationID r)), (''idempotencyKey'', JStr (rec_IdempotencyKey r)),
      (''requester'', JStr (rec_Requester r)), (''commandType'', JStr (CommandType_string (rec_CommandType r))),
      (''status'', JStr (OperationStatus_string (rec_Status r)))] @
      opt_member (rec_ChildWorkflowID r \<noteq> []) ''childWorkflowId'' (JStr (rec_ChildWorkflowID r)) @
      opt_member (rec_LeaseID r \<noteq> []) ''leaseId'' (JStr (rec_LeaseID r)) @
      opt_member (rec_Result r \<noteq> []) ''result'' (JStr (rec_Result r)) @ [(''startedAt'', ja), (''completedAt'', jb)]"
  have "json_operation r = Some (JObj ?kvs)" by (simp add: json_operation_def struct_defs a(1) b(1))
  moreover have "into_struct operation_fields zero_operation (JObj ?kvs) = Some (sent_operation r)"
    by (simp add: reads operation_fields_def zero_operation_def, (subst decode_omitted, simp add: reads, simp)+,
      simp add: reads a(2) b(2) sent_operation_def)
  moreover have "json_ok n (JObj ?kvs)" if "1 < n" for n
    using that s a(3) b(3) status_utf8 by (simp add: sendable_operation_def utf8_ascii)
  ultimately show "\<exists>j. json_operation r = Some j \<and> j \<noteq> JNull \<and> into_struct operation_fields zero_operation j = Some (sent_operation r) \<and>
      (\<forall>n>1. json_ok n j)"
    by blast
qed

text \<open>A count is written in decimal and read into 64 bits.\<close>

lemma count_reads: "n < 2 ^ 63 \<Longrightarrow> into_int x (JNum (nat_dec n)) = Some (of_nat n)"
  using hd_nat_dec [of n] by (simp add: into_int_def atoi_def)

lemma count_is_number: "is_number (nat_dec n)"
  using hd_nat_dec [of n] by (simp add: is_number_def read_number_def read_unsigned_nat)

definition sent_view :: "DeploymentActorView \<Rightarrow> sdk_DeploymentActorView" where
  "sent_view v =
     \<lparr>kv_Identity = view_Identity v, kv_Status = ActorStatus_string (view_Status v),
      kv_CurrentVersion = map_option sent_version (view_CurrentVersion v),
      kv_LastHealthyVersion = map_option sent_version (view_LastHealthyVersion v),
      kv_LastSavepoint = view_LastSavepoint v, kv_ActiveOperation = map_option sent_operation (view_ActiveOperation v),
      kv_PendingOperations = of_nat (view_PendingOperations v), kv_RecentOperations = map sent_operation (view_RecentOperations v),
      kv_AutoscalerEnabled = view_AutoscalerEnabled v, kv_AutoscalerFrozen = view_AutoscalerFrozen v,
      kv_LastError = view_LastError v\<rparr>"

definition sendable_view :: "DeploymentActorView \<Rightarrow> bool" where
  "sendable_view v \<longleftrightarrow>
     sendable_identity (view_Identity v) \<and>
     (case view_CurrentVersion v of None \<Rightarrow> True | Some x \<Rightarrow> sendable_version x) \<and>
     (case view_LastHealthyVersion v of None \<Rightarrow> True | Some x \<Rightarrow> sendable_version x) \<and>
     (case view_LastSavepoint v of None \<Rightarrow> True | Some x \<Rightarrow> sendable_savepoint x) \<and>
     (case view_ActiveOperation v of None \<Rightarrow> True | Some x \<Rightarrow> sendable_operation x) \<and>
     view_PendingOperations v < 2 ^ 63 \<and> list_all sendable_operation (view_RecentOperations v) \<and> utf8 (view_LastError v)"

interpretation view_codec: codec json_view sent_view "into_struct view_fields" zero_sdk_view sendable_view 4
proof
  fix v
  assume s: "sendable_view v"
  note sv = s [unfolded sendable_view_def]
  obtain ji where i: "json_identity (view_Identity v) = Some ji" "into_struct identity_fields zero_identity ji = Some (view_Identity v)"
    "\<forall>d>0. json_ok d ji" using sv identity_codec.round_trip [of "view_Identity v"] by auto
  have names: "utf8 ''currentVersion''" "utf8 ''lastHealthyVersion''" "utf8 ''lastSavepoint''" "utf8 ''activeOperation''"
    by (rule utf8_ascii; simp)+
  obtain mc where c: "pointer ''currentVersion'' json_version (view_CurrentVersion v) = Some mc"
    "\<forall>d>3. list_all (\<lambda>(k, v). utf8 k \<and> json_ok d v) mc"
    using version_codec.pointer_writes [OF _ names(1), of "view_CurrentVersion v"] sv by auto
  obtain ml where l: "pointer ''lastHealthyVersion'' json_version (view_LastHealthyVersion v) = Some ml"
    "\<forall>d>3. list_all (\<lambda>(k, v). utf8 k \<and> json_ok d v) ml"
    using version_codec.pointer_writes [OF _ names(2), of "view_LastHealthyVersion v"] sv by auto
  obtain ms where p: "pointer ''lastSavepoint'' json_savepoint (view_LastSavepoint v) = Some ms"
    "\<forall>d>1. list_all (\<lambda>(k, v). utf8 k \<and> json_ok d v) ms"
    using savepoint_codec.pointer_writes [OF _ names(3), of "view_LastSavepoint v"] sv by auto
  obtain ma where a: "pointer ''activeOperation'' json_operation (view_ActiveOperation v) = Some ma"
    "\<forall>d>1. list_all (\<lambda>(k, v). utf8 k \<and> json_ok d v) ma"
    using operation_codec.pointer_writes [OF _ names(4), of "view_ActiveOperation v"] sv by auto
  obtain jo where o: "json_slice json_operation (view_RecentOperations v) = Some jo"
    "into_slice (into_struct operation_fields) zero_operation [] jo = Some (map sent_operation (view_RecentOperations v))"
    "\<forall>d>2. json_ok d jo"
    using operation_codec.slice_round_trip [of "view_RecentOperations v"] sv by auto
  let ?kvs = "[(''identity'', ji), (''status'', JStr (ActorStatus_string (view_Status v)))] @ mc @ ml @ ms @ ma @
      [(''pendingOperations'', JNum (nat_dec (view_PendingOperations v)))] @
      opt_member (view_RecentOperations v \<noteq> []) ''recentOperations'' jo @
      [(''autoscalerEnabled'', JBool (view_AutoscalerEnabled v)), (''autoscalerFrozen'', JBool (view_AutoscalerFrozen v))] @
      opt_member (view_LastError v \<noteq> []) ''lastError'' (JStr (view_LastError v))"
  have recent: "(if view_RecentOperations v = [] then Some [] else must ''recentOperations'' (Some jo)) =
    Some (opt_member (view_RecentOperations v \<noteq> []) ''recentOperations'' jo)" by (simp add: must_def opt_member_def)
  have "json_view v = Some (JObj ?kvs)"
    unfolding json_view_def o(1) recent by (simp add: struct_defs i(1) c(1) l(1) p(1) a(1))
  moreover have pending: "view_PendingOperations v < 2 ^ 63" using sv by blast
  have "into_struct view_fields zero_sdk_view (JObj ?kvs) = Some (sent_view v)"
    unfolding into_struct_def [of view_fields]
    by (simp add: decode_members decode_member_def zero_sdk_view_def view_fields_def i(2),
      subst version_codec.pointer_reads [OF c(1)], use sv in simp, simp, simp, simp,
      subst version_codec.pointer_reads [OF l(1)], use sv in simp, simp, simp, simp,
      subst savepoint_codec.pointer_reads [OF p(1)], use sv in simp, simp, simp, simp,
      subst operation_codec.pointer_reads [OF a(1)], use sv in simp, simp, simp, simp,
      simp add: decode_members decode_member_def count_reads [OF pending],
      subst decode_omitted, simp add: decode_member_def o(2), use o(2) in simp,
      simp add: decode_members decode_member_def,
      subst decode_omitted, simp add: decode_member_def, simp,
      simp add: sent_view_def option.map_ident)
  moreover have "json_ok n (JObj ?kvs)" if "4 < n" for n
    using that sv i(3) c(2) l(2) p(2) a(2) o(3) status_utf8 by (simp add: utf8_ascii count_is_number)
  ultimately show "\<exists>j. json_view v = Some j \<and> j \<noteq> JNull \<and> into_struct view_fields zero_sdk_view j = Some (sent_view v) \<and>
      (\<forall>n>4. json_ok n j)"
    by blast
qed

interpretation versions_codec: codec "json_slice json_version" "map sent_version" "into_slice (into_struct version_fields) zero_DeploymentVersion" "[]"
    "list_all sendable_version" 4
  by unfold_locales (use version_codec.slice_round_trip in simp)

definition sendable_summary :: "DeploymentSummary \<Rightarrow> bool" where
  "sendable_summary s \<longleftrightarrow> sendable_identity (sum_Identity s) \<and> utf8 (sum_WorkflowID s) \<and> sendable_time (sum_StartedAt s)"

definition zero_summary :: sdk_DeploymentSummary where
  "zero_summary = \<lparr>sum_Identity = zero_identity, sum_WorkflowID = [], sum_StartedAt = 0\<rparr>"

interpretation summary_codec: codec json_summary "\<lambda>s. s" "into_struct summary_fields" zero_summary sendable_summary 1
proof
  fix x
  assume s: "sendable_summary x"
  obtain ji where i: "json_identity (sum_Identity x) = Some ji" "into_struct identity_fields zero_identity ji = Some (sum_Identity x)"
    "\<forall>d>0. json_ok d ji" using s identity_codec.round_trip [of "sum_Identity x"] by (auto simp: sendable_summary_def)
  obtain jt where t: "json_time (sum_StartedAt x) = Some jt" "into_time 0 jt = Some (sum_StartedAt x)" "\<forall>d>0. json_ok d jt"
    using s time_codec.round_trip [of "sum_StartedAt x"] by (auto simp: sendable_summary_def)
  let ?kvs = "[(''identity'', ji), (''workflowId'', JStr (sum_WorkflowID x)), (''startedAt'', jt)]"
  have "json_summary x = Some (JObj ?kvs)" by (simp add: json_summary_def struct_defs i(1) t(1))
  moreover have "into_struct summary_fields zero_summary (JObj ?kvs) = Some x"
    unfolding into_struct_def [of summary_fields]
    by (cases x) (simp add: decode_members decode_member_def summary_fields_def zero_summary_def i(2) t(2) into_struct_def [symmetric])
  moreover have "json_ok n (JObj ?kvs)" if "1 < n" for n
    using that s i(3) t(3) by (simp add: sendable_summary_def utf8_ascii)
  ultimately show "\<exists>j. json_summary x = Some j \<and> j \<noteq> JNull \<and> into_struct summary_fields zero_summary j = Some x \<and> (\<forall>n>1. json_ok n j)"
    by blast
qed

definition sendable_list :: "DeploymentList \<Rightarrow> bool" where
  "sendable_list l \<longleftrightarrow> list_all sendable_summary (dl_Deployments l) \<and> utf8 (dl_NextPageToken l)"

definition zero_list :: sdk_DeploymentList where
  "zero_list = \<lparr>dl_Deployments = [], dl_NextPageToken = []\<rparr>"

interpretation list_codec: codec json_list "\<lambda>l. l" "into_struct deployment_list_fields" zero_list sendable_list 3
proof
  fix x
  assume s: "sendable_list x"
  obtain jd where d: "json_slice json_summary (dl_Deployments x) = Some jd"
    "into_slice (into_struct summary_fields) zero_summary [] jd = Some (dl_Deployments x)" "\<forall>d>2. json_ok d jd"
    using s summary_codec.slice_round_trip [of "dl_Deployments x"] by (auto simp: sendable_list_def numeral_2_eq_2)
  let ?kvs = "[(''deployments'', jd)] @ opt_member (dl_NextPageToken x \<noteq> []) ''nextPageToken'' (JStr (dl_NextPageToken x))"
  have "json_list x = Some (JObj ?kvs)" by (simp add: json_list_def struct_defs d(1))
  moreover have "into_struct deployment_list_fields zero_list (JObj ?kvs) = Some x"
    unfolding into_struct_def [of deployment_list_fields]
    by (simp add: decode_members decode_member_def deployment_list_fields_def zero_list_def zero_summary_def [symmetric] d(2),
      subst decode_omitted, simp add: decode_member_def, simp, cases x, simp)
  moreover have "json_ok n (JObj ?kvs)" if "3 < n" for n
    using that s d(3) by (simp add: sendable_list_def utf8_ascii)
  ultimately show "\<exists>j. json_list x = Some j \<and> j \<noteq> JNull \<and> into_struct deployment_list_fields zero_list j = Some x \<and> (\<forall>n>3. json_ok n j)"
    by blast
qed

definition sendable_cluster :: "ClusterActorState \<Rightarrow> bool" where
  "sendable_cluster s \<longleftrightarrow>
     sendable_time (cs_UpdatedAt s) \<and> list_all utf8 [cs_Environment s, cs_Namespace s, cs_Reason s, cs_Requester s]"

definition zero_cluster :: sdk_ClusterActorState where
  "zero_cluster = \<lparr>cs_Environment = [], cs_Namespace = [], cs_Frozen = False, cs_Reason = [], cs_Requester = [], cs_UpdatedAt = 0\<rparr>"

interpretation cluster_codec: codec json_cluster_state "\<lambda>s. s" "into_struct cluster_state_fields" zero_cluster sendable_cluster 1
proof
  fix x
  assume s: "sendable_cluster x"
  obtain jt where t: "json_time (cs_UpdatedAt x) = Some jt" "into_time 0 jt = Some (cs_UpdatedAt x)" "\<forall>d>0. json_ok d jt"
    using s time_codec.round_trip [of "cs_UpdatedAt x"] by (auto simp: sendable_cluster_def)
  let ?kvs = "[(''environment'', JStr (cs_Environment x)), (''namespace'', JStr (cs_Namespace x)), (''frozen'', JBool (cs_Frozen x))] @
    opt_member (cs_Reason x \<noteq> []) ''reason'' (JStr (cs_Reason x)) @
    opt_member (cs_Requester x \<noteq> []) ''requester'' (JStr (cs_Requester x)) @ [(''updatedAt'', jt)]"
  have "json_cluster_state x = Some (JObj ?kvs)" by (simp add: json_cluster_state_def struct_defs t(1))
  moreover have "into_struct cluster_state_fields zero_cluster (JObj ?kvs) = Some x"
    by (simp add: reads cluster_state_fields_def zero_cluster_def, (subst decode_omitted, simp add: reads, simp)+,
      cases x, simp add: reads t(2))
  moreover have "json_ok n (JObj ?kvs)" if "1 < n" for n
    using that s t(3) by (simp add: sendable_cluster_def utf8_ascii)
  ultimately show "\<exists>j. json_cluster_state x = Some j \<and> j \<noteq> JNull \<and> into_struct cluster_state_fields zero_cluster j = Some x \<and>
      (\<forall>n>1. json_ok n j)"
    by blast
qed

definition sent_card :: "DeploymentCardSummary \<Rightarrow> sdk_DeploymentCardSummary" where
  "sent_card c =
     \<lparr>kc_Identity = card_Identity c, kc_WorkflowID = card_WorkflowID c, kc_StartedAt = card_StartedAt c,
      kc_Status = ActorStatus_string (card_Status c), kc_Version = card_Version c, kc_ImageDigest = card_ImageDigest c,
      kc_Parallelism = card_Parallelism c, kc_Healthy = card_Healthy c, kc_HealthMessage = card_HealthMessage c,
      kc_Pending = of_nat (card_Pending c), kc_Error = card_Error c\<rparr>"

definition sendable_card :: "DeploymentCardSummary \<Rightarrow> bool" where
  "sendable_card c \<longleftrightarrow>
     sendable_identity (card_Identity c) \<and> sendable_time (card_StartedAt c) \<and> card_Pending c < 2 ^ 63 \<and>
     list_all utf8 [card_WorkflowID c, card_ImageDigest c, card_HealthMessage c, card_Error c]"

interpretation flag_codec: codec "\<lambda>b. Some (JBool b)" "\<lambda>b. b" into_bool False "\<lambda>b. True" 0
  by unfold_locales simp

interpretation card_codec: codec json_card sent_card "into_struct card_fields" zero_sdk_card sendable_card 1
proof
  fix c
  assume s: "sendable_card c"
  note sc = s [unfolded sendable_card_def]
  have pending: "card_Pending c < 2 ^ 63" using sc by blast
  obtain ji where i: "json_identity (card_Identity c) = Some ji" "into_struct identity_fields zero_identity ji = Some (card_Identity c)"
    "\<forall>d>0. json_ok d ji" using sc identity_codec.round_trip [of "card_Identity c"] by auto
  obtain jt where t: "json_time (card_StartedAt c) = Some jt" "into_time 0 jt = Some (card_StartedAt c)" "\<forall>d>0. json_ok d jt"
    using sc time_codec.round_trip [of "card_StartedAt c"] by auto
  have any: "case card_Healthy c of None \<Rightarrow> True | Some x \<Rightarrow> True" by (simp split: option.split)
  have name: "utf8 ''healthy''" by (rule utf8_ascii) simp
  obtain mh where h: "pointer ''healthy'' (\<lambda>b. Some (JBool b)) (card_Healthy c) = Some mh"
    "\<forall>d>0. list_all (\<lambda>(k, v). utf8 k \<and> json_ok d v) mh"
    using flag_codec.pointer_writes [OF any name] by blast
  let ?kvs = "[(''identity'', ji), (''workflowId'', JStr (card_WorkflowID c)), (''startedAt'', jt),
      (''status'', JStr (ActorStatus_string (card_Status c)))] @
    opt_member (card_Version c \<noteq> 0) ''version'' (json_int (card_Version c)) @
    opt_member (card_ImageDigest c \<noteq> []) ''imageDigest'' (JStr (card_ImageDigest c)) @
    opt_member (card_Parallelism c \<noteq> 0) ''parallelism'' (json_int (card_Parallelism c)) @ mh @
    opt_member (card_HealthMessage c \<noteq> []) ''healthMessage'' (JStr (card_HealthMessage c)) @
    [(''pendingOperations'', JNum (nat_dec (card_Pending c)))] @
    opt_member (card_Error c \<noteq> []) ''error'' (JStr (card_Error c))"
  have "json_card c = Some (JObj ?kvs)" by (simp add: json_card_def struct_defs i(1) t(1) h(1))
  moreover have "into_struct card_fields zero_sdk_card (JObj ?kvs) = Some (sent_card c)"
    unfolding into_struct_def [of card_fields]
    by (simp add: decode_members decode_member_def zero_sdk_card_def card_fields_def i(2) t(2),
      subst decode_omitted, simp add: decode_member_def, simp,
      subst decode_omitted, simp add: decode_member_def, simp,
      subst decode_omitted, simp add: decode_member_def, simp,
      subst flag_codec.pointer_reads [OF h(1) any], simp, simp, simp,
      subst decode_omitted, simp add: decode_member_def, simp,
      simp add: decode_members decode_member_def count_reads [OF pending],
      subst decode_omitted, simp add: decode_member_def, simp,
      simp add: sent_card_def option.map_ident)
  moreover have "json_ok n (JObj ?kvs)" if "1 < n" for n
    using that sc i(3) t(3) h(2) status_utf8 by (simp add: utf8_ascii count_is_number)
  ultimately show "\<exists>j. json_card c = Some j \<and> j \<noteq> JNull \<and> into_struct card_fields zero_sdk_card j = Some (sent_card c) \<and>
      (\<forall>n>1. json_ok n j)"
    by blast
qed

interpretation cards_codec: codec "json_slice json_card" "map sent_card" "into_slice (into_struct card_fields) zero_sdk_card" "[]"
    "list_all sendable_card" 2
  by unfold_locales (use card_codec.slice_round_trip in \<open>simp add: numeral_2_eq_2\<close>)

end
