(* ===== verification/Sdk_Loops.thy ===== *)
theory Sdk_Loops
  imports Sdk_Commands
begin

text \<open>
  The two loops of the SDK: waiting for a deployment to become healthy, which returns, and the
  autoscaler, which scales what it may scale and is refused by the actor whenever it does.
\<close>

subsection \<open>Waiting\<close>

text \<open>A clock that no call turns back and that a pause moves on.\<close>

definition client_clock :: "'w net \<Rightarrow> ('w \<Rightarrow> go_time) \<Rightarrow> bool" where
  "client_clock N clk \<longleftrightarrow>
     (\<forall>rq w. clk w \<le> clk (snd (nt_Do N rq w))) \<and>
     (\<forall>w. fst (nt_Now N w) = clk w \<and> clk w \<le> clk (snd (nt_Now N w))) \<and>
     (\<forall>d w. clk w + d \<le> clk (snd (nt_Wait N d w)))"

lemma client_clockD:
  assumes "client_clock N clk"
  shows "nt_Do N rq w = (x, w') \<Longrightarrow> clk w \<le> clk w'" "nt_Now N w = (t, w') \<Longrightarrow> t = clk w \<and> clk w \<le> clk w'"
    "nt_Wait N d w = (y, w') \<Longrightarrow> clk w + d \<le> clk w'"
  using assms unfolding client_clock_def by (metis fst_conv snd_conv)+

lemma client_do_clock:
  assumes c: "client_clock N clk" and "client_do N cl rq out zero w = (x, w')"
  shows "clk w \<le> clk w'"
  using assms(2) by (auto simp: client_do_def Let_def split: sum.splits prod.splits if_splits option.splits
      dest!: client_clockD(1) [OF c])

lemma status_clock:
  assumes c: "client_clock N clk" and "sdk_Status N d w = (x, w')"
  shows "clk w \<le> clk w'"
  using assms(2) by (auto simp: sdk_Status_def client_get_def Let_def split: option.splits dest: client_do_clock [OF c])

lemma wait_turn_clock:
  assumes c: "client_clock N clk" and "wait_turn N d msg deadline w = Inr w'"
  shows "clk w \<le> deadline" "clk w < clk w'"
proof -
  obtain v w1 now w2 where "sdk_Status N d w = (Inr v, w1)" "nt_Now N w1 = (now, w2)" "\<not> deadline < now"
      "nt_Wait N (2 * go_second) w2 = (None, w')"
    using assms(2) by (auto simp: wait_turn_def split: sum.splits prod.splits option.splits if_splits)
  with status_clock [OF c] client_clockD [OF c] have "clk w \<le> now" "now \<le> deadline" "now + 2 * go_second \<le> clk w'"
    by fastforce+
  then show "clk w \<le> deadline" "clk w < clk w'" by (simp_all add: go_second_def)
qed

lemma wait_loop_returns:
  assumes c: "client_clock N clk"
  shows "\<exists>out. wait_loop N d msg deadline w = Some out"
proof (induction "nat (deadline + 1 - clk w)" arbitrary: w rule: less_induct)
  case less
  show ?case
  proof (cases "wait_turn N d msg deadline w")
    case (Inr w')
    from less [OF _, of w'] wait_turn_clock [OF c Inr] Inr show ?thesis by (subst wait_loop.simps) simp
  qed (subst wait_loop.simps, simp)
qed

definition status_read :: "'w net \<Rightarrow> Deployment \<Rightarrow> sdk_DeploymentActorView \<Rightarrow> bool" where
  "status_read N d v \<longleftrightarrow> (\<exists>w w'. sdk_Status N d w = (Inr v, w'))"

definition honest_wait :: "'w net \<Rightarrow> Deployment \<Rightarrow> wait_result \<Rightarrow> bool" where
  "honest_wait N d out \<longleftrightarrow>
     (case out of
        (None, e) \<Rightarrow> e \<noteq> None
      | (Some v, e) \<Rightarrow> status_read N d v \<and> (e = None \<longleftrightarrow> view_healthy v))"

lemma wait_turn_honest: "wait_turn N d msg deadline w = Inl (out, w') \<Longrightarrow> honest_wait N d out"
  by (auto simp: wait_turn_def honest_wait_def status_read_def split: sum.splits prod.splits option.splits if_splits)

lemma wait_loop_honest:
  fixes N :: "'w net"
  assumes "wait_loop N d msg deadline w = Some (out, w')"
  shows "honest_wait N d out"
proof -
  let ?P = "\<lambda>(N :: 'w net) d msg deadline w (out :: wait_result \<times> 'w). honest_wait N d (fst out)"
  have "?P N d msg deadline w (out, w')"
  proof (rule wait_loop.raw_induct [where P = ?P, OF _ assms])
    fix loop and N :: "'w net" and d msg deadline w and out :: "wait_result \<times> 'w"
    assume IH: "\<And>N d msg deadline w out. loop N d msg deadline w = Some out \<Longrightarrow> ?P N d msg deadline w out"
      and step: "(case wait_turn N d msg deadline w of Inl out \<Rightarrow> Some out | Inr w' \<Rightarrow> loop N d msg deadline w') = Some out"
    show "?P N d msg deadline w out"
    proof (cases "wait_turn N d msg deadline w")
      case (Inl o')
      with step wait_turn_honest [of N d msg deadline w "fst out" "snd out"] show ?thesis by simp
    next
      case (Inr w2)
      with step have "loop N d msg deadline w2 = Some out" by simp
      from IH [OF this] show ?thesis .
    qed
  qed
  then show ?thesis by simp
qed

text \<open>C33. Waiting ends and tells the truth: with a clock that moves on in every pause \<open>WaitHealthy\<close>
  returns, whatever the server answers; a view it returns was read from the server, with no error
  exactly if its current version is healthy, and without a view there is an error.\<close>

theorem wait_healthy_returns:
  assumes "client_clock N clk"
  shows "\<exists>out w'. WaitHealthy N d timeout w = Some (out, w') \<and> honest_wait N d out"
proof -
  obtain now w1 where n: "nt_Now N w = (now, w1)" by (cases "nt_Now N w")
  obtain out w' where l: "wait_loop N d (duration_text timeout) (now + timeout) w1 = Some (out, w')"
    using wait_loop_returns [OF assms] by (metis surj_pair)
  from wait_loop_honest [OF l] l n show ?thesis by (auto simp: WaitHealthy_def)
qed

subsection \<open>The autoscaler\<close>

lemma itoa_length: "length (itoa w) \<le> 20"
proof -
  have "\<bar>sint w\<bar> < 10 ^ 19" using sint_range64 [of w] by (simp add: abs_less_iff)
  then have "nat \<bar>sint w\<bar> < 10 ^ 19" by (simp add: nat_less_iff)
  from nat_dec_length [OF _ this] show ?thesis by (auto simp: itoa_def int_dec_def abs_if split: if_splits)
qed

lemma autoscaler_body:
  "json_ok 10000 (the (json_ScaleRequest (autoscaler_request target)))"
  "length (json_print (the (json_ScaleRequest (autoscaler_request target)))) \<le> 1048576"
proof -
  have "utf8 ''autoscaler''" "utf8 ''autoscaler decision''" by (rule utf8_ascii; simp)+
  then show "json_ok 10000 (the (json_ScaleRequest (autoscaler_request target)))"
    by (simp add: json_ScaleRequest_def autoscaler_request_def spec_names)
  have "length (quote ''requester'') \<le> 100" "length (quote ''autoscaler'') \<le> 100" "length (quote ''parallelism'') \<le> 100"
    "length (quote ''reason'') \<le> 100" "length (quote ''autoscaler decision'') \<le> 100"
    by code_simp+
  with itoa_length [of target] show "length (json_print (the (json_ScaleRequest (autoscaler_request target)))) \<le> 1048576"
    by (simp add: json_ScaleRequest_def autoscaler_request_def bool_member_def string_member_def opt_member_def json_int_def)
qed

lemma get_status_silent:
  assumes "sdk_Status (api_net rnd now render base A T s schedule clk de) d (a, ctx) = (x, (a', ctx'))"
    and "cl_baseURL (dep_client d) = base" "plain_deployment d"
  shows "a' = a \<and> signals_of ctx' = signals_of ctx"
proof -
  let ?N = "api_net rnd now render base A T s schedule clk de" and ?C = "service_control T s schedule clk de"
  let ?h = "if cl_token (dep_client d) = [] then [] else [(''Authorization'', ''Bearer '' @ cl_token (dep_client d))]"
  let ?r = "server_request ''GET'' (deployment_parts d @ [''actor'']) ?h None"
  have plain: "list_all plain (deployment_parts d @ [''actor''])" by (intro parts_plain [OF assms(3)]) (simp add: plain_words)
  have path: "deployment_path d ''/actor'' = path_of (deployment_parts d @ [''actor''])"
    using deployment_path_parts [of d "[''actor'']"] by (simp add: path_of_def)
  have d: "client_do ?N (dep_client d) \<lparr>hq_Method = ''GET'', hq_URL = base @ path_of (deployment_parts d @ [''actor'']),
      hq_Header = [], hq_Body = None\<rparr> (Some (into_struct view_fields)) zero_sdk_view (a, ctx) = (x, (a', ctx'))"
    using assms(1,2) by (simp add: sdk_Status_def client_get_def path api_net_def direct.good_urls [OF plain] Let_def)
  note ans = direct.do_answers [OF plain assms(2) _ _ d [unfolded api_net_def], simplified]
  show ?thesis
  proof (cases "Enabled a")
    case True
    from ans [OF handler_unauthorized [OF True, of _ _ _ d "[''actor'']"]] show ?thesis by (simp add: reply_def)
  next
    case off: False
    have route: "find_route routes ''GET'' (deployment_parts d @ [''actor'']) = Some (EndDescribe, path_bindings d)"
      using assms(3) by (simp add: deployment_parts_def path_bindings_def plain_deployment_def plain_def routes_def
          match_pattern_def deployment_segs_def cluster_segs_def method_matches_def)
    have "deployment_parts d @ [''actor''] \<noteq> [''ui'']" by (simp add: deployment_parts_def)
    obtain rp ctx2 where rp: "describe ?C (path_bindings d) ctx = (rp, ctx2)" by (cases "describe ?C (path_bindings d) ctx")
    have H: "Handler (service_auth A) ?C ?r (a, ctx) = Some (rp, (a, ctx2))"
      using off route rp \<open>deployment_parts d @ [''actor''] \<noteq> [''ui'']\<close>
      by (simp add: Handler_def Middleware_def mux_def server_request_def dispatch_endpoint_def api_endpoint_def)
    have "rp_Status rp \<noteq> 301 \<and> rp_Status rp \<noteq> 302"
      using rp by (auto simp: describe_def bad_gateway_def writeError_def writeJSON_def reply_def split: prod.splits sum.splits if_splits)
    with ans [OF H] have "(a', ctx') = (a, ctx2)" by simp
    moreover have "signals_of ctx2 = signals_of ctx"
      using rp by (auto simp: describe_def split: prod.splits sum.splits dest: service.describe_silent)
    ultimately show ?thesis by simp
  qed
qed

text \<open>A scale of the autoscaler sends nothing or its one command.\<close>

lemma autoscaler_scale:
  assumes "Scale (api_net rnd now render base A T s schedule clk de) d (autoscaler_request target) (a, ctx) = (x, (a', ctx'))"
    and "cl_baseURL (dep_client d) = base" "plain_deployment d"
  shows "signals_of ctx' = signals_of ctx \<and> (\<exists>e. x = Inl e) \<or>
    (\<exists>c. signals_of ctx' = signals_of ctx @ [command_signal (bare_identity (dep_Env d) (dep_Namespace d) (dep_Name d)) c] \<and>
       cmd_Type c = CommandScaleTo \<and> cmd_Parallelism c = target \<and> cmd_Requester c = ''autoscaler'')"
proof -
  let ?j = "the (json_ScaleRequest (autoscaler_request target))"
  let ?q = "\<lparr>sq_Requester = ''autoscaler'', sq_Parallelism = target, sq_Approved = False, sq_Reason = ''autoscaler decision''\<rparr>"
  have op: "''/scale'' = path_of [''scale'']" by (simp add: path_of_def)
  have j: "json_ScaleRequest (autoscaler_request target) = Some ?j" by (simp add: json_ScaleRequest_def)
  have d: "post_command (api_net rnd now render base A T s schedule clk de) d (path_of [''scale'']) (Some ?j) (a, ctx) = (x, (a', ctx'))"
    using assms(1) j by (simp add: Scale_def op)
  have dec: "decode C (server_request m segs h (Some (json_print ?j))) scale_fields zero_scale = Inr ?q" for C m segs h
    using decode_printed(1) [OF autoscaler_body decode_ScaleRequest] by (simp add: autoscaler_request_def)
  have plain: "list_all plain [''scale'']" by (simp add: plain_words)
  from command_sent [OF d assms(2,3) plain deploy_route(2) [OF assms(3)] command_type.simps(4),
      where fill = "\<lambda>request command. command\<lparr>cmd_Parallelism := sq_Parallelism request,
          cmd_Approved := sq_Approved request, cmd_Reason := sq_Reason request\<rparr>" and requester = sq_Requester and
      decoded = "positive_scale (Inr ?q)"]
  show ?thesis
    by (fastforce simp: api_endpoint_def scaleHandler_def dec positive_scale_def api_command_def split: if_splits)
qed

text \<open>C27. The autoscaler asks only where it is refused: in a tick in front of the API one signal at most is
  sent, and then the view the SDK has just read says that the autoscaler is enabled and not frozen, and
  the signal scales the deployment to another parallelism; but an actor whose flags are those of the
  view rejects the command: it ends as failed, and the versions and the current one stay.\<close>

theorem autoscaler_refused:
  assumes "autoscaler_tick (api_net rnd now render base A T s schedule clk de) d evaluator (a, ctx) = (a', ctx')"
    and "cl_baseURL (dep_client d) = base" "plain_deployment d"
    and "\<And>v ctx r ctx'. evaluator v ctx = (r, ctx') \<Longrightarrow> signals_of (snd ctx') = signals_of (snd ctx)"
  shows "signals_of ctx' = signals_of ctx \<or>
    (\<exists>v c. status_read (api_net rnd now render base A T s schedule clk de) d v \<and>
       kv_AutoscalerEnabled v \<and> \<not> kv_AutoscalerFrozen v \<and>
       signals_of ctx' = signals_of ctx @ [command_signal (bare_identity (dep_Env d) (dep_Namespace d) (dep_Name d)) c] \<and>
       cmd_Type c = CommandScaleTo \<and> cmd_Parallelism c \<noteq> current_parallelism v \<and>
       (\<forall>S q st actx. st_AutoscalerEnabled st = kv_AutoscalerEnabled v \<and> st_AutoscalerFrozen st = kv_AutoscalerFrozen v \<and>
          st_CurrentVersion st \<noteq> None \<and> \<not> map_has (st_ProcessedKeys st) (command_key c) \<longrightarrow>
          (let st' = fst (processCommand S q c st actx)
           in st_Status st' = ActorFailed \<and> st_Versions st' = st_Versions st \<and>
              st_CurrentVersion st' = st_CurrentVersion st \<and> st_heap st' = st_heap st)))"
proof -
  let ?N = "api_net rnd now render base A T s schedule clk de"
  obtain x a1 ctx1 where st: "sdk_Status ?N d (a, ctx) = (x, (a1, ctx1))" by (metis prod_cases3)
  note silent = get_status_silent [OF st assms(2,3)]
  show ?thesis
  proof (cases "signals_of ctx' = signals_of ctx")
    case False
    obtain v where x: "x = Inr v" "kv_AutoscalerEnabled v" "\<not> kv_AutoscalerFrozen v"
      using False assms(1) st silent by (cases x) (auto simp: autoscaler_tick_def split: if_splits)
    obtain r a2 ctx2 where ev: "evaluator v (a1, ctx1) = (r, (a2, ctx2))" by (metis prod_cases3)
    have two: "signals_of ctx2 = signals_of ctx" using assms(4) [OF ev] silent by simp
    obtain target where "r = Inr (Some target)" "target \<noteq> current_parallelism v"
        "snd (Scale ?N d (autoscaler_request target) (a2, ctx2)) = (a', ctx')"
      using False assms(1) st x ev two by (auto simp: autoscaler_tick_def split: sum.splits option.splits if_splits)
    with x have v: "x = Inr v" "kv_AutoscalerEnabled v" "\<not> kv_AutoscalerFrozen v"
      "target \<noteq> current_parallelism v" "snd (Scale ?N d (autoscaler_request target) (a2, ctx2)) = (a', ctx')" by simp_all
    obtain y where y: "Scale ?N d (autoscaler_request target) (a2, ctx2) = (y, (a', ctx'))" using v(5) by (metis prod.collapse)
    from autoscaler_scale [OF y assms(2,3)] False two obtain c where
      c: "signals_of ctx' = signals_of ctx @ [command_signal (bare_identity (dep_Env d) (dep_Namespace d) (dep_Name d)) c]"
      "cmd_Type c = CommandScaleTo" "cmd_Parallelism c = target" by auto
    have read: "status_read ?N d v" using st v(1) unfolding status_read_def by blast
    have refused: "st_Status (fst (processCommand S q c st actx)) = ActorFailed \<and>
        st_Versions (fst (processCommand S q c st actx)) = st_Versions st \<and>
        st_CurrentVersion (fst (processCommand S q c st actx)) = st_CurrentVersion st \<and>
        st_heap (fst (processCommand S q c st actx)) = st_heap st"
      if "st_AutoscalerEnabled st = kv_AutoscalerEnabled v" "st_AutoscalerFrozen st = kv_AutoscalerFrozen v"
        "st_CurrentVersion st \<noteq> None" "\<not> map_has (st_ProcessedKeys st) (command_key c)" for S q st actx
      using scale_locked_out [OF that(4) c(2) that(3), of S q actx "fst (processCommand S q c st actx)"
          "snd (processCommand S q c st actx)"] that(1,2) v(2,3) by simp
    show ?thesis using c v(2-4) read
      by (intro disjI2 exI [of _ v] exI [of _ c]) (simp add: Let_def refused)
  qed simp
qed

end
