(* ===== verification/Sdk_Answers.thy ===== *)
theory Sdk_Answers
  imports Json_Codec Sdk_Loops
begin

text \<open>
  Reading through the SDK: what a getter of the SDK returns is what the control service answered, by
  way of the API's encoder, the network and the SDK's decoder. Then what \<open>WaitHealthy\<close> sees of an
  actor whose last operation failed.
\<close>

subsection \<open>One answer\<close>

lemma handler_get:
  assumes "\<not> Enabled a" and "find_route routes ''GET'' segs = Some (e, b)" and "segs \<noteq> [''ui'']"
    and "e \<in> {EndDescribe, EndVersions, EndDescribeCluster, EndSummary}"
  shows "Handler E C (server_request ''GET'' segs h body) (a, w) =
    (case api_endpoint C e (server_request ''GET'' segs h body) b w of None \<Rightarrow> None | Some (rp, w1) \<Rightarrow> Some (rp, (a, w1)))"
  using assms by (auto simp: Handler_def Middleware_def mux_def server_request_def dispatch_endpoint_def)

lemma get_routes:
  "plain_deployment d \<Longrightarrow> find_route routes ''GET'' (deployment_parts d @ [''actor'']) = Some (EndDescribe, path_bindings d)"
  "plain_deployment d \<Longrightarrow> find_route routes ''GET'' (deployment_parts d @ [''versions'']) = Some (EndVersions, path_bindings d)"
  by (simp_all add: deployment_parts_def path_bindings_def plain_deployment_def plain_def routes_def
      match_pattern_def deployment_segs_def cluster_segs_def method_matches_def)

lemma get_read:
  assumes base: "cl_baseURL c = base" and plain: "list_all plain segs"
    and H: "\<And>h. H (server_request ''GET'' segs h None) s = Some (writeJSON 200 r, s')"
    and j: "reply_json r = Some j" "json_ok 10000 j" "length (json_print j) < 1048576" and read: "into zero j = Some x"
  shows "client_get (in_process rnd now render base H) c (path_of segs) into zero s = (Inr x, s')"
proof -
  let ?N = "in_process rnd now render base H" and ?t = "json_print j @ [CHR 0x0A]"
  let ?h = "if cl_token c = [] then [] else [(''Authorization'', ''Bearer '' @ cl_token c)]"
  have segs: "segments (drop (Suc 0) (path_of segs)) = segs" using segments_path [OF plain] by simp
  have exchange: "nt_Do ?N \<lparr>hq_Method = ''GET'', hq_URL = base @ path_of segs, hq_Header = ?h, hq_Body = None\<rparr> s =
      (Inr \<lparr>ht_Status = 200, ht_Body = Inr ?t\<rparr>, s')"
    using H [of ?h] j(1) by (simp add: in_process_def segs answer_def writeJSON_def reply_def body_text_def reply_text_def)
  have "client_do ?N c \<lparr>hq_Method = ''GET'', hq_URL = base @ path_of segs, hq_Header = [], hq_Body = None\<rparr> (Some into) zero s = (Inr x, s')"
    by (rule client_do_read [where n = 200 and t = ?t and j = j]) (use exchange j(3) parse_line [OF j(2)] read in simp_all)
  moreover have "nt_BadURL ?N (base @ path_of segs) = None" by (simp add: in_process_def)
  ultimately show ?thesis using base by (simp add: client_get_def)
qed

context codec
begin

lemma get_round_trip:
  assumes "sendable x" and "depth < 10000" and "reply_json r = enc x" and "length (json_print (the (enc x))) < 1048576"
    and "cl_baseURL c = base" "list_all plain segs"
    and "\<And>h. H (server_request ''GET'' segs h None) s = Some (writeJSON 200 r, s')"
  shows "client_get (in_process rnd now render base H) c (path_of segs) into zero s = (Inr (img x), s')"
proof -
  obtain j where j: "enc x = Some j" "into zero j = Some (img x)" "json_ok 10000 j"
    using round_trip [OF assms(1)] assms(2) by blast
  show ?thesis
    by (rule get_read [where r = r and j = j]) (use assms(3-) j in simp_all)
qed

end

subsection \<open>The getters of a deployment\<close>

definition path_identity :: "Deployment \<Rightarrow> DeploymentIdentity" where
  "path_identity d = identityFrom (path_bindings d) [] [] ''default''"

lemma path_identity_id: "WorkflowID (path_identity d) = WorkflowID (bare_identity (dep_Env d) (dep_Namespace d) (dep_Name d))"
  by (simp add: path_identity_def identityFrom_def path_bindings_def path_value_def first_value_def WorkflowID_def bare_identity_def)

lemma deployment_path_one: "deployment_path d (CHR ''/'' # op) = path_of (deployment_parts d @ [op])"
  using deployment_path_parts [of d "[op]"] by (simp add: path_of_def)

lemma status_reads:
  assumes "cl_baseURL (dep_client d) = base" "plain_deployment d" "\<not> Enabled a"
    and "Describe T (path_identity d) ctx = (Inr v, ctx')"
    and "sendable_view v" and "length (json_print (the (json_view v))) < 1048576"
  shows "sdk_Status (api_net rnd now render base A T s schedule clk de) d (a, ctx) = (Inr (sent_view v), (a, ctx'))"
proof -
  let ?segs = "deployment_parts d @ [''actor'']" and ?C = "service_control T s schedule clk de"
  have plain: "list_all plain ?segs" by (intro parts_plain [OF assms(2)]) (simp add: plain_words)
  have "api_endpoint ?C EndDescribe r (path_bindings d) ctx = Some (writeJSON 200 (ReplyView v), ctx')" for r
    using assms(4) by (simp add: api_endpoint_def describe_def service_control_def path_identity_def)
  then have H: "Handler (service_auth A) ?C (server_request ''GET'' ?segs h None) (a, ctx) = Some (writeJSON 200 (ReplyView v), (a, ctx'))" for h
    by (subst handler_get [OF assms(3) get_routes(1) [OF assms(2)]]) (simp_all add: deployment_parts_def)
  show ?thesis
    unfolding sdk_Status_def deployment_path_one api_net_def
    by (rule view_codec.get_round_trip [where r = "ReplyView v" and H = "Handler (service_auth A) ?C"])
      (rule assms plain H | simp add: reply_json_def)+
qed

lemma versions_reads:
  assumes "cl_baseURL (dep_client d) = base" "plain_deployment d" "\<not> Enabled a"
    and "Versions T (path_identity d) ctx = (Inr vs, ctx')"
    and "list_all sendable_version vs" and "length (json_print (the (json_slice json_version vs))) < 1048576"
  shows "sdk_Versions (api_net rnd now render base A T s schedule clk de) d (a, ctx) = (Inr (map sent_version vs), (a, ctx'))"
proof -
  let ?segs = "deployment_parts d @ [''versions'']" and ?C = "service_control T s schedule clk de"
  have plain: "list_all plain ?segs" by (intro parts_plain [OF assms(2)]) (simp add: plain_def unreserved_def is_digit_def in_range_def)
  have "api_endpoint ?C EndVersions r (path_bindings d) ctx = Some (writeJSON 200 (ReplyVersions vs), ctx')" for r
    using assms(4) by (simp add: api_endpoint_def versions_def service_control_def path_identity_def)
  then have H: "Handler (service_auth A) ?C (server_request ''GET'' ?segs h None) (a, ctx) = Some (writeJSON 200 (ReplyVersions vs), (a, ctx'))" for h
    by (subst handler_get [OF assms(3) get_routes(2) [OF assms(2)]]) (simp_all add: deployment_parts_def)
  show ?thesis
  proof (cases "vs = []")
    case True
    then have "reply_json (ReplyVersions vs) = Some JNull" "into_slice (into_struct version_fields) zero_DeploymentVersion [] JNull = Some (map sent_version vs)"
      by (simp_all add: reply_json_def into_slice_def)
    then show ?thesis
      unfolding sdk_Versions_def deployment_path_one api_net_def 
      by (intro get_read [where r = "ReplyVersions vs" and j = JNull and H = "Handler (service_auth A) ?C"]) (rule assms plain H | simp)+
  next
    case False
    then have "reply_json (ReplyVersions vs) = json_slice json_version vs" by (simp add: reply_json_def)
    then show ?thesis
      unfolding sdk_Versions_def deployment_path_one api_net_def
      by (intro versions_codec.get_round_trip [where r = "ReplyVersions vs" and H = "Handler (service_auth A) ?C"])
        (rule assms plain H | simp)+
  qed
qed

text \<open>C28. A view arrives as it was sent: when the control service describes a deployment, \<open>Status\<close> of the
  SDK in front of an open server returns the same view, with the constants as the strings they are
  written as and the maps of the specifications in order, whatever its optional parts; the view has to
  be UTF-8 with times up to the year 9999, and its text below one mebibyte.\<close>

theorem sdk_status_arrives:
  assumes "cl_baseURL (dep_client d) = base" "plain_deployment d" "\<not> Enabled a"
    and "Describe T (path_identity d) ctx = (Inr v, ctx')"
    and "sendable_view v" and "length (json_print (the (json_view v))) < 1048576"
  shows "sdk_Status (api_net rnd now render base A T s schedule clk de) d (a, ctx) = (Inr (sent_view v), (a, ctx'))"
  by (rule status_reads [OF assms])

subsection \<open>Waiting for a deployment that failed\<close>

lemma describe_answered:
  assumes "fst (tc_QueryView T (WorkflowID identity) ''describe'' (snd ctx)) = Inr payload" and "payload zero_view = Inr v"
  shows "\<exists>ctx'. Describe T identity ctx = (Inr v, ctx')"
  using assms by (auto simp: Describe_def query_def call_def split: prod.splits)

lemma failed_keeps_current:
  assumes "\<not> map_has (st_ProcessedKeys st) (command_key c)"
    and "processCommand S q c st actx = (st', actx')" and "st_Status st' = ActorFailed"
  shows "deref st' (st_CurrentVersion st') = deref st (st_CurrentVersion st)"
  using processCommand_books [OF assms(1,2)] assms(3) by (auto simp: deref_def)

text \<open>C34. Waiting does not wait for what was asked: when an actor with a healthy version has processed a
  command that failed, a deployment for example, and Temporal answers queries with its view,
  \<open>WaitHealthy\<close> returns at once and without an error, in its first turn, whatever the time-out; the
  view it returns has the status FAILED and the version from before the command.\<close>

theorem wait_healthy_after_failure:
  assumes "\<not> map_has (st_ProcessedKeys st) (command_key c)"
    and "processCommand S q c st actx = (st', actx')" "st_Status st' = ActorFailed"
    and "deref st (st_CurrentVersion st) = Some cur" "hs_Healthy (ver_HealthSummary cur)"
    and "cl_baseURL (dep_client d) = base" "plain_deployment d" "\<not> Enabled a"
    and "\<And>w. fst (tc_QueryView T (WorkflowID (path_identity d)) ''describe'' w) = Inr payload" "payload zero_view = Inr (view st')"
    and "sendable_view (view st')" "length (json_print (the (json_view (view st')))) < 1048576"
  shows "\<exists>v ctx'. WaitHealthy (api_net rnd now render base A T s schedule clk de) d timeout (a, ctx) = Some ((Some v, None), (a, ctx')) \<and>
    kv_Status v = ''FAILED'' \<and> kv_CurrentVersion v = Some (sent_version cur)"
proof -
  let ?N = "api_net rnd now render base A T s schedule clk de" and ?v = "sent_view (view st')"
  obtain t ctx1 where b: "beside now ctx = (t, ctx1)" by (cases "beside now ctx")
  have n: "nt_Now ?N (a, ctx) = (t, (a, ctx1))" by (simp add: api_net_def in_process_def b)
  obtain ctx2 where "Describe T (path_identity d) ctx1 = (Inr (view st'), ctx2)"
    using describe_answered [of T "path_identity d" ctx1, OF assms(9,10)] by blast
  from status_reads [OF assms(6-8) this assms(11,12), of rnd now render A s schedule clk de]
  have status: "sdk_Status ?N d (a, ctx1) = (Inr ?v, (a, ctx2))" .
  have cur: "kv_CurrentVersion ?v = Some (sent_version cur)"
    using failed_keeps_current [OF assms(1-3)] assms(4) by (simp add: sent_view_def view_def)
  moreover have "kv_Status ?v = ''FAILED''" using assms(3) by (simp add: sent_view_def view_def)
  moreover have "view_healthy ?v" using cur assms(5) by (simp add: view_healthy_def sent_version_def)
  then have "wait_turn ?N d msg deadline (a, ctx1) = Inl ((Some ?v, None), (a, ctx2))" for msg deadline
    by (simp add: wait_turn_def status)
  then have "WaitHealthy ?N d timeout (a, ctx) = Some ((Some ?v, None), (a, ctx2))"
    by (simp add: WaitHealthy_def n wait_loop.simps)
  ultimately show ?thesis by blast
qed

end
