(* ===== verification/Api_Commands.thy ===== *)
theory Api_Commands
  imports Api_Sessions
begin

text \<open>
  What becomes of the commands of the API: a frozen cluster is answered with a conflict, and a retry
  with the same key is done once.
\<close>

subsection \<open>The two ways of a command request\<close>

definition carries_key :: "http_request \<Rightarrow> CommandType \<Rightarrow> DeploymentCommand \<Rightarrow> bool" where
  "carries_key r t c \<longleftrightarrow> cmd_Type c = t \<and> cmd_OperationID c = request_key r \<and> cmd_IdempotencyKey c = request_key r \<and>
     request_key r \<noteq> []"

lemma command_handler_cases:
  assumes "command_handler C r b decoded t requester fill w = (rp, w')"
    and "\<And>q c. cmd_Type (fill q c) = cmd_Type c \<and> cmd_OperationID (fill q c) = cmd_OperationID c \<and>
      cmd_IdempotencyKey (fill q c) = cmd_IdempotencyKey c"
  shows "(\<exists>e. rp = writeError 400 e \<and> w' = w) \<or>
    (\<exists>c now w1. ctl_Now C w = (now, w1) \<and> carries_key r t c \<and> send C r b c w1 = (rp, w'))"
  using assms
  by (auto simp: command_handler_def baseCommand_def carries_key_def request_key_def Let_def
      split: sum.splits prod.splits if_splits)

lemma command_endpoint_cases:
  assumes "api_endpoint C e r b w = Some (rp, w')" and "command_type e = Some t"
  shows "(\<exists>e. rp = writeError 400 e \<and> w' = w) \<or>
    (\<exists>c now w1. ctl_Now C w = (now, w1) \<and> carries_key r t c \<and> send C r b c w1 = (rp, w'))"
  using assms
  by (cases e) (auto simp: api_endpoint_def deployHandler_def simpleCommand_def rollbackHandler_def scaleHandler_def
      dest!: command_handler_cases)

lemma service_now: "ctl_Now (service_control T s schedule clk de) ctx = (now, ctx1) \<longleftrightarrow> now = clk (snd ctx) \<and> ctx1 = ctx"
  by (auto simp: service_control_def)

lemma service_send: "ctl_SendCommand (service_control T s schedule clk de) = SendCommand T s"
  by (simp add: service_control_def)

subsection \<open>Frozen clusters\<close>

text \<open>C24. A frozen cluster is refused at the door: a request for a command that changes the runtime, to a
  deployment of a cluster whose last word was a freeze, signals nothing; the answer is a bad request,
  or a conflict that names who froze the cluster and why, unless an actor could not be started.\<close>

theorem api_frozen:
  assumes "filter relevant history = earlier @ [(now, freeze)]" and "cc_Type freeze = ClusterFreeze"
    and "\<And>w. fst (tc_QueryCluster T (ClusterActorState_WorkflowID
           (new_cluster_state (path_value b ''env'') (path_value b ''namespace''))) ''describe'' w) =
           Inr (\<lambda>_. Inr (ClusterActorWorkflow initial history))"
    and "command_type e = Some t" and "mutatesRuntime t"
    and "api_endpoint (service_control T s schedule clk de) e r b ctx = Some (rp, ctx')"
  shows "signals_of ctx' = signals_of ctx \<and>
    (rp_Status rp = 400 \<or>
     rp = writeError 409 (error_text (ClusterFrozenError (cc_Requester freeze) (cc_Reason freeze))) \<or>
     (\<exists>cs. fst ctx' = fst ctx @ cs \<and> list_all (starts_well s (path_value b ''env'') (path_value b ''namespace'')) cs))"
  using command_endpoint_cases [OF assms(6,4)]
proof (elim disjE exE conjE)
  fix err assume "rp = writeError 400 err" "ctx' = ctx"
  then show ?thesis by (simp add: writeError_def writeJSON_def reply_def)
next
  fix c now' ctx1
  assume ctx1: "ctl_Now (service_control T s schedule clk de) ctx = (now', ctx1)" and c: "carries_key r t c"
    and snd: "send (service_control T s schedule clk de) r b c ctx1 = (rp, ctx')"
  let ?d = "send_identity r b"
  have d: "id_Environment ?d = path_value b ''env''" "id_Namespace ?d = path_value b ''namespace''"
    by (simp_all add: send_identity_def identityFrom_def Let_def)
  obtain x ctx2 where x: "SendCommand T s ?d c ctx1 = (x, ctx2)" by (cases "SendCommand T s ?d c ctx1")
  have "mutatesRuntime (cmd_Type c)" using c assms(5) by (simp add: carries_key_def)
  from frozen_refuses [OF assms(1,2) _ this x, of initial] assms(3) obtain cs err
    where cs: "fst ctx2 = fst ctx1 @ cs" "signals_sent cs = []" "x = Inl err"
      "err = ClusterFrozenError (cc_Requester freeze) (cc_Reason freeze) \<or>
       list_all (starts_well s (path_value b ''env'') (path_value b ''namespace'')) cs"
    unfolding d by blast
  with snd x have "ctx' = ctx2"
    "err = ClusterFrozenError (cc_Requester freeze) (cc_Reason freeze) \<Longrightarrow>
     rp = writeError 409 (error_text (ClusterFrozenError (cc_Requester freeze) (cc_Reason freeze)))"
    by (auto simp: send_def service_send Let_def split: service_error.splits)
  with cs ctx1 show ?thesis by (auto simp: service_now signals_of_def)
qed

subsection \<open>Retries\<close>

lemma sent_command:
  assumes "api_endpoint (service_control T s schedule clk de) e r b ctx = Some (rp, ctx')" and "command_type e = Some t"
    and "rp_Status rp = 202"
  shows "\<exists>c. carries_key r t c \<and> signals_of ctx' = signals_of ctx @ [command_signal (send_identity r b) c]"
  using service.endpoint_faithful [OF assms(1)] assms(2,3)
  by (cases e) (auto simp: service.faithful_def asks_def carries_key_def)

text \<open>C26. A retry is done once: when two requests with the same idempotency key, to any command
  endpoints of one deployment, are both accepted, they signal the same actor, and once the actor has
  processed the first command the second changes nothing and schedules nothing in that run.\<close>

theorem api_retry:
  assumes "api_endpoint (service_control T s schedule clk de) e r b ctx = Some (rp, ctx1)"
    and "api_endpoint (service_control T s' schedule' clk' de') e' r' b' ctx1' = Some (rp', ctx2)"
    and "command_type e = Some t" "command_type e' = Some t'"
    and "rp_Status rp = 202" "rp_Status rp' = 202" "request_key r' = request_key r"
    and "WorkflowID (send_identity r' b') = WorkflowID (send_identity r b)"
  shows "\<exists>c c'. signals_of ctx1 = signals_of ctx @ [command_signal (send_identity r b) c] \<and>
     signals_of ctx2 = signals_of ctx1' @ [command_signal (send_identity r b) c'] \<and>
     (\<forall>cs st. c \<in> set cs \<longrightarrow> actor_handle S q c' (fold (actor_handle S q) cs st) = fold (actor_handle S q) cs st)"
proof -
  obtain c where c: "carries_key r t c" "signals_of ctx1 = signals_of ctx @ [command_signal (send_identity r b) c]"
    using sent_command [OF assms(1,3,5)] by blast
  obtain c' where c': "carries_key r' t' c'" "signals_of ctx2 = signals_of ctx1' @ [command_signal (send_identity r' b') c']"
    using sent_command [OF assms(2,4,6)] by blast
  from c(1) c'(1) assms(7) have "command_key c' = command_key c" by (simp add: carries_key_def command_key_def)
  then have "c \<in> set cs \<longrightarrow> actor_handle S q c' (fold (actor_handle S q) cs st) = fold (actor_handle S q) cs st" for cs st
    using handle_marks [of S q cs st "command_key c'"] by (auto simp: actor_handle_def processCommand_eq)
  with c(2) c'(2) assms(8) show ?thesis by (auto simp: command_signal_def)
qed

subsection \<open>Identities\<close>

text \<open>An escaped slash in a path is part of an environment, and identifiers are not escaped: two
  deployments the API accepts can share an actor.\<close>

lemma identities_collide:
  "validateIdentity (bare_identity ''a/b'' ''c'' ''d'') = Inr ()" "validateIdentity (bare_identity ''a'' ''b/c'' ''d'') = Inr ()"
  "WorkflowID (bare_identity ''a/b'' ''c'' ''d'') = WorkflowID (bare_identity ''a'' ''b/c'' ''d'')"
  by (simp_all add: validateIdentity_def bare_identity_def WorkflowID_def) code_simp+

end
