(* ===== verification/Simulated.thy ===== *)
theory Simulated
  imports Rollout
begin

text \<open>
  The in-memory backend (activities/simulated.go): its two maps, its nine activities, and the
  services a rollout sees when it runs on it. Every activity waits, then works under the mutex, so
  it is one atomic step on the state. The backend discharges the interfaces of the rollout: it
  admits only what \<open>ValidateSpec\<close> admits, and it is a machine that keeps the slot budget.
\<close>

subsection \<open>State\<close>

record runtimeDeployment =
  rt_Version :: DeploymentVersion
  rt_State :: string
  rt_Generation :: go_int

record SimulatedActivities =
  sa_delay :: go_duration
  sa_deployments :: "(string, runtimeDeployment) go_map"
  sa_leases :: "(string, Lease) go_map"

definition NewSimulated :: "go_duration \<Rightarrow> SimulatedActivities" where
  "NewSimulated delay = \<lparr>sa_delay = delay, sa_deployments = Some [], sa_leases = Some []\<rparr>"

text \<open>
  What an activity gets from its context and the clock: its identifier, the error of the context if
  it ends before the simulated delay is over, and the time read after the delay.
\<close>

record activity_ctx =
  ac_ActivityID :: string
  ac_Done :: "go_error option"
  ac_Now :: go_time

definition sleep :: "activity_ctx \<Rightarrow> go_duration \<Rightarrow> unit result" where
  "sleep c delay =
     (if delay \<le> 0 then Inr ()
      else case ac_Done c of Some e \<Rightarrow> Inl e | None \<Rightarrow> Inr ())"

definition zero_runtimeDeployment :: runtimeDeployment where
  "zero_runtimeDeployment = \<lparr>rt_Version = zero_DeploymentVersion, rt_State = [], rt_Generation = 0\<rparr>"

text \<open>Indexing the map yields the zero value for a deployment it does not hold.\<close>

definition runtime_of :: "SimulatedActivities \<Rightarrow> string \<Rightarrow> runtimeDeployment" where
  "runtime_of a key =
     (case map_find (sa_deployments a) key of None \<Rightarrow> zero_runtimeDeployment | Some rt \<Rightarrow> rt)"

subsection \<open>The activities\<close>

definition SimValidateDeployment ::
  "activity_ctx \<Rightarrow> ValidateDeploymentInput \<Rightarrow> SimulatedActivities \<Rightarrow> unit result \<times> SimulatedActivities" where
  "SimValidateDeployment c input a =
     (case sleep c (sa_delay a) of Inl e \<Rightarrow> (Inl e, a) | Inr _ \<Rightarrow> (ValidateSpec input, a))"

definition drop_expired :: "go_time \<Rightarrow> (string, Lease) go_map \<Rightarrow> (string, Lease) go_map" where
  "drop_expired now leases = map_option (filter (\<lambda>(i, l). \<not> lease_ExpiresAt l < now)) leases"

definition reservedSlots :: "string \<Rightarrow> (string, Lease) go_map \<Rightarrow> go_int" where
  "reservedSlots pool leases =
     sum_list (map (\<lambda>(i, l). if lease_NodePool l = pool then lease_Slots l else 0) (entries leases))"

definition simulatedSlotBudget :: go_int where "simulatedSlotBudget = 4096"

definition SimAcquireCapacityLease ::
  "activity_ctx \<Rightarrow> AcquireLeaseInput \<Rightarrow> SimulatedActivities \<Rightarrow> Lease result \<times> SimulatedActivities" where
  "SimAcquireCapacityLease c input a =
     (case sleep c (sa_delay a) of
        Inl e \<Rightarrow> (Inl e, a)
      | Inr _ \<Rightarrow>
          let now = ac_Now c;
              live = drop_expired now (sa_leases a);
              pool = id_NodePool (ai_Identity input);
              shape = ai_Resources input
          in if go_lt simulatedSlotBudget (reservedSlots pool live + Slots shape)
             then (Inl (''nodepool '' @ pool @ '' slot budget exhausted''), a\<lparr>sa_leases := live\<rparr>)
             else let i = ''lease-'' @ ac_ActivityID c @ ''-'' @ itoa (unix_nano now);
                      lease = \<lparr>lease_ID = i, lease_NodePool = pool,
                        lease_CPU = f_mul (rs_TaskManagerCPU shape) (f_of_int (sint (rs_TaskManagerCount shape))),
                        lease_MemoryMiB = rs_TaskManagerMemory shape * rs_TaskManagerCount shape,
                        lease_Slots = Slots shape,
                        lease_OwnerWorkflow = ai_OwnerWorkflow input,
                        lease_ExpiresAt = now + ai_TTL input\<rparr>
                  in (Inr lease, a\<lparr>sa_leases := map_put i lease live\<rparr>))"

definition SimReleaseCapacityLease ::
  "activity_ctx \<Rightarrow> string \<Rightarrow> SimulatedActivities \<Rightarrow> unit result \<times> SimulatedActivities" where
  "SimReleaseCapacityLease c leaseID a =
     (case sleep c (sa_delay a) of
        Inl e \<Rightarrow> (Inl e, a)
      | Inr _ \<Rightarrow> (Inr (), a\<lparr>sa_leases := map_del leaseID (sa_leases a)\<rparr>))"

definition SimApplyDeployment ::
  "activity_ctx \<Rightarrow> ApplyDeploymentInput \<Rightarrow> SimulatedActivities \<Rightarrow>
   ApplyDeploymentResult result \<times> SimulatedActivities" where
  "SimApplyDeployment c input a =
     (case sleep c (sa_delay a) of
        Inl e \<Rightarrow> (Inl e, a)
      | Inr _ \<Rightarrow>
          let key = WorkflowID (ap_Identity input);
              generation = rt_Generation (runtime_of a key) + 1;
              mode = (if ap_Incident input \<and> \<not> ap_GitOpsOnly input then ''direct-patch'' else ''gitops'')
          in (Inr \<lparr>ar_ObservedGeneration = generation,
                   ar_ApplyReference = mode @ ''://'' @ id_Name (ap_Identity input) @ ''/'' @
                     itoa (ver_VersionID (ap_Version input))\<rparr>,
              a\<lparr>sa_deployments := map_put key
                  \<lparr>rt_Version = ap_Version input, rt_State = ''RUNNING'', rt_Generation = generation\<rparr>
                  (sa_deployments a)\<rparr>))"

definition sim_failing :: "DeploymentVersion \<Rightarrow> bool" where
  "sim_failing v \<longleftrightarrow> contains_str (to_lower (spec_ImageDigest (ver_Spec v))) ''deadbeef''"

definition SimObserveDeployment ::
  "activity_ctx \<Rightarrow> ObserveDeploymentInput \<Rightarrow> SimulatedActivities \<Rightarrow>
   HealthSummary result \<times> SimulatedActivities" where
  "SimObserveDeployment c input a =
     (case sleep c (sa_delay a) of
        Inl e \<Rightarrow> (Inl e, a)
      | Inr _ \<Rightarrow>
          (case map_find (sa_deployments a) (WorkflowID (oi_Identity input)) of
             None \<Rightarrow> (Inl ''deployment not found in runtime'', a)
           | Some runtime \<Rightarrow>
               let failing = sim_failing (oi_Version input);
                   running = (rt_State runtime = ''RUNNING'')
               in (Inr \<lparr>hs_Healthy = (\<not> failing \<and> running), hs_Running = running,
                        hs_CheckpointCompleted = (\<not> failing), hs_RestartCount = 0,
                        hs_BackpressureRatio = f_one_twentieth, hs_KafkaLag = 10,
                        hs_SinkHealthy = (\<not> failing),
                        hs_Message = (if failing
                          then ''simulated health failure for image digest containing deadbeef'' else []),
                        hs_ObservedAt = ac_Now c\<rparr>, a)))"

definition SimTriggerSavepoint ::
  "activity_ctx \<Rightarrow> TriggerSavepointInput \<Rightarrow> SimulatedActivities \<Rightarrow>
   SavepointTrigger result \<times> SimulatedActivities" where
  "SimTriggerSavepoint c input a =
     (case sleep c (sa_delay a) of
        Inl e \<Rightarrow> (Inl e, a)
      | Inr _ \<Rightarrow>
          (Inr \<lparr>tr_TriggerID = ''trigger-'' @ ac_ActivityID c,
                tr_FlinkJobID = ''job-'' @ id_Name (ti_Identity input)\<rparr>, a))"

definition SimObserveSavepoint ::
  "activity_ctx \<Rightarrow> ObserveSavepointInput \<Rightarrow> SimulatedActivities \<Rightarrow>
   SavepointRecord result \<times> SimulatedActivities" where
  "SimObserveSavepoint c input a =
     (case sleep c (sa_delay a) of
        Inl e \<Rightarrow> (Inl e, a)
      | Inr _ \<Rightarrow>
          (Inr \<lparr>sp_URI = ''s3://flink-savepoints/'' @ id_Environment (os_Identity input) @ ''/'' @
                  id_Name (os_Identity input) @ ''/'' @ tr_TriggerID (os_Trigger input),
                sp_TriggerID = tr_TriggerID (os_Trigger input),
                sp_FlinkJobID = tr_FlinkJobID (os_Trigger input),
                sp_DeploymentVersion = ver_VersionID (os_Version input),
                sp_ImageDigest = spec_ImageDigest (ver_Spec (os_Version input)),
                sp_JobArgsHash = ver_JobArgsHash (os_Version input),
                sp_Parallelism = spec_Parallelism (ver_Spec (os_Version input)),
                sp_MaxParallelism = spec_MaxParallelism (ver_Spec (os_Version input)),
                sp_CompatibilityNotes = [],
                sp_CreatedAt = ac_Now c\<rparr>, a))"

definition SimSetJobState ::
  "activity_ctx \<Rightarrow> SetJobStateInput \<Rightarrow> SimulatedActivities \<Rightarrow> unit result \<times> SimulatedActivities" where
  "SimSetJobState c input a =
     (case sleep c (sa_delay a) of
        Inl e \<Rightarrow> (Inl e, a)
      | Inr _ \<Rightarrow>
          let key = WorkflowID (sj_Identity input)
          in (Inr (), a\<lparr>sa_deployments := map_put key
                (runtime_of a key\<lparr>rt_State := sj_State input\<rparr>) (sa_deployments a)\<rparr>))"

text \<open>The audit activity only writes to the log.\<close>

definition SimRecordAudit ::
  "activity_ctx \<Rightarrow> AuditEvent \<Rightarrow> SimulatedActivities \<Rightarrow> unit result \<times> SimulatedActivities" where
  "SimRecordAudit c event a = (Inr (), a)"

subsection \<open>The services of a worker on this backend\<close>

text \<open>
  A worker with the simulated backend registered (register.go): the world is the backend, a clock
  and the number of the next activity. Every activity is attempted once and its context stays
  alive; the clock moves on by the delay and a millisecond.
\<close>

record sim_world =
  sw_backend :: SimulatedActivities
  sw_clock :: go_time
  sw_next :: nat

definition sim_ctx :: "sim_world \<Rightarrow> activity_ctx" where
  "sim_ctx w =
     \<lparr>ac_ActivityID = nat_dec (sw_next w), ac_Done = None,
      ac_Now = sw_clock w + max 0 (sa_delay (sw_backend w))\<rparr>"

definition sim_run ::
  "(activity_ctx \<Rightarrow> SimulatedActivities \<Rightarrow> 'a result \<times> SimulatedActivities) \<Rightarrow>
   sim_world \<Rightarrow> 'a result \<times> sim_world" where
  "sim_run f w =
     (case f (sim_ctx w) (sw_backend w) of
        (r, a) \<Rightarrow> (r, \<lparr>sw_backend = a, sw_clock = ac_Now (sim_ctx w) + 1000000,
                        sw_next = Suc (sw_next w)\<rparr>))"

definition sim_services :: "sim_world services" where
  "sim_services =
     \<lparr>svc_Now = sw_clock,
      svc_ValidateDeployment = (\<lambda>_ i. sim_run (\<lambda>c. SimValidateDeployment c i)),
      svc_AcquireCapacityLease = (\<lambda>_ i. sim_run (\<lambda>c. SimAcquireCapacityLease c i)),
      svc_ReleaseCapacityLease = (\<lambda>_ i. sim_run (\<lambda>c. SimReleaseCapacityLease c i)),
      svc_ApplyDeployment = (\<lambda>_ i. sim_run (\<lambda>c. SimApplyDeployment c i)),
      svc_ObserveDeployment = (\<lambda>_ i. sim_run (\<lambda>c. SimObserveDeployment c i)),
      svc_TriggerSavepoint = (\<lambda>_ i. sim_run (\<lambda>c. SimTriggerSavepoint c i)),
      svc_ObserveSavepoint = (\<lambda>_ i. sim_run (\<lambda>c. SimObserveSavepoint c i)),
      svc_SetJobState = (\<lambda>_ i. sim_run (\<lambda>c. SimSetJobState c i)),
      svc_RecordAudit = (\<lambda>_ i. sim_run (\<lambda>c. SimRecordAudit c i)),
      svc_StartChild = (\<lambda>_ w. (Inr (), w)),
      svc_ChildError = (\<lambda>_ e. e)\<rparr>"

lemma sleep_alive [simp]: "ac_Done c = None \<Longrightarrow> sleep c d = Inr ()"
  by (simp add: sleep_def)

lemma sim_services_simps [simp]:
  "svc_Now sim_services = sw_clock"
  "svc_ValidateDeployment sim_services opts i = sim_run (\<lambda>c. SimValidateDeployment c i)"
  "svc_AcquireCapacityLease sim_services opts ai = sim_run (\<lambda>c. SimAcquireCapacityLease c ai)"
  "svc_ReleaseCapacityLease sim_services opts j = sim_run (\<lambda>c. SimReleaseCapacityLease c j)"
  "svc_ApplyDeployment sim_services opts ap = sim_run (\<lambda>c. SimApplyDeployment c ap)"
  "svc_ObserveDeployment sim_services opts oi = sim_run (\<lambda>c. SimObserveDeployment c oi)"
  "svc_TriggerSavepoint sim_services opts ti = sim_run (\<lambda>c. SimTriggerSavepoint c ti)"
  "svc_ObserveSavepoint sim_services opts os = sim_run (\<lambda>c. SimObserveSavepoint c os)"
  "svc_SetJobState sim_services opts sj = sim_run (\<lambda>c. SimSetJobState c sj)"
  "svc_RecordAudit sim_services opts ae = sim_run (\<lambda>c. SimRecordAudit c ae)"
  "svc_StartChild sim_services k w = (Inr (), w)"
  "svc_ChildError sim_services k e = e"
  by (simp_all add: sim_services_def)

lemma sim_run_fst: "fst (sim_run f w) = fst (f (sim_ctx w) (sw_backend w))"
  by (simp add: sim_run_def split: prod.splits)

lemma sim_run_backend [simp]: "sw_backend (snd (sim_run f w)) = snd (f (sim_ctx w) (sw_backend w))"
  by (simp add: sim_run_def split: prod.splits)

lemma sim_ctx_alive [simp]: "ac_Done (sim_ctx w) = None"
  by (simp add: sim_ctx_def)

subsection \<open>The backend admits what \<open>ValidateSpec\<close> admits\<close>

interpretation sim_admits: admitting_backend "\<lambda>i. sim_run (\<lambda>c. SimValidateDeployment c i)"
  by unfold_locales
     (simp add: sim_run_fst SimValidateDeployment_def)

text \<open>On the simulated runtime a rollout applies nothing that admission does not let through:
  whenever its history holds an apply, its input satisfies all the admission conditions.\<close>

lemma sim_rollout_admitted:
  assumes "RolloutWorkflow sim_services wfid input ([], w) = (out, (h, w'))" and "applies h \<noteq> []"
  shows "admitted (rollout_validate_input input)"
  by (rule sim_admits.rollout_apply_admitted [OF _ assms]) (simp add: sim_services_def)

subsection \<open>The slot budget\<close>

definition lease_load :: "string \<Rightarrow> (string \<times> Lease) list \<Rightarrow> int" where
  "lease_load pool ls =
     sum_list (map (\<lambda>(i, l). if lease_NodePool l = pool then sint (lease_Slots l) else 0) ls)"

definition pool_load :: "string \<Rightarrow> SimulatedActivities \<Rightarrow> int" where
  "pool_load pool a = lease_load pool (entries (sa_leases a))"

definition sim_inv :: "SimulatedActivities \<Rightarrow> bool" where
  "sim_inv a \<longleftrightarrow> map_wf (sa_leases a) \<and>
     (\<forall>(i, l) \<in> set (entries (sa_leases a)). 0 \<le> sint (lease_Slots l)) \<and>
     (\<forall>pool. pool_load pool a \<le> 4096)"

lemma lease_load_simps [simp]:
  "lease_load pool [] = 0"
  "lease_load pool ((i, l) # ls) =
     (if lease_NodePool l = pool then sint (lease_Slots l) else 0) + lease_load pool ls"
  by (simp_all add: lease_load_def)

lemma lease_load_nonneg:
  "(\<forall>(i, l) \<in> set ls. 0 \<le> sint (lease_Slots l)) \<Longrightarrow> 0 \<le> lease_load pool ls"
  by (induction ls) auto

lemma lease_load_filter:
  "(\<forall>(i, l) \<in> set ls. 0 \<le> sint (lease_Slots l)) \<Longrightarrow> lease_load pool (filter p ls) \<le> lease_load pool ls"
  by (induction ls) auto

lemma lease_load_delete:
  "(\<forall>(i, l) \<in> set ls. 0 \<le> sint (lease_Slots l)) \<Longrightarrow>
   lease_load pool (AList.delete j ls) \<le> lease_load pool ls"
  by (simp add: AList.delete_eq lease_load_filter)

lemma lease_load_update:
  assumes "\<forall>(i, l) \<in> set ls. 0 \<le> sint (lease_Slots l)"
  shows "lease_load pool (AList.update j l ls)
    \<le> lease_load pool ls + (if lease_NodePool l = pool then sint (lease_Slots l) else 0)"
  using assms by (induction ls) auto

lemma set_update_subset: "set (AList.update j l ls) \<subseteq> insert (j, l) (set ls)"
  by (induction ls) auto

lemma entries_drop_expired:
  "entries (drop_expired now m) = filter (\<lambda>(i, l). \<not> lease_ExpiresAt l < now) (entries m)"
  by (cases m) (simp_all add: drop_expired_def)

lemma entries_del: "entries (map_del j m) = AList.delete j (entries m)"
  by (cases m) (simp_all add: map_del_def)

lemma map_wf_drop_expired: "map_wf m \<Longrightarrow> map_wf (drop_expired now m)"
  by (auto simp: map_wf_def entries_drop_expired intro: distinct_map_filter)

text \<open>While every reservation is non-negative and within the budget, the wrapped sum is exact.\<close>

lemma reservedSlots_load: "reservedSlots pool m = word_of_int (lease_load pool (entries m))"
proof -
  have "(\<Sum>(i, l)\<leftarrow>ls. if lease_NodePool l = pool then lease_Slots l else 0) =
      word_of_int (lease_load pool ls)" for ls :: "(string \<times> Lease) list"
    by (induction ls) auto
  then show ?thesis by (simp add: reservedSlots_def)
qed

lemma sint_add_exact:
  assumes "0 \<le> x" "x \<le> 4096" "sint s \<in> {0..2 ^ 62}"
  shows "sint (word_of_int x + s :: go_int) = x + sint s"
  using sint_plus [of "word_of_int x" s] assms by (simp add: sint_exact)

lemma sim_inv_leases:
  assumes "sim_inv a"
  shows "map_wf (sa_leases a)" "\<forall>(i, l) \<in> set (entries (sa_leases a)). 0 \<le> sint (lease_Slots l)"
    "lease_load pool (entries (sa_leases a)) \<le> 4096"
  using assms by (simp_all add: sim_inv_def pool_load_def)

lemma filter_inv:
  assumes "sim_inv a" "map_wf m" "entries m = filter p (entries (sa_leases a))"
  shows "sim_inv (a\<lparr>sa_leases := m\<rparr>)"
proof -
  note la = sim_inv_leases [OF assms(1)]
  have "lease_load pool (entries m) \<le> 4096" for pool
    using lease_load_filter [OF la(2), of pool p] la(3) [of pool] assms(3) by simp
  moreover have "\<forall>(i, l) \<in> set (entries m). 0 \<le> sint (lease_Slots l)"
    using la(2) assms(3) by auto
  ultimately show ?thesis using assms(2) by (simp add: sim_inv_def pool_load_def)
qed

lemma release_inv: "sim_inv a \<Longrightarrow> sim_inv (a\<lparr>sa_leases := map_del j (sa_leases a)\<rparr>)"
  by (rule filter_inv) (simp_all add: sim_inv_leases(1) entries_del AList.delete_eq)

lemma drop_expired_inv: "sim_inv a \<Longrightarrow> sim_inv (a\<lparr>sa_leases := drop_expired now (sa_leases a)\<rparr>)"
  by (rule filter_inv) (simp_all add: sim_inv_leases(1) map_wf_drop_expired entries_drop_expired)

lemma grant_inv:
  assumes a: "sim_inv a" and l: "sint (lease_Slots l) \<in> {0..2 ^ 62}"
    and fits: "\<not> go_lt simulatedSlotBudget (reservedSlots (lease_NodePool l) (sa_leases a) + lease_Slots l)"
  shows "sim_inv (a\<lparr>sa_leases := map_put i l (sa_leases a)\<rparr>)"
proof -
  note la = sim_inv_leases [OF a]
  have "0 \<le> lease_load (lease_NodePool l) (entries (sa_leases a))"
    using la(2) by (rule lease_load_nonneg)
  with fits la(3) l have
    "lease_load (lease_NodePool l) (entries (sa_leases a)) + sint (lease_Slots l) \<le> 4096"
    by (simp add: reservedSlots_load sint_add_exact simulatedSlotBudget_def)
  with la(3) have "lease_load pool (AList.update i l (entries (sa_leases a))) \<le> 4096" for pool
    using lease_load_update [OF la(2), of pool i l] by (smt (verit))
  moreover have "\<forall>(j, k) \<in> set (AList.update i l (entries (sa_leases a))). 0 \<le> sint (lease_Slots k)"
    using la(2) l set_update_subset [of i l "entries (sa_leases a)"] by fastforce
  moreover have "map_wf (map_put i l (sa_leases a))" using la(1) by simp
  ultimately show ?thesis by (simp add: sim_inv_def pool_load_def map_put_def)
qed

text \<open>An operation of the backend with the context it runs in. Its effect on the state:\<close>

datatype sim_op =
  OpValidate activity_ctx ValidateDeploymentInput
| OpAcquire activity_ctx AcquireLeaseInput
| OpRelease activity_ctx string
| OpApply activity_ctx ApplyDeploymentInput
| OpObserve activity_ctx ObserveDeploymentInput
| OpTrigger activity_ctx TriggerSavepointInput
| OpObserveSavepoint activity_ctx ObserveSavepointInput
| OpSetJobState activity_ctx SetJobStateInput
| OpAudit activity_ctx AuditEvent

fun sim_step :: "sim_op \<Rightarrow> SimulatedActivities \<Rightarrow> SimulatedActivities" where
  "sim_step (OpValidate c i) a = snd (SimValidateDeployment c i a)"
| "sim_step (OpAcquire c i) a = snd (SimAcquireCapacityLease c i a)"
| "sim_step (OpRelease c i) a = snd (SimReleaseCapacityLease c i a)"
| "sim_step (OpApply c i) a = snd (SimApplyDeployment c i a)"
| "sim_step (OpObserve c i) a = snd (SimObserveDeployment c i a)"
| "sim_step (OpTrigger c i) a = snd (SimTriggerSavepoint c i a)"
| "sim_step (OpObserveSavepoint c i) a = snd (SimObserveSavepoint c i a)"
| "sim_step (OpSetJobState c i) a = snd (SimSetJobState c i a)"
| "sim_step (OpAudit c i) a = snd (SimRecordAudit c i a)"

text \<open>Requests for a negative or an absurd number of slots are outside the guarantee.\<close>

fun modest :: "sim_op \<Rightarrow> bool" where
  "modest (OpAcquire c i) \<longleftrightarrow> sint (Slots (ai_Resources i)) \<in> {0..2 ^ 62}"
| "modest _ \<longleftrightarrow> True"

lemmas sim_op_defs =
  SimValidateDeployment_def SimReleaseCapacityLease_def SimApplyDeployment_def
  SimObserveDeployment_def SimTriggerSavepoint_def SimObserveSavepoint_def SimSetJobState_def
  SimRecordAudit_def

lemma SimAcquire_inv:
  assumes "sim_inv a" "sint (Slots (ai_Resources i)) \<in> {0..2 ^ 62}"
  shows "sim_inv (snd (SimAcquireCapacityLease c i a))"
proof (cases "sleep c (sa_delay a)")
  case Inl
  then show ?thesis using assms(1) by (simp add: SimAcquireCapacityLease_def)
next
  case Inr
  let ?a = "a\<lparr>sa_leases := drop_expired (ac_Now c) (sa_leases a)\<rparr>"
  have inv: "sim_inv ?a" using assms(1) by (rule drop_expired_inv)
  show ?thesis
    using Inr grant_inv [OF inv] inv assms(2) by (simp add: SimAcquireCapacityLease_def Let_def)
qed

lemma sim_frames [simp]:
  "sa_leases (snd (SimValidateDeployment c v a)) = sa_leases a"
  "sa_leases (snd (SimApplyDeployment c ap a)) = sa_leases a"
  "sa_leases (snd (SimObserveDeployment c oi a)) = sa_leases a"
  "sa_leases (snd (SimTriggerSavepoint c ti a)) = sa_leases a"
  "sa_leases (snd (SimObserveSavepoint c os a)) = sa_leases a"
  "sa_leases (snd (SimSetJobState c sj a)) = sa_leases a"
  "sa_leases (snd (SimRecordAudit c ae a)) = sa_leases a"
  by (simp_all add: sim_op_defs Let_def split: sum.splits option.splits)

lemma sim_inv_frames [simp]:
  "sim_inv (snd (SimValidateDeployment c v a)) = sim_inv a"
  "sim_inv (snd (SimApplyDeployment c ap a)) = sim_inv a"
  "sim_inv (snd (SimObserveDeployment c oi a)) = sim_inv a"
  "sim_inv (snd (SimTriggerSavepoint c ti a)) = sim_inv a"
  "sim_inv (snd (SimObserveSavepoint c os a)) = sim_inv a"
  "sim_inv (snd (SimSetJobState c sj a)) = sim_inv a"
  "sim_inv (snd (SimRecordAudit c ae a)) = sim_inv a"
  by (simp_all add: sim_inv_def pool_load_def)

lemma SimRelease_inv: "sim_inv a \<Longrightarrow> sim_inv (snd (SimReleaseCapacityLease c j a))"
  by (simp add: SimReleaseCapacityLease_def release_inv split: sum.splits)

lemma sim_step_inv: "sim_inv a \<Longrightarrow> modest e \<Longrightarrow> sim_inv (sim_step e a)"
  by (cases e) (simp_all add: SimAcquire_inv SimRelease_inv)

interpretation sim_machine: invariant_machine sim_step sim_inv modest
  by unfold_locales (rule sim_step_inv)

lemma NewSimulated_inv: "sim_inv (NewSimulated d)"
  by (simp add: NewSimulated_def sim_inv_def pool_load_def)

text \<open>C16. The slot budget: whatever operations run on a new simulated runtime, in whatever order
  and with whatever expired or cancelled in between, as long as no request asks for a negative or
  absurd number of slots, the slots reserved in a node pool never exceed 4096.\<close>

theorem sim_slot_budget:
  assumes "list_all modest ops"
  shows "pool_load pool (fold sim_step ops (NewSimulated delay)) \<le> 4096"
  using sim_machine.run_inv [OF NewSimulated_inv assms] by (simp add: sim_inv_def)

subsection \<open>Rollouts on the simulated backend\<close>

text \<open>The body of a rollout leaves the leases alone, and the whole workflow keeps the budget.\<close>

lemmas exec_frames = exec_defs execute_snd

interpretation sim_leases: body_frame sim_services "\<lambda>c. sa_leases (sw_backend (snd c)) = L" for L
  by unfold_locales (simp_all add: exec_frames)

interpretation sim_budget: world_frame sim_services "\<lambda>c. sim_inv (sw_backend (snd c))"
  "\<lambda>r. sint (Slots r) \<in> {0..2 ^ 62}"
  by unfold_locales (simp_all only: exec_frames sim_services_simps sim_run_backend sim_inv_frames snd_conv
      SimAcquire_inv SimRelease_inv)

lemma sim_admitting: "admitting_services sim_services"
  by (rule sim_admits.services_admit) (simp add: sim_services_def)

interpretation sim_trace: world_frame sim_services trace_admitted "\<lambda>_. True"
  by (rule admitting_frame [OF sim_admitting])

text \<open>A rollout keeps the budget, too: run on any state of the runtime that is within budget,
  with a target that asks for a modest number of slots, it ends in such a state.\<close>

lemma sim_rollout_budget:
  assumes "sim_inv (sw_backend w)" and "sint (Slots (spec_Resources (ri_Target input))) \<in> {0..2 ^ 62}"
  shows "sim_inv (sw_backend (snd (snd (RolloutWorkflow sim_services wfid input ([], w)))))"
proof -
  obtain out ctx' where run: "RolloutWorkflow sim_services wfid input ([], w) = (out, ctx')"
    by (cases "RolloutWorkflow sim_services wfid input ([], w)")
  from sim_budget.RolloutWorkflow_keeps [OF this _ assms(2)] assms(1) show ?thesis
    unfolding run by simp
qed

lemma SimAcquire_cases:
  assumes "ac_Done c = None"
  obtains e where "SimAcquireCapacityLease c i a =
      (Inl e, a\<lparr>sa_leases := drop_expired (ac_Now c) (sa_leases a)\<rparr>)"
  | l where "SimAcquireCapacityLease c i a =
      (Inr l, a\<lparr>sa_leases := map_put (lease_ID l) l (drop_expired (ac_Now c) (sa_leases a))\<rparr>)"
proof (cases "go_lt simulatedSlotBudget (reservedSlots (id_NodePool (ai_Identity i))
    (drop_expired (ac_Now c) (sa_leases a)) + Slots (ai_Resources i))")
  case True
  then show thesis using assms that(1) by (simp add: SimAcquireCapacityLease_def Let_def)
next
  case False
  then have "\<exists>l. SimAcquireCapacityLease c i a =
      (Inr l, a\<lparr>sa_leases := map_put (lease_ID l) l (drop_expired (ac_Now c) (sa_leases a))\<rparr>)"
    using assms by (simp add: SimAcquireCapacityLease_def Let_def)
  then show thesis using that(2) by blast
qed

lemma delete_update: "AList.delete j (AList.update j l ls) = AList.delete j ls"
  by (induction ls) (auto simp: AList.delete_eq)

definition sim_lease_set :: "sim_world \<Rightarrow> (string \<times> Lease) set" where
  "sim_lease_set w = set (entries (sa_leases (sw_backend w)))"

lemma sim_acquire_leases:
  assumes "ExecAcquire sim_services opts i ctx = (r, ctx1)"
  obtains e where "r = Inl e" "sim_lease_set (snd ctx1) \<subseteq> sim_lease_set (snd ctx)"
  | l where "r = Inr l"
      "\<And>ctx2. sa_leases (sw_backend (snd ctx2)) = sa_leases (sw_backend (snd ctx1)) \<Longrightarrow>
        sim_lease_set (snd (snd (ExecRelease sim_services opts (lease_ID l) ctx2)))
          \<subseteq> sim_lease_set (snd ctx)"
proof -
  let ?c = "sim_ctx (snd ctx)" and ?a = "sw_backend (snd ctx)"
  have ctx1: "r = fst (SimAcquireCapacityLease ?c i ?a)"
      "sw_backend (snd ctx1) = snd (SimAcquireCapacityLease ?c i ?a)"
    using assms by (auto simp: ExecAcquire_def execute_eq sim_run_fst)
  show thesis
  proof (cases rule: SimAcquire_cases [OF sim_ctx_alive, of "snd ctx" i ?a])
    case (1 e)
    then show ?thesis using ctx1 that(1) by (auto simp: sim_lease_set_def entries_drop_expired)
  next
    case (2 l)
    have "sim_lease_set (snd (snd (ExecRelease sim_services opts (lease_ID l) ctx2)))
        = set (AList.delete (lease_ID l) (entries (drop_expired (ac_Now ?c) (sa_leases ?a))))"
      if "sa_leases (sw_backend (snd ctx2)) = sa_leases (sw_backend (snd ctx1))" for ctx2
      using that ctx1 2
      by (simp add: ExecRelease_def execute_world sim_lease_set_def SimReleaseCapacityLease_def
          entries_del map_put_def delete_update)
    then show ?thesis
      using ctx1 2 by (intro that(2) [of l])
        (auto simp: AList.delete_eq entries_drop_expired sim_lease_set_def)
  qed
qed

text \<open>A rollout gives back what it took: whatever its outcome, the runtime holds no lease
  afterwards that it did not hold before.\<close>

lemma sim_rollout_returns_capacity:
  "sim_lease_set (snd (snd (RolloutWorkflow sim_services wfid input (h, w)))) \<subseteq> sim_lease_set w"
proof -
  obtain out ctx' where run: "RolloutWorkflow sim_services wfid input (h, w) = (out, ctx')"
    by (cases "RolloutWorkflow sim_services wfid input (h, w)")
  have validate: "sim_lease_set (snd ctx1) = sim_lease_set w"
    if "ExecValidate sim_services (rollout_opts input) (rollout_validate_input input) (h, w) = (v, ctx1)"
    for v ctx1
    using that by (auto simp: ExecValidate_def execute_eq sim_lease_set_def)
  from run have "sim_lease_set (snd ctx') \<subseteq> sim_lease_set w"
  proof (cases rule: RolloutWorkflow_cases)
    case (refused e)
    then show "sim_lease_set (snd ctx') \<subseteq> sim_lease_set w" using validate by simp
  next
    case (unleased ctx1)
    with sim_leases.rollout_body_keeps [OF unleased(3) refl] validate [OF unleased(1)]
    show "sim_lease_set (snd ctx') \<subseteq> sim_lease_set w" by (simp add: sim_lease_set_def)
  next
    case (lease_refused ctx1 e)
    from lease_refused(3) show "sim_lease_set (snd ctx') \<subseteq> sim_lease_set w"
      by (cases rule: sim_acquire_leases) (use validate [OF lease_refused(1)] in auto)
  next
    case (leased ctx1 lease ctx2 ctx3 r)
    have same: "sa_leases (sw_backend (snd ctx3)) = sa_leases (sw_backend (snd ctx2))"
      by (rule sim_leases.rollout_body_keeps [OF leased(4) refl])
    from leased(3) show "sim_lease_set (snd ctx') \<subseteq> sim_lease_set w"
    proof (cases rule: sim_acquire_leases)
      case (2 l)
      from 2(2) [OF same] validate [OF leased(1)] leased(5) 2(1) show ?thesis by simp
    qed simp
  qed
  with run show ?thesis by simp
qed

subsection \<open>The outcome of a rollout on the simulated backend\<close>

definition sim_health :: "bool \<Rightarrow> bool \<Rightarrow> go_time \<Rightarrow> HealthSummary" where
  "sim_health failing running now =
     \<lparr>hs_Healthy = (\<not> failing \<and> running), hs_Running = running,
      hs_CheckpointCompleted = (\<not> failing), hs_RestartCount = 0,
      hs_BackpressureRatio = f_one_twentieth, hs_KafkaLag = 10, hs_SinkHealthy = (\<not> failing),
      hs_Message = (if failing
        then ''simulated health failure for image digest containing deadbeef'' else []),
      hs_ObservedAt = now\<rparr>"

lemma one_twentieth_small: "\<not> f_lt f_three_quarters f_one_twentieth"
  by (simp add: f_lt_def f_key_def f_neg_def f_mag_def f_bits_def f_three_quarters_def f_one_twentieth_def)

text \<open>Which targets pass the gate on this runtime, whose reports are fixed: no restarts, a backpressure of
  0.05, a lag of 10, and a checkpoint and a healthy sink unless the image is one that fails.\<close>

definition failing_image :: "DeploymentSpec \<Rightarrow> bool" where
  "failing_image spec \<longleftrightarrow> contains_str (to_lower (spec_ImageDigest spec)) ''deadbeef''"

definition sim_passes :: "Policy \<Rightarrow> DeploymentSpec \<Rightarrow> bool" where
  "sim_passes policy target \<longleftrightarrow>
     (failing_image target \<longrightarrow> \<not> pol_RequireFirstCheckpoint policy \<and> \<not> pol_RequireHealthySink policy) \<and>
     \<not> go_lt (pol_MaxRestartCount policy) 0 \<and> \<not> f_lt (pol_MaxBackpressureRatio policy) f_one_twentieth \<and>
     \<not> go_lt (pol_MaxKafkaLag policy) 10"

lemma sim_gate_iff:
  "EvaluateHealth (sim_health (failing_image target) True now) policy = Inr () \<longleftrightarrow> sim_passes policy target"
  by (auto simp: EvaluateHealth_ok_iff sim_health_def sim_passes_def)

lemma sim_gate_time: "EvaluateHealth (sim_health failing r now) policy = EvaluateHealth (sim_health failing r 0) policy"
  by (simp add: EvaluateHealth_def sim_health_def)

lemma sim_passes_default: "sim_passes (DefaultPolicy e) target \<longleftrightarrow> \<not> failing_image target"
  by (auto simp: sim_passes_def DefaultPolicy_def one_twentieth_small)

lemma sim_health_gate:
  "EvaluateHealth (sim_health failing True now) (DefaultPolicy e) =
     (if failing then Inl ''no completed checkpoint observed'' else Inr ())"
  by (simp add: EvaluateHealth_def sim_health_def DefaultPolicy_def one_twentieth_small)

definition running_version :: "sim_world \<Rightarrow> DeploymentIdentity \<Rightarrow> DeploymentVersion option" where
  "running_version w d =
     (case map_find (sa_deployments (sw_backend w)) (WorkflowID d) of
        Some rt \<Rightarrow> if rt_State rt = ''RUNNING'' then Some (rt_Version rt) else None
      | None \<Rightarrow> None)"

lemma sim_apply:
  "ExecApply sim_services opts a ctx = (r, ctx') \<Longrightarrow>
   running_version (snd ctx') (ap_Identity a) = Some (ap_Version a) \<and> (\<exists>ar. r = Inr ar)"
  by (auto simp: ExecApply_def execute_eq sim_run_fst running_version_def SimApplyDeployment_def Let_def)

lemma sim_observe:
  assumes "ExecObserve sim_services opts b ctx = (r, ctx')"
    and "running_version (snd ctx) (oi_Identity b) = Some v"
  shows "(\<exists>now. r = Inr (sim_health (sim_failing (oi_Version b)) True now)) \<and>
    running_version (snd ctx') (oi_Identity b) = Some v"
  using assms
  by (auto simp: ExecObserve_def execute_eq sim_run_fst running_version_def SimObserveDeployment_def
      Let_def sim_health_def split: option.splits if_splits)

lemma sim_savepoint:
  assumes "rollout_savepoint sim_services input cls res ctx = (r, ctx')"
  shows "\<exists>res'. r = Inr res' \<and> ver_Spec (rr_Version res') = ver_Spec (rr_Version res)"
  using assms
  by (auto simp: rollout_savepoint_def ExecuteChildWorkflow_def SavepointWorkflow_def Let_def
      ExecTrigger_def ExecObserveSavepoint_def execute_def sim_run_def SimTriggerSavepoint_def
      SimObserveSavepoint_def with_savepoint_def split: option.splits if_splits prod.splits)

definition sim_outcome :: "RolloutInput \<Rightarrow> rollout_outcome \<Rightarrow> sim_world \<Rightarrow> bool" where
  "sim_outcome input out w \<longleftrightarrow>
     (\<exists>v. running_version w (ri_Identity input) = Some v \<and>
        (case EvaluateHealth (sim_health (failing_image (ri_Target input)) True 0) (ri_Policy input) of
           Inr _ \<Rightarrow> sim_passes (ri_Policy input) (ri_Target input) \<and> ver_Spec v = ri_Target input \<and>
             (\<exists>r. delivered out = Inr r \<and> ver_Spec (rr_Version r) = ri_Target input)
         | Inl err \<Rightarrow> \<not> sim_passes (ri_Policy input) (ri_Target input) \<and>
             (case ri_Current input of
                None \<Rightarrow> ver_Spec v = ri_Target input \<and>
                  delivered out = Inl (''initial rollout failed health gate: '' @ err)
              | Some cur \<Rightarrow> ver_Spec v = ver_Spec cur \<and>
                  delivered out = Inl (''health gate failed and previous version was restored: '' @ err))))"

lemma sim_rollout_apply:
  assumes "rollout_apply sim_services input res ctx = (out, ctx')"
    and "ver_Spec (rr_Version res) = ri_Target input"
  shows "sim_outcome input out (snd ctx')"
proof -
  let ?o = "withActivities (ri_ActivityTaskQueue input)"
  obtain x ctx1 where x: "ExecApply sim_services ?o (target_apply input res) ctx = (x, ctx1)"
    by (cases "ExecApply sim_services ?o (target_apply input res) ctx")
  from sim_apply [OF x] obtain ar where ar: "x = Inr ar"
    and run1: "running_version (snd ctx1) (ri_Identity input) = Some (rr_Version res)"
    by (auto simp: target_apply_def)
  let ?res = "with_generation ar res"
  obtain y ctx2 where y: "ExecObserve sim_services ?o (observe_input input ?res) ctx1 = (y, ctx2)"
    by (cases "ExecObserve sim_services ?o (observe_input input ?res) ctx1")
  have failing: "sim_failing (rr_Version ?res) \<longleftrightarrow> failing_image (ri_Target input)"
    using assms(2) by (simp add: sim_failing_def with_generation_def failing_image_def)
  from sim_observe [OF y, of "rr_Version res"] run1 obtain now where
    h: "y = Inr (sim_health (failing_image (ri_Target input)) True now)"
    and run2: "running_version (snd ctx2) (ri_Identity input) = Some (rr_Version res)"
    by (auto simp: observe_input_def failing)
  let ?hs = "sim_health (failing_image (ri_Target input)) True now"
  note gate = sim_gate_iff [of "ri_Target input" now "ri_Policy input"] sim_gate_time [of _ True now "ri_Policy input"]
  show ?thesis
  proof (cases "EvaluateHealth ?hs (ri_Policy input)")
    case (Inr u)
    then have "out = (Some (with_health (?hs\<lparr>hs_Healthy := True\<rparr>) ?res), None)" "ctx' = ctx2"
      using assms(1) x ar y h by (simp_all add: rollout_apply_def)
    with Inr gate run2 assms(2) show ?thesis
      by (auto simp: sim_outcome_def with_health_def with_generation_def)
  next
    case (Inl err)
    let ?res2 = "with_health ?hs ?res"
    have restore: "rollout_restore sim_services input ?res2 err ctx2 = (out, ctx')"
      using assms(1) x ar y h Inl by (simp add: rollout_apply_def)
    have err: "EvaluateHealth (sim_health (failing_image (ri_Target input)) True 0) (ri_Policy input) = Inl err"
      "\<not> sim_passes (ri_Policy input) (ri_Target input)"
      using Inl gate by auto
    show ?thesis
    proof (cases "ri_Current input")
      case None
      with restore err run2 assms(2) show ?thesis
        by (auto simp: sim_outcome_def rollout_restore_def)
    next
      case (Some cur)
      let ?rb = "restore_apply input ?res2 (restore_version (workflow_now sim_services ctx2) ?res2 cur)"
      obtain z ctx3 where z: "ExecApply sim_services ?o ?rb ctx2 = (z, ctx3)"
        by (cases "ExecApply sim_services ?o ?rb ctx2")
      from sim_apply [OF z] obtain ar' where z': "z = Inr ar'"
        and run3: "running_version (snd ctx3) (ri_Identity input) = Some (ap_Version ?rb)"
        by (auto simp: restore_apply_def)
      have "ver_Spec (ap_Version ?rb) = ver_Spec cur"
        by (simp add: restore_apply_def restore_version_def Let_def split: option.splits)
      with restore Some z z' run3 err show ?thesis
        by (auto simp: sim_outcome_def rollout_restore_def)
    qed
  qed
qed

lemma sim_rollout_body:
  assumes "rollout_body sim_services input cls res ctx = (out, ctx')"
    and "ver_Spec (rr_Version res) = ri_Target input"
  shows "sim_outcome input out (snd ctx')"
proof -
  obtain r ctx1 where r: "rollout_savepoint sim_services input cls res ctx = (r, ctx1)"
    by (cases "rollout_savepoint sim_services input cls res ctx")
  from sim_savepoint [OF this] obtain res' where res': "r = Inr res'"
    "ver_Spec (rr_Version res') = ri_Target input" using assms(2) by auto
  then have "rollout_apply sim_services input res' ctx1 = (out, ctx')"
    using assms(1) r by (simp add: rollout_body_def)
  then show ?thesis using res'(2) by (rule sim_rollout_apply)
qed

text \<open>Whether the runtime grants the lease a rollout asks for, at the time it asks: one activity
  after the start.\<close>

definition sim_has_room :: "sim_world \<Rightarrow> RolloutInput \<Rightarrow> bool" where
  "sim_has_room w input \<longleftrightarrow>
     (let now = sw_clock w + 2 * max 0 (sa_delay (sw_backend w)) + 1000000
      in \<not> go_lt simulatedSlotBudget
        (reservedSlots (id_NodePool (ri_Identity input)) (drop_expired now (sa_leases (sw_backend w))) +
         Slots (spec_Resources (ri_Target input))))"

lemma sim_rollout_run:
  assumes "admitted (rollout_validate_input input)" and "sim_has_room w input"
    and "RolloutWorkflow sim_services wfid input (h, w) = (out, ctx')"
  shows "sim_outcome input out (snd ctx')"
proof -
  have spec: "ver_Spec (rr_Version (initial_result input now l)) = ri_Target input" for now l
    by (simp add: initial_result_def BuildVersion_def)
  have valid: "ValidateSpec (rollout_validate_input input) = Inr ()"
    using assms(1) ValidateSpec_ok by blast
  have release: "running_version (snd c') d = running_version (snd c) d"
    if "ExecRelease sim_services opts l c = (r, c')" for opts l c r c' d
    using that by (auto simp: ExecRelease_def execute_eq running_version_def SimReleaseCapacityLease_def)
  from assms(3) show ?thesis
  proof (cases rule: RolloutWorkflow_cases)
    case (refused e)
    then show ?thesis
      using valid by (simp add: ExecValidate_def execute_eq sim_run_fst SimValidateDeployment_def)
  next
    case (unleased ctx1)
    from sim_rollout_body [OF unleased(3) spec] show ?thesis by simp
  next
    case (lease_refused ctx1 e)
    then show ?thesis
      using assms(2)
      by (auto simp: ExecValidate_def ExecAcquire_def execute_eq sim_run_fst SimValidateDeployment_def
          SimAcquireCapacityLease_def Let_def sim_has_room_def lease_input_def sim_ctx_def sim_run_def
          algebra_simps
          split: if_splits)
  next
    case (leased ctx1 lease ctx2 ctx3 r)
    from sim_rollout_body [OF leased(4) spec] release [OF leased(5)] show ?thesis
      by (simp add: sim_outcome_def)
  qed
qed

text \<open>C15. A rollout on the simulated runtime ends as promised, under any policy: with an admitted input and
  room in the node pool it always finishes, and when it does the runtime runs the target, delivered as
  a result, if the target passes the gate of the policy there; the previous specification again, with
  the gate's error delivered, if it does not and there was a previous version; and the target that
  failed, with the gate's error delivered, if it was the first. A target passes if its image is not one
  that fails, or the policy asks neither for a checkpoint nor for a healthy sink, and the limits admit
  no restarts, a backpressure of 0.05 and a lag of 10; under the default policy, if its image is not
  one that fails.\<close>

theorem sim_rollout_outcome:
  assumes "admitted (rollout_validate_input input)" and "sim_has_room w input"
    and "RolloutWorkflow sim_services wfid input ([], w) = (out, (h, w'))"
  shows "sim_outcome input out w'"
  using sim_rollout_run [OF assms] by simp

subsection \<open>Requests for a negative number of slots\<close>

text \<open>Nothing checks that a resource shape is positive. A request for a negative number of slots is
  granted, makes room for a request above the budget, and leaves it standing when released.\<close>

definition shape_of_slots :: "go_int \<Rightarrow> ResourceShape" where
  "shape_of_slots n =
     \<lparr>rs_TaskManagerCPU = f_one, rs_TaskManagerMemory = 1024, rs_TaskManagerCount = n,
      rs_SlotsPerManager = 1\<rparr>"

definition demo_identity :: DeploymentIdentity where
  "demo_identity =
     \<lparr>id_Environment = ''dev'', id_Namespace = ''jobs'', id_Name = ''wiki'', id_Owner = ''team'',
      id_ServiceAccount = ''sa'', id_NodePool = ''pool'', id_FlinkDashboardURL = []\<rparr>"

definition slot_request :: "go_int \<Rightarrow> AcquireLeaseInput" where
  "slot_request n =
     \<lparr>ai_Identity = demo_identity, ai_Resources = shape_of_slots n, ai_OwnerWorkflow = [],
      ai_TTL = go_minute\<rparr>"

definition epoch_ctx :: "string \<Rightarrow> activity_ctx" where
  "epoch_ctx i = \<lparr>ac_ActivityID = i, ac_Done = None, ac_Now = 62135596800 * go_second\<rparr>"

definition negative_slot_run :: "sim_op list" where
  "negative_slot_run =
     [OpAcquire (epoch_ctx ''1'') (slot_request (- 4096)),
      OpAcquire (epoch_ctx ''2'') (slot_request 8192),
      OpRelease (epoch_ctx ''3'') ''lease-1-0'']"

lemma itoa_zero: "itoa 0 = ''0''"
  by (simp add: itoa_def int_dec_def nat_dec.simps digit_char_def char_of_def bit_0)

text \<open>The bound on requests in the slot budget is needed: three operations on a new runtime, the
  first a request for minus 4096 slots, leave 8192 slots reserved in a pool of 4096.\<close>

lemma sim_negative_slots_exceed_budget:
  "pool_load ''pool'' (fold sim_step negative_slot_run (NewSimulated 0)) = 8192"
  by (simp add: negative_slot_run_def NewSimulated_def SimAcquireCapacityLease_def
      SimReleaseCapacityLease_def epoch_ctx_def slot_request_def shape_of_slots_def demo_identity_def
      drop_expired_def reservedSlots_def Slots_def simulatedSlotBudget_def unix_nano_def itoa_zero
      map_put_def map_del_def AList.delete_eq pool_load_def go_minute_def go_second_def Let_def)

end
