(* ===== verification/Rollout_Examples.thy ===== *)
theory Rollout_Examples
  imports Simulated
begin

text \<open>
  Concrete rollouts on the simulated backend, evaluated: the properties of rollouts applied where
  their hypotheses hold. The digests stay unevaluated; nothing here depends on their value.
\<close>

definition demo_spec :: "string \<Rightarrow> go_int \<Rightarrow> bool \<Rightarrow> DeploymentSpec" where
  "demo_spec digest n compatible =
     \<lparr>spec_ImageDigest = digest, spec_GitRef = [], spec_FlinkVersion = ''1.20'',
      spec_JobArgs = Some [(''topic'', ''wiki'')], spec_FlinkConfig = None,
      spec_Parallelism = n, spec_MaxParallelism = 128, spec_Resources = shape_of_slots n,
      spec_State = \<lparr>sc_JobGraphCompatible = compatible, sc_OperatorUIDsStable = True,
        sc_AllowNonRestored = False, sc_FreshStartApproved = False\<rparr>,
      spec_AutoscalerEnabled = False\<rparr>"

definition good_image :: string where "good_image = ''app@sha256:00''"
definition bad_image :: string where "bad_image = ''app@sha256:deadbeef''"

definition demo_version :: DeploymentVersion where
  "demo_version = zero_DeploymentVersion\<lparr>ver_VersionID := 1, ver_Spec := demo_spec good_image 2 True\<rparr>"

definition demo_rollout :: "DeploymentVersion option \<Rightarrow> DeploymentSpec \<Rightarrow> RolloutInput" where
  "demo_rollout current target =
     \<lparr>ri_Identity = demo_identity, ri_Current = current, ri_Target = target,
      ri_Policy = DefaultPolicy ''dev'', ri_OperationID = ''op-1'', ri_Approved = True,
      ri_Incident = False, ri_ActivityTaskQueue = ''queue''\<rparr>"

definition demo_world :: sim_world where
  "demo_world = \<lparr>sw_backend = NewSimulated 0, sw_clock = 62135596800 * go_second, sw_next = 1\<rparr>"

text \<open>A first rollout, one that changes the job graph, and one of a failing image.\<close>

definition first_rollout :: RolloutInput where
  "first_rollout = demo_rollout None (demo_spec good_image 2 True)"
definition graph_rollout :: RolloutInput where
  "graph_rollout = demo_rollout (Some demo_version) (demo_spec good_image 2 False)"
definition failing_rollout :: RolloutInput where
  "failing_rollout = demo_rollout (Some demo_version) (demo_spec bad_image 4 True)"

definition demo_run :: "RolloutInput \<Rightarrow> rollout_outcome \<times> sim_world ctx" where
  "demo_run input = RolloutWorkflow sim_services ''flink-rollout/op-1'' input ([], demo_world)"

lemma demo_run_eq:
  "RolloutWorkflow sim_services ''flink-rollout/op-1'' input ([], demo_world) =
     (fst (demo_run input), (fst (snd (demo_run input)), snd (snd (demo_run input))))"
  by (simp add: demo_run_def)

lemmas demo_defs =
  demo_spec_def good_image_def bad_image_def demo_version_def demo_rollout_def demo_world_def
  first_rollout_def graph_rollout_def failing_rollout_def demo_identity_def shape_of_slots_def
  NewSimulated_def

lemma f_nan_one [simp]: "\<not> f_nan f_one"
  by (simp add: f_nan_def f_one_def f_exp_def f_frac_def f_mag_def f_bits_def)

lemma demo_class:
  "ClassifyChange None (demo_spec good_image 2 True) (DefaultPolicy ''dev'') =
     \<lparr>cls_Risk = RiskSafe, cls_RequiresSavepoint = False, cls_RequiresApproval = False,
      cls_RequiresCapacityLease = True, cls_Reason = ''initial deployment''\<rparr>"
  "ClassifyChange (Some demo_version) (demo_spec good_image 2 False) (DefaultPolicy ''dev'') =
     \<lparr>cls_Risk = RiskStateful, cls_RequiresSavepoint = True, cls_RequiresApproval = True,
      cls_RequiresCapacityLease = False,
      cls_Reason = ''state compatibility declaration requires guarded rollout''\<rparr>"
  "ClassifyChange (Some demo_version) (demo_spec bad_image 4 True) (DefaultPolicy ''dev'') =
     \<lparr>cls_Risk = RiskSafe, cls_RequiresSavepoint = False, cls_RequiresApproval = False,
      cls_RequiresCapacityLease = True, cls_Reason = ''parallelism or resource shape changed''\<rparr>"
  by (simp_all add: ClassifyChange_def demo_defs Slots_def DefaultPolicy_def
      deep_equal_def ResourceShape_eq_def)

lemma demo_valid:
  "ValidateSpec (rollout_validate_input first_rollout) = Inr ()"
  "ValidateSpec (rollout_validate_input graph_rollout) = Inr ()"
  "ValidateSpec (rollout_validate_input failing_rollout) = Inr ()"
  by (simp_all add: rollout_validate_input_def ClassifyChange_def demo_defs ValidateSpec_def DefaultPolicy_def
      deep_equal_def ResourceShape_eq_def Slots_def has_prefix_def)

lemma demo_fields:
  "ri_Current first_rollout = None" "ri_Target first_rollout = demo_spec good_image 2 True"
  "ri_Current graph_rollout = Some demo_version" "ri_Target graph_rollout = demo_spec good_image 2 False"
  "ri_Current failing_rollout = Some demo_version" "ri_Target failing_rollout = demo_spec bad_image 4 True"
  "ri_Policy first_rollout = DefaultPolicy ''dev''" "ri_Policy graph_rollout = DefaultPolicy ''dev''"
  "ri_Policy failing_rollout = DefaultPolicy ''dev''"
  "\<not> ri_Incident first_rollout" "\<not> ri_Incident graph_rollout" "\<not> ri_Incident failing_rollout"
  "ri_Identity first_rollout = demo_identity" "ri_Identity graph_rollout = demo_identity"
  "ri_Identity failing_rollout = demo_identity"
  "spec_Resources (demo_spec d n b) = shape_of_slots n" "Slots (shape_of_slots n) = n"
  "spec_ImageDigest (demo_spec d n b) = d"
  "ver_Spec (BuildVersion v s) = s" "ver_Spec demo_version = demo_spec good_image 2 True" "ver_SavepointURI demo_version = []"
  "sw_backend demo_world = NewSimulated 0" "sa_delay (NewSimulated t) = t"
  "sa_leases (NewSimulated t) = Some []" "sa_deployments (NewSimulated t) = Some []"
  by (simp_all add: demo_defs Slots_def zero_DeploymentVersion_def BuildVersion_def)

lemma demo_images:
  "\<not> contains_str (to_lower good_image) ''deadbeef''" "contains_str (to_lower bad_image) ''deadbeef''"
  by code_simp+

lemmas sim_eval =
  RolloutWorkflow_def Let_def rollout_class_def demo_class demo_valid demo_fields demo_images
  exec_defs execute_def sim_run_def sim_ctx_def
  SimValidateDeployment_def SimReleaseCapacityLease_def SimApplyDeployment_def
  SimObserveDeployment_def SimTriggerSavepoint_def SimObserveSavepoint_def
  SimAcquireCapacityLease_def rollout_body_def rollout_savepoint_def rollout_apply_def
  rollout_restore_def ExecuteChildWorkflow_def SavepointWorkflow_def sleep_def lease_input_def
  drop_expired_def reservedSlots_def simulatedSlotBudget_def
  sim_failing_def target_apply_def restore_apply_def observe_input_def with_generation_def
  with_health_def with_savepoint_def
  sim_health_gate [of False, unfolded sim_health_def, simplified]
  sim_health_gate [of True, unfolded sim_health_def, simplified]

lemma first_run:
  "applies (fst (snd (demo_run first_rollout))) \<noteq> []"
  "delivered (fst (demo_run first_rollout)) = Inr (the (fst (fst (demo_run first_rollout))))"
  by (simp_all add: demo_run_def sim_eval)

lemma graph_run:
  "applies (fst (snd (demo_run graph_rollout))) \<noteq> []"
  by (simp_all add: demo_run_def sim_eval applies_def)

lemma failing_run:
  "sim_health True True (sw_clock demo_world + 3000000) \<in> set (observations (fst (snd (demo_run failing_rollout))))"
  by (simp_all add: demo_run_def sim_eval sim_health_def)

subsection \<open>The properties of rollouts at these runs\<close>

theorem rollout_apply_validated_witness:
  "\<exists>rest. fst (snd (demo_run first_rollout)) = EvValidate (rollout_validate_input first_rollout) (Inr ()) # rest"
  by (rule rollout_apply_validated [OF demo_run_eq first_run(1)])

theorem rollout_savepoint_before_apply_witness:
  "\<exists>sp. (demo_version, sp) \<in> set (savepoints_taken (before_apply (fst (snd (demo_run graph_rollout))))) \<and>
     (\<forall>a \<in> set (applies (fst (snd (demo_run graph_rollout)))). ap_Rollback a \<or> ap_SavepointURI a = sp_URI sp)"
  by (rule rollout_savepoint_before_apply [OF demo_run_eq graph_run])
     (simp_all add: demo_fields rollout_class_def demo_class)

theorem rollout_success_witness:
  "\<exists>r. delivered (fst (demo_run first_rollout)) = Inr r \<and> ver_VersionID (rr_Version r) = 1 \<and>
     ver_Spec (rr_Version r) = demo_spec good_image 2 True"
  using rollout_success [OF demo_run_eq first_run(2)] first_run(2)
  by (intro exI [of _ "the (fst (fst (demo_run first_rollout)))"])
     (simp add: demo_fields next_version_id_def)

theorem rollout_restores_witness:
  "\<exists>a rb. applies (fst (snd (demo_run failing_rollout))) = [a, rb] \<and> ap_Rollback rb \<and>
     ver_Spec (ap_Version rb) = demo_spec good_image 2 True"
  using rollout_restores [OF demo_run_eq _ failing_run, of demo_version "''no completed checkpoint observed''"]
  by (auto simp: demo_fields sim_health_gate)

theorem sim_rollout_admitted_witness: "admitted (rollout_validate_input first_rollout)"
  by (rule sim_rollout_admitted [OF demo_run_eq first_run(1)])

theorem sim_slot_budget_witness:
  "pool_load ''pool'' (fold sim_step [OpAcquire (epoch_ctx ''1'') (slot_request 4096),
     OpAcquire (epoch_ctx ''2'') (slot_request 1)] (NewSimulated 0)) \<le> 4096"
  by (rule sim_slot_budget) (simp add: slot_request_def demo_fields)

theorem sim_rollout_budget_witness: "sim_inv (sw_backend (snd (snd (demo_run first_rollout))))"
  unfolding demo_run_def
  by (rule sim_rollout_budget) (simp_all add: demo_fields NewSimulated_inv)

theorem sim_rollout_outcome_witness: "sim_outcome failing_rollout (fst (demo_run failing_rollout)) (snd (snd (demo_run failing_rollout)))"
proof (rule sim_rollout_outcome [OF _ _ demo_run_eq])
  show "admitted (rollout_validate_input failing_rollout)"
    by (simp add: admitted_def rollout_validate_input_def demo_fields demo_class)
       (simp add: demo_defs DefaultPolicy_def, rule exI [of _ "''app''"], simp)
  show "sim_has_room demo_world failing_rollout"
    by (simp add: sim_has_room_def demo_fields drop_expired_def reservedSlots_def simulatedSlotBudget_def)
qed

subsection \<open>The properties of change classification and hashing at concrete inputs\<close>

theorem classify_conservative_witness:
  "cls_Risk (ClassifyChange (Some demo_version) (demo_spec bad_image 4 True) (DefaultPolicy ''dev''))
     \<le> cls_Risk (ClassifyChange (Some demo_version) (demo_spec bad_image 4 False) (DefaultPolicy ''dev''))"
proof -
  have "claims_less (spec_State (demo_spec bad_image 4 False)) (spec_State (demo_spec bad_image 4 True))"
    by (simp add: claims_less_def demo_spec_def)
  from classify_conservative [OF this, of "Some demo_version" "DefaultPolicy ''dev''"]
  show ?thesis by (simp add: demo_spec_def)
qed

definition args_ab :: string_map where "args_ab = Some [(''a'', ''1''), (''b'', ''2'')]"
definition args_ba :: string_map where "args_ba = Some [(''b'', ''2''), (''a'', ''1'')]"

theorem hashMap_order_witness: "hashMap args_ab = hashMap args_ba"
  by (rule hashMap_order) (simp_all add: args_ab_def args_ba_def map_wf_def)

theorem ordered_pairs_injective_witness: "map_find args_ab = map_find args_ba"
  by (rule ordered_pairs_injective) code_simp+

end
