(* ===== verification/Kubernetes_Adapter.thy ===== *)
theory Kubernetes_Adapter
  imports Lease_Store Workflow_Env
begin

text \<open>
  The Kubernetes backend (backends/kubernetes/adapter.go): its configuration, construction and the
  nine activities, over the cluster of \<open>Kube_Api\<close>, the resources of \<open>Flink_Render\<close> and the leases of
  \<open>Lease_Store\<close>. The two polling loops may not end, so they are partial functions.
\<close>

subsection \<open>Configuration\<close>

record Config =
  cfg_LeaseNamespace :: string
  cfg_SlotBudget :: go_int
  cfg_WatchNamespaces :: "string list"
  cfg_LocalStoragePath :: string
  cfg_DefaultFlinkConfig :: string_map
  cfg_ObserveTimeout :: go_duration
  cfg_SavepointTimeout :: go_duration
  cfg_PollInterval :: go_duration
  cfg_ResyncPeriod :: go_duration

definition withDefaults :: "Config \<Rightarrow> Config" where
  "withDefaults c =
     c\<lparr>cfg_LeaseNamespace := (if cfg_LeaseNamespace c = [] then ''cohestra-system'' else cfg_LeaseNamespace c),
       cfg_SlotBudget := (if go_le (cfg_SlotBudget c) 0 then 4096 else cfg_SlotBudget c),
       cfg_ObserveTimeout := (if cfg_ObserveTimeout c \<le> 0 then 5 * go_minute else cfg_ObserveTimeout c),
       cfg_SavepointTimeout := (if cfg_SavepointTimeout c \<le> 0 then 10 * go_minute else cfg_SavepointTimeout c),
       cfg_PollInterval := (if cfg_PollInterval c \<le> 0 then 3 * go_second else cfg_PollInterval c),
       cfg_ResyncPeriod := (if cfg_ResyncPeriod c \<le> 0 then 30 * go_second else cfg_ResyncPeriod c)\<rparr>"

definition baseFlinkDefaults :: string_map where
  "baseFlinkDefaults =
     Some [(''state.backend.type'', ''hashmap''), (''execution.checkpointing.interval'', ''10s'')]"

subsection \<open>Construction\<close>

text \<open>A factory is the namespace it watches, the empty one for the whole cluster; a lister is the
  namespace of the factory it comes from. The clients are the record \<open>kube\<close>.\<close>

record Backend =
  be_factories :: "string list"
  be_listers :: string_map
  be_leases :: leaseStore
  be_cfg :: Config
  be_defaults :: string_map

definition newWithClients :: "Config \<Rightarrow> Backend" where
  "newWithClients cfg0 =
     (let cfg = withDefaults cfg0; watched = cfg_WatchNamespaces cfg
      in \<lparr>be_factories = (if watched = [] then [[]] else watched),
          be_listers = (if watched = [] then map_put [] [] (Some [])
            else fold (\<lambda>ns. map_put ns ns) watched (Some [])),
          be_leases = newLeaseStore (cfg_LeaseNamespace cfg) (cfg_SlotBudget cfg),
          be_cfg = cfg,
          be_defaults = copy_into (cfg_DefaultFlinkConfig cfg) (copy_into baseFlinkDefaults (Some []))\<rparr>)"

text \<open>The two client constructors of the library may fail; their outcomes are arguments.\<close>

definition New :: "go_error option \<Rightarrow> go_error option \<Rightarrow> Config \<Rightarrow> Backend result" where
  "New dynamic_error core_error cfg0 =
     (let cfg = withDefaults cfg0
      in case dynamic_error of
           Some e \<Rightarrow> Inl (''dynamic client: '' @ e)
         | None \<Rightarrow>
             (case core_error of
                Some e \<Rightarrow> Inl (''core client: '' @ e)
              | None \<Rightarrow> Inr (newWithClients cfg)))"

text \<open>Starting: every factory in turn; the caches that did not sync end it.\<close>

fun start_factories :: "'w kube \<Rightarrow> string list \<Rightarrow> 'w \<Rightarrow> unit result \<times> 'w" where
  "start_factories K [] w = (Inr (), w)"
| "start_factories K (ns # rest) w =
     (case kc_SyncCache K ns w of
        (caches, w1) \<Rightarrow>
          (case find (\<lambda>(gvr, synced). \<not> synced) caches of
             Some (gvr, synced) \<Rightarrow> (Inl (''informer cache for '' @ gvr @ '' did not sync''), w1)
           | None \<Rightarrow> start_factories K rest w1))"

definition Start :: "'w kube \<Rightarrow> Backend \<Rightarrow> 'w \<Rightarrow> unit result \<times> 'w" where
  "Start K b = start_factories K (be_factories b)"

subsection \<open>Reading a deployment\<close>

text \<open>The lister of the namespace, or the one of the cluster; what it does not hold is read live.\<close>

definition getFlinkDeployment ::
  "'w kube \<Rightarrow> Backend \<Rightarrow> string \<Rightarrow> string \<Rightarrow> 'w \<Rightarrow> (kube_error + unstructured) \<times> 'w" where
  "getFlinkDeployment K b namespace name w =
     (let lister = (case map_find (be_listers b) namespace of Some l \<Rightarrow> Some l | None \<Rightarrow> map_find (be_listers b) [])
      in case lister of
           None \<Rightarrow> kc_GetDeployment K namespace name w
         | Some l \<Rightarrow>
             (case kc_Cached K l namespace name w of
                (Some obj, w1) \<Rightarrow> (Inr obj, w1)
              | (None, w1) \<Rightarrow> kc_GetDeployment K namespace name w1))"

text \<open>\<open>randID\<close>: sixteen hexadecimal digits, or the clock when there is no randomness.\<close>

definition randID :: "'w kube \<Rightarrow> 'w \<Rightarrow> string \<times> 'w" where
  "randID K w =
     (case kc_Rand K 8 w of
        (Some buf, w1) \<Rightarrow> (hex_encode buf, w1)
      | (None, w1) \<Rightarrow> (case kc_Now K w1 of (now, w2) \<Rightarrow> (itoa (unix_nano now), w2)))"

subsection \<open>The activities\<close>

definition KubeValidateDeployment :: "ValidateDeploymentInput \<Rightarrow> 'w \<Rightarrow> unit result \<times> 'w" where
  "KubeValidateDeployment input w = (ValidateSpec input, w)"

definition plain_error :: "(kube_error + 'a) \<times> 'w \<Rightarrow> 'a result \<times> 'w" where
  "plain_error r = (case r of (Inl e, w) \<Rightarrow> (Inl (kube_error_text e), w) | (Inr a, w) \<Rightarrow> (Inr a, w))"

definition KubeAcquireCapacityLease ::
  "'w kube \<Rightarrow> Backend \<Rightarrow> AcquireLeaseInput \<Rightarrow> 'w \<Rightarrow> Lease result \<times> 'w" where
  "KubeAcquireCapacityLease K b input w =
     (case randID K w of
        (r, w1) \<Rightarrow>
          plain_error (acquire K (be_leases b) input
            (''lease-'' @ stringOr (id_NodePool (ai_Identity input)) ''default'' @ ''-'' @ r) w1))"

definition KubeReleaseCapacityLease :: "'w kube \<Rightarrow> Backend \<Rightarrow> string \<Rightarrow> 'w \<Rightarrow> unit result \<times> 'w" where
  "KubeReleaseCapacityLease K b leaseID w =
     (case release K (be_leases b) leaseID w of
        (Some e, w1) \<Rightarrow> (Inl (kube_error_text e), w1)
      | (None, w1) \<Rightarrow> (Inr (), w1))"

definition slash_name :: "DeploymentIdentity \<Rightarrow> string" where
  "slash_name d = id_Namespace d @ ''/'' @ id_Name d"

definition KubeApplyDeployment ::
  "'w kube \<Rightarrow> Backend \<Rightarrow> ApplyDeploymentInput \<Rightarrow> 'w \<Rightarrow> ApplyDeploymentResult result \<times> 'w" where
  "KubeApplyDeployment K b input w =
     (let identity = ap_Identity input;
          desired = buildFlinkDeployment input (be_defaults b) (cfg_LocalStoragePath (be_cfg b))
      in case kc_ApplyDeployment K (id_Namespace identity) (id_Name identity) desired w of
           (Inl e, w1) \<Rightarrow> (Inl (''apply FlinkDeployment '' @ slash_name identity @ '': '' @ kube_error_text e), w1)
         | (Inr applied, w1) \<Rightarrow>
             (Inr \<lparr>ar_ObservedGeneration = fst (un_NestedInt64 applied [''metadata'', ''generation'']),
                   ar_ApplyReference =
                     (if ap_Incident input \<and> \<not> ap_GitOpsOnly input then ''direct-patch'' else ''gitops'') @
                     ''://'' @ slash_name identity @ ''@v'' @ itoa (ver_VersionID (ap_Version input))\<rparr>, w1))"

text \<open>One turn of the observing loop: \<open>Inl\<close> is what the activity returns, \<open>Inr\<close> the last reading it
  goes on with. First the reading (lines 210 to 220), then the deadline, then the wait.\<close>

definition observe_read ::
  "'w kube \<Rightarrow> Backend \<Rightarrow> DeploymentIdentity \<Rightarrow> HealthSummary \<Rightarrow> 'w \<Rightarrow>
   HealthSummary result \<times> 'w + HealthSummary \<times> 'w" where
  "observe_read K b identity reading w =
     (case getFlinkDeployment K b (id_Namespace identity) (id_Name identity) w of
        (Inr obj, w1) \<Rightarrow>
          (case kc_Now K w1 of
             (now, w2) \<Rightarrow>
               let summary = (fst (observedHealth obj))\<lparr>hs_ObservedAt := now\<rparr>
               in if snd (observedHealth obj) then Inl (Inr summary, w2) else Inr (summary, w2))
      | (Inl (NotFound _), w1) \<Rightarrow> Inr (reading, w1)
      | (Inl e, w1) \<Rightarrow> Inl (Inl (kube_error_text e), w1))"

definition observe_round ::
  "'w kube \<Rightarrow> Backend \<Rightarrow> DeploymentIdentity \<Rightarrow> go_time \<Rightarrow> HealthSummary \<Rightarrow> 'w \<Rightarrow>
   HealthSummary result \<times> 'w + HealthSummary \<times> 'w" where
  "observe_round K b identity deadline reading w =
     (case observe_read K b identity reading w of
        Inl out \<Rightarrow> Inl out
      | Inr (reading', w1) \<Rightarrow>
          (case kc_Now K w1 of
             (now, w2) \<Rightarrow>
               if deadline < now
               then if hs_ObservedAt reading' = 0
                 then case kc_Now K w2 of
                     (now', w3) \<Rightarrow>
                       Inl (Inr (reading'\<lparr>hs_ObservedAt := now',
                         hs_Message := ''deployment did not report status before observe timeout''\<rparr>), w3)
                 else Inl (Inr reading', w2)
               else case kc_Tick K w2 of
                   (Some e, w3) \<Rightarrow> Inl (Inl e, w3)
                 | (None, w3) \<Rightarrow> Inr (reading', w3)))"

partial_function (option) observe_loop ::
  "'w kube \<Rightarrow> Backend \<Rightarrow> DeploymentIdentity \<Rightarrow> go_time \<Rightarrow> HealthSummary \<Rightarrow> 'w \<Rightarrow>
   (HealthSummary result \<times> 'w) option" where
  "observe_loop K b identity deadline reading w =
     (case observe_round K b identity deadline reading w of
        Inl out \<Rightarrow> Some out
      | Inr (reading', w') \<Rightarrow> observe_loop K b identity deadline reading' w')"

definition KubeObserveDeployment ::
  "'w kube \<Rightarrow> Backend \<Rightarrow> ObserveDeploymentInput \<Rightarrow> 'w \<Rightarrow> (HealthSummary result \<times> 'w) option" where
  "KubeObserveDeployment K b input w =
     (case kc_Now K w of
        (now, w1) \<Rightarrow>
          observe_loop K b (oi_Identity input) (now + cfg_ObserveTimeout (be_cfg b)) zero_HealthSummary w1)"

definition KubeTriggerSavepoint ::
  "'w kube \<Rightarrow> Backend \<Rightarrow> TriggerSavepointInput \<Rightarrow> 'w \<Rightarrow> SavepointTrigger result \<times> 'w" where
  "KubeTriggerSavepoint K b input w =
     (let identity = ti_Identity input
      in case randID K w of
           (r, w1) \<Rightarrow>
             let name = id_Name identity @ ''-sp-'' @ r;
                 trigger = (\<lambda>w2. case getFlinkDeployment K b (id_Namespace identity) (id_Name identity) w2 of
                   (res, w3) \<Rightarrow>
                     let jobId = (case res of Inl e \<Rightarrow> [] | Inr obj \<Rightarrow>
                           (case un_NestedString obj [''status'', ''jobStatus'', ''jobId''] of
                              (i, ok, err) \<Rightarrow> if ok then i else []))
                     in (Inr \<lparr>tr_TriggerID = name,
                              tr_FlinkJobID = (if jobId \<noteq> [] then jobId else ''job-'' @ id_Name identity)\<rparr>, w3))
             in case kc_CreateSnapshot K (id_Namespace identity) (buildStateSnapshot name identity) w1 of
                  (None, w2) \<Rightarrow> trigger w2
                | (Some (AlreadyExists _), w2) \<Rightarrow> trigger w2
                | (Some e, w2) \<Rightarrow>
                    (Inl (''create FlinkStateSnapshot '' @ name @ '': '' @ kube_error_text e), w2))"

definition savepointRecord :: "ObserveSavepointInput \<Rightarrow> string \<Rightarrow> go_time \<Rightarrow> SavepointRecord" where
  "savepointRecord input path0 now =
     (let version = os_Version input; trigger = os_Trigger input
      in \<lparr>sp_URI = (if path0 = [] then ''unknown://'' @ id_Name (os_Identity input) @ ''/'' @ tr_TriggerID trigger
            else path0),
          sp_TriggerID = tr_TriggerID trigger, sp_FlinkJobID = tr_FlinkJobID trigger,
          sp_DeploymentVersion = ver_VersionID version, sp_ImageDigest = spec_ImageDigest (ver_Spec version),
          sp_JobArgsHash = ver_JobArgsHash version, sp_Parallelism = spec_Parallelism (ver_Spec version),
          sp_MaxParallelism = spec_MaxParallelism (ver_Spec version), sp_CompatibilityNotes = [],
          sp_CreatedAt = now\<rparr>)"

definition savepoint_read ::
  "'w kube \<Rightarrow> ObserveSavepointInput \<Rightarrow> 'w \<Rightarrow> SavepointRecord result \<times> 'w + 'w" where
  "savepoint_read K input w =
     (let trigger = tr_TriggerID (os_Trigger input)
      in case kc_GetSnapshot K (id_Namespace (os_Identity input)) trigger w of
           (Inr obj, w1) \<Rightarrow>
             let state = nested obj [''status'', ''state'']
             in if to_upper state = ''COMPLETED''
                then case kc_Now K w1 of
                    (now, w2) \<Rightarrow> Inl (Inr (savepointRecord input (nested obj [''status'', ''path'']) now), w2)
                else if to_upper state = ''FAILED'' \<or> to_upper state = ''ABANDONED''
                then Inl (Inl (''savepoint '' @ trigger @ '' '' @ state @ '': '' @ nested obj [''status'', ''error'']), w1)
                else Inr w1
         | (Inl (NotFound _), w1) \<Rightarrow> Inr w1
         | (Inl e, w1) \<Rightarrow> Inl (Inl (kube_error_text e), w1))"

definition savepoint_round ::
  "'w kube \<Rightarrow> ObserveSavepointInput \<Rightarrow> go_time \<Rightarrow> 'w \<Rightarrow> SavepointRecord result \<times> 'w + 'w" where
  "savepoint_round K input deadline w =
     (case savepoint_read K input w of
        Inl out \<Rightarrow> Inl out
      | Inr w1 \<Rightarrow>
          (case kc_Now K w1 of
             (now, w2) \<Rightarrow>
               if deadline < now
               then Inl (Inl (''savepoint '' @ tr_TriggerID (os_Trigger input) @
                 '' did not complete before timeout''), w2)
               else case kc_Tick K w2 of (Some e, w3) \<Rightarrow> Inl (Inl e, w3) | (None, w3) \<Rightarrow> Inr w3))"

partial_function (option) savepoint_loop ::
  "'w kube \<Rightarrow> ObserveSavepointInput \<Rightarrow> go_time \<Rightarrow> 'w \<Rightarrow> (SavepointRecord result \<times> 'w) option" where
  "savepoint_loop K input deadline w =
     (case savepoint_round K input deadline w of
        Inl out \<Rightarrow> Some out
      | Inr w' \<Rightarrow> savepoint_loop K input deadline w')"

definition KubeObserveSavepoint ::
  "'w kube \<Rightarrow> Backend \<Rightarrow> ObserveSavepointInput \<Rightarrow> 'w \<Rightarrow> (SavepointRecord result \<times> 'w) option" where
  "KubeObserveSavepoint K b input w =
     (case kc_Now K w of (now, w1) \<Rightarrow> savepoint_loop K input (now + cfg_SavepointTimeout (be_cfg b)) w1)"

definition job_state_patch :: "string \<Rightarrow> string" where
  "job_state_patch desired = ''{\"spec\":{\"job\":{\"state\":'' @ quote desired @ ''}}}''"

definition KubeSetJobState :: "'w kube \<Rightarrow> SetJobStateInput \<Rightarrow> 'w \<Rightarrow> unit result \<times> 'w" where
  "KubeSetJobState K input w =
     (let identity = sj_Identity input;
          desired = (if equal_fold (sj_State input) ''SUSPENDED'' then ''suspended'' else ''running'')
      in case kc_PatchDeployment K (id_Namespace identity) (id_Name identity) (job_state_patch desired) w of
           (Some e, w1) \<Rightarrow> (Inl (''patch job state '' @ slash_name identity @ '': '' @ kube_error_text e), w1)
         | (None, w1) \<Rightarrow> (Inr (), w1))"

text \<open>The audit logs the event and writes a Kubernetes event; that this fails is only logged.\<close>

definition audit_kube_event :: "AuditEvent \<Rightarrow> kube_event" where
  "audit_kube_event event =
     \<lparr>ev_Namespace = id_Namespace (ae_Identity event), ev_Name = id_Name (ae_Identity event),
      ev_Reason = ae_Type event, ev_Message = ae_Message event, ev_Time = ae_At event\<rparr>"

definition KubeRecordAudit :: "'w kube \<Rightarrow> AuditEvent \<Rightarrow> 'w \<Rightarrow> unit result \<times> 'w" where
  "KubeRecordAudit K event w =
     (Inr (), snd (kc_CreateEvent K (id_Namespace (ae_Identity event)) (audit_kube_event event) w))"

end
