(* ===== verification/Kubernetes_Rollout.thy ===== *)
theory Kubernetes_Rollout
  imports Kubernetes_Adapter Rollout
begin

text \<open>
  What the Kubernetes backend promises. Its polling loops return when the clock moves on; what they
  return was read from the cluster; and a rollout that runs on this backend delivers a result only
  if the job was read as running, ready and without an error. The last part records what the health
  gate cannot see.
\<close>

subsection \<open>Configuration\<close>

text \<open>Defaults make every setting usable and are idempotent, and the Flink defaults of the
  configuration win over the built-in ones.\<close>

lemma backend_configured:
  assumes "map_wf (cfg_DefaultFlinkConfig c)"
  shows "let b = newWithClients c; c' = be_cfg b in
     cfg_LeaseNamespace c' \<noteq> [] \<and> 0 < sint (ls_slotBudget (be_leases b)) \<and> 0 < cfg_ObserveTimeout c' \<and>
     0 < cfg_SavepointTimeout c' \<and> 0 < cfg_PollInterval c' \<and> 0 < cfg_ResyncPeriod c' \<and>
     newWithClients c' = b \<and>
     (\<forall>k. map_find (be_defaults b) k =
       (case map_find (cfg_DefaultFlinkConfig c) k of Some v \<Rightarrow> Some v | None \<Rightarrow> map_find baseFlinkDefaults k))"
proof -
  have base: "map_wf baseFlinkDefaults" by (simp add: baseFlinkDefaults_def map_wf_def)
  have idem: "withDefaults (withDefaults c) = withDefaults c"
    by (simp add: withDefaults_def go_minute_def go_second_def)
  show ?thesis
    by (simp add: newWithClients_def Let_def idem newLeaseStore_def map_find_copy [OF assms] map_find_copy [OF base])
       (simp add: withDefaults_def go_minute_def go_second_def map_find_copy [OF assms] map_find_copy [OF base]
         split: option.split)
qed

lemma find_watched: "map_find (fold (\<lambda>ns. map_put ns ns) watched m) k = (if k \<in> set watched then Some k else map_find m k)"
  by (induction watched arbitrary: m) auto

text \<open>The cache a read looks into: that of the namespace if it is watched, that of the cluster if
  nothing is configured, and none otherwise.\<close>

lemma get_reads:
  "getFlinkDeployment K (newWithClients c) namespace name w =
     (let live = kc_GetDeployment K namespace name;
          cached = (\<lambda>l. case kc_Cached K l namespace name w of (Some obj, w1) \<Rightarrow> (Inr obj, w1) | (None, w1) \<Rightarrow> live w1)
      in if cfg_WatchNamespaces c = [] then cached []
         else if namespace \<in> set (cfg_WatchNamespaces c) then cached namespace
         else if [] \<in> set (cfg_WatchNamespaces c) then cached [] else live w)"
  by (simp add: getFlinkDeployment_def newWithClients_def withDefaults_def find_watched Let_def)

subsection \<open>The polling loops return\<close>

text \<open>The clock of the cluster does not go back, and a tick takes time.\<close>

definition clock_runs :: "'w kube \<Rightarrow> ('w \<Rightarrow> go_time) \<Rightarrow> bool" where
  "clock_runs K clk \<longleftrightarrow>
     (\<forall>w. fst (kc_Now K w) = clk w \<and> clk w \<le> clk (snd (kc_Now K w))) \<and>
     (\<forall>w w'. kc_Tick K w = (None, w') \<longrightarrow> clk w < clk w') \<and>
     (\<forall>l ns n w. clk w \<le> clk (snd (kc_Cached K l ns n w))) \<and>
     (\<forall>ns n w. clk w \<le> clk (snd (kc_GetDeployment K ns n w))) \<and>
     (\<forall>ns n w. clk w \<le> clk (snd (kc_GetSnapshot K ns n w)))"

lemma clock_now: "clock_runs K clk \<Longrightarrow> kc_Now K w = (t, w') \<Longrightarrow> t = clk w \<and> clk w \<le> clk w'"
  by (auto simp: clock_runs_def dest: spec [of _ w])

lemma clock_tick: "clock_runs K clk \<Longrightarrow> kc_Tick K w = (None, w') \<Longrightarrow> clk w < clk w'"
  by (auto simp: clock_runs_def)

lemma clock_reads:
  assumes "clock_runs K clk"
  shows "kc_Cached K l ns n w = (r, w') \<Longrightarrow> clk w \<le> clk w'"
    and "kc_GetDeployment K ns n w = (x, w') \<Longrightarrow> clk w \<le> clk w'"
    and "kc_GetSnapshot K ns n w = (y, w') \<Longrightarrow> clk w \<le> clk w'"
  using assms unfolding clock_runs_def by (metis snd_conv)+

lemma clock_get:
  assumes c: "clock_runs K clk" and "getFlinkDeployment K b ns n w = (r, w')"
  shows "clk w \<le> clk w'"
  using assms(2)
  by (auto simp: getFlinkDeployment_def Let_def split: option.splits prod.splits
      dest!: clock_reads(1,2) [OF c] intro: order_trans)

lemma observe_read_clock:
  assumes c: "clock_runs K clk" and r: "observe_read K b d reading w = Inr (reading', w')"
  shows "clk w \<le> clk w'"
  using r
  by (auto simp: observe_read_def Let_def split: sum.splits prod.splits kube_error.splits if_splits
      dest!: clock_get [OF c] clock_now [OF c] intro: order_trans)

lemma observe_round_clock:
  assumes c: "clock_runs K clk" and r: "observe_round K b d deadline reading w = Inr (reading', w')"
  shows "clk w \<le> deadline" "clk w < clk w'"
  using r
  by (auto simp: observe_round_def Let_def split: sum.splits prod.splits option.splits if_splits
      dest!: observe_read_clock [OF c] clock_now [OF c] clock_tick [OF c])

lemma observe_loop_returns:
  assumes c: "clock_runs K clk"
  shows "\<exists>out. observe_loop K b d deadline reading w = Some out"
proof (induction "nat (deadline + 1 - clk w)" arbitrary: reading w rule: less_induct)
  case less
  show ?case
  proof (cases "observe_round K b d deadline reading w")
    case (Inr r)
    then obtain reading' w' where r: "observe_round K b d deadline reading w = Inr (reading', w')" by (cases r) auto
    from less [OF _, of w' reading'] observe_round_clock [OF c r] r show ?thesis
      by (subst observe_loop.simps) simp
  qed (subst observe_loop.simps, simp)
qed

text \<open>C21. Observing a deployment returns: with a clock that moves on at every tick the polling loop ends,
  whatever the cluster answers and however often its readings stay unsettled.\<close>

theorem observe_deployment_returns:
  assumes "clock_runs K clk"
  shows "\<exists>out. KubeObserveDeployment K b input w = Some out"
  unfolding KubeObserveDeployment_def
  by (cases "kc_Now K w") (simp only: prod.case observe_loop_returns [OF assms])

lemma savepoint_round_clock:
  assumes c: "clock_runs K clk" and r: "savepoint_round K input deadline w = Inr w'"
  shows "clk w \<le> deadline" "clk w < clk w'"
  using r
  by (auto simp: savepoint_round_def savepoint_read_def Let_def
      split: sum.splits prod.splits option.splits kube_error.splits if_splits
      dest!: clock_reads(3) [OF c] clock_now [OF c] clock_tick [OF c])

lemma savepoint_loop_returns:
  assumes c: "clock_runs K clk"
  shows "\<exists>out. savepoint_loop K input deadline w = Some out"
proof (induction "nat (deadline + 1 - clk w)" arbitrary: w rule: less_induct)
  case less
  show ?case
  proof (cases "savepoint_round K input deadline w")
    case (Inr w')
    from less [OF _, of w'] savepoint_round_clock [OF c Inr] Inr show ?thesis
      by (subst savepoint_loop.simps) simp
  qed (subst savepoint_loop.simps, simp)
qed

lemma observe_savepoint_returns:
  assumes "clock_runs K clk"
  shows "\<exists>out. KubeObserveSavepoint K b input w = Some out"
  unfolding KubeObserveSavepoint_def
  by (cases "kc_Now K w") (simp only: prod.case savepoint_loop_returns [OF assms])

subsection \<open>What a returned health stands for\<close>

text \<open>A health stands for no reading at all, or for one of the deployment's status, with the time and,
  after a time-out, a message of the loop's own.\<close>

definition observed :: "'w kube \<Rightarrow> Backend \<Rightarrow> DeploymentIdentity \<Rightarrow> HealthSummary \<Rightarrow> bool" where
  "observed K b d h \<longleftrightarrow> \<not> hs_Running h \<and> \<not> hs_Healthy h \<or>
     (\<exists>obj w w' now msg. getFlinkDeployment K b (id_Namespace d) (id_Name d) w = (Inr obj, w') \<and>
        h = (fst (observedHealth obj))\<lparr>hs_ObservedAt := now, hs_Message := msg\<rparr>)"

lemma keep_message: "h\<lparr>hs_ObservedAt := now\<rparr> = h\<lparr>hs_ObservedAt := now, hs_Message := hs_Message h\<rparr>"
  by (cases h) simp

lemma observedI:
  "getFlinkDeployment K b (id_Namespace d) (id_Name d) w = (Inr obj, w') \<Longrightarrow>
   observed K b d ((fst (observedHealth obj))\<lparr>hs_ObservedAt := now\<rparr>)"
  unfolding observed_def by (subst keep_message) blast

lemma observed_timed_out:
  assumes "observed K b d h"
  shows "observed K b d (h\<lparr>hs_ObservedAt := now, hs_Message := msg\<rparr>)"
  using assms unfolding observed_def
proof
  assume "\<exists>obj w w' t m. getFlinkDeployment K b (id_Namespace d) (id_Name d) w = (Inr obj, w') \<and>
    h = (fst (observedHealth obj))\<lparr>hs_ObservedAt := t, hs_Message := m\<rparr>"
  then obtain obj w w' t m where "getFlinkDeployment K b (id_Namespace d) (id_Name d) w = (Inr obj, w')"
    and h: "h = (fst (observedHealth obj))\<lparr>hs_ObservedAt := t, hs_Message := m\<rparr>" by blast
  moreover have "h\<lparr>hs_ObservedAt := now, hs_Message := msg\<rparr> =
      (fst (observedHealth obj))\<lparr>hs_ObservedAt := now, hs_Message := msg\<rparr>" by (simp add: h)
  ultimately show "\<not> hs_Running (h\<lparr>hs_ObservedAt := now, hs_Message := msg\<rparr>) \<and>
      \<not> hs_Healthy (h\<lparr>hs_ObservedAt := now, hs_Message := msg\<rparr>) \<or>
    (\<exists>obj w w' t m. getFlinkDeployment K b (id_Namespace d) (id_Name d) w = (Inr obj, w') \<and>
      h\<lparr>hs_ObservedAt := now, hs_Message := msg\<rparr> = (fst (observedHealth obj))\<lparr>hs_ObservedAt := t, hs_Message := m\<rparr>)"
    by blast
qed simp

lemma observe_read_observed:
  assumes "observed K b d reading"
  shows "observe_read K b d reading w = Inl (Inr h, w') \<Longrightarrow> observed K b d h"
    and "observe_read K b d reading w = Inr (h, w') \<Longrightarrow> observed K b d h"
  using assms
  by (auto simp: observe_read_def Let_def intro: observedI split: sum.splits prod.splits kube_error.splits if_splits)

lemma observe_round_observed:
  assumes "observed K b d reading"
  shows "observe_round K b d deadline reading w = Inl (Inr h, w') \<Longrightarrow> observed K b d h"
    and "observe_round K b d deadline reading w = Inr (h, w') \<Longrightarrow> observed K b d h"
  using observe_read_observed [OF assms]
  by (auto simp: observe_round_def Let_def observed_timed_out
      split: sum.splits prod.splits option.splits if_splits)

lemma observe_loop_observed:
  fixes K :: "'w kube"
  assumes "observe_loop K b d deadline reading w = Some (Inr h, w')" and "observed K b d reading"
  shows "observed K b d h"
proof -
  let ?P = "\<lambda>(K :: 'w kube) b d deadline reading w (out :: HealthSummary result \<times> 'w).
    observed K b d reading \<longrightarrow> fst out = Inr h \<longrightarrow> observed K b d h"
  have "?P K b d deadline reading w (Inr h, w')"
  proof (rule observe_loop.raw_induct [where P = ?P, OF _ assms(1)])
    fix loop and K :: "'w kube" and b d deadline reading w and out :: "HealthSummary result \<times> 'w"
    assume IH: "\<And>K b d deadline reading w out.
        loop K b d deadline reading w = Some out \<Longrightarrow> ?P K b d deadline reading w out"
      and step: "(case observe_round K b d deadline reading w of Inl out \<Rightarrow> Some out
        | Inr (reading', w') \<Rightarrow> loop K b d deadline reading' w') = Some out"
    show "?P K b d deadline reading w out"
    proof (cases "observe_round K b d deadline reading w")
      case (Inl out')
      with step have "observe_round K b d deadline reading w = Inl (fst out, snd out)" by simp
      then show ?thesis using observe_round_observed(1) by metis
    next
      case (Inr r)
      then obtain reading' w2 where r: "observe_round K b d deadline reading w = Inr (reading', w2)" by (cases r) auto
      with step have "loop K b d deadline reading' w2 = Some out" by simp
      from IH [OF this] observe_round_observed(2) [OF _ r] show ?thesis by blast
    qed
  qed
  with assms(2) show ?thesis by simp
qed

text \<open>What a passed gate says about a reading.\<close>

definition job_ready :: "unstructured \<Rightarrow> bool" where
  "job_ready obj \<longleftrightarrow>
     equal_fold (nested obj [''status'', ''jobStatus'', ''state'']) ''RUNNING'' \<and>
     equal_fold (nested obj [''status'', ''jobManagerDeploymentStatus'']) ''READY'' \<and>
     nested obj [''status'', ''error''] = []"

lemma ready_health:
  "hs_CheckpointCompleted (fst (observedHealth obj)) \<longleftrightarrow> job_ready obj"
  "job_ready obj \<Longrightarrow> snd (observedHealth obj)"
  "job_ready obj \<Longrightarrow> fst (observedHealth obj) = zero_HealthSummary\<lparr>hs_Healthy := True, hs_Running := True,
     hs_CheckpointCompleted := True, hs_SinkHealthy := True, hs_Message := []\<rparr>"
  by (auto simp: observedHealth_def job_ready_def Let_def zero_HealthSummary_def)

lemma observed_gate:
  assumes "observed K b d h" "EvaluateHealth h policy = Inr ()" "pol_RequireFirstCheckpoint policy"
  shows "\<exists>obj w w'. getFlinkDeployment K b (id_Namespace d) (id_Name d) w = (Inr obj, w') \<and> job_ready obj"
proof -
  have "hs_Running h" "hs_CheckpointCompleted h" using assms(2,3) by (simp_all add: EvaluateHealth_ok_iff)
  then obtain obj w w' now msg where "getFlinkDeployment K b (id_Namespace d) (id_Name d) w = (Inr obj, w')"
      "h = (fst (observedHealth obj))\<lparr>hs_ObservedAt := now, hs_Message := msg\<rparr>"
    using assms(1) unfolding observed_def by blast
  with \<open>hs_CheckpointCompleted h\<close> show ?thesis by (auto simp: ready_health(1))
qed

subsection \<open>Rollouts on Kubernetes\<close>

text \<open>
  The services of a worker with this backend (backends/kubernetes/cmd/worker). Every activity is
  attempted once; a polling activity that never returned would be timed out by Temporal.
\<close>

definition kube_services :: "'w kube \<Rightarrow> Backend \<Rightarrow> ('w \<Rightarrow> go_time) \<Rightarrow> 'w services" where
  "kube_services K b clk =
     \<lparr>svc_Now = clk,
      svc_ValidateDeployment = (\<lambda>_. KubeValidateDeployment),
      svc_AcquireCapacityLease = (\<lambda>_. KubeAcquireCapacityLease K b),
      svc_ReleaseCapacityLease = (\<lambda>_. KubeReleaseCapacityLease K b),
      svc_ApplyDeployment = (\<lambda>_. KubeApplyDeployment K b),
      svc_ObserveDeployment = (\<lambda>_ i w. case KubeObserveDeployment K b i w of
        Some x \<Rightarrow> x | None \<Rightarrow> (Inl ''activity StartToClose timeout'', w)),
      svc_TriggerSavepoint = (\<lambda>_. KubeTriggerSavepoint K b),
      svc_ObserveSavepoint = (\<lambda>_ i w. case KubeObserveSavepoint K b i w of
        Some x \<Rightarrow> x | None \<Rightarrow> (Inl ''activity StartToClose timeout'', w)),
      svc_SetJobState = (\<lambda>_. KubeSetJobState K),
      svc_RecordAudit = (\<lambda>_. KubeRecordAudit K),
      svc_StartChild = (\<lambda>_ w. (Inr (), w)),
      svc_ChildError = (\<lambda>_ e. e)\<rparr>"

interpretation kube_admits: admitting_backend KubeValidateDeployment
  by unfold_locales (simp add: KubeValidateDeployment_def)

lemma kube_admitting: "admitting_services (kube_services K b clk)"
  by (rule kube_admits.services_admit) (simp add: kube_services_def)

definition trace_observed :: "'w kube \<Rightarrow> Backend \<Rightarrow> 'w ctx \<Rightarrow> bool" where
  "trace_observed K b c \<longleftrightarrow> (\<forall>i h. EvObserve i (Inr h) \<in> set (fst c) \<longrightarrow> observed K b (oi_Identity i) h)"

lemma observe_observed:
  "KubeObserveDeployment K b i w = Some (Inr h, w') \<Longrightarrow> observed K b (oi_Identity i) h"
proof -
  assume "KubeObserveDeployment K b i w = Some (Inr h, w')"
  then obtain deadline w1 where "observe_loop K b (oi_Identity i) deadline zero_HealthSummary w1 = Some (Inr h, w')"
    by (auto simp: KubeObserveDeployment_def split: prod.splits)
  then show ?thesis by (rule observe_loop_observed) (simp add: observed_def zero_HealthSummary_def)
qed

lemma execute_observed:
  assumes "trace_observed K b c" and "\<And>r i h. EvObserve i h \<noteq> ev r"
  shows "trace_observed K b (snd (execute ev f c))"
  using assms by (auto simp: trace_observed_def execute_def split: prod.splits)

interpretation kube_trace: world_frame "kube_services K b clk" "trace_observed K b" "\<lambda>_. True" for K b clk
proof unfold_locales
  fix c :: "'a ctx" and opts i
  assume "trace_observed K b c"
  then show "trace_observed K b (snd (ExecObserve (kube_services K b clk) opts i c))"
    by (auto simp: trace_observed_def ExecObserve_def execute_def kube_services_def
        dest: observe_observed split: prod.splits option.splits)
qed (simp_all only: exec_defs, (rule execute_observed, assumption, simp)+)

lemma savepoint_not_observe: "list_all is_savepoint_event evs \<Longrightarrow> EvObserve i r \<notin> set evs"
  by (auto simp: list_all_iff)

lemma gate_observes: "gate_spec input res evs out \<Longrightarrow> EvObserve i r \<in> set evs \<Longrightarrow> oi_Identity i = ri_Identity input"
  by (induction rule: gate_spec.induct) (auto simp: observe_input_def)

lemma body_observes: "body_spec input cls res evs out \<Longrightarrow> EvObserve i r \<in> set evs \<Longrightarrow> oi_Identity i = ri_Identity input"
  by (induction rule: body_spec.induct) (auto simp: gate_observes savepoint_not_observe)

lemma rollout_observes: "rollout_spec input evs out \<Longrightarrow> EvObserve i r \<in> set evs \<Longrightarrow> oi_Identity i = ri_Identity input"
  by (induction rule: rollout_spec.induct) (auto simp: body_observes)

lemma observations_event: "h \<in> set (observations evs) \<Longrightarrow> \<exists>i. EvObserve i (Inr h) \<in> set evs"
  by (induction evs) (auto simp: observations_def split: wf_event.splits sum.splits)

text \<open>C18. On Kubernetes, too, success is earned: a rollout that delivers a result, under a policy that
  asks for a first checkpoint, was admitted, and the cluster answered a read of this deployment with
  a job that runs, a job manager that is ready and no error.\<close>

theorem kube_rollout_success:
  assumes run: "RolloutWorkflow (kube_services K b clk) wfid input ([], w) = (out, (h, w'))"
    and out: "delivered out = Inr r" and policy: "pol_RequireFirstCheckpoint (ri_Policy input)"
  shows "admitted (rollout_validate_input input) \<and>
    (\<exists>obj w1 w2. getFlinkDeployment K b (id_Namespace (ri_Identity input)) (id_Name (ri_Identity input)) w1
       = (Inr obj, w2) \<and> job_ready obj)"
proof -
  obtain evs where h: "h = evs" and spec: "rollout_spec input evs out"
    using run by (auto elim: RolloutWorkflow_spec)
  with out have spec': "rollout_spec input h (Some r, None)" by simp
  obtain hs where hs: "observations h = [hs]" "EvaluateHealth hs (ri_Policy input) = Inr ()" "applies h \<noteq> []"
    using rollout_spec_success [OF spec'] by auto
  have "trace_observed K b (h, w')"
    using kube_trace.RolloutWorkflow_keeps [OF run] by (simp add: trace_observed_def)
  moreover obtain i where i: "EvObserve i (Inr hs) \<in> set h" using observations_event [of hs h] hs(1) by auto
  ultimately have "observed K b (oi_Identity i) hs" by (simp add: trace_observed_def)
  with rollout_observes [OF spec] i h have "observed K b (ri_Identity input) hs" by simp
  moreover have "admitted (rollout_validate_input input)"
    by (rule kube_admits.rollout_apply_admitted [OF _ run hs(3)]) (simp add: kube_services_def)
  ultimately show ?thesis using observed_gate [OF _ hs(2) policy] by blast
qed

text \<open>
  What that read is worth: neither the version nor the generation of the object is compared with
  what was applied, and the first read usually comes from a cache.
\<close>

text \<open>A stale status passes the gate: if the first read after an apply still answers with the old
  object, whose job runs and is ready, observing any version at once returns a health that passes
  the default policy.\<close>

lemma stale_status_passes:
  assumes "getFlinkDeployment K b (id_Namespace d) (id_Name d) (snd (kc_Now K w)) = (Inr old, w1)" and "job_ready old"
  shows "\<exists>h w'. KubeObserveDeployment K b \<lparr>oi_Identity = d, oi_Version = version\<rparr> w = Some (Inr h, w') \<and>
    EvaluateHealth h (DefaultPolicy environment) = Inr ()"
proof -
  obtain now t w2 where now: "kc_Now K w = (now, snd (kc_Now K w))" and t: "kc_Now K w1 = (t, w2)"
    by (metis prod.collapse)
  let ?h = "(fst (observedHealth old))\<lparr>hs_ObservedAt := t\<rparr>"
  have "observe_round K b d deadline reading (snd (kc_Now K w)) = Inl (Inr ?h, w2)" for deadline reading
    using assms t by (simp add: observe_round_def observe_read_def ready_health(2) Let_def)
  then have "KubeObserveDeployment K b \<lparr>oi_Identity = d, oi_Version = version\<rparr> w = Some (Inr ?h, w2)"
    unfolding KubeObserveDeployment_def
    by (subst now, subst prod.case, subst observe_loop.simps) simp
  moreover have "EvaluateHealth ?h (DefaultPolicy environment) = Inr ()"
    using assms(2) by (simp add: ready_health(3) EvaluateHealth_ok_iff DefaultPolicy_def zero_HealthSummary_def f_lt_constants)
  ultimately show ?thesis by blast
qed

subsection \<open>Savepoints\<close>

lemma savepoint_loop_record:
  fixes K :: "'w kube"
  assumes "savepoint_loop K input deadline w = Some (Inr rec, w')"
  shows "\<exists>obj w1 w2 now. kc_GetSnapshot K (id_Namespace (os_Identity input)) (tr_TriggerID (os_Trigger input)) w1
       = (Inr obj, w2) \<and> to_upper (nested obj [''status'', ''state'']) = ''COMPLETED'' \<and>
     rec = savepointRecord input (nested obj [''status'', ''path'']) now"
proof -
  let ?done = "\<lambda>(K :: 'w kube) input rec. \<exists>obj w1 w2 now.
    kc_GetSnapshot K (id_Namespace (os_Identity input)) (tr_TriggerID (os_Trigger input)) w1
       = (Inr obj, w2) \<and> to_upper (nested obj [''status'', ''state'']) = ''COMPLETED'' \<and>
     rec = savepointRecord input (nested obj [''status'', ''path'']) now"
  let ?P = "\<lambda>(K :: 'w kube) input deadline w (out :: SavepointRecord result \<times> 'w).
    fst out = Inr rec \<longrightarrow> ?done K input rec"
  have round: "savepoint_round K input deadline w = Inl (Inr rec, w') \<Longrightarrow> ?done K input rec"
    for K :: "'w kube" and input deadline w w'
    by (auto simp: savepoint_round_def savepoint_read_def Let_def
        split: sum.splits prod.splits option.splits kube_error.splits if_splits)
  have "?P K input deadline w (Inr rec, w')"
  proof (rule savepoint_loop.raw_induct [where P = ?P, OF _ assms])
    fix loop and K :: "'w kube" and input deadline w and out :: "SavepointRecord result \<times> 'w"
    assume IH: "\<And>K input deadline w out. loop K input deadline w = Some out \<Longrightarrow> ?P K input deadline w out"
      and step: "(case savepoint_round K input deadline w of Inl out \<Rightarrow> Some out
        | Inr w' \<Rightarrow> loop K input deadline w') = Some out"
    show "?P K input deadline w out"
    proof (cases "savepoint_round K input deadline w")
      case (Inl out')
      with step have "savepoint_round K input deadline w = Inl (fst out, snd out)" by simp
      then show ?thesis using round by metis
    next
      case (Inr w')
      with step have "loop K input deadline w' = Some out" by simp
      from IH [OF this] show ?thesis .
    qed
  qed
  then show ?thesis by simp
qed

text \<open>C40. A savepoint is only recorded when its snapshot was read as completed, for the trigger and the
  version that were asked for. Its location is the one reported; a completed snapshot without a
  path gets a made-up one, which a later deployment would be told to restore from.\<close>

theorem savepoint_recorded:
  assumes "KubeObserveSavepoint K b input w = Some (Inr rec, w')"
  shows "\<exists>obj w1 w2. kc_GetSnapshot K (id_Namespace (os_Identity input)) (tr_TriggerID (os_Trigger input)) w1
       = (Inr obj, w2) \<and> to_upper (nested obj [''status'', ''state'']) = ''COMPLETED'' \<and>
     sp_TriggerID rec = tr_TriggerID (os_Trigger input) \<and>
     sp_DeploymentVersion rec = ver_VersionID (os_Version input) \<and>
     sp_URI rec = (if nested obj [''status'', ''path''] = []
       then ''unknown://'' @ id_Name (os_Identity input) @ ''/'' @ tr_TriggerID (os_Trigger input)
       else nested obj [''status'', ''path''])"
proof -
  obtain now w1 where "savepoint_loop K input (now + cfg_SavepointTimeout (be_cfg b)) w1 = Some (Inr rec, w')"
    using assms by (auto simp: KubeObserveSavepoint_def split: prod.splits)
  from savepoint_loop_record [OF this] obtain obj w2 w3 t where
    "kc_GetSnapshot K (id_Namespace (os_Identity input)) (tr_TriggerID (os_Trigger input)) w2 = (Inr obj, w3)"
    "to_upper (nested obj [''status'', ''state'']) = ''COMPLETED''"
    "rec = savepointRecord input (nested obj [''status'', ''path'']) t" by blast
  then show ?thesis
    by (intro exI [of _ obj] exI [of _ w2] exI [of _ w3]) (simp add: savepointRecord_def Let_def)
qed

end
