(* ===== verification/Actor_Simulated.thy ===== *)
theory Actor_Simulated
  imports Deployment_Actor Rollout_Examples Kubernetes_Rollout
begin

text \<open>
  The deployment actor on the simulated backend: what holds of the composition of the actor, its
  rollouts and the runtime. The second half applies the properties of the actor where their
  hypotheses hold.
\<close>

lemma validations_iff: "(v, r) \<in> set (validations evs) \<longleftrightarrow> EvValidate v r \<in> set evs"
  by (induction evs) (auto simp: validations_def split: wf_event.splits)

lemma approval_needed:
  assumes "admitting_services S"
    and "processCommand S q c st ([], w) = (st', (h, w'))" and "applies h \<noteq> []"
    and "pol_RequireProdApproval (st_Policy st)" and "\<not> cmd_Approved c" and "cmd_Type c \<noteq> CommandRollback"
  shows "\<exists>v. asks_for c st v \<and> cls_Risk (vi_Classification v) = RiskNone"
proof -
  from processCommand_validated [OF assms(2)] have "validated c st h" by (simp add: emits_def)
  with assms(3) obtain v where v: "asks_for c st v" "EvValidate v (Inr ()) \<in> set h"
    by (auto simp: validated_def list_all_iff simp flip: validations_iff)
  have "trace_admitted (h, w')"
    by (rule world_frame.processCommand_keeps [OF admitting_frame [OF assms(1)] assms(2)])
      (simp_all add: trace_admitted_def)
  with v(2) have "admitted v" by (simp add: trace_admitted_def)
  with v(1) assms(5,6) have "\<not> cls_RequiresApproval (vi_Classification v)"
    by (simp add: admitted_def asks_for_def)
  with v(1) assms(4) classify_prod_approval have "cls_Risk (vi_Classification v) = RiskNone"
    by (simp add: asks_for_def)
  with v(1) show ?thesis by blast
qed

text \<open>C10. No change reaches production without approval, on whatever runs underneath as long as its
  validation lets through only what \<open>ValidateSpec\<close> does, as that of the simulated runtime and that of
  the Kubernetes backend do: under a policy that requires approval, a command that is neither approved
  nor a rollback makes the actor apply something only if the change it asks for is classified as no
  change at all.\<close>

theorem actor_approval:
  assumes "processCommand S q c st ([], w) = (st', (h, w'))" and "applies h \<noteq> []"
    and "pol_RequireProdApproval (st_Policy st)" and "\<not> cmd_Approved c" and "cmd_Type c \<noteq> CommandRollback"
  shows "admitting_services sim_services \<and> admitting_services (kube_services K b clk) \<and>
    (admitting_services S \<longrightarrow> (\<exists>v. asks_for c st v \<and> cls_Risk (vi_Classification v) = RiskNone))"
  using sim_admitting kube_admitting approval_needed [OF _ assms] by blast

text \<open>A fresh deploy command on the simulated runtime.\<close>

lemma sim_deploys:
  assumes "\<not> map_has (st_ProcessedKeys st) (command_key c)" and "cmd_Type c = CommandDeployVersion"
    and "cmd_TargetSpec c = Some target"
    and "admitted (rollout_validate_input (rollout_input q c target st))"
    and "sim_has_room w (rollout_input q c target st)"
    and "processCommand sim_services q c st ([], w) = (st', (h, w'))"
  shows "if sim_passes (st_Policy st) target then
      st_Status st' = ActorIdle \<and>
      (\<exists>v. deref st' (st_CurrentVersion st') = Some v \<and> ver_Spec v = target \<and>
         ver_VersionID v = next_version_id (deref st (st_CurrentVersion st))) \<and>
      (\<exists>v. running_version w' (st_Identity st) = Some v \<and> ver_Spec v = target)
    else
      st_Status st' = ActorFailed \<and> st_CurrentVersion st' = st_CurrentVersion st \<and>
      (\<exists>v. running_version w' (st_Identity st) = Some v \<and>
         ver_Spec v = (case deref st (st_CurrentVersion st) of None \<Rightarrow> target | Some cur \<Rightarrow> ver_Spec cur))"
  using assms(6)
proof (cases rule: processCommand_cases)
  case duplicate
  with assms(1) show ?thesis by simp
next
  case (processed now err st1 ctx1 now')
  let ?c = "normal_command now c" and ?st = "open_operation (normal_command now c) now st"
  let ?id = "actor_child_id ''flink-rollout'' (st_Identity ?st) (cmd_OperationID ?c)"
  let ?in = "rollout_input q ?c target ?st" and ?k = "([EvChild (?id) (Inr ())], w)"
  have input: "?in = rollout_input q c target st"
    by (simp add: rollout_input_def) (simp add: normal_command_def Let_def)
  obtain out ctx2 where out: "RolloutWorkflow sim_services ?id ?in ?k = (out, ctx2)"
    by (cases "RolloutWorkflow sim_services ?id ?in ?k")
  have o: "sim_outcome ?in out (snd ctx2)"
    by (rule sim_rollout_run [OF _ _ out]) (use assms(4,5) in \<open>simp_all add: input\<close>)
  have child: "ExecuteChildWorkflow sim_services ?id (\<lambda>k. apfst delivered (RolloutWorkflow sim_services ?id ?in k)) ([], w)
      = (delivered out, ctx2)"
    using out by (cases "delivered out") (simp_all add: ExecuteChildWorkflow_def execute_def del: delivered_Inr)
  have dep: "deploy sim_services q ?c ?st ([], w) = (err, st1, ctx1)"
    using processed(3) assms(2) by (simp add: dispatch_def)
  have same: "running_version w' d = running_version (snd ctx1) d" for d
    using processed(5) by (simp add: ExecAudit_def execute_snd SimRecordAudit_def running_version_def)
  show ?thesis
  proof (cases "delivered out")
    case (Inl e)
    with dep child assms(3) have "err = Inl e" "ctx1 = ctx2" "st_CurrentVersion st1 = st_CurrentVersion st"
      by (auto simp: deploy_def Let_def)
    then show ?thesis
      using o Inl processed(4) same
      by (auto simp: sim_outcome_def settle_status rollout_input_def deref_def split: if_splits option.splits sum.splits)
  next
    case (Inr r)
    from rollout_delivers [OF out Inr] have r: "ver_VersionID (rr_Version r) = next_version_id (deref st (st_CurrentVersion st))"
        "ver_Spec (rr_Version r) = target" by (simp_all add: rollout_input_def)
    from dep child assms(3) Inr obtain st2 where "err = Inr ()" "ctx1 = ctx2" "st1 = install_version (rr_Version r) st2"
        "st_Status st2 = ActorOperating"
      by (auto simp: deploy_def Let_def split: option.splits if_splits)
    then show ?thesis
      using o Inr processed(4) same r
      by (auto simp: sim_outcome_def settle_status rollout_input_def deref_def delivered_def split: if_splits option.splits sum.splits)
  qed
qed

text \<open>C6. Deploying works, under any policy: on the simulated runtime with room in the node pool, a fresh
  deploy command whose target passes admission leaves the actor idle on the target as its current
  version, with the next number, and the runtime running it, if the target passes the gate of the
  actor's policy there (under the default policy, if its image is not one that fails); if it does not,
  the command fails, the actor keeps its version, and the runtime runs the specification of that version
  again, or the target if there was none.\<close>

theorem sim_actor_deploys:
  assumes "\<not> map_has (st_ProcessedKeys st) (command_key c)" and "cmd_Type c = CommandDeployVersion"
    and "cmd_TargetSpec c = Some target"
    and "admitted (rollout_validate_input (rollout_input q c target st))"
    and "sim_has_room w (rollout_input q c target st)"
    and "processCommand sim_services q c st ([], w) = (st', (h, w'))"
  shows "if sim_passes (st_Policy st) target then
      st_Status st' = ActorIdle \<and>
      (\<exists>v. deref st' (st_CurrentVersion st') = Some v \<and> ver_Spec v = target \<and>
         ver_VersionID v = next_version_id (deref st (st_CurrentVersion st))) \<and>
      (\<exists>v. running_version w' (st_Identity st) = Some v \<and> ver_Spec v = target)
    else
      st_Status st' = ActorFailed \<and> st_CurrentVersion st' = st_CurrentVersion st \<and>
      (\<exists>v. running_version w' (st_Identity st) = Some v \<and>
         ver_Spec v = (case deref st (st_CurrentVersion st) of None \<Rightarrow> target | Some cur \<Rightarrow> ver_Spec cur))"
  by (rule sim_deploys [OF assms])

subsection \<open>Concrete actors\<close>

definition demo_state :: DeploymentActorState where
  "demo_state =
     \<lparr>st_SchemaVersion = 1, st_Identity = demo_identity, st_Policy = DefaultPolicy ''dev'',
      st_Status = ActorIdle, st_CurrentVersion = None, st_LastHealthyVersion = None, st_Versions = [],
      st_LastSavepoint = None, st_Operations = [], st_ProcessedKeys = Some [], st_Pending = [],
      st_ActiveOperation = None, st_AutoscalerFrozen = False, st_AutoscalerEnabled = False,
      st_LastError = [], st_ProcessedEventCount = 0, st_ContinueAfter = 2, st_heap = []\<rparr>"

text \<open>The same actor with a version deployed.\<close>

definition deployed_state :: DeploymentActorState where
  "deployed_state = demo_state\<lparr>st_CurrentVersion := Some 0, st_LastHealthyVersion := Some 0,
     st_Versions := [demo_version], st_heap := [demo_version]\<rparr>"

definition demo_command :: "CommandType \<Rightarrow> string \<Rightarrow> DeploymentSpec option \<Rightarrow> DeploymentCommand" where
  "demo_command t op target =
     \<lparr>cmd_OperationID = op, cmd_IdempotencyKey = [], cmd_Type = t, cmd_Requester = ''alice'',
      cmd_RequestedAt = 0, cmd_TargetSpec = target, cmd_TargetVersion = 0, cmd_Parallelism = 4,
      cmd_Approved = False, cmd_Incident = False, cmd_Reason = []\<rparr>"

abbreviation deploy_command :: DeploymentCommand where
  "deploy_command \<equiv> demo_command CommandDeployVersion ''op-1'' (Some (demo_spec good_image 2 True))"

lemma demo_command_simps [simp]:
  "command_key (demo_command t op target) = op" "cmd_Type (demo_command t op target) = t"
  "cmd_TargetSpec (demo_command t op target) = target" "cmd_OperationID (demo_command t op target) = op"
  "\<not> cmd_Approved (demo_command t op target)"
  by (simp_all add: demo_command_def command_key_def)

lemma demo_state_simps [simp]:
  "st_ProcessedKeys demo_state = Some []" "st_Pending demo_state = []" "st_ProcessedKeys deployed_state = Some []"
  "st_CurrentVersion deployed_state = Some 0" "st_LastHealthyVersion deployed_state = Some 0"
  "st_heap deployed_state = [demo_version]" "st_Identity deployed_state = demo_identity"
  "st_Identity demo_state = demo_identity" "st_Policy demo_state = DefaultPolicy ''dev''"
  "st_CurrentVersion demo_state = None" "st_ContinueAfter demo_state = 2" "st_ProcessedEventCount demo_state = 0"
  by (simp_all add: demo_state_def deployed_state_def)

lemma no_keys [simp]: "\<not> map_has (Some []) k"
  by (simp add: map_has_def map_find_def)

lemma demo_startable: "startable demo_state"
  by (simp add: startable_def pointers_ok_def versions_ok_def demo_state_def)

definition demo_process :: "DeploymentActorState \<Rightarrow> DeploymentCommand \<Rightarrow> DeploymentActorState \<times> sim_world ctx" where
  "demo_process st c = processCommand sim_services ''queue'' c st ([], demo_world)"

lemma demo_process_eq:
  "processCommand sim_services ''queue'' c st ([], demo_world) =
     (fst (demo_process st c), (fst (snd (demo_process st c)), snd (snd (demo_process st c))))"
  by (simp add: demo_process_def)

theorem actor_idempotent_witness:
  "actor_handle sim_services ''queue'' deploy_command
     (fold (actor_handle sim_services ''queue'') [deploy_command, demo_command CommandSuspend ''op-2'' None]
       (demo_state, ([], demo_world))) =
   fold (actor_handle sim_services ''queue'') [deploy_command, demo_command CommandSuspend ''op-2'' None]
     (demo_state, ([], demo_world))"
  by (rule actor_idempotent) simp

theorem processCommand_accounts_witness:
  "\<exists>r. st_Operations (fst (demo_process demo_state deploy_command)) = [r] \<and> rec_OperationID r = ''op-1''"
  using processCommand_accounts [OF _ demo_process_eq, of demo_state deploy_command]
  by (auto simp: demo_state_def)

theorem actor_life_inv_witness:
  "actor_inv (fst (actor_life sim_services 1 \<lparr>da_State = demo_state, da_ActivityTaskQueue = ''queue''\<rparr>
     [[deploy_command, deploy_command], [demo_command CommandSuspend ''op-2'' None]] ([], demo_world)))"
  by (rule actor_life_inv) (simp add: demo_startable)


theorem actor_run_bounded_witness:
  "let out = DeploymentActorWorkflow sim_services 1 \<lparr>da_State = demo_state, da_ActivityTaskQueue = ''queue''\<rparr>
       [deploy_command, deploy_command, deploy_command] ([], demo_world)
   in 3 - int (length (fst (snd out))) \<le> 2"
proof -
  define out where "out = DeploymentActorWorkflow sim_services 1
    \<lparr>da_State = demo_state, da_ActivityTaskQueue = ''queue''\<rparr> [deploy_command, deploy_command, deploy_command]
    ([], demo_world)"
  have "DeploymentActorWorkflow sim_services 1 \<lparr>da_State = demo_state, da_ActivityTaskQueue = ''queue''\<rparr>
      [deploy_command, deploy_command, deploy_command] ([], demo_world) = (fst out, fst (snd out), snd (snd out))"
    by (simp add: out_def)
  from actor_run_bounded [OF _ _ this] show ?thesis
    unfolding out_def [symmetric] Let_def by (simp add: demo_startable)
qed

theorem scale_locked_out_witness:
  "st_LastError (fst (demo_process (deployed_state\<lparr>st_AutoscalerEnabled := True\<rparr>)
     (demo_command CommandScaleTo ''op-1'' None))) =
   ''manual scale rejected while autoscaler is enabled and not frozen''"
  using scale_locked_out [OF _ _ _ _ _ demo_process_eq, of "deployed_state\<lparr>st_AutoscalerEnabled := True\<rparr>"
    "demo_command CommandScaleTo ''op-1'' None"]
  by (simp add: deployed_state_def demo_state_def)

text \<open>A world in which the demo deployment is known to the runtime.\<close>

definition running_world :: sim_world where
  "running_world = demo_world\<lparr>sw_backend := (NewSimulated 0)\<lparr>sa_deployments := Some
     [(WorkflowID demo_identity, \<lparr>rt_Version = demo_version, rt_State = ''SUSPENDED'', rt_Generation = 1\<rparr>)]\<rparr>\<rparr>"

definition demo_resume :: "unit result \<times> DeploymentActorState \<times> sim_world ctx" where
  "demo_resume = resume sim_services ''queue'' deployed_state ([], running_world)"

lemma demo_resume_ok: "fst demo_resume = Inr ()"
  by (simp add: demo_resume_def resume_def setState_def exec_defs execute_def sim_run_def SimSetJobState_def
      SimObserveDeployment_def sleep_def running_world_def demo_fields Let_def sim_ctx_def split: prod.splits)

theorem resume_overwrites_last_healthy_witness:
  "\<exists>h. deref (fst (snd demo_resume)) (st_LastHealthyVersion (fst (snd demo_resume))) =
     Some (demo_version\<lparr>ver_HealthSummary := h\<rparr>)"
proof -
  have "resume sim_services ''queue'' deployed_state ([], running_world) =
      (Inr (), fst (snd demo_resume), snd (snd demo_resume))"
    using demo_resume_ok by (simp add: demo_resume_def prod_eq_iff)
  from resume_overwrites_last_healthy [OF _ _ _ this, of 0] show ?thesis by auto
qed

text \<open>The same specification deployed again in production, without approval.\<close>

definition prod_state :: DeploymentActorState where
  "prod_state = deployed_state\<lparr>st_Policy := DefaultPolicy ''prod''\<rparr>"

lemma same_class:
  "ClassifyChange (Some demo_version) (demo_spec good_image 2 True) (DefaultPolicy ''prod'') =
     \<lparr>cls_Risk = RiskNone, cls_RequiresSavepoint = False, cls_RequiresApproval = False,
      cls_RequiresCapacityLease = False, cls_Reason = ''no material change''\<rparr>"
  by (simp add: ClassifyChange_def demo_defs deep_equal_def ResourceShape_eq_def)

definition prod_input :: "go_time \<Rightarrow> RolloutInput" where
  "prod_input now = rollout_input ''queue'' (normal_command now deploy_command) (demo_spec good_image 2 True)
     (open_operation (normal_command now deploy_command) now prod_state)"

lemma prod_input_simps:
  "ri_Current (prod_input now) = Some demo_version" "ri_Target (prod_input now) = demo_spec good_image 2 True"
  "ri_Policy (prod_input now) = DefaultPolicy ''prod''" "ri_Identity (prod_input now) = demo_identity"
  "\<not> ri_Incident (prod_input now)"
  by (simp_all add: prod_input_def rollout_input_def deref_def prod_state_def)
     (simp add: normal_command_def demo_command_def Let_def)

lemma prod_valid: "ValidateSpec (rollout_validate_input (prod_input now)) = Inr ()"
  by (simp add: rollout_validate_input_def prod_input_simps same_class)
     (simp add: ValidateSpec_def prod_input_def rollout_input_def demo_defs DefaultPolicy_def has_prefix_def
       demo_command_def normal_command_def Let_def)

lemma prod_applies: "applies (fst (snd (demo_process prod_state deploy_command))) \<noteq> []"
proof -
  have fresh: "\<not> map_has (st_ProcessedKeys prod_state) ''op-1''" by (simp add: prod_state_def)
  show ?thesis
    by (simp add: demo_process_def processCommand_eq dispatch_def deploy_def Let_def fresh
        prod_input_def [symmetric] prod_input_simps prod_valid same_class ExecuteChildWorkflow_def
        RolloutWorkflow_def exec_defs execute_def sim_run_def SimValidateDeployment_def
        rollout_body_def rollout_savepoint_def rollout_apply_def SimApplyDeployment_def
        SimObserveDeployment_def SimRecordAudit_def target_apply_def observe_input_def with_generation_def
        sim_failing_def demo_fields demo_images workflow_now_def delivered_def with_health_def applies_def
        sim_health_gate [of False, unfolded sim_health_def, simplified])
qed

theorem actor_validations_witness:
  "\<exists>v. (v, Inr ()) \<in> set (validations (fst (snd (demo_process prod_state deploy_command)))) \<and>
     asks_for deploy_command prod_state v"
  using actor_validations [OF demo_process_eq, of prod_state deploy_command] prod_applies by auto

theorem actor_approval_witness:
  "\<exists>v. asks_for deploy_command prod_state v \<and> cls_Risk (vi_Classification v) = RiskNone"
proof -
  have "pol_RequireProdApproval (st_Policy prod_state)" by (simp add: prod_state_def DefaultPolicy_def)
  moreover have "cmd_Type deploy_command \<noteq> CommandRollback" by simp
  ultimately have needed: "admitting_services sim_services \<and> (admitting_services sim_services \<longrightarrow>
      (\<exists>v. asks_for deploy_command prod_state v \<and> cls_Risk (vi_Classification v) = RiskNone))"
    using actor_approval [OF demo_process_eq prod_applies _ demo_command_simps(5)] by blast
  then show ?thesis by blast
qed

theorem sim_actor_deploys_witness:
  "st_Status (fst (demo_process demo_state deploy_command)) = ActorIdle"
proof -
  have input: "rollout_input ''queue'' deploy_command (demo_spec good_image 2 True) demo_state =
      first_rollout\<lparr>ri_Approved := False\<rparr>"
    by (simp add: rollout_input_def demo_defs demo_state_def demo_command_def)
  have "admitted (rollout_validate_input (first_rollout\<lparr>ri_Approved := False\<rparr>))"
    by (simp add: admitted_def rollout_validate_input_def demo_fields demo_class)
       (simp add: demo_defs DefaultPolicy_def, rule exI [of _ "''app''"], simp)
  moreover have "sim_has_room demo_world (first_rollout\<lparr>ri_Approved := False\<rparr>)"
    by (simp add: sim_has_room_def demo_fields drop_expired_def reservedSlots_def simulatedSlotBudget_def)
  ultimately show ?thesis
    using sim_actor_deploys [OF _ _ _ _ _ demo_process_eq, of demo_state deploy_command
      "demo_spec good_image 2 True"] input
    by (simp add: demo_fields demo_images sim_passes_default failing_image_def)
qed

end
