(* ===== verification/Api_Examples.thy ===== *)
theory Api_Examples
  imports Api_Commands Control_Examples Actor_Simulated
begin

text \<open>
  Concrete requests to the API in front of the demo service: a login, a suspended deployment and its
  retry, and a cluster that is frozen. The properties of the API are applied to them.
\<close>

subsection \<open>A server and its requests\<close>

definition demo_auth :: "unit auth_env" where
  "demo_auth =
     \<lparr>an_Now = (\<lambda>w. (100, w)), an_Rand = (\<lambda>n w. (replicate n (CHR ''k''), w)), an_AuthCodeURL = (\<lambda>cfg state. ''google''),
      an_Exchange = (\<lambda>cfg code w. (None, w))\<rparr>"

definition demo_login :: AuthConfig where
  "demo_login = \<lparr>ac_GoogleClientID = ''id'', ac_GoogleClientSecret = ''secret'', ac_RedirectURL = []\<rparr>"

definition logged_in_state :: auth_state where
  "logged_in_state = (auth_init demo_login no_auth)\<lparr>au_sessions := Some [(''token'', 200)]\<rparr>"

abbreviation demo_api :: "(go_time \<times> ClusterCommand) list \<Rightarrow> unit cctx control" where
  "demo_api history \<equiv> service_control (demo_server history demo_page) demo_service (\<lambda>n. [0..<n]) (\<lambda>w. 100) (\<lambda>s. ''bad json'')"

definition get_request :: "string list \<Rightarrow> http_request" where
  "get_request segs =
     \<lparr>rq_Method = ''GET'', rq_Path = concat (map (\<lambda>s. ''/'' @ s) segs), rq_Segments = segs, rq_Unclean = None,
      rq_Query = [], rq_Header = [], rq_Cookies = [], rq_Body = None, rq_ContentLength = 0\<rparr>"

definition suspend_request :: http_request where
  "suspend_request = (get_request [''api'', ''v1'', ''deployments'', ''dev'', ''jobs'', ''wiki'', ''suspend''])
     \<lparr>rq_Method := ''POST'', rq_Header := [(''Idempotency-Key'', ''op-1'')], rq_Cookies := [(''cohestra_session'', ''token'')]\<rparr>"

definition demo_bindings :: "(string \<times> string) list" where
  "demo_bindings = [(''env'', ''dev''), (''namespace'', ''jobs''), (''name'', ''wiki'')]"

lemma suspend_route:
  "find_route routes (rq_Method suspend_request) (rq_Segments suspend_request) = Some (EndSimple CommandSuspend, demo_bindings)"
  by (simp add: suspend_request_def get_request_def demo_bindings_def routes_def match_pattern_def deployment_segs_def
      cluster_segs_def method_matches_def)

lemma op_1_key: "trim_space ''op-1'' = ''op-1''"
  by code_simp

lemma suspend_key: "request_key suspend_request = ''op-1''"
  by (simp add: request_key_def header_get_def first_value_def suspend_request_def op_1_key)

lemma demo_send_identity:
  "id_Environment (send_identity r demo_bindings) = ''dev''" "id_Namespace (send_identity r demo_bindings) = ''jobs''"
  by (simp_all add: send_identity_def identityFrom_def path_value_def first_value_def demo_bindings_def Let_def)

lemma suspend_answer:
  "\<exists>rp ctx'. api_endpoint (demo_api []) (EndSimple CommandSuspend) suspend_request demo_bindings ctx = Some (rp, ctx') \<and>
     rp_Status rp = 202 \<and> rp_Cookies rp = []"
proof -
  have key: "trim_space (header_get suspend_request ''Idempotency-Key'') = ''op-1''"
    using suspend_key by (simp add: request_key_def)
  have "decodeOptional (demo_api []) suspend_request simple_fields zero_simple = Inr zero_simple"
    by (simp add: decodeOptional_def suspend_request_def get_request_def)
  moreover obtain c where
    "baseCommand (demo_api []) suspend_request CommandSuspend (sr_Requester zero_simple) ctx = (Inr c, ctx)"
    by (simp add: baseCommand_def key service_now [THEN iffD2, OF conjI [OF refl refl]] Let_def)
  moreover obtain ctx' where "SendCommand (demo_server [] demo_page) demo_service (send_identity suspend_request demo_bindings)
      (c\<lparr>cmd_Approved := sr_Approved zero_simple, cmd_Incident := sr_Incident zero_simple,
         cmd_Reason := sr_Reason zero_simple\<rparr>) ctx = (Inr (), ctx')"
    using demo_accepts [OF demo_send_identity] by (metis prod.collapse)
  ultimately show ?thesis
    by (cases ctx') (simp add: api_endpoint_def simpleCommand_def command_handler_def send_def service_send writeJSON_def
        reply_def Let_def)
qed

subsection \<open>Witnesses\<close>

definition suspend_served :: "(http_response \<times> auth_state \<times> unit cctx) option" where
  "suspend_served = Handler (service_auth demo_auth) (demo_api []) suspend_request (logged_in_state, ([], ()))"

lemma suspend_served_ok: "\<exists>rp a' ctx'. suspend_served = Some (rp, (a', ctx')) \<and> rp_Status rp = 202"
proof -
  have "session_check (service_auth demo_auth) suspend_request logged_in_state ([], ()) = (True, ([], ()))"
    by (simp add: session_check_def cookie_def suspend_request_def get_request_def logged_in_state_def map_find_def
        service_auth_def beside_def demo_auth_def)
  moreover have "rq_Unclean suspend_request = None" "rq_Segments suspend_request \<noteq> [''ui'']"
    by (simp_all add: suspend_request_def get_request_def)
  ultimately show ?thesis
    using suspend_answer [of "([], ())"]
    by (auto simp: suspend_served_def Handler_def Middleware_def mux_def suspend_route dispatch_endpoint_def)
qed

theorem api_signals_witness:
  "\<exists>rp a' ctx' c. suspend_served = Some (rp, (a', ctx')) \<and>
     signals_of ctx' = [(WorkflowID wiki, ''deployment-command'', DeploymentSignal c)] \<and> cmd_Type c = CommandSuspend \<and> cmd_OperationID c = ''op-1''"
proof -
  obtain rp a' ctx' where served: "suspend_served = Some (rp, (a', ctx'))" "rp_Status rp = 202"
    using suspend_served_ok by blast
  have "well_formed suspend_request" by (simp add: well_formed_def suspend_request_def get_request_def)
  from api_signals [OF served(1) [unfolded suspend_served_def] this] served(2) suspend_route obtain sig where
    "signals_of ctx' = [sig]" "asks (EndSimple CommandSuspend) suspend_request demo_bindings sig"
    by (auto simp: signals_of_def)
  moreover have "WorkflowID (send_identity suspend_request demo_bindings) = WorkflowID wiki"
    by (simp add: WorkflowID_def send_identity_def identityFrom_def path_value_def first_value_def demo_bindings_def
        wiki_def bare_identity_def Let_def)
  ultimately obtain c where
    "signals_of ctx' = [(WorkflowID wiki, ''deployment-command'', DeploymentSignal c)] \<and> cmd_Type c = CommandSuspend \<and>
     cmd_OperationID c = ''op-1''"
    using suspend_key by (auto simp: asks_def command_signal_def)
  with served(1) show ?thesis by blast
qed

definition callback_request :: http_request where
  "callback_request = (get_request [''auth'', ''callback''])
     \<lparr>rq_Query := [(''state'', ''s''), (''code'', ''c'')], rq_Cookies := [(''cohestra_state'', ''s'')]\<rparr>"

definition login_served :: "(http_response list \<times> auth_state \<times> unit cctx) option" where
  "login_served = serve (Handler (service_auth demo_auth) (demo_api [])) [get_request [''auth'', ''login''], callback_request]
     (auth_init demo_login no_auth, ([], ()))"

definition demo_token :: string where
  "demo_token = hex_encode (replicate 32 (CHR ''k''))"

lemma demo_login_served:
  "\<exists>rps a ctx. login_served = Some (rps, (a, ctx)) \<and> map_has (au_sessions a) demo_token"
proof -
  have "find_route routes ''GET'' [''auth'', ''login''] = Some (EndOAuthStart, [])"
    "find_route routes ''GET'' [''auth'', ''callback''] = Some (EndOAuthCallback, [])"
    by (simp_all add: routes_def match_pattern_def deployment_segs_def cluster_segs_def method_matches_def)
  then show ?thesis
    by (simp add: login_served_def demo_token_def Handler_def Middleware_def isPublicPath_def mux_def get_request_def
        callback_request_def dispatch_endpoint_def OAuthStartHandler_def OAuthCallbackHandler_def auth_init_def demo_login_def
        no_auth_def cookie_def query_get_def first_value_def randHex_def service_auth_def beside_def demo_auth_def)
qed

theorem sessions_earned_witness:
  "\<exists>rps a ctx. login_served = Some (rps, (a, ctx)) \<and> issues callback_request (rps ! 1) demo_token"
proof -
  obtain rps a ctx where login: "login_served = Some (rps, (a, ctx))" "map_has (au_sessions a) demo_token"
    using demo_login_served by blast
  from sessions_earned [OF login(1) [unfolded login_served_def] login(2)] obtain i where
    i: "i < Suc (Suc 0)" "issues ([get_request [''auth'', ''login''], callback_request] ! i) (rps ! i) demo_token" by auto
  moreover have "\<not> issues (get_request [''auth'', ''login'']) rp demo_token" for rp
    by (simp add: issues_def get_request_def)
  ultimately have "issues callback_request (rps ! 1) demo_token" by (auto simp: less_Suc_eq)
  with login(1) show ?thesis by blast
qed

theorem api_frozen_witness:
  "\<exists>rp ctx'. api_endpoint (demo_api cluster_history) (EndSimple CommandSuspend) suspend_request demo_bindings ([], ()) =
     Some (rp, ctx') \<and> signals_of ctx' = [] \<and> rp_Status rp \<noteq> 202"
proof -
  obtain rp ctx' where e: "api_endpoint (demo_api cluster_history) (EndSimple CommandSuspend) suspend_request demo_bindings
      ([], ()) = Some (rp, ctx')"
    by (cases "simpleCommand (demo_api cluster_history) CommandSuspend suspend_request demo_bindings ([], ())")
      (simp add: api_endpoint_def)
  have "filter relevant cluster_history = [] @ [(7, freeze)]"
    by (simp add: cluster_history_def relevant_def freeze_def)
  from api_frozen [OF this _ _ _ _ e, of "new_cluster_state ''dev'' ''jobs''" CommandSuspend]
  have "signals_of ctx' = signals_of (([], ()) :: unit cctx)"
    by (simp add: freeze_def demo_server_def mutatesRuntime_def)
  moreover have "rp_Status rp \<noteq> 202"
    using service.endpoint_faithful [OF e] calculation by (auto simp: service.faithful_def)
  ultimately show ?thesis using e by (auto simp: signals_of_def)
qed

theorem api_retry_witness:
  "\<exists>c c'. cmd_Type c = CommandSuspend \<and>
     actor_handle sim_services ''queue'' c' (fold (actor_handle sim_services ''queue'') [c] (demo_state, ([], demo_world))) =
     fold (actor_handle sim_services ''queue'') [c] (demo_state, ([], demo_world))"
proof -
  obtain rp ctx' where e: "api_endpoint (demo_api []) (EndSimple CommandSuspend) suspend_request demo_bindings ([], ()) =
      Some (rp, ctx')" "rp_Status rp = 202"
    using suspend_answer by blast
  obtain c where c: "carries_key suspend_request CommandSuspend c" "signals_of ctx' =
      signals_of (([], ()) :: unit cctx) @ [command_signal (send_identity suspend_request demo_bindings) c]"
    using sent_command [OF e(1) _ e(2)] by auto
  from api_retry [OF e(1) e(1) command_type.simps(2) command_type.simps(2) e(2) e(2) refl refl, of sim_services "''queue''"]
  obtain d c' where d: "signals_of ctx' = signals_of (([], ()) :: unit cctx) @ [command_signal (send_identity suspend_request demo_bindings) d]"
    "\<forall>cs st. d \<in> set cs \<longrightarrow> actor_handle sim_services ''queue'' c' (fold (actor_handle sim_services ''queue'') cs st) =
       fold (actor_handle sim_services ''queue'') cs st"
    by blast
  have "cmd_Type d = CommandSuspend" using c d(1) by (simp add: command_signal_def carries_key_def)
  with d(2) [rule_format, of "[d]" "(demo_state, ([], demo_world))"] show ?thesis by (meson list.set_intros(1))
qed

end
