(* ===== verification/Sdk_Examples.thy ===== *)
theory Sdk_Examples
  imports Sdk_Loops Api_Examples Rollout_Examples
begin

text \<open>
  The SDK in front of the demo service: a deployment that is accepted, a server that asks for a login,
  and a wait.
\<close>

definition sdk_wiki :: Deployment where
  "sdk_wiki = client_Deployment (WithToken ''secret'' (NewClient ''http://cohestra:8080/'')) ''dev'' ''jobs'' ''wiki''"

definition epoch :: go_time where
  "epoch = 62135596800 * go_second"

definition sdk_net :: "(auth_state \<times> unit cctx) net" where
  "sdk_net = api_net (\<lambda>n w. (replicate n (CHR ''k''), w)) (\<lambda>w. (epoch, w)) (\<lambda>c. []) ''http://cohestra:8080'' demo_auth
     (demo_server [] demo_page) demo_service (\<lambda>n. [0..<n]) (\<lambda>w. 100) (\<lambda>s. ''bad json'')"

lemma sdk_wiki_facts:
  "cl_baseURL (dep_client sdk_wiki) = ''http://cohestra:8080''" "plain_deployment sdk_wiki"
  "dep_Env sdk_wiki = ''dev''" "dep_Namespace sdk_wiki = ''jobs''" "dep_Name sdk_wiki = ''wiki''"
  by (simp_all add: sdk_wiki_def client_Deployment_def WithToken_def NewClient_def trim_right_def plain_deployment_def
      plain_def unreserved_def is_digit_def in_range_def)

theorem sdk_unauthorized_witness:
  "fst (run_command sdk_net sdk_wiki (SdkSuspend \<lparr>qm_Requester = ''ci'', qm_Approved = True, qm_Incident = False, qm_Reason = []\<rparr>)
     (auth_init demo_login no_auth, ([], ()))) = Some (APIError 401 ''unauthorized'') \<and>
   fst (run_command sdk_net sdk_wiki (SdkFreezeCluster \<lparr>qc_Requester = ''ci'', qc_Reason = []\<rparr>)
     (auth_init demo_login no_auth, ([], ()))) = Some (APIError 401 ''unauthorized'')"
proof -
  have "Enabled (auth_init demo_login no_auth)" by (simp add: Enabled_def auth_init_def demo_login_def)
  note no = sdk_unauthorized [OF sdk_wiki_facts(1,2) this, THEN conjunct1]
  show ?thesis unfolding sdk_net_def no by (simp add: json_SimpleRequest_def json_ClusterCommandRequest_def)
qed

subsection \<open>A deployment that is accepted\<close>

definition wiki_spec :: DeploymentSpec where
  "wiki_spec = zero_DeploymentSpec\<lparr>spec_ImageDigest := ''app@sha256:1'', spec_Parallelism := 2,
     spec_MaxParallelism := 4,
     spec_JobArgs := Some [(''topic'', ''wiki''), (''group'', ''live'')]\<rparr>"

definition wiki_deploy :: DeployRequest where
  "wiki_deploy =
     \<lparr>qd_Requester = ''ci'', qd_Approved = True, qd_Incident = False, qd_Reason = [], qd_Spec = wiki_spec\<rparr>"

definition wiki_key :: string where
  "wiki_key = ''0-6b6b6b6b6b6b6b6b''"

lemma zero_text: "json_float f_zero = Some ''0''"
  by (simp add: json_float_def f_finite_def f_zero_def f_exp_def f_mag_def f_bits_def f_neg_def)

lemma zero_finite: "f_finite f_zero"
  by (simp add: f_finite_def f_zero_def f_exp_def f_mag_def f_bits_def)

lemma wiki_sendable: "sendable_spec wiki_spec"
proof -
  have "utf8 ''app@sha256:1''" "utf8 ''topic''" "utf8 ''wiki''" "utf8 ''group''" "utf8 ''live''" by (rule utf8_ascii; simp)+
  with zero_finite show ?thesis
    by (simp add: sendable_spec_def wiki_spec_def zero_DeploymentSpec_def utf8_map_def map_wf_def)
qed

lemma wiki_body: "length (json_print (the (json_DeployRequest wiki_deploy))) \<le> 1048576"
proof -
  have "list_all (\<lambda>t. length (quote t) \<le> 200) [''requester'', ''ci'', ''approved'', ''spec'', ''imageDigest'', ''app@sha256:1'',
    ''flinkVersion'', [], ''jobArgs'', ''group'', ''live'', ''topic'', ''wiki'', ''parallelism'', ''maxParallelism'', ''resources'',
    ''taskManagerCpu'', ''taskManagerMemoryMiB'', ''taskManagerCount'', ''slotsPerManager'', ''stateCompatibility'',
    ''jobGraphCompatible'', ''operatorUidsStable'', ''allowNonRestored'', ''freshStartApproved'', ''autoscalerEnabled'']"
    by code_simp
  moreover have "sorted_keys (Some [(''topic'', ''wiki''), (''group'', ''live'')]) = [''group'', ''topic'']" by code_simp
  ultimately show ?thesis
    using itoa_length [of 0] itoa_length [of 2] itoa_length [of 4]
    by (simp add: json_DeployRequest_def wiki_deploy_def json_spec_def wiki_spec_def zero_DeploymentSpec_def json_resources_def
        zero_text json_string_map_def map_str_def map_find_def opt_member_def json_state_def json_int_def bool_member_def
        string_member_def)
qed

lemma sdk_net_key: "generateKey sdk_net (no_auth, ([], ())) = (wiki_key, (no_auth, ([], ())))"
proof -
  have "int_dec 0 @ ''-'' @ hex_encode (replicate 8 (CHR ''k'')) = wiki_key" by code_simp
  then show ?thesis by (simp add: generateKey_def sdk_net_def api_net_def in_process_def beside_def epoch_def)
qed

lemma wiki_accepted:
  "json_ok 10000 (json_string_map (accepted_map wiki_key sdk_wiki))"
  "length (json_print (json_string_map (accepted_map wiki_key sdk_wiki))) < 1048576"
proof -
  have "utf8 wiki_key" unfolding wiki_key_def by (rule utf8_ascii) simp
  moreover have "utf8 ''operationId''" "utf8 ''status''" "utf8 ''workflowId''" "utf8 ''QUEUED''"
    "utf8 (WorkflowID (bare_identity ''dev'' ''jobs'' ''wiki''))"
    by (rule utf8_ascii; simp add: WorkflowID_def bare_identity_def)+
  ultimately show "json_ok 10000 (json_string_map (accepted_map wiki_key sdk_wiki))"
    by (simp add: accepted_json sdk_wiki_facts)
  have "list_all (\<lambda>t. length (quote t) \<le> 200) [''operationId'', ''status'', ''workflowId'', ''QUEUED'', wiki_key,
    WorkflowID (bare_identity ''dev'' ''jobs'' ''wiki'')]" by code_simp
  then show "length (json_print (json_string_map (accepted_map wiki_key sdk_wiki))) < 1048576"
    by (simp add: accepted_json sdk_wiki_facts)
qed

lemma sdk_deploys:
  "\<exists>resp ctx'. Deploy sdk_net sdk_wiki wiki_deploy (no_auth, ([], ())) = (Inr resp, (no_auth, ctx')) \<and> cr_OperationID resp = wiki_key"
proof -
  have "utf8 ''ci''" "utf8 []" by (rule utf8_ascii; simp)+
  then obtain j where j: "json_DeployRequest wiki_deploy = Some j" "json_ok 10000 j"
    "decode_struct True deploy_fields j zero_deploy =
      Some \<lparr>dr_Requester = qd_Requester wiki_deploy, dr_Approved = qd_Approved wiki_deploy, dr_Incident = qd_Incident wiki_deploy,
        dr_Reason = qd_Reason wiki_deploy, dr_Spec = sent_spec (qd_Spec wiki_deploy)\<rparr>"
    using decode_DeployRequest [of wiki_deploy] wiki_sendable by (auto simp: wiki_deploy_def)
  have len: "length (json_print j) \<le> 1048576" using wiki_body j(1) by simp
  have plain: "list_all plain [''deploy'']" by (simp add: plain_words)
  have accepts: "fst (SendCommand (demo_server [] demo_page) demo_service (send_identity r (path_bindings sdk_wiki)) c ctx) = Inr ()"
    for r c ctx
    by (rule demo_accepts) (simp_all add: send_identity_def identityFrom_def path_value_def first_value_def path_bindings_def
        sdk_wiki_facts Let_def)
  have "\<exists>ctx'. post_command sdk_net sdk_wiki (path_of [''deploy'']) (Some j) (no_auth, ([], ())) =
    (Inr \<lparr>cr_OperationID = wiki_key,
       cr_WorkflowID = WorkflowID (bare_identity (dep_Env sdk_wiki) (dep_Namespace sdk_wiki) (dep_Name sdk_wiki)),
       cr_Status = ''QUEUED''\<rparr>, (no_auth, ctx'))"
    unfolding sdk_net_def
    by (rule command_accepted [OF sdk_wiki_facts(1,2) plain deploy_route(1) [OF sdk_wiki_facts(2)] command_type.simps(1) _ _ _
        accepts sdk_net_key [unfolded sdk_net_def] wiki_accepted,
        where fill = "\<lambda>request command. command\<lparr>cmd_Approved := dr_Approved request, cmd_Incident := dr_Incident request,
          cmd_Reason := dr_Reason request, cmd_TargetSpec := Some (dr_Spec request)\<rparr>" and requester = dr_Requester])
      (simp_all add: api_endpoint_def deployHandler_def decode_printed(1) [OF j(2) len j(3)] Enabled_def no_auth_def)
  then show ?thesis using j(1) by (auto simp: Deploy_def path_of_def)
qed

theorem sdk_deploy_arrives_witness:
  "length (signals_of (snd (snd (Deploy sdk_net sdk_wiki wiki_deploy (no_auth, ([], ())))))) = 1"
proof -
  obtain resp ctx' where d: "Deploy sdk_net sdk_wiki wiki_deploy (no_auth, ([], ())) = (Inr resp, (no_auth, ctx'))"
    using sdk_deploys by blast
  have "utf8 ''ci''" "utf8 []" by (rule utf8_ascii; simp)+
  with sdk_deploy_arrives [OF d [unfolded sdk_net_def] sdk_wiki_facts(1,2) _ _ _ wiki_body] wiki_sendable d
  show ?thesis by (auto simp: wiki_deploy_def signals_of_def)
qed

subsection \<open>A wait\<close>

text \<open>A server that is never reached, with a clock that shows the pauses.\<close>

definition ticking_net :: "int net" where
  "ticking_net =
     \<lparr>nt_BadURL = (\<lambda>url. None), nt_Do = (\<lambda>rq w. (Inl ''refused'', w)), nt_Now = (\<lambda>w. (w, w)),
      nt_Rand = (\<lambda>n w. (replicate n (CHR ''k''), w)), nt_Wait = (\<lambda>d w. (None, w + d)), nt_MarshalError = ''unsupported'',
      nt_UnmarshalError = (\<lambda>t. ''invalid'')\<rparr>"

theorem wait_healthy_returns_witness:
  "\<exists>out w'. WaitHealthy ticking_net sdk_wiki go_minute 0 = Some (out, w') \<and> honest_wait ticking_net sdk_wiki out"
proof (rule wait_healthy_returns)
  show "client_clock ticking_net id" by (simp add: client_clock_def ticking_net_def)
qed

end
