(* ===== verification/Answer_Examples.thy ===== *)
theory Answer_Examples
  imports Sdk_Answers Sdk_Examples
begin

text \<open>
  Views read through the SDK in front of the demo service: an actor without versions, and one whose last
  command failed.
\<close>

lemma time_zero: "rfc3339 0 = Some ''0001-01-01T00:00:00Z''"
proof -
  have p: "pad 4 1 = ''0001''" "pad 2 1 = ''01''" "pad 2 0 = ''00''" by code_simp+
  have "date_of 366 = (1, 1, 1)" by code_simp
  then show ?thesis
    by (simp add: rfc3339_def day_ns_def go_second_def p p(1,2) [simplified] fraction_digits_def Let_def)
qed

lemma wiki_path: "WorkflowID (path_identity sdk_wiki) = WorkflowID wiki"
  by (simp add: path_identity_id sdk_wiki_facts wiki_def)

lemma demo_describes: "Describe (demo_server [] demo_page) (path_identity sdk_wiki) ([], ()) =
    (Inr zero_view, ([CallQuery (WorkflowID wiki) ''describe''], ()))"
  by (simp add: Describe_def query_def call_def demo_server_def wiki_path)

lemma zero_view_sendable: "sendable_view zero_view"
  by (simp add: sendable_view_def zero_view_def sendable_identity_def)

definition healthy_version :: DeploymentVersion where
  "healthy_version = zero_DeploymentVersion\<lparr>ver_VersionID := 1, ver_HealthSummary := zero_HealthSummary\<lparr>hs_Healthy := True\<rparr>\<rparr>"

text \<open>An actor that runs a healthy version under an enabled autoscaler, asked by hand to scale.\<close>

definition scaled_actor :: DeploymentActorState where
  "scaled_actor = (actor_init 1 (deployment_actor_input demo_service wiki None))
     \<lparr>st_heap := [healthy_version], st_CurrentVersion := Some 0, st_Versions := [healthy_version], st_AutoscalerEnabled := True\<rparr>"

definition scale_wiki :: DeploymentCommand where
  "scale_wiki =
     \<lparr>cmd_OperationID = ''op-2'', cmd_IdempotencyKey = ''op-2'', cmd_Type = CommandScaleTo, cmd_Requester = ''bob'',
      cmd_RequestedAt = 0, cmd_TargetSpec = None, cmd_TargetVersion = 0, cmd_Parallelism = 8,
      cmd_Approved = True, cmd_Incident = False, cmd_Reason = []\<rparr>"

definition early_world :: "sim_world ctx" where
  "early_world = ([], demo_world\<lparr>sw_clock := 0\<rparr>)"

definition scale_error :: string where
  "scale_error = ''manual scale rejected while autoscaler is enabled and not frozen''"

definition refused_view :: DeploymentActorView where
  "refused_view =
     \<lparr>view_Identity = wiki, view_Status = ActorFailed, view_CurrentVersion = Some healthy_version,
      view_LastHealthyVersion = None, view_LastSavepoint = None, view_ActiveOperation = None, view_PendingOperations = 0,
      view_RecentOperations =
        [\<lparr>rec_OperationID = ''op-2'', rec_IdempotencyKey = ''op-2'', rec_Requester = ''bob'', rec_CommandType = CommandScaleTo,
          rec_Status = OperationFailed, rec_ChildWorkflowID = [], rec_LeaseID = [], rec_Result = scale_error,
          rec_StartedAt = 0, rec_CompletedAt = 0\<rparr>],
      view_AutoscalerEnabled = True, view_AutoscalerFrozen = False, view_LastError = scale_error\<rparr>"

lemma early_now: "workflow_now sim_services early_world = 0"
  by (simp add: early_world_def demo_world_def sim_services_def workflow_now_def)

lemma refused:
  "view (fst (processCommand sim_services ''activities'' scale_wiki scaled_actor early_world)) = refused_view"
  by (simp add: processCommand_def scale_wiki_def command_key_def Let_def dispatch_def scale_def open_operation_def settle_def
      scaled_actor_def actor_init_def deployment_actor_input_def reload_def normalizeState_def wire_map_def deref_def
      early_now close_record_def view_def keep_last_def demo_service_def NewService_def refused_view_def scale_error_def
      map_has_def map_find_def)

lemma zero_time: "json_time 0 = Some (JStr ''0001-01-01T00:00:00Z'')"
  by (simp add: json_time_def time_zero)

lemma refused_sendable: "sendable_view refused_view"
  by (simp add: sendable_view_def refused_view_def healthy_version_def sendable_version_def sendable_identity_def sendable_spec_def
      sendable_health_def sendable_time_def sendable_operation_def time_zero zero_DeploymentVersion_def zero_DeploymentSpec_def
      zero_HealthSummary_def zero_finite utf8_map_def map_wf_def wiki_def bare_identity_def scale_error_def utf8_ascii)

lemma json_view_fits:
  "length (json_print (the (json_view zero_view))) < 1048576" "length (json_print (the (json_view refused_view))) < 1048576"
proof -
  have names: "list_all (\<lambda>t. length (quote t) \<le> 200) [''identity'', ''environment'', ''namespace'', ''name'', ''status'',
    ''pendingOperations'', ''autoscalerEnabled'', ''autoscalerFrozen'', ''currentVersion'', ''recentOperations'', ''lastError'',
    ''versionId'', ''spec'', ''manifestHash'', ''jobArgsHash'', ''flinkConfigHash'', ''healthSummary'', ''createdAt'',
    ''healthy'', ''running'', ''checkpointCompleted'', ''restartCount'', ''backpressureRatio'', ''kafkaLag'', ''sinkHealthy'',
    ''observedAt'', ''operationId'', ''idempotencyKey'', ''requester'', ''commandType'', ''result'', ''startedAt'', ''completedAt'',
    ''imageDigest'', ''flinkVersion'', ''parallelism'', ''maxParallelism'', ''resources'', ''taskManagerCpu'',
    ''taskManagerMemoryMiB'', ''taskManagerCount'', ''slotsPerManager'', ''stateCompatibility'', ''jobGraphCompatible'',
    ''operatorUidsStable'', ''allowNonRestored'', ''freshStartApproved'', [], ''dev'', ''jobs'', ''wiki'', ''FAILED'', ''op-2'',
    ''bob'', ''ScaleTo'', scale_error, ''0001-01-01T00:00:00Z'']"
    by code_simp
  have n0: "nat_dec 0 = ''0''" by code_simp
  show "length (json_print (the (json_view zero_view))) < 1048576"
    using names by (simp add: json_view_def zero_view_def json_identity_def struct_defs pointer_def opt_member_def n0)
  show "length (json_print (the (json_view refused_view))) < 1048576"
    using names itoa_length [of 0] itoa_length [of 1]
    by (simp add: json_view_def refused_view_def json_identity_def json_version_def json_health_def json_operation_def json_slice_def
        struct_defs pointer_def opt_member_def n0 healthy_version_def zero_DeploymentVersion_def zero_DeploymentSpec_def
        zero_HealthSummary_def json_spec_def json_resources_def json_state_def json_int_def zero_text zero_time json_number_def
        wiki_def bare_identity_def)
qed

lemma open_server: "\<not> Enabled no_auth"
  by (simp add: Enabled_def no_auth_def)

theorem sdk_status_arrives_witness:
  "sdk_Status sdk_net sdk_wiki (no_auth, ([], ())) =
     (Inr (sent_view zero_view), (no_auth, ([CallQuery (WorkflowID wiki) ''describe''], ())))"
  unfolding sdk_net_def
  by (rule sdk_status_arrives [OF sdk_wiki_facts(1,2) open_server demo_describes zero_view_sendable json_view_fits(1)])

definition refused_server :: "unit temporal" where
  "refused_server = (demo_server [] demo_page)\<lparr>tc_QueryView := \<lambda>wfid name w. (Inr (\<lambda>_. Inr refused_view), w)\<rparr>"

definition refused_net :: "(auth_state \<times> unit cctx) net" where
  "refused_net = api_net (\<lambda>n w. (replicate n (CHR ''k''), w)) (\<lambda>w. (epoch, w)) (\<lambda>c. []) ''http://cohestra:8080'' demo_auth
     refused_server demo_service (\<lambda>n. [0..<n]) (\<lambda>w. 100) (\<lambda>s. ''bad json'')"

theorem wait_healthy_after_failure_witness:
  "\<exists>v ctx'. WaitHealthy refused_net sdk_wiki go_minute (no_auth, ([], ())) = Some ((Some v, None), (no_auth, ctx')) \<and>
     kv_Status v = ''FAILED'' \<and> kv_CurrentVersion v = Some (sent_version healthy_version)"
proof -
  obtain st' actx' where p: "processCommand sim_services ''activities'' scale_wiki scaled_actor early_world = (st', actx')"
    by (cases "processCommand sim_services ''activities'' scale_wiki scaled_actor early_world")
  have v: "view st' = refused_view" using refused p by simp
  have "st_Status st' = view_Status (view st')" by (simp add: view_def)
  then have failed: "st_Status st' = ActorFailed" by (simp add: v refused_view_def)
  have fresh: "\<not> map_has (st_ProcessedKeys scaled_actor) (command_key scale_wiki)"
    by (simp add: scaled_actor_def actor_init_def deployment_actor_input_def reload_def normalizeState_def wire_map_def
        map_has_def map_find_def Let_def)
  have cur: "deref scaled_actor (st_CurrentVersion scaled_actor) = Some healthy_version"
    "hs_Healthy (ver_HealthSummary healthy_version)"
    by (simp_all add: scaled_actor_def deref_def healthy_version_def)
  have answers: "fst (tc_QueryView refused_server (WorkflowID (path_identity sdk_wiki)) ''describe'' w) = Inr (\<lambda>_. Inr refused_view)" for w
    by (simp add: refused_server_def)
  show ?thesis
    unfolding refused_net_def
    by (rule wait_healthy_after_failure [OF fresh p failed cur sdk_wiki_facts(1,2) open_server answers])
      (simp_all add: v refused_sendable json_view_fits(2))
qed

subsection \<open>A scale that is refused\<close>

lemma refused_accepts:
  assumes "id_Environment i = ''dev''" "id_Namespace i = ''jobs''"
  shows "fst (SendCommand refused_server demo_service i c ctx) = Inr ()"
proof -
  obtain q p where "actorQueueFor demo_service (ClusterActorState_WorkflowID (new_cluster_state ''dev'' ''jobs'')) = Some q"
    "actorQueueFor demo_service (WorkflowID i) = Some p"
    using demo_queue by blast
  with assms show ?thesis
    by (cases ctx) (simp add: SendCommand_def EnsureDeploymentActor_def EnsureClusterActor_def start_workflow_def
        DescribeCluster_def query_def send_signal_def call_def refused_server_def demo_server_def ClusterActorWorkflow_def
        new_cluster_state_def Let_def)
qed

lemma refused_read: "\<exists>ctx'. sdk_Status refused_net sdk_wiki (no_auth, ([], ())) = (Inr (sent_view refused_view), (no_auth, ctx')) \<and>
    signals_of ctx' = []"
proof -
  obtain ctx' where "Describe refused_server (path_identity sdk_wiki) ([], ()) = (Inr refused_view, ctx')"
    using describe_answered [of refused_server "path_identity sdk_wiki" "([], ())"] by (auto simp: refused_server_def)
  from status_reads [OF sdk_wiki_facts(1,2) open_server this refused_sendable json_view_fits(2)]
  have r: "sdk_Status refused_net sdk_wiki (no_auth, ([], ())) = (Inr (sent_view refused_view), (no_auth, ctx'))"
    by (simp add: refused_net_def)
  from get_status_silent [OF r [unfolded refused_net_def] sdk_wiki_facts(1,2)] r show ?thesis by (simp add: signals_of_def)
qed

text \<open>The server takes the command of the autoscaler.\<close>

lemma refused_scale:
  "\<exists>resp ctx'. Scale refused_net sdk_wiki (autoscaler_request 8) (no_auth, ctx) = (Inr resp, (no_auth, ctx'))"
proof -
  let ?j = "the (json_ScaleRequest (autoscaler_request 8))"
  let ?q = "\<lparr>sq_Requester = ''autoscaler'', sq_Parallelism = 8, sq_Approved = False, sq_Reason = ''autoscaler decision''\<rparr>"
  have dec: "decode C (server_request m segs h (Some (json_print ?j))) scale_fields zero_scale = Inr ?q" for C m segs h
    using decode_printed(1) [OF autoscaler_body decode_ScaleRequest] by (simp add: autoscaler_request_def)
  have pos: "positive_scale (Inr ?q) = Inr ?q" by (simp add: positive_scale_def)
  have key: "generateKey refused_net (no_auth, ctx) = (wiki_key, (no_auth, ctx))"
  proof -
    have "int_dec 0 @ ''-'' @ hex_encode (replicate 8 (CHR ''k'')) = wiki_key" by code_simp
    then show ?thesis by (cases ctx) (simp add: generateKey_def refused_net_def api_net_def in_process_def beside_def epoch_def)
  qed
  have accepts: "fst (SendCommand refused_server demo_service (send_identity r (path_bindings sdk_wiki)) c ctx) = Inr ()" for r c ctx
    by (rule refused_accepts) (simp_all add: send_identity_def identityFrom_def path_value_def first_value_def path_bindings_def
        sdk_wiki_facts Let_def)
  have "\<exists>ctx'. post_command refused_net sdk_wiki (path_of [''scale'']) (Some ?j) (no_auth, ctx) =
    (Inr \<lparr>cr_OperationID = wiki_key,
       cr_WorkflowID = WorkflowID (bare_identity (dep_Env sdk_wiki) (dep_Namespace sdk_wiki) (dep_Name sdk_wiki)),
       cr_Status = ''QUEUED''\<rparr>, (no_auth, ctx'))"
    unfolding refused_net_def
    by (rule command_accepted [OF sdk_wiki_facts(1,2) _ deploy_route(2) [OF sdk_wiki_facts(2)] command_type.simps(4) _ _
        open_server accepts key [unfolded refused_net_def] wiki_accepted,
        where fill = "\<lambda>request command. command\<lparr>cmd_Parallelism := sq_Parallelism request,
          cmd_Approved := sq_Approved request, cmd_Reason := sq_Reason request\<rparr>" and requester = sq_Requester and q = ?q])
      (simp_all add: api_endpoint_def scaleHandler_def dec pos plain_words)
  then show ?thesis by (auto simp: Scale_def path_of_def json_ScaleRequest_def)
qed

text \<open>A tick of an autoscaler that asks for eight: the enabled autoscaler of \<open>refused_view\<close> lets it ask, the
  command is sent, and the actor in that state refuses it.\<close>

definition eight :: "(auth_state \<times> unit cctx) evaluator" where
  "eight v s = (Inr (Some 8), s)"

theorem autoscaler_refused_witness:
  "\<exists>c. signals_of (snd (autoscaler_tick refused_net sdk_wiki eight (no_auth, ([], ())))) = [command_signal wiki c] \<and>
     cmd_Type c = CommandScaleTo \<and>
     st_Status (fst (processCommand sim_services ''activities'' c scaled_actor early_world)) = ActorFailed \<and>
     st_Versions (fst (processCommand sim_services ''activities'' c scaled_actor early_world)) = [healthy_version]"
proof -
  obtain ctx1 where r: "sdk_Status refused_net sdk_wiki (no_auth, ([], ())) = (Inr (sent_view refused_view), (no_auth, ctx1))"
    "signals_of ctx1 = []" using refused_read by blast
  obtain resp ctx2 where y: "Scale refused_net sdk_wiki (autoscaler_request 8) (no_auth, ctx1) = (Inr resp, (no_auth, ctx2))"
    using refused_scale by blast
  have view: "kv_AutoscalerEnabled (sent_view refused_view)" "\<not> kv_AutoscalerFrozen (sent_view refused_view)"
    "current_parallelism (sent_view refused_view) = 0"
    by (simp_all add: sent_view_def refused_view_def current_parallelism_def sent_version_def healthy_version_def sent_spec_def
        zero_DeploymentVersion_def zero_DeploymentSpec_def)
  have t: "autoscaler_tick refused_net sdk_wiki eight (no_auth, ([], ())) = (no_auth, ctx2)"
    using r(1) y view by (simp add: autoscaler_tick_def eight_def)
  have sent: "signals_of ctx2 \<noteq> []"
    using autoscaler_scale [OF y [unfolded refused_net_def] sdk_wiki_facts(1,2)] r(2) by auto
  have st: "st_AutoscalerEnabled scaled_actor" "\<not> st_AutoscalerFrozen scaled_actor" "st_CurrentVersion scaled_actor \<noteq> None"
    "st_Versions scaled_actor = [healthy_version]" "\<not> map_has (st_ProcessedKeys scaled_actor) k" for k
    by (simp_all add: scaled_actor_def actor_init_def deployment_actor_input_def reload_def normalizeState_def wire_map_def
        map_has_def map_find_def Let_def)
  have none: "signals_of (([], ()) :: unit cctx) = []" by (simp add: signals_of_def)
  have wfid: "command_signal (bare_identity (dep_Env sdk_wiki) (dep_Namespace sdk_wiki) (dep_Name sdk_wiki)) c = command_signal wiki c" for c
    by (simp add: command_signal_def sdk_wiki_facts wiki_def)
  let ?refuses = "\<lambda>(v :: sdk_DeploymentActorView) c. \<forall>(S :: sim_world services) q (st :: DeploymentActorState) actx. st_AutoscalerEnabled st = kv_AutoscalerEnabled v \<and>
      st_AutoscalerFrozen st = kv_AutoscalerFrozen v \<and>
      st_CurrentVersion st \<noteq> None \<and> \<not> map_has (st_ProcessedKeys st) (command_key c) \<longrightarrow>
      (let st' = fst (processCommand S q c st actx)
       in st_Status st' = ActorFailed \<and> st_Versions st' = st_Versions st \<and>
          st_CurrentVersion st' = st_CurrentVersion st \<and> st_heap st' = st_heap st)"
  have "\<exists>v c. kv_AutoscalerEnabled v \<and> \<not> kv_AutoscalerFrozen v \<and> signals_of ctx2 = [command_signal wiki c] \<and>
      cmd_Type c = CommandScaleTo \<and> ?refuses v c"
  proof (rule disjE [OF autoscaler_refused [OF t [unfolded refused_net_def] sdk_wiki_facts(1,2)]])
    show "signals_of (snd s') = signals_of (snd s)" if "eight v s = (x, s')" for v s x s' using that by (simp add: eight_def)
  qed (use sent none in simp, unfold none append_Nil wfid, elim exE conjE, intro exI conjI, assumption+)
  then obtain v c where c: "kv_AutoscalerEnabled v" "\<not> kv_AutoscalerFrozen v" "signals_of ctx2 = [command_signal wiki c]"
      "cmd_Type c = CommandScaleTo" and no: "?refuses v c" by (elim exE conjE)
  from no [rule_format, of scaled_actor sim_services "''activities''" early_world] st c(1,2)
  have "st_Status (fst (processCommand sim_services ''activities'' c scaled_actor early_world)) = ActorFailed \<and>
    st_Versions (fst (processCommand sim_services ''activities'' c scaled_actor early_world)) = [healthy_version]"
    by (simp add: Let_def)
  with c(3,4) t show ?thesis by auto
qed

end
