(* ===== verification/Kubernetes_Examples.thy ===== *)
theory Kubernetes_Examples
  imports Kubernetes_Rollout Rollout_Examples
begin

text \<open>
  Concrete clusters for the Kubernetes backend: one whose job is ready, one that never knows the
  deployment, and rendered configurations. The properties are applied where their hypotheses hold.
\<close>

subsection \<open>A cluster with a ready job\<close>

definition ready_object :: unstructured where
  "ready_object =
     \<lparr>un_NestedString = (\<lambda>path.
        if path = [''status'', ''jobStatus'', ''state''] then (''RUNNING'', True, None)
        else if path = [''status'', ''jobManagerDeploymentStatus''] then (''READY'', True, None)
        else if path = [''status'', ''state''] then (''COMPLETED'', True, None)
        else ([], False, None)),
      un_NestedInt64 = (\<lambda>path. (1, True, None))\<rparr>"

definition empty_config_map :: ConfigMap where
  "empty_config_map = new_lease_config_map ''ns'' ''pool''"

text \<open>The world is the clock; a tick takes three seconds.\<close>

definition ready_cluster :: "int kube" where
  "ready_cluster =
     \<lparr>kc_Now = (\<lambda>w. (w, w)), kc_Tick = (\<lambda>w. (None, w + 3 * go_second)), kc_Rand = (\<lambda>n w. (Some ''abcdefgh'', w)),
      kc_Cached = (\<lambda>l ns n w. (Some ready_object, w)), kc_GetDeployment = (\<lambda>ns n w. (Inr ready_object, w)),
      kc_ApplyDeployment = (\<lambda>ns n v w. (Inr ready_object, w)), kc_PatchDeployment = (\<lambda>ns n p w. (None, w)),
      kc_CreateSnapshot = (\<lambda>ns v w. (None, w)), kc_GetSnapshot = (\<lambda>ns n w. (Inr ready_object, w)),
      kc_CreateEvent = (\<lambda>ns e w. (None, w)), kc_GetConfigMap = (\<lambda>ns n w. (Inr empty_config_map, w)),
      kc_CreateConfigMap = (\<lambda>ns c w. (Inr c, w)), kc_UpdateConfigMap = (\<lambda>ns c w. (None, w)),
      kc_ListConfigMaps = (\<lambda>ns s w. (Inr [], w)), kc_SyncCache = (\<lambda>l w. ([], w))\<rparr>"

definition absent_cluster :: "int kube" where
  "absent_cluster = ready_cluster\<lparr>kc_Cached := (\<lambda>l ns n w. (None, w)),
     kc_GetDeployment := (\<lambda>ns n w. (Inl (NotFound ''not found''), w))\<rparr>"

definition demo_config :: Config where
  "demo_config =
     \<lparr>cfg_LeaseNamespace = [], cfg_SlotBudget = 0, cfg_WatchNamespaces = [], cfg_LocalStoragePath = [],
      cfg_DefaultFlinkConfig = Some [(''state.backend.type'', ''rocksdb'')], cfg_ObserveTimeout = 0,
      cfg_SavepointTimeout = 0, cfg_PollInterval = 0, cfg_ResyncPeriod = 0\<rparr>"

definition demo_backend :: Backend where
  "demo_backend = newWithClients demo_config"

lemma demo_read:
  "getFlinkDeployment ready_cluster demo_backend ns n w = (Inr ready_object, w)"
  by (simp add: demo_backend_def get_reads demo_config_def ready_cluster_def)

lemma ready: "job_ready ready_object"
  by (simp add: job_ready_def nested_def ready_object_def)

lemma ready_observed:
  "KubeObserveDeployment ready_cluster demo_backend input w =
     Some (Inr ((fst (observedHealth ready_object))\<lparr>hs_ObservedAt := w\<rparr>), w)"
  by (simp add: KubeObserveDeployment_def observe_loop.simps observe_round_def observe_read_def demo_read
      ready_health(2) ready Let_def) (simp add: ready_cluster_def)

lemma demo_savepoint:
  "KubeObserveSavepoint ready_cluster demo_backend input w = Some (Inr (savepointRecord input [] w), w)"
proof -
  have "to_upper ''COMPLETED'' = ''COMPLETED''" by code_simp
  then show ?thesis
    by (simp add: KubeObserveSavepoint_def savepoint_loop.simps savepoint_round_def savepoint_read_def
        ready_cluster_def nested_def ready_object_def Let_def)
qed

definition demo_trigger :: "DeploymentIdentity \<Rightarrow> SavepointTrigger" where
  "demo_trigger d =
     \<lparr>tr_TriggerID = id_Name d @ ''-sp-'' @ hex_encode ''abcdefgh'', tr_FlinkJobID = ''job-'' @ id_Name d\<rparr>"

lemma demo_triggered:
  "KubeTriggerSavepoint ready_cluster demo_backend input w = (Inr (demo_trigger (ti_Identity input)), w)"
  by (simp add: KubeTriggerSavepoint_def demo_read randID_def demo_trigger_def Let_def)
     (simp add: ready_cluster_def ready_object_def)

lemma demo_applied:
  "KubeApplyDeployment ready_cluster demo_backend input w =
     (Inr (case KubeApplyDeployment ready_cluster demo_backend input w of (Inr r, _) \<Rightarrow> r), w)"
  by (simp add: KubeApplyDeployment_def ready_cluster_def Let_def)

lemma demo_services:
  "svc_Now (kube_services K b clk) = clk"
  "svc_ValidateDeployment (kube_services K b clk) opts = KubeValidateDeployment"
  "svc_ApplyDeployment (kube_services ready_cluster demo_backend clk) opts i w =
     (Inr (case KubeApplyDeployment ready_cluster demo_backend i w of (Inr r, _) \<Rightarrow> r), w)"
  "svc_ObserveDeployment (kube_services ready_cluster demo_backend clk) opts oi w =
     (Inr ((fst (observedHealth ready_object))\<lparr>hs_ObservedAt := w\<rparr>), w)"
  "svc_TriggerSavepoint (kube_services ready_cluster demo_backend clk) opts t w = (Inr (demo_trigger (ti_Identity t)), w)"
  "svc_ObserveSavepoint (kube_services ready_cluster demo_backend clk) opts os w = (Inr (savepointRecord os [] w), w)"
  "svc_StartChild (kube_services K b clk) c v = (Inr (), v)"
  by (simp_all add: kube_services_def ready_observed demo_savepoint demo_triggered demo_applied [symmetric])

definition kube_run :: "rollout_outcome \<times> int ctx" where
  "kube_run = RolloutWorkflow (kube_services ready_cluster demo_backend id) ''flink-rollout/op-1'' graph_rollout ([], 7)"

lemma ready_gate:
  "EvaluateHealth ((fst (observedHealth ready_object))\<lparr>hs_ObservedAt := w\<rparr>) (DefaultPolicy ''dev'') = Inr ()"
  by (simp add: ready_health(3) ready EvaluateHealth_ok_iff DefaultPolicy_def zero_HealthSummary_def f_lt_constants)

lemma kube_run_delivers:
  "delivered (fst kube_run) = Inr (the (fst (fst kube_run)))"
  by (simp add: kube_run_def RolloutWorkflow_def Let_def rollout_class_def demo_class demo_valid demo_fields
      exec_defs execute_def rollout_body_def rollout_savepoint_def rollout_apply_def ExecuteChildWorkflow_def
      SavepointWorkflow_def observe_input_def with_generation_def with_health_def with_savepoint_def
      demo_services KubeValidateDeployment_def ready_gate)

subsection \<open>The properties at these clusters\<close>

theorem kube_rollout_success_witness:
  "\<exists>obj w1 w2. getFlinkDeployment ready_cluster demo_backend ''jobs'' ''wiki'' w1 = (Inr obj, w2) \<and> job_ready obj"
proof -
  have "RolloutWorkflow (kube_services ready_cluster demo_backend id) ''flink-rollout/op-1'' graph_rollout ([], 7) =
      (fst kube_run, (fst (snd kube_run), snd (snd kube_run)))"
    by (simp add: kube_run_def)
  from kube_rollout_success [OF this kube_run_delivers] show ?thesis
    by (simp add: demo_fields DefaultPolicy_def) (simp add: demo_identity_def)
qed

theorem observe_deployment_returns_witness:
  "\<exists>out. KubeObserveDeployment absent_cluster demo_backend \<lparr>oi_Identity = demo_identity, oi_Version = demo_version\<rparr> 5 = Some out"
  by (rule observe_deployment_returns [of absent_cluster id])
     (simp add: clock_runs_def absent_cluster_def ready_cluster_def go_second_def)

theorem stale_status_passes_witness:
  "\<exists>h w'. KubeObserveDeployment ready_cluster demo_backend \<lparr>oi_Identity = demo_identity, oi_Version = demo_version\<rparr> 5
     = Some (Inr h, w') \<and> EvaluateHealth h (DefaultPolicy ''prod'') = Inr ()"
  by (rule stale_status_passes [OF demo_read ready])

definition demo_observe_savepoint :: ObserveSavepointInput where
  "demo_observe_savepoint =
     \<lparr>os_Identity = demo_identity, os_Version = demo_version, os_Trigger = demo_trigger demo_identity\<rparr>"

theorem savepoint_recorded_witness:
  "sp_DeploymentVersion (savepointRecord demo_observe_savepoint [] 5) = 1"
proof -
  have "KubeObserveSavepoint ready_cluster demo_backend demo_observe_savepoint 5 =
      Some (Inr (savepointRecord demo_observe_savepoint [] 5), 5)" by (rule demo_savepoint)
  from savepoint_recorded [OF this] show ?thesis
    by (auto simp: demo_observe_savepoint_def demo_version_def zero_DeploymentVersion_def)
qed

theorem backend_configured_witness:
  "map_find (be_defaults demo_backend) ''state.backend.type'' = Some ''rocksdb'' \<and>
   newWithClients (be_cfg demo_backend) = demo_backend"
  using backend_configured [of demo_config]
  by (simp add: demo_backend_def [symmetric] Let_def) (simp add: demo_config_def map_wf_def map_find_def)

subsection \<open>Rendered configurations\<close>

definition demo_apply :: ApplyDeploymentInput where
  "demo_apply =
     \<lparr>ap_Identity = demo_identity, ap_Version = demo_version, ap_SavepointURI = [], ap_Previous = None,
      ap_Rollback = False, ap_Incident = False, ap_GitOpsOnly = False\<rparr>"

theorem flink_configuration_precedence_witness:
  "\<exists>m. map_of (flink_spec demo_apply (be_defaults demo_backend) ''/data'') ''flinkConfiguration'' = Some (toStringMap m) \<and>
     map_find m ''high-availability.type'' = Some ''kubernetes'' \<and> map_find m ''state.backend.type'' = Some ''rocksdb''"
proof -
  have d: "be_defaults demo_backend =
      Some [(''state.backend.type'', ''rocksdb''), (''execution.checkpointing.interval'', ''10s'')]"
    by (simp add: demo_backend_def newWithClients_def demo_config_def withDefaults_def copy_into_def
        baseFlinkDefaults_def map_put_def Let_def)
  then have "map_wf (be_defaults demo_backend)" "map_wf (spec_FlinkConfig (ver_Spec (ap_Version demo_apply)))"
    by (simp_all add: map_wf_def demo_apply_def demo_version_def demo_spec_def)
  from flink_configuration_precedence [OF this, of "''/data''"] show ?thesis
    by (auto simp: d configured_def map_find_def demo_apply_def demo_version_def demo_spec_def storage_defaults_def)
qed

theorem max_parallelism_bypass_witness:
  "cls_Risk (ClassifyChange (Some demo_version) (lowered_by_config (ver_Spec demo_version)) (DefaultPolicy ''prod'')) = RiskSafe \<and>
   map_find (flink_configuration (lowered_by_config (ver_Spec demo_version)) (be_defaults demo_backend) [])
     ''pipeline.max-parallelism'' = Some ''1''"
proof -
  have "map_wf (be_defaults demo_backend)"
    by (simp add: demo_backend_def newWithClients_def demo_config_def withDefaults_def copy_into_def
        baseFlinkDefaults_def map_put_def map_wf_def Let_def)
  moreover have "spec_wf (ver_Spec demo_version)" "\<not> declares_incompatible (ver_Spec demo_version)"
      "spec_FlinkConfig (ver_Spec demo_version) = None"
    by (simp_all add: demo_version_def demo_spec_def spec_wf_def declares_incompatible_def map_wf_def shape_of_slots_def)
  ultimately show ?thesis using max_parallelism_bypass [of demo_version] by simp
qed

end
