(* ===== verification/Api_Types.thy ===== *)
theory Api_Types
  imports Api_Examples
begin

text \<open>
  The types of the API: which endpoint answers with which status and which kind of content, on every
  path through its handler. The SDK decodes successful answers by the endpoint and takes the message
  of all others from their one member \<open>error\<close>.
\<close>

definition error_map :: "(string \<times> string) list \<Rightarrow> bool" where
  "error_map kvs \<longleftrightarrow> map fst kvs = [''error'']"

definition accepted_keys :: "(string \<times> string) list \<Rightarrow> bool" where
  "accepted_keys kvs \<longleftrightarrow> map fst kvs = [''operationId'', ''status'', ''workflowId'']"

text \<open>A conflict is what a frozen cluster answers, to commands alone. A connection broken off by a panic has
  no type.\<close>

definition api_type :: "endpoint \<Rightarrow> nat \<Rightarrow> content \<Rightarrow> bool" where
  "api_type e n c =
     (case c of
        CJson (ReplyCards _) \<Rightarrow> e = EndSummary \<and> n = 200
      | CJson (ReplyList _) \<Rightarrow> e = EndList \<and> n = 200
      | CJson (ReplyCluster _) \<Rightarrow> e = EndDescribeCluster \<and> n = 200
      | CJson (ReplyClusterCommand k) \<Rightarrow> e = EndCluster (cc_Type k) \<and> n = 202
      | CJson (ReplyView _) \<Rightarrow> e = EndDescribe \<and> n = 200
      | CJson (ReplyVersions _) \<Rightarrow> e = EndVersions \<and> n = 200
      | CJson (ReplyMap kvs) \<Rightarrow>
          error_map kvs \<and> (n \<in> {400, 502} \<or> n = 409 \<and> command_type e \<noteq> None) \<or>
          accepted_keys kvs \<and> n = 202 \<and> command_type e \<noteq> None \<or>
          map fst kvs = [''workflowId''] \<and> n = 201 \<and> e = EndRegister \<or>
          map fst kvs = [''status''] \<and> n = 200 \<and> e = EndHealthz
      | CFile _ \<Rightarrow> n = 200 \<and> e \<in> {EndDocs, EndLogin, EndUI, EndIndex}
      | CText _ \<Rightarrow> n = 404 \<and> e = EndIndex
      | CRedirect _ \<Rightarrow> n = 301 \<and> e = EndSwagger
      | CAborted \<Rightarrow> False)"

lemmas response_defs = writeError_def writeJSON_def bad_gateway_def reply_def

text \<open>A control service whose operations do not panic.\<close>

definition calm :: "'w control \<Rightarrow> bool" where
  "calm C \<longleftrightarrow>
     (\<forall>i p w. fst (ctl_EnsureDeploymentActor C i p w) \<noteq> Inl Panicked) \<and>
     (\<forall>i c w. fst (ctl_SendCommand C i c w) \<noteq> Inl Panicked) \<and>
     (\<forall>opts w. map_option fst (ctl_ListDeployments C opts w) \<noteq> Some (Inl Panicked)) \<and>
     (\<forall>w. map_option fst (ctl_DescribeAll C w) \<noteq> Some (Inl Panicked)) \<and>
     (\<forall>i w. fst (ctl_Describe C i w) \<noteq> Inl Panicked) \<and>
     (\<forall>i w. fst (ctl_Versions C i w) \<noteq> Inl Panicked) \<and>
     (\<forall>e n c w. fst (ctl_SetClusterFreeze C e n c w) \<noteq> Inl Panicked) \<and>
     (\<forall>e n w. fst (ctl_DescribeCluster C e n w) \<noteq> Inl Panicked)"

lemma calm_errors:
  assumes "calm C"
  shows "ctl_EnsureDeploymentActor C i p w = (Inl x, w') \<Longrightarrow> x \<noteq> Panicked" "ctl_SendCommand C i c w = (Inl x, w') \<Longrightarrow> x \<noteq> Panicked"
    "ctl_ListDeployments C opts w = Some (Inl x, w') \<Longrightarrow> x \<noteq> Panicked" "ctl_DescribeAll C w = Some (Inl x, w') \<Longrightarrow> x \<noteq> Panicked"
    "ctl_Describe C i w = (Inl x, w') \<Longrightarrow> x \<noteq> Panicked" "ctl_Versions C i w = (Inl x, w') \<Longrightarrow> x \<noteq> Panicked"
    "ctl_SetClusterFreeze C env n k w = (Inl x, w') \<Longrightarrow> x \<noteq> Panicked" "ctl_DescribeCluster C env n w = (Inl x, w') \<Longrightarrow> x \<noteq> Panicked"
  using assms unfolding calm_def by (metis fst_conv option.simps(9))+

lemma error_types [simp]:
  "api_type e (rp_Status (writeError 400 m)) (rp_Content (writeError 400 m))"
  "x \<noteq> Panicked \<Longrightarrow> api_type e (rp_Status (bad_gateway x)) (rp_Content (bad_gateway x))"
  "command_type e \<noteq> None \<Longrightarrow> api_type e (rp_Status (writeError 409 m)) (rp_Content (writeError 409 m))"
  by (auto simp: api_type_def error_map_def response_defs split: service_error.split)

lemma command_typed:
  assumes "calm C" and "command_handler C r b decoded t requester fill w = (rp, w')" and "command_type e = Some t"
  shows "api_type e (rp_Status rp) (rp_Content rp)"
proof -
  have "api_type e (rp_Status rp') (rp_Content rp')" if "send C r b c w1 = (rp', w2)" for c w1 rp' w2
    using that assms(3)
    by (auto simp: send_def Let_def split: prod.splits sum.splits service_error.splits dest: calm_errors [OF assms(1)])
      (simp add: api_type_def accepted_keys_def writeJSON_def reply_def)
  with assms(2) show ?thesis
    by (auto simp: command_handler_def split: sum.splits prod.splits)
qed

lemma read_types:
  assumes "calm C"
  shows "describeCluster C b w = (rp, w') \<Longrightarrow> api_type EndDescribeCluster (rp_Status rp) (rp_Content rp)"
    "describe C b w = (rp, w') \<Longrightarrow> api_type EndDescribe (rp_Status rp) (rp_Content rp)"
    "versions C b w = (rp, w') \<Longrightarrow> api_type EndVersions (rp_Status rp) (rp_Content rp)"
    "register C r b w = (rp, w') \<Longrightarrow> api_type EndRegister (rp_Status rp) (rp_Content rp)"
    "deploymentSummary C w = Some (rp, w') \<Longrightarrow> api_type EndSummary (rp_Status rp) (rp_Content rp)"
    "listDeployments C r w = Some (rp, w') \<Longrightarrow> api_type EndList (rp_Status rp) (rp_Content rp)"
    "clusterCommand C t r b w = (rp, w') \<Longrightarrow> api_type (EndCluster t) (rp_Status rp) (rp_Content rp)"
  by (auto simp: describeCluster_def describe_def versions_def register_def deploymentSummary_def listDeployments_def
      clusterCommand_def Let_def split: sum.splits prod.splits option.splits service_error.splits dest: calm_errors [OF assms])
    (auto simp: api_type_def writeJSON_def reply_def)

lemma endpoint_typed:
  assumes calm: "calm C" and "e \<notin> {EndOAuthStart, EndOAuthCallback, EndLogout}"
  shows "case api_endpoint C e r b w of
     None \<Rightarrow> e \<in> {EndSummary, EndList}
   | Some (rp, w') \<Rightarrow> api_type e (rp_Status rp) (rp_Content rp)"
  using assms(2)
proof (cases e)
  case EndSummary
  then show ?thesis by (auto simp: api_endpoint_def dest: read_types [OF calm] split: option.split)
next
  case EndList
  then show ?thesis by (auto simp: api_endpoint_def dest: read_types [OF calm] split: option.split)
next
  case EndDeploy
  then show ?thesis by (auto simp: api_endpoint_def deployHandler_def intro: command_typed [OF calm] split: prod.split)
next
  case (EndSimple t)
  then show ?thesis by (auto simp: api_endpoint_def simpleCommand_def intro: command_typed [OF calm] split: prod.split)
next
  case EndRollback
  then show ?thesis by (auto simp: api_endpoint_def rollbackHandler_def intro: command_typed [OF calm] split: prod.split)
next
  case EndScale
  then show ?thesis by (auto simp: api_endpoint_def scaleHandler_def intro: command_typed [OF calm] split: prod.split)
qed (auto simp: api_endpoint_def dest: read_types [OF calm] split: prod.split, auto simp: api_type_def writeJSON_def reply_def)

subsection \<open>The control service does not panic\<close>

lemma list_calm:
  fixes T :: "'w temporal"
  assumes "ListDeployments T options ctx = Some (l, ctx')"
  shows "l \<noteq> Inl Panicked"
proof -
  let ?P = "\<lambda>(T :: 'w temporal) options limit cursor acc ctx (out :: DeploymentList service_result \<times> 'w cctx). fst out \<noteq> Inl Panicked"
  have loop: "?P T options limit cursor acc ctx out" if "list_loop T options limit cursor acc ctx = Some out"
    for T :: "'w temporal" and options limit cursor acc ctx out
  proof (rule list_loop.raw_induct [where P = ?P, OF _ that])
    fix loop and T :: "'w temporal" and options limit cursor acc ctx and out :: "DeploymentList service_result \<times> 'w cctx"
    assume IH: "\<And>T options limit cursor acc ctx out. loop T options limit cursor acc ctx = Some out \<Longrightarrow>
        ?P T options limit cursor acc ctx out"
      and step: "(case list_round T options limit cursor acc ctx of Inl out \<Rightarrow> Some out
        | Inr (cursor', acc', ctx') \<Rightarrow> loop T options limit cursor' acc' ctx') = Some out"
    show "?P T options limit cursor acc ctx out"
    proof (cases "list_round T options limit cursor acc ctx")
      case (Inl o')
      then show ?thesis using step
        by (auto simp: list_round_def Let_def split: if_splits prod.splits sum.splits option.splits)
    next
      case (Inr x)
      then show ?thesis using step IH by (auto split: prod.splits)
    qed
  qed
  from assms show ?thesis
    by (auto simp: ListDeployments_def decodeDeploymentListCursor_def dest!: loop split: sum.splits if_splits option.splits)
qed

lemma service_calm:
  assumes "sint (sv_ActorShards s) < 2 ^ 32"
  shows "calm (service_control T s schedule clk de)"
proof -
  have start: "r \<noteq> Inl Panicked" if "start_workflow T s what i input c = (r, c')" for what i input c r c'
    using that by (cases rule: start_workflow_cases)
      (use shard_polled [OF assms, of "sv_ActorTaskQueue s" i] in \<open>auto simp: actorQueueFor_def split: option.splits start_error.splits\<close>)
  have ask: "r \<noteq> Inl Panicked" if "query f i n x y z c = (r, c')"
    for f :: "string \<Rightarrow> string \<Rightarrow> 'a \<Rightarrow> 'b payload result \<times> 'a" and i n x y z c r c'
    using that by (auto simp: query_def split: prod.splits sum.splits)
  have signal: "r \<noteq> Inl Panicked" if "send_signal T i n a f c = (r, c')" for i n a f c r c'
    using that by (auto simp: send_signal_def split: prod.splits option.splits)
  have cluster: "r \<noteq> Inl Panicked" if "EnsureClusterActor T s e n c = (r, c')" for e n c r c'
    using that start by (auto simp: EnsureClusterActor_def Let_def)
  have ensure: "r \<noteq> Inl Panicked" if "EnsureDeploymentActor T s i p c = (r, c')" for i p c r c'
    using that start cluster by (auto simp: EnsureDeploymentActor_def split: prod.splits sum.splits)
  have read: "r \<noteq> Inl Panicked" if "DescribeCluster T e n c = (r, c')" for e n c r c'
    using that by (auto simp: DescribeCluster_def Let_def dest: ask)
  have command: "r \<noteq> Inl Panicked" if "SendCommand T s i k c = (r, c')" for i k c r c'
    using that by (auto simp: SendCommand_def split: prod.splits sum.splits if_splits dest: ensure read signal)
  have freeze: "r \<noteq> Inl Panicked" if "SetClusterFreeze T s e n k c = (r, c')" for e n k c r c'
    using that by (auto simp: SetClusterFreeze_def split: prod.splits sum.splits dest: cluster signal)
  have cards: "r \<noteq> Inl Panicked" if "DescribeAll T schedule c = Some (r, c')" for c r c'
    using that by (auto simp: DescribeAll_def split: option.splits sum.splits prod.splits dest: list_calm)
  have views: "r \<noteq> Inl Panicked" if "Describe T i c = (r, c')" for i c r c'
    using that by (auto simp: Describe_def dest: ask)
  have vs: "r \<noteq> Inl Panicked" if "Versions T i c = (r, c')" for i c r c'
    using that by (auto simp: Versions_def dest: ask)
  show ?thesis unfolding calm_def
    by (intro conjI allI notI; simp add: service_control_def)
      (metis prod.collapse ensure, metis prod.collapse command, auto dest: list_calm cards,
       (metis prod.collapse views vs freeze read)+)
qed



end
