(* ===== verification/Registration.thy ===== *)
theory Registration
  imports Deployment_Actor Simulated
begin

text \<open>
  Registration (register.go, the names in activities/types.go). A workflow schedules an activity by its
  name, and Temporal runs what a worker has registered under that name; so the record \<open>services\<close> that
  the workflows take is what \<open>RegisterActivities\<close> makes of a backend only if each name stands for the
  same method on both sides. Workflows are registered and started by the name of their function.
\<close>

subsection \<open>Names\<close>

datatype activity_type =
  ValidateDeployment_type | AcquireLease_type | ReleaseLease_type | ApplyDeployment_type | ObserveDeployment_type
| TriggerSavepoint_type | ObserveSavepoint_type | SetJobState_type | RecordAudit_type

fun activity_name :: "activity_type \<Rightarrow> string" where
  "activity_name ValidateDeployment_type = ''ValidateDeployment''"
| "activity_name AcquireLease_type = ''AcquireCapacityLease''"
| "activity_name ReleaseLease_type = ''ReleaseCapacityLease''"
| "activity_name ApplyDeployment_type = ''ApplyDeployment''"
| "activity_name ObserveDeployment_type = ''ObserveDeployment''"
| "activity_name TriggerSavepoint_type = ''TriggerSavepoint''"
| "activity_name ObserveSavepoint_type = ''ObserveSavepoint''"
| "activity_name SetJobState_type = ''SetJobState''"
| "activity_name RecordAudit_type = ''RecordAudit''"

definition all_activities :: "activity_type list" where
  "all_activities =
     [ValidateDeployment_type, AcquireLease_type, ReleaseLease_type, ApplyDeployment_type, ObserveDeployment_type,
      TriggerSavepoint_type, ObserveSavepoint_type, SetJobState_type, RecordAudit_type]"

lemma all_activities: "t \<in> set all_activities"
  by (cases t) (simp_all add: all_activities_def)

definition RegisterWorkflows :: "string list" where
  "RegisterWorkflows =
     [''ClusterActorWorkflow'', ''DeploymentActorWorkflow'', ''RolloutWorkflow'', ''SavepointWorkflow'']"

subsection \<open>What a worker runs\<close>

text \<open>The methods of a backend, each with its own input and result.\<close>

datatype 'w activity_method =
  ValidateMethod "ActivityOptions \<Rightarrow> ValidateDeploymentInput \<Rightarrow> 'w \<Rightarrow> unit result \<times> 'w"
| AcquireMethod "ActivityOptions \<Rightarrow> AcquireLeaseInput \<Rightarrow> 'w \<Rightarrow> Lease result \<times> 'w"
| ReleaseMethod "ActivityOptions \<Rightarrow> string \<Rightarrow> 'w \<Rightarrow> unit result \<times> 'w"
| ApplyMethod "ActivityOptions \<Rightarrow> ApplyDeploymentInput \<Rightarrow> 'w \<Rightarrow> ApplyDeploymentResult result \<times> 'w"
| ObserveMethod "ActivityOptions \<Rightarrow> ObserveDeploymentInput \<Rightarrow> 'w \<Rightarrow> HealthSummary result \<times> 'w"
| TriggerMethod "ActivityOptions \<Rightarrow> TriggerSavepointInput \<Rightarrow> 'w \<Rightarrow> SavepointTrigger result \<times> 'w"
| ObserveSavepointMethod "ActivityOptions \<Rightarrow> ObserveSavepointInput \<Rightarrow> 'w \<Rightarrow> SavepointRecord result \<times> 'w"
| SetJobStateMethod "ActivityOptions \<Rightarrow> SetJobStateInput \<Rightarrow> 'w \<Rightarrow> unit result \<times> 'w"
| AuditMethod "ActivityOptions \<Rightarrow> AuditEvent \<Rightarrow> 'w \<Rightarrow> unit result \<times> 'w"

definition RegisterActivities :: "'w services \<Rightarrow> (string \<times> 'w activity_method) list" where
  "RegisterActivities B =
     [(activity_name ValidateDeployment_type, ValidateMethod (svc_ValidateDeployment B)),
      (activity_name AcquireLease_type, AcquireMethod (svc_AcquireCapacityLease B)),
      (activity_name ReleaseLease_type, ReleaseMethod (svc_ReleaseCapacityLease B)),
      (activity_name ApplyDeployment_type, ApplyMethod (svc_ApplyDeployment B)),
      (activity_name ObserveDeployment_type, ObserveMethod (svc_ObserveDeployment B)),
      (activity_name TriggerSavepoint_type, TriggerMethod (svc_TriggerSavepoint B)),
      (activity_name ObserveSavepoint_type, ObserveSavepointMethod (svc_ObserveSavepoint B)),
      (activity_name SetJobState_type, SetJobStateMethod (svc_SetJobState B)),
      (activity_name RecordAudit_type, AuditMethod (svc_RecordAudit B))]"

text \<open>Scheduling by name: \<open>f\<close> picks the method out if it has the type the workflow expects; a name that
  is not registered, or has another type, fails the activity in a way of Temporal's.\<close>

definition schedule ::
  "(string \<Rightarrow> 'w \<Rightarrow> go_error \<times> 'w) \<Rightarrow> (string \<times> 'w activity_method) list \<Rightarrow> activity_type \<Rightarrow>
   ('w activity_method \<Rightarrow> ('i \<Rightarrow> 'w \<Rightarrow> 'a result \<times> 'w) option) \<Rightarrow> 'i \<Rightarrow> 'w \<Rightarrow> 'a result \<times> 'w" where
  "schedule missing R t f i w =
     (case Option.bind (map_of R (activity_name t)) f of
        Some run \<Rightarrow> run i w
      | None \<Rightarrow> (case missing (activity_name t) w of (e, w') \<Rightarrow> (Inl e, w')))"

text \<open>The services of workflows whose activities run on a worker with the registry \<open>R\<close>.\<close>

definition services_by_name ::
  "(string \<Rightarrow> 'w \<Rightarrow> go_error \<times> 'w) \<Rightarrow> (string \<times> 'w activity_method) list \<Rightarrow> 'w services \<Rightarrow> 'w services" where
  "services_by_name missing R T =
     \<lparr>svc_Now = svc_Now T,
      svc_ValidateDeployment = (\<lambda>opts. schedule missing R ValidateDeployment_type (\<lambda>m. case m of ValidateMethod f \<Rightarrow> Some (f opts) | _ \<Rightarrow> None)),
      svc_AcquireCapacityLease = (\<lambda>opts. schedule missing R AcquireLease_type (\<lambda>m. case m of AcquireMethod f \<Rightarrow> Some (f opts) | _ \<Rightarrow> None)),
      svc_ReleaseCapacityLease = (\<lambda>opts. schedule missing R ReleaseLease_type (\<lambda>m. case m of ReleaseMethod f \<Rightarrow> Some (f opts) | _ \<Rightarrow> None)),
      svc_ApplyDeployment = (\<lambda>opts. schedule missing R ApplyDeployment_type (\<lambda>m. case m of ApplyMethod f \<Rightarrow> Some (f opts) | _ \<Rightarrow> None)),
      svc_ObserveDeployment = (\<lambda>opts. schedule missing R ObserveDeployment_type (\<lambda>m. case m of ObserveMethod f \<Rightarrow> Some (f opts) | _ \<Rightarrow> None)),
      svc_TriggerSavepoint = (\<lambda>opts. schedule missing R TriggerSavepoint_type (\<lambda>m. case m of TriggerMethod f \<Rightarrow> Some (f opts) | _ \<Rightarrow> None)),
      svc_ObserveSavepoint = (\<lambda>opts. schedule missing R ObserveSavepoint_type (\<lambda>m. case m of ObserveSavepointMethod f \<Rightarrow> Some (f opts) | _ \<Rightarrow> None)),
      svc_SetJobState = (\<lambda>opts. schedule missing R SetJobState_type (\<lambda>m. case m of SetJobStateMethod f \<Rightarrow> Some (f opts) | _ \<Rightarrow> None)),
      svc_RecordAudit = (\<lambda>opts. schedule missing R RecordAudit_type (\<lambda>m. case m of AuditMethod f \<Rightarrow> Some (f opts) | _ \<Rightarrow> None)),
      svc_StartChild = svc_StartChild T, svc_ChildError = svc_ChildError T\<rparr>"

subsection \<open>Names reach their methods\<close>

text \<open>Temporal refuses a name that is registered twice.\<close>

lemma names_distinct: "distinct (map fst (RegisterActivities B))"
  by (simp add: RegisterActivities_def)

lemma names_registered: "map fst (RegisterActivities B) = map activity_name all_activities"
  by (simp add: RegisterActivities_def all_activities_def)

lemma schedule_found:
  "map_of R (activity_name t) = Some m \<Longrightarrow> f m = Some run \<Longrightarrow> schedule missing R t f = run"
  by (simp add: schedule_def fun_eq_iff)

lemma registered_services: "services_by_name missing (RegisterActivities B) B = B"
  by (cases B) (simp add: services_by_name_def RegisterActivities_def schedule_found)

text \<open>So a workflow cannot tell the registry from the backend it was filled from: what is proved of an
  actor or a rollout on a record of services holds of one whose activities are found by name.\<close>

lemma registered_runs:
  "DeploymentActorWorkflow (services_by_name missing (RegisterActivities B) B) = DeploymentActorWorkflow B"
  "RolloutWorkflow (services_by_name missing (RegisterActivities B) B) = RolloutWorkflow B"
  "SavepointWorkflow (services_by_name missing (RegisterActivities B) B) = SavepointWorkflow B"
  by (simp_all add: registered_services)

text \<open>The worker of the core module registers the simulated backend.\<close>

definition simulated_services :: "sim_world services" where
  "simulated_services = services_by_name (\<lambda>name w. (''unable to find activityType='' @ name, w)) (RegisterActivities sim_services) sim_services"

lemma simulated_services_sim: "simulated_services = sim_services"
  by (simp add: simulated_services_def registered_services)

end
