(* ===== verification/Parse_Float.thy ===== *)
theory Parse_Float
  imports Json_Decode
begin

text \<open>
  \<open>strconv.ParseFloat(s, 64)\<close>, which reads the floats of an environment: decimal and hexadecimal
  numbers with underscores between their digits, infinities and NaN. A value out of range is an error.
  Then the conversion to float32.
\<close>

subsection \<open>Digits\<close>

definition hex_value :: "char \<Rightarrow> nat option" where
  "hex_value c =
     (if is_digit c then Some (of_char c - 48)
      else if in_range 97 102 c then Some (of_char c - 87)
      else if in_range 65 70 c then Some (of_char c - 55)
      else None)"

definition float_digit :: "bool \<Rightarrow> char \<Rightarrow> nat option" where
  "float_digit hex c = (if hex \<or> is_digit c then hex_value c else None)"

text \<open>The mantissa: its digits as a number, how many of them follow the point, whether there was any,
  and the rest of the text. Underscores are skipped here and checked later.\<close>

fun read_mantissa :: "bool \<Rightarrow> bool \<Rightarrow> nat \<Rightarrow> nat \<Rightarrow> bool \<Rightarrow> string \<Rightarrow> nat \<times> nat \<times> bool \<times> string" where
  "read_mantissa hex dot v k saw [] = (v, k, saw, [])"
| "read_mantissa hex dot v k saw (c # s) =
     (if c = CHR ''_'' then read_mantissa hex dot v k saw s
      else if c = CHR ''.'' then
        (if dot then (v, k, saw, c # s) else read_mantissa hex True v k saw s)
      else case float_digit hex c of
             Some d \<Rightarrow> read_mantissa hex dot ((if hex then 16 else 10) * v + d) (if dot then k + 1 else k) True s
           | None \<Rightarrow> (v, k, saw, c # s))"

text \<open>The digits of an exponent stop counting at ten thousand.\<close>

fun read_exponent :: "nat \<Rightarrow> string \<Rightarrow> nat \<times> string" where
  "read_exponent e [] = (e, [])"
| "read_exponent e (c # s) =
     (if c = CHR ''_'' then read_exponent e s
      else if is_digit c then read_exponent (if e < 10000 then 10 * e + (of_char c - 48) else e) s
      else (e, c # s))"

text \<open>An underscore has to stand between two digits, or between the prefix and a digit.\<close>

datatype seen = SawStart | SawDigit | SawUnderscore | SawOther

fun underscores_ok :: "bool \<Rightarrow> seen \<Rightarrow> string \<Rightarrow> bool" where
  "underscores_ok hex saw [] \<longleftrightarrow> saw \<noteq> SawUnderscore"
| "underscores_ok hex saw (c # s) \<longleftrightarrow>
     (if float_digit hex c \<noteq> None then underscores_ok hex SawDigit s
      else if c = CHR ''_'' then saw = SawDigit \<and> underscores_ok hex SawUnderscore s
      else saw \<noteq> SawUnderscore \<and> underscores_ok hex SawOther s)"

definition hex_prefix :: "string \<Rightarrow> bool" where
  "hex_prefix s \<longleftrightarrow> take 2 s = ''0x'' \<or> take 2 s = ''0X''"

definition strip_sign :: "string \<Rightarrow> string" where
  "strip_sign s = (if s \<noteq> [] \<and> (hd s = CHR ''-'' \<or> hd s = CHR ''+'') then tl s else s)"

definition underscoreOK :: "string \<Rightarrow> bool" where
  "underscoreOK s =
     (let t = strip_sign s
      in if take 2 t \<in> {''0b'', ''0B'', ''0o'', ''0O''} \<or> hex_prefix t then underscores_ok (hex_prefix t) SawDigit (drop 2 t)
         else underscores_ok False SawStart t)"

subsection \<open>Numbers\<close>

text \<open>Infinities may have a sign, a NaN may not; case does not matter.\<close>

definition special_float :: "string \<Rightarrow> float64 option" where
  "special_float s =
     (if to_lower (strip_sign s) \<in> {''inf'', ''infinity''}
      then Some (f_signed (hd s = CHR ''-'') (2047 * 2 ^ 52))
      else if to_lower s = ''nan'' then Some (F64 0x7FF8000000000001)
      else None)"

definition read_float :: "string \<Rightarrow> float64 option" where
  "read_float s =
     (let neg = (s \<noteq> [] \<and> hd s = CHR ''-''); t = strip_sign s;
          hex = (hex_prefix t \<and> 2 < length t)
      in case read_mantissa hex False 0 0 False (if hex then drop 2 t else t) of
           (v, k, saw, r) \<Rightarrow>
             if \<not> saw \<or> (CHR ''_'' \<in> set s \<and> \<not> underscoreOK s) then None
             else if r = [] then (if hex then None else Some (f_of_decimal neg v (- int k)))
             else if hd r \<in> (if hex then {CHR ''p'', CHR ''P''} else {CHR ''e'', CHR ''E''}) then
               (let u = tl r; w = strip_sign u
                in if w = [] \<or> \<not> is_digit (hd w) then None
                   else case read_exponent 0 w of
                          (e, z) \<Rightarrow>
                            let i = (if hd u = CHR ''-'' then - int e else int e)
                            in if z \<noteq> [] then None
                               else Some (if hex then f_round neg v (i - 4 * int k) else f_of_decimal neg v (i - int k)))
             else None)"

definition ParseFloat :: "string \<Rightarrow> float64 option" where
  "ParseFloat s =
     (case special_float s of
        Some x \<Rightarrow> Some x
      | None \<Rightarrow> (case read_float s of Some x \<Rightarrow> if f_finite x then Some x else None | None \<Rightarrow> None))"

subsection \<open>Float32\<close>

type_synonym float32 = "32 word"

definition to_float32 :: "float64 \<Rightarrow> float32" where
  "to_float32 x =
     (let sgn = (if f_neg x then 2 ^ 31 else 0); m = f_mant x; e = f_scale x;
          e' = max (e + int (floorlog 2 m) - 24) (- 149);
          q = (if e' \<le> e then m * 2 ^ nat (e - e') else div_even m (2 ^ nat (e' - e)))
      in of_nat (sgn +
           (if f_nan x then 0x7FC00000
            else if f_inf x then 255 * 2 ^ 23
            else if m = 0 then 0
            else min (nat (e' + 149) * 2 ^ 23 + q) (255 * 2 ^ 23))))"

subsection \<open>Whole numbers\<close>

lemma mantissa_digits:
  "list_all is_digit s \<Longrightarrow> parse_digits v s = Some n \<Longrightarrow> read_mantissa False False v k saw s = (n, k, saw \<or> s \<noteq> [], [])"
proof (induction s arbitrary: v saw)
  case (Cons c s)
  from Cons.prems(1) have d: "is_digit c" and rest: "list_all is_digit s" by simp_all
  then have "c \<noteq> CHR ''_''" "c \<noteq> CHR ''.''" by (auto simp: is_digit_def in_range_def)
  moreover have "48 \<le> (of_char c :: nat) \<and> (of_char c :: nat) \<le> 57" using d by (simp add: is_digit_def in_range_def)
  then have "parse_digits (10 * v + (of_char c - 48)) s = Some n" using Cons.prems(2) by (simp add: Let_def)
  from Cons.IH [OF rest this, of True] have "read_mantissa False False (10 * v + (of_char c - 48)) k True s = (n, k, True, [])" by simp
  ultimately show ?case using d by (simp add: float_digit_def hex_value_def)
qed simp

lemma digits_first:
  assumes "is_digit c"
  shows "c \<noteq> CHR ''-''" "c \<noteq> CHR ''+''" "c \<noteq> CHR ''_''" "ascii_lower c = c" "c \<noteq> CHR ''i''" "c \<noteq> CHR ''n''" "c \<noteq> CHR ''x''" "c \<noteq> CHR ''X''"
  using assms by (auto simp: is_digit_def in_range_def ascii_lower_def)

text \<open>A whole number in decimal is read as the float nearest to it.\<close>

lemma ParseFloat_whole:
  assumes "f_finite (f_of_int (int n))"
  shows "ParseFloat (nat_dec n) = Some (f_of_int (int n))"
proof -
  let ?s = "nat_dec n"
  have ds: "list_all is_digit ?s" by (rule nat_dec_is_digits)
  obtain c s where s: "?s = c # s" by (cases ?s) simp_all
  have c: "is_digit c" using ds s by simp
  have strip: "strip_sign ?s = ?s" using digits_first [OF c] by (simp add: strip_sign_def s)
  have under: "CHR ''_'' \<notin> set ?s" using ds digits_first(3) by (auto simp: list_all_iff)
  have "\<not> hex_prefix ?s"
  proof (cases s)
    case (Cons d u)
    then have "is_digit d" using ds s by simp
    from digits_first(7,8) [OF this] show ?thesis by (simp add: hex_prefix_def s Cons)
  qed (simp add: hex_prefix_def s)
  moreover have "special_float ?s = None"
    using digits_first [OF c] by (auto simp: special_float_def strip, simp_all add: s to_lower_def)
  moreover have "f_of_decimal False n 0 = f_of_int (int n)" by (simp add: f_of_decimal_def f_of_int_def)
  moreover have "read_mantissa False False 0 0 False ?s = (n, 0, True, [])"
    using mantissa_digits [OF ds parse_digits_nat_dec] by simp
  ultimately show ?thesis
    using assms digits_first(1) [OF c] under by (simp add: ParseFloat_def read_float_def strip Let_def) (simp add: s)
qed

end
