(* ===== verification/Process_Wiring.thy ===== *)
theory Process_Wiring
  imports Configuration Control_Examples Kubernetes_Adapter Registration Parse_Float
begin

text \<open>
  How the programs are put together from their configuration (cmd/control-api, cmd/worker,
  backends/kubernetes/cmd/worker): the connections to Temporal and to the cluster, the service of the
  control API, the queues the workers poll and their limits.
\<close>

subsection \<open>The control API and the worker of the core module\<close>

record dial_options =
  do_HostPort :: string
  do_Namespace :: string
  do_APIKey :: "string option"
  do_TLS :: bool

definition core_dial :: "config_Config \<Rightarrow> dial_options" where
  "core_dial cfg =
     \<lparr>do_HostPort = tm_Address (cg_Temporal cfg), do_Namespace = tm_Namespace (cg_Temporal cfg),
      do_APIKey = None, do_TLS = False\<rparr>"

definition control_api_service :: "config_Config \<Rightarrow> Service" where
  "control_api_service cfg =
     NewService (at_TaskQueue (cg_Actor cfg)) (at_ActivityTaskQueue (cg_Actor cfg)) (at_ContinueAfter (cg_Actor cfg))
       (at_Shards (cg_Actor cfg))"

definition worker_actor_queues :: "config_Config \<Rightarrow> string list" where
  "worker_actor_queues cfg = ActorTaskQueues (at_TaskQueue (cg_Actor cfg)) (at_Shards (cg_Actor cfg))"

definition worker_activity_queue :: "config_Config \<Rightarrow> string" where
  "worker_activity_queue cfg = at_ActivityTaskQueue (cg_Actor cfg)"

definition worker_backend :: "config_Config \<Rightarrow> SimulatedActivities" where
  "worker_backend cfg = NewSimulated (sm_Delay (cg_Simulator cfg))"

subsection \<open>The Kubernetes worker\<close>

text \<open>It reads the environment only.\<close>

definition env_or :: "process_env \<Rightarrow> string \<Rightarrow> string \<Rightarrow> string" where
  "env_or P key fallback = (let v = pe_Getenv P key in if v \<noteq> [] then v else fallback)"

definition intEnv :: "process_env \<Rightarrow> string \<Rightarrow> go_int \<Rightarrow> go_int" where
  "intEnv P key fallback = (case atoi (pe_Getenv P key) of Some v \<Rightarrow> v | None \<Rightarrow> fallback)"

definition floatEnv :: "process_env \<Rightarrow> string \<Rightarrow> float64 \<Rightarrow> float64" where
  "floatEnv P key fallback = (case ParseFloat (pe_Getenv P key) of Some v \<Rightarrow> v | None \<Rightarrow> fallback)"

definition parse_bool :: "string \<Rightarrow> bool option" where
  "parse_bool s =
     (if s \<in> {''1'', ''t'', ''T'', ''true'', ''TRUE'', ''True''} then Some True
      else if s \<in> {''0'', ''f'', ''F'', ''false'', ''FALSE'', ''False''} then Some False
      else None)"

definition boolEnv :: "process_env \<Rightarrow> string \<Rightarrow> bool \<Rightarrow> bool" where
  "boolEnv P key fallback = (case parse_bool (pe_Getenv P key) of Some v \<Rightarrow> v | None \<Rightarrow> fallback)"

text \<open>\<open>strings.Split\<close> at every comma.\<close>

fun split_all :: "char \<Rightarrow> string \<Rightarrow> string list" where
  "split_all c [] = [[]]"
| "split_all c (x # s) =
     (if x = c then [] # split_all c s
      else case split_all c s of [] \<Rightarrow> [[x]] | p # ps \<Rightarrow> (x # p) # ps)"

definition splitNonEmpty :: "string \<Rightarrow> string list" where
  "splitNonEmpty value = filter (\<lambda>p. p \<noteq> []) (map trim_space (split_all (CHR '','') value))"

definition kube_worker_config :: "process_env \<Rightarrow> Config" where
  "kube_worker_config P =
     \<lparr>cfg_LeaseNamespace = env_or P ''FLINK_LEASE_NAMESPACE'' ''fcp-system'',
      cfg_SlotBudget = intEnv P ''FLINK_SLOT_BUDGET'' 4096,
      cfg_WatchNamespaces = splitNonEmpty (pe_Getenv P ''FLINK_WATCH_NAMESPACES''),
      cfg_LocalStoragePath = pe_Getenv P ''FLINK_LOCAL_STORAGE_PATH'', cfg_DefaultFlinkConfig = None,
      cfg_ObserveTimeout = 0, cfg_SavepointTimeout = 0, cfg_PollInterval = 0, cfg_ResyncPeriod = 0\<rparr>"

definition kube_actor_queues :: "process_env \<Rightarrow> string list" where
  "kube_actor_queues P =
     ActorTaskQueues (env_or P ''ACTOR_TASK_QUEUE'' ''flink-control-actors'') (intEnv P ''ACTOR_TASK_QUEUE_SHARDS'' 1)"

definition kube_activity_queue :: "process_env \<Rightarrow> string" where
  "kube_activity_queue P = env_or P ''ACTIVITY_TASK_QUEUE'' ''flink-control-activities''"

definition dialTemporal :: "process_env \<Rightarrow> dial_options" where
  "dialTemporal P =
     (let apiKey = pe_Getenv P ''TEMPORAL_API_KEY''
      in \<lparr>do_HostPort = env_or P ''TEMPORAL_ADDRESS'' ''localhost:7233'',
          do_Namespace = env_or P ''TEMPORAL_NAMESPACE'' ''default'',
          do_APIKey = (if apiKey \<noteq> [] then Some apiKey else None),
          do_TLS = (boolEnv P ''TEMPORAL_TLS'' False \<or> apiKey \<noteq> [])\<rparr>)"

text \<open>Two limits on concurrency, and a rate if it is positive; \<open>worker.Options{}\<close> leaves all to Temporal.\<close>

record worker_options =
  wo_MaxConcurrentActivityExecutionSize :: go_int
  wo_MaxConcurrentWorkflowTaskExecutionSize :: go_int
  wo_TaskQueueActivitiesPerSecond :: float64

definition no_options :: worker_options where
  "no_options =
     \<lparr>wo_MaxConcurrentActivityExecutionSize = 0, wo_MaxConcurrentWorkflowTaskExecutionSize = 0,
      wo_TaskQueueActivitiesPerSecond = f_zero\<rparr>"

definition kube_worker_options :: "process_env \<Rightarrow> worker_options" where
  "kube_worker_options P =
     (let perSecond = floatEnv P ''WORKER_ACTIVITIES_PER_SECOND'' f_zero
      in \<lparr>wo_MaxConcurrentActivityExecutionSize = intEnv P ''WORKER_MAX_CONCURRENT_ACTIVITIES'' 200,
          wo_MaxConcurrentWorkflowTaskExecutionSize = intEnv P ''WORKER_MAX_CONCURRENT_WORKFLOW_TASKS'' 200,
          wo_TaskQueueActivitiesPerSecond = (if f_lt f_zero perSecond then perSecond else f_zero)\<rparr>)"

text \<open>The cluster: its address and credentials from the pod, or from a file. \<open>filepath.Join\<close> leaves out empty
  parts and cleans the rest of dots and repeated slashes.\<close>

fun clean_parts :: "bool \<Rightarrow> string list \<Rightarrow> string list \<Rightarrow> string list" where
  "clean_parts rooted kept [] = rev kept"
| "clean_parts rooted kept (p # ps) =
     (if p = [] \<or> p = ''.'' then clean_parts rooted kept ps
      else if p \<noteq> ''..'' then clean_parts rooted (p # kept) ps
      else if kept \<noteq> [] \<and> hd kept \<noteq> ''..'' then clean_parts rooted (tl kept) ps
      else clean_parts rooted (if rooted then kept else p # kept) ps)"

fun join_slash :: "string list \<Rightarrow> string" where
  "join_slash [] = []"
| "join_slash [p] = p"
| "join_slash (p # ps) = p @ CHR ''/'' # join_slash ps"

definition path_clean :: "string \<Rightarrow> string" where
  "path_clean s =
     (let rooted = (s \<noteq> [] \<and> hd s = CHR ''/''); rest = join_slash (clean_parts rooted [] (split_all (CHR ''/'') s))
      in if rooted then CHR ''/'' # rest else if rest = [] then ''.'' else rest)"

definition path_join :: "string list \<Rightarrow> string" where
  "path_join ps = (case filter (\<lambda>p. p \<noteq> []) ps of [] \<Rightarrow> [] | qs \<Rightarrow> path_clean (join_slash qs))"

datatype rest_source = InClusterConfig | FromKubeconfig string

record rest_config =
  rc_Source :: rest_source
  rc_QPS :: float32
  rc_Burst :: go_int

definition kubeconfig_path :: "process_env \<Rightarrow> string \<Rightarrow> string" where
  "kubeconfig_path P home =
     (let kubeconfig = pe_Getenv P ''KUBECONFIG''
      in if kubeconfig = [] then path_join [home, ''.kube'', ''config''] else kubeconfig)"

definition kube_rest_config :: "process_env \<Rightarrow> rest_source \<Rightarrow> rest_config" where
  "kube_rest_config P source =
     \<lparr>rc_Source = source, rc_QPS = to_float32 (floatEnv P ''KUBE_CLIENT_QPS'' (f_of_int 50)),
      rc_Burst = intEnv P ''KUBE_CLIENT_BURST'' 100\<rparr>"

subsection \<open>Facts about the pieces\<close>

lemma rate_positive_or_none: "f_lt f_zero (wo_TaskQueueActivitiesPerSecond (kube_worker_options P)) \<or>
    wo_TaskQueueActivitiesPerSecond (kube_worker_options P) = f_zero"
  by (simp add: kube_worker_options_def Let_def)

lemma default_kubeconfig: "pe_Getenv P ''KUBECONFIG'' = [] \<Longrightarrow> kubeconfig_path P ''/root/'' = ''/root/.kube/config''"
  by (simp add: kubeconfig_path_def path_join_def path_clean_def Let_def)

lemma queues_nonempty: "ActorTaskQueues base shards \<noteq> []"
proof (cases "go_le shards 1")
  case False
  then have "0 < nat (sint shards)" by simp
  then show ?thesis using False by (simp add: ActorTaskQueues_def)
qed (simp add: ActorTaskQueues_def)

lemma split_all_join: "concat (map (\<lambda>p. c # p) (split_all c s)) = c # s \<and> split_all c s \<noteq> [] \<and> (\<forall>p \<in> set (split_all c s). c \<notin> set p)"
  by (induction s) (auto split: list.splits)

lemma watch_namespaces_nonempty: "[] \<notin> set (splitNonEmpty value)"
  by (auto simp: splitNonEmpty_def)

lemma api_key_needs_tls: "do_APIKey (dialTemporal P) \<noteq> None \<Longrightarrow> do_TLS (dialTemporal P)"
  by (simp add: dialTemporal_def Let_def split: if_splits)

lemma atoi_empty: "atoi [] = None"
  by (simp add: atoi_def parse_nat_def)

lemma envs_agree:
  "envStr P key fallback = env_or P key fallback" "envInt P key n = intEnv P key n"
  by (simp_all add: envStr_def env_or_def envInt_def intEnv_def atoi_empty Let_def)

text \<open>The actor part of the configuration, when the file leaves it alone.\<close>

lemma Load_actor:
  assumes "cg_Actor (loadFile P config_defaults) = cg_Actor config_defaults"
  shows "worker_actor_queues (Load P) = kube_actor_queues P" "worker_activity_queue (Load P) = kube_activity_queue P"
  using assms by (simp_all add: Load_def applyEnv_def Let_def worker_actor_queues_def kube_actor_queues_def
      worker_activity_queue_def kube_activity_queue_def config_defaults_def envs_agree)

subsection \<open>Every actor is polled\<close>

lemma service_shards:
  "ActorTaskQueues (sv_ActorTaskQueue (control_api_service cfg)) (sv_ActorShards (control_api_service cfg)) = worker_actor_queues cfg"
  by (simp add: control_api_service_def NewService_def worker_actor_queues_def ActorTaskQueues_def)

text \<open>With the same environment and file, and fewer than two to the 32 shards, the configured queues are
  those of the actors the control API starts.\<close>

lemma actors_polled:
  assumes "EnsureDeploymentActor T (control_api_service (Load P)) identity policy ctx = (r, ctx')"
    and "sint (at_Shards (cg_Actor (Load P))) < 2 ^ 32"
  shows "\<exists>cs. fst ctx' = fst ctx @ cs \<and>
    (\<forall>opts input err. CallStart opts input err \<in> set cs \<longrightarrow>
       swo_TaskQueue opts \<in> set (worker_actor_queues (Load P)) \<and>
       (\<forall>d. input = StartDeploymentActor d \<longrightarrow> da_ActivityTaskQueue d = worker_activity_queue (Load P)))"
proof -
  let ?s = "control_api_service (Load P)"
  obtain cs where cs: "fst ctx' = fst ctx @ cs" "list_all (starts_well ?s (id_Environment identity) (id_Namespace identity)) cs"
    using EnsureDeploymentActor_calls [OF assms(1)] by (auto simp: adds_def)
  have "sint (sv_ActorShards ?s) < 2 ^ 32" using assms(2) by (simp add: control_api_service_def NewService_def)
  note sp = shard_polled [OF this]
  have polled: "q \<in> set (worker_actor_queues (Load P))" if "actorQueueFor ?s i = Some q" for i q
    using that sp [of "sv_ActorTaskQueue ?s" i] unfolding service_shards by (auto simp: actorQueueFor_def)
  have act: "da_ActivityTaskQueue (deployment_actor_input ?s d p) = worker_activity_queue (Load P)" for d p
    by (simp add: deployment_actor_input_def control_api_service_def NewService_def worker_activity_queue_def)
  have "swo_TaskQueue opts \<in> set (worker_actor_queues (Load P)) \<and>
      (\<forall>d. input = StartDeploymentActor d \<longrightarrow> da_ActivityTaskQueue d = worker_activity_queue (Load P))"
    if c: "CallStart opts input err \<in> set cs" for opts input err
  proof -
    from cs(2) c have "starts_well ?s (id_Environment identity) (id_Namespace identity) (CallStart opts input err)"
      by (simp add: list_all_iff)
    then show ?thesis using polled act by (auto simp: starts_well_def)
  qed
  with cs(1) show ?thesis by metis
qed

text \<open>The file can set what the Kubernetes worker does not see: with four shards in it, the queue of
  the second shard is used by the control API and polled by no Kubernetes worker.\<close>

definition file_env :: process_env where
  "file_env =
     \<lparr>pe_Getenv = (\<lambda>key. []), pe_ReadFile = (\<lambda>path. Inr ''actor: {shards: 4}''),
      pe_Unmarshal = (\<lambda>text cfg. (None, cfg\<lparr>cg_Actor := (cg_Actor cfg)\<lparr>at_Shards := 4\<rparr>\<rparr>))\<rparr>"

lemma kube_worker_ignores_file:
  "shardName ''flink-control-actors'' 1 \<in> set (worker_actor_queues (Load file_env))"
  "kube_actor_queues file_env = [''flink-control-actors'']"
  by (simp_all add: worker_actor_queues_def Load_def applyEnv_def loadFile_def file_env_def config_defaults_def envs_agree
      env_or_def intEnv_def atoi_empty ActorTaskQueues_def kube_actor_queues_def Let_def upt_rec)

text \<open>Sixteen shards, set in the environment.\<close>

definition bare_env :: process_env where
  "bare_env = \<lparr>pe_Getenv = (\<lambda>key. if key = ''ACTOR_TASK_QUEUE_SHARDS'' then itoa 16 else []),
     pe_ReadFile = (\<lambda>path. Inl ''no such file''), pe_Unmarshal = (\<lambda>text cfg. (None, cfg))\<rparr>"


lemma itoa_nonempty: "itoa n \<noteq> []"
  by (simp add: itoa_def int_dec_def)

lemma bare_env_shards: "at_Shards (cg_Actor (Load bare_env)) = 16"
  by (simp add: Load_def applyEnv_def loadFile_def bare_env_def config_defaults_def envInt_def atoi_itoa itoa_nonempty Let_def)

end
