(* ===== verification/Process_Start.thy ===== *)
theory Process_Start
  imports Process_Wiring Auth
begin

text \<open>
  Starting and stopping the processes (cmd/worker, cmd/control-api, backends/kubernetes/cmd/worker).
  Each step that can fail is a function of a state of the world; what the process does is the list of
  its events. A fatal error ends it on the spot: deferred calls only run when \<open>main\<close> returns.
  Log output is not modelled.
\<close>

subsection \<open>Steps\<close>

text \<open>A worker polls one queue and runs what is registered with it: the activities of a backend, or
  the workflows.\<close>

record worker =
  wk_Queue :: string
  wk_Options :: worker_options
  wk_Workflows :: "string list"
  wk_Activities :: "string list"

definition ActivityWorker :: "worker_options \<Rightarrow> string \<Rightarrow> worker" where
  "ActivityWorker opts q =
     \<lparr>wk_Queue = q, wk_Options = opts, wk_Workflows = [], wk_Activities = map activity_name all_activities\<rparr>"

definition ActorWorker :: "worker_options \<Rightarrow> string \<Rightarrow> worker" where
  "ActorWorker opts q = \<lparr>wk_Queue = q, wk_Options = opts, wk_Workflows = RegisterWorkflows, wk_Activities = []\<rparr>"

text \<open>The server of the control API: its address, whether its handler asks for a login, the service it
  serves, and how long it waits.\<close>

record http_server =
  srv_Addr :: string
  srv_Auth :: auth_state
  srv_Control :: Service
  srv_ReadHeaderTimeout :: go_duration
  srv_ReadTimeout :: go_duration
  srv_WriteTimeout :: go_duration
  srv_IdleTimeout :: go_duration

definition control_api_server :: "config_Config \<Rightarrow> http_server" where
  "control_api_server cfg =
     \<lparr>srv_Addr = hp_Address (cg_HTTP cfg), srv_Auth = auth_init (cg_Auth cfg) no_auth, srv_Control = control_api_service cfg,
      srv_ReadHeaderTimeout = 5 * go_second, srv_ReadTimeout = 15 * go_second,
      srv_WriteTimeout = 30 * go_second, srv_IdleTimeout = 60 * go_second\<rparr>"

datatype process_event =
  Dialed dial_options
| BackendBuilt rest_config Config
| CacheSynced
| Started worker
| Ran worker
| Listening http_server
| ShutDown
| Stopped worker
| Closed

record 'w host =
  ho_Dial :: "dial_options \<Rightarrow> 'w \<Rightarrow> go_error option \<times> 'w"
  ho_Start :: "worker \<Rightarrow> 'w \<Rightarrow> go_error option \<times> 'w"
  ho_Run :: "worker \<Rightarrow> 'w \<Rightarrow> go_error option \<times> 'w"
  ho_InCluster :: "'w \<Rightarrow> go_error option \<times> 'w"
  ho_HomeDir :: string
  ho_BuildConfig :: "string \<Rightarrow> 'w \<Rightarrow> go_error option \<times> 'w"
  ho_Backend :: "rest_config \<Rightarrow> Config \<Rightarrow> 'w \<Rightarrow> go_error option \<times> 'w"
  ho_Sync :: "'w \<Rightarrow> go_error option \<times> 'w"
  ho_Listen :: "http_server \<Rightarrow> 'w \<Rightarrow> go_error option \<times> 'w"
  ho_Shutdown :: "'w \<Rightarrow> go_error option \<times> 'w"

text \<open>The exit status, and the events so far.\<close>

type_synonym 'w process = "process_event list \<times> 'w"

text \<open>\<open>log.Fatal\<close> if the step fails, else its event and what comes next.\<close>

definition or_fatal ::
  "('w \<Rightarrow> go_error option \<times> 'w) \<Rightarrow> process_event list \<Rightarrow> ('w process \<Rightarrow> nat \<times> 'w process) \<Rightarrow> 'w process \<Rightarrow> nat \<times> 'w process" where
  "or_fatal step evs next p =
     (case step (snd p) of
        (Some err, w) \<Rightarrow> (1, (fst p, w))
      | (None, w) \<Rightarrow> next (fst p @ evs, w))"

fun start_workers ::
  "'w host \<Rightarrow> worker list \<Rightarrow> ('w process \<Rightarrow> nat \<times> 'w process) \<Rightarrow> 'w process \<Rightarrow> nat \<times> 'w process" where
  "start_workers H [] next p = next p"
| "start_workers H (v # vs) next p = or_fatal (ho_Start H v) [Started v] (start_workers H vs next) p"

text \<open>The workers started run in the background, the primary one in the foreground until the process is
  interrupted; then the deferred calls, the last first. An error of the primary ends the process.\<close>

definition run_workers :: "'w host \<Rightarrow> worker list \<Rightarrow> worker \<Rightarrow> 'w process \<Rightarrow> nat \<times> 'w process" where
  "run_workers H vs primary =
     start_workers H vs (\<lambda>p.
       case ho_Run H primary (snd p) of
         (Some err, w) \<Rightarrow> (1, (fst p @ [Ran primary], w))
       | (None, w) \<Rightarrow> (0, (fst p @ [Ran primary] @ map Stopped (rev vs) @ [Closed], w)))"

subsection \<open>The three programs\<close>

definition worker_main :: "'w host \<Rightarrow> config_Config \<Rightarrow> 'w \<Rightarrow> nat \<times> 'w process" where
  "worker_main H cfg w =
     (let queues = worker_actor_queues cfg
      in or_fatal (ho_Dial H (core_dial cfg)) [Dialed (core_dial cfg)]
           (run_workers H
              (ActivityWorker no_options (worker_activity_queue cfg) # map (ActorWorker no_options) (tl queues))
              (ActorWorker no_options (hd queues)))
           ([], w))"

text \<open>The Kubernetes worker looks for the cluster it runs in, or else for a kubeconfig.\<close>

definition buildRestConfig :: "'w host \<Rightarrow> process_env \<Rightarrow> 'w \<Rightarrow> rest_source result \<times> 'w" where
  "buildRestConfig H P w =
     (case ho_InCluster H w of
        (None, w1) \<Rightarrow> (Inr InClusterConfig, w1)
      | (Some _, w1) \<Rightarrow>
          (let path = kubeconfig_path P (ho_HomeDir H)
           in case ho_BuildConfig H path w1 of
                (Some err, w2) \<Rightarrow> (Inl err, w2)
              | (None, w2) \<Rightarrow> (Inr (FromKubeconfig path), w2)))"

text \<open>It connects to Temporal and to the cluster, and fills its caches, before it starts to work.\<close>

definition kube_connect :: "'w host \<Rightarrow> process_env \<Rightarrow> ('w process \<Rightarrow> nat \<times> 'w process) \<Rightarrow> 'w process \<Rightarrow> nat \<times> 'w process" where
  "kube_connect H P next =
     or_fatal (ho_Dial H (dialTemporal P)) [Dialed (dialTemporal P)]
       (\<lambda>p. case buildRestConfig H P (snd p) of
              (Inl err, w) \<Rightarrow> (1, (fst p, w))
            | (Inr source, w) \<Rightarrow>
                (let rest = kube_rest_config P source
                 in or_fatal (ho_Backend H rest (kube_worker_config P)) [BackendBuilt rest (kube_worker_config P)]
                      (or_fatal (ho_Sync H) [CacheSynced] next) (fst p, w)))"

definition kube_worker_main :: "'w host \<Rightarrow> process_env \<Rightarrow> 'w \<Rightarrow> nat \<times> 'w process" where
  "kube_worker_main H P w =
     (let queues = kube_actor_queues P; opts = kube_worker_options P
      in kube_connect H P
           (run_workers H (ActivityWorker opts (kube_activity_queue P) # map (ActorWorker opts) (tl queues))
              (ActorWorker opts (hd queues)))
           ([], w))"

text \<open>The API listens in a goroutine of its own; the process ends with status 1 if that fails, and shuts down
  if a signal comes first.\<close>

datatype api_end = ListenFailed | Interrupted

definition control_api_main :: "'w host \<Rightarrow> config_Config \<Rightarrow> api_end \<Rightarrow> 'w \<Rightarrow> nat \<times> 'w process" where
  "control_api_main H cfg e w =
     or_fatal (ho_Dial H (core_dial cfg)) [Dialed (core_dial cfg)]
       (\<lambda>p. let server = control_api_server cfg; p1 = (fst p @ [Listening server], snd (ho_Listen H server (snd p)))
            in case e of
                 ListenFailed \<Rightarrow> (1, p1)
               | Interrupted \<Rightarrow> (case ho_Shutdown H (snd p1) of (err, w1) \<Rightarrow> (0, (fst p1 @ [ShutDown, Closed], w1))))
       ([], w)"

text \<open>A server for work on the user interface (internal/api/web/serve.go) hands out the files of its
  directory under /ui/ and sends everything else to the login page. The path comes cleaned, as
  \<open>ServeMux\<close> redirects any other, and /ui to /ui/.\<close>

definition dev_serve :: "(string \<Rightarrow> http_response) \<Rightarrow> http_request \<Rightarrow> http_response" where
  "dev_serve files r =
     (if take 4 (rq_Path r) = ''/ui/'' then files (drop 4 (rq_Path r))
      else if rq_Path r = ''/ui'' then reply 301 (CRedirect ''/ui/'')
      else reply 302 (CRedirect ''/ui/login.html''))"

definition dev_main :: "('w \<Rightarrow> go_error option \<times> 'w) \<Rightarrow> 'w \<Rightarrow> nat \<times> 'w process" where
  "dev_main listen w = or_fatal listen [] (\<lambda>p. (0, p)) ([], w)"

text \<open>A redirection leads to a file at once.\<close>

lemma dev_redirects_end:
  "rp_Content (dev_serve files r) = CRedirect path \<Longrightarrow> take 4 (rq_Path r) \<noteq> ''/ui/'' \<Longrightarrow>
   dev_serve files (r\<lparr>rq_Path := path\<rparr>) = files (drop 4 path)"
  by (auto simp: dev_serve_def reply_def split: if_splits)

subsection \<open>Who runs when\<close>

lemma or_fatal_cases:
  assumes "or_fatal step evs next p = out"
  obtains (fatal) w err where "step (snd p) = (Some err, w)" "out = (1, (fst p, w))"
  | (goes_on) w where "step (snd p) = (None, w)" "next (fst p @ evs, w) = out"
  using assms by (auto simp: or_fatal_def split: prod.splits option.splits)

lemma start_workers_cases:
  assumes "start_workers H vs next p = out"
  obtains (fatal) n w where "n < length vs" "out = (1, (fst p @ map Started (take n vs), w))"
  | (started) w where "next (fst p @ map Started vs, w) = out"
proof -
  have "(\<exists>n w. n < length vs \<and> out = (1, (fst p @ map Started (take n vs), w))) \<or> (\<exists>w. next (fst p @ map Started vs, w) = out)"
    using assms
  proof (induction vs arbitrary: p)
    case Nil
    then show ?case by (intro disjI2 exI [of _ "snd p"]) simp
  next
    case (Cons v vs)
    from Cons.prems have "or_fatal (ho_Start H v) [Started v] (start_workers H vs next) p = out" by simp
    then show ?case
    proof (cases rule: or_fatal_cases)
      case (fatal w err)
      then show ?thesis by (intro disjI1 exI [of _ 0]) simp
    next
      case (goes_on w)
      from Cons.IH [OF this(2)] show ?thesis
      proof (elim disjE exE conjE)
        fix n w1 assume "n < length vs" "out = (1, (fst (fst p @ [Started v], w) @ map Started (take n vs), w1))"
        then show ?thesis by (intro disjI1 exI [of _ "Suc n"]) auto
      next
        fix w1 assume "next (fst (fst p @ [Started v], w) @ map Started vs, w1) = out"
        then show ?thesis by (intro disjI2 exI [of _ w1]) simp
      qed
    qed
  qed
  then show thesis using that by blast
qed

text \<open>Everything a run of the workers can leave behind: all are up before the primary runs, and all are
  stopped, in reverse order, if and only if the process ends with status 0.\<close>

definition orderly :: "process_event list \<Rightarrow> worker list \<Rightarrow> worker \<Rightarrow> nat \<Rightarrow> process_event list \<Rightarrow> bool" where
  "orderly before vs primary status evs \<longleftrightarrow>
     status = 1 \<and> (\<exists>n < length vs. evs = before @ map Started (take n vs)) \<or>
     status = 1 \<and> evs = before @ map Started vs @ [Ran primary] \<or>
     status = 0 \<and> evs = before @ map Started vs @ [Ran primary] @ map Stopped (rev vs) @ [Closed]"

lemma run_workers_orderly:
  assumes "run_workers H vs primary p = (status, p')"
  shows "orderly (fst p) vs primary status (fst p')"
proof -
  from assms have "start_workers H vs (\<lambda>p. case ho_Run H primary (snd p) of
      (Some err, w) \<Rightarrow> (1, (fst p @ [Ran primary], w))
    | (None, w) \<Rightarrow> (0, (fst p @ [Ran primary] @ map Stopped (rev vs) @ [Closed], w))) p = (status, p')"
    by (simp add: run_workers_def)
  then show ?thesis
  proof (cases rule: start_workers_cases)
    case (fatal n w)
    then show ?thesis by (auto simp: orderly_def)
  next
    case (started w)
    then show ?thesis by (auto simp: orderly_def split: prod.splits option.splits)
  qed
qed

lemma worker_main_orderly:
  assumes "worker_main H cfg w = (status, (evs, w'))"
  shows "status = 1 \<and> evs = [] \<or>
    orderly [Dialed (core_dial cfg)]
      (ActivityWorker no_options (worker_activity_queue cfg) # map (ActorWorker no_options) (tl (worker_actor_queues cfg)))
      (ActorWorker no_options (hd (worker_actor_queues cfg))) status evs"
  using assms unfolding worker_main_def Let_def
  by (cases rule: or_fatal_cases) (auto dest: run_workers_orderly)

definition kube_before :: "process_env \<Rightarrow> rest_source \<Rightarrow> process_event list" where
  "kube_before P source =
     [Dialed (dialTemporal P), BackendBuilt (kube_rest_config P source) (kube_worker_config P), CacheSynced]"

lemma kube_connect_cases:
  assumes "kube_connect H P next ([], w) = out"
  obtains (fatal) evs w' where "out = (1, (evs, w'))" "\<forall>v. Started v \<notin> set evs \<and> Ran v \<notin> set evs"
  | (connected) source w' where "next (kube_before P source, w') = out"
proof -
  from assms have "or_fatal (ho_Dial H (dialTemporal P)) [Dialed (dialTemporal P)]
     (\<lambda>p. case buildRestConfig H P (snd p) of
              (Inl err, w) \<Rightarrow> (1, (fst p, w))
            | (Inr source, w) \<Rightarrow>
                (let rest = kube_rest_config P source
                 in or_fatal (ho_Backend H rest (kube_worker_config P)) [BackendBuilt rest (kube_worker_config P)]
                      (or_fatal (ho_Sync H) [CacheSynced] next) (fst p, w))) ([], w) = out"
    by (simp add: kube_connect_def)
  then show thesis
  proof (cases rule: or_fatal_cases)
    case (fatal w1 err)
    then show ?thesis using that(1) by simp
  next
    case (goes_on w1)
    obtain r w2 where b: "buildRestConfig H P w1 = (r, w2)" by (cases "buildRestConfig H P w1")
    show ?thesis
    proof (cases r)
      case (Inl err)
      then show ?thesis using goes_on(2) b that(1) [of "[Dialed (dialTemporal P)]" w2] by simp
    next
      case (Inr source)
      let ?rest = "kube_rest_config P source"
      from goes_on(2) b Inr have "or_fatal (ho_Backend H ?rest (kube_worker_config P)) [BackendBuilt ?rest (kube_worker_config P)]
          (or_fatal (ho_Sync H) [CacheSynced] next) ([Dialed (dialTemporal P)], w2) = out" by (simp add: Let_def)
      then show ?thesis
        by (elim or_fatal_cases) (use that in \<open>auto simp: kube_before_def\<close>)
    qed
  qed
qed

lemma kube_worker_main_orderly:
  assumes "kube_worker_main H P w = (status, (evs, w'))"
  shows "status = 1 \<and> (\<forall>v. Started v \<notin> set evs \<and> Ran v \<notin> set evs) \<or>
    (\<exists>source. orderly (kube_before P source)
      (ActivityWorker (kube_worker_options P) (kube_activity_queue P) #
        map (ActorWorker (kube_worker_options P)) (tl (kube_actor_queues P)))
      (ActorWorker (kube_worker_options P) (hd (kube_actor_queues P))) status evs)"
  using assms unfolding kube_worker_main_def Let_def
  by (elim kube_connect_cases) (auto dest: run_workers_orderly)

text \<open>The workers that poll at some point of a process.\<close>

fun polling :: "process_event \<Rightarrow> worker list" where
  "polling (Started v) = [v]"
| "polling (Ran v) = [v]"
| "polling _ = []"

lemma running_polls:
  assumes "orderly before vs primary status evs" and "Ran v \<in> set evs" and "\<forall>v. Ran v \<notin> set before"
  shows "set (primary # vs) \<subseteq> set (concat (map polling evs))"
proof -
  have "Ran v \<notin> set (before @ map Started (take n vs))" for n using assms(3) by auto
  then have "\<exists>rest. evs = before @ map Started vs @ [Ran primary] @ rest" using assms(1,2) by (auto simp: orderly_def)
  then show ?thesis by auto
qed

lemma all_queues_once:
  "set (x # map f (ActorTaskQueues base shards)) = set (f (hd (ActorTaskQueues base shards)) # x # map f (tl (ActorTaskQueues base shards)))"
  using queues_nonempty [of base shards] by (cases "ActorTaskQueues base shards") auto

lemma orderly_polls:
  assumes "orderly before (x # map f (tl (ActorTaskQueues base shards))) (f (hd (ActorTaskQueues base shards))) status evs"
    and "Ran v \<in> set evs" and "\<forall>v. Ran v \<notin> set before"
  shows "set (x # map f (ActorTaskQueues base shards)) \<subseteq> set (concat (map polling evs))"
  unfolding all_queues_once using assms by (rule running_polls)

text \<open>A process that has come to run its primary worker polls everything.\<close>

lemma worker_process_polls:
  assumes "worker_main H cfg w = (status, (evs, w'))" and "Ran v \<in> set evs"
  shows "set (ActivityWorker no_options (worker_activity_queue cfg) # map (ActorWorker no_options) (worker_actor_queues cfg)) \<subseteq>
    set (concat (map polling evs))"
proof -
  from worker_main_orderly [OF assms(1)] assms(2)
  have "orderly [Dialed (core_dial cfg)]
      (ActivityWorker no_options (worker_activity_queue cfg) # map (ActorWorker no_options) (tl (worker_actor_queues cfg)))
      (ActorWorker no_options (hd (worker_actor_queues cfg))) status evs" by auto
  from orderly_polls [OF this [unfolded worker_actor_queues_def] assms(2)] show ?thesis
    by (simp add: worker_actor_queues_def)
qed

lemma kube_worker_process_polls:
  assumes "kube_worker_main H P w = (status, (evs, w'))" and "Ran v \<in> set evs"
  shows "set (ActivityWorker (kube_worker_options P) (kube_activity_queue P) #
      map (ActorWorker (kube_worker_options P)) (kube_actor_queues P)) \<subseteq> set (concat (map polling evs))"
proof -
  from kube_worker_main_orderly [OF assms(1)] assms(2)
  obtain source where "orderly (kube_before P source)
      (ActivityWorker (kube_worker_options P) (kube_activity_queue P) #
        map (ActorWorker (kube_worker_options P)) (tl (kube_actor_queues P)))
      (ActorWorker (kube_worker_options P) (hd (kube_actor_queues P))) status evs" by auto
  from orderly_polls [OF this [unfolded kube_actor_queues_def] assms(2)] show ?thesis
    by (simp add: kube_actor_queues_def kube_before_def)
qed

subsection \<open>Everything that is started has a worker\<close>

text \<open>The workflows that run under one that was started: an actor runs rollouts and savepoints as its
  children, on its own queue.\<close>

fun workflows_under :: "workflow_start \<Rightarrow> string list" where
  "workflows_under (StartDeploymentActor d) = [''DeploymentActorWorkflow'', ''RolloutWorkflow'', ''SavepointWorkflow'']"
| "workflows_under (StartClusterActor c) = [''ClusterActorWorkflow'']"

fun activities_under :: "workflow_start \<Rightarrow> (string \<times> string) list" where
  "activities_under (StartDeploymentActor d) = map (\<lambda>t. (da_ActivityTaskQueue d, activity_name t)) all_activities"
| "activities_under (StartClusterActor c) = []"

fun served_by :: "worker list \<Rightarrow> client_call \<Rightarrow> bool" where
  "served_by vs (CallStart opts input err) \<longleftrightarrow>
     list_ex (\<lambda>v. wk_Queue v = swo_TaskQueue opts \<and> set (workflows_under input) \<subseteq> set (wk_Workflows v)) vs \<and>
     list_all (\<lambda>(q, name). list_ex (\<lambda>v. wk_Queue v = q \<and> name \<in> set (wk_Activities v)) vs) (activities_under input)"
| "served_by vs _ \<longleftrightarrow> True"

lemma start_served:
  assumes "ActivityWorker opts q \<in> set vs" and "ActorWorker opts (swo_TaskQueue swo) \<in> set vs"
    and "\<And>d. input = StartDeploymentActor d \<Longrightarrow> da_ActivityTaskQueue d = q"
  shows "served_by vs (CallStart swo input err)"
proof -
  have "set (workflows_under input) \<subseteq> set RegisterWorkflows" by (cases input) (simp_all add: RegisterWorkflows_def)
  moreover have "list_all (\<lambda>(q, name). list_ex (\<lambda>v. wk_Queue v = q \<and> name \<in> set (wk_Activities v)) vs) (activities_under input)"
  proof (cases input)
    case (StartDeploymentActor d)
    then show ?thesis using assms(1) assms(3) [OF StartDeploymentActor]
      by (auto simp: list_all_iff list_ex_iff ActivityWorker_def intro!: bexI [of _ "ActivityWorker opts q"])
  qed simp
  ultimately show ?thesis using assms(2)
    by (auto simp: list_ex_iff ActorWorker_def intro!: bexI [of _ "ActorWorker opts (swo_TaskQueue swo)"])
qed

text \<open>C35. The processes fit together: with one environment and file, fewer than two to the 32 shards, and
  a worker process that has got as far as to run its primary worker, every actor the control API
  starts has a worker of that process on its queue with the actor's workflow and the workflows of its
  children, and a worker with every activity on the queue where it schedules them. So does a
  Kubernetes worker, which reads the environment alone, if the file leaves the actor section as it is.\<close>

theorem workers_poll_actors:
  assumes "EnsureDeploymentActor T (control_api_service (Load P)) identity policy ctx = (r, ctx')"
    and "sint (at_Shards (cg_Actor (Load P))) < 2 ^ 32"
    and "worker_main H (Load P) w = (status, (evs, w')) \<or>
      kube_worker_main H P w = (status, (evs, w')) \<and> cg_Actor (loadFile P config_defaults) = cg_Actor config_defaults"
    and "Ran v \<in> set evs"
  shows "\<exists>cs. fst ctx' = fst ctx @ cs \<and> list_all (served_by (concat (map polling evs))) cs"
proof -
  have "\<exists>opts. set (ActivityWorker opts (worker_activity_queue (Load P)) # map (ActorWorker opts) (worker_actor_queues (Load P))) \<subseteq>
      set (concat (map polling evs))"
    using assms(3)
  proof
    assume "worker_main H (Load P) w = (status, (evs, w'))"
    from worker_process_polls [OF this assms(4)] show ?thesis by (rule exI)
  next
    assume k: "kube_worker_main H P w = (status, (evs, w')) \<and> cg_Actor (loadFile P config_defaults) = cg_Actor config_defaults"
    from kube_worker_process_polls [OF conjunct1 [OF k] assms(4)] show ?thesis
      unfolding Load_actor [OF conjunct2 [OF k]] by (rule exI)
  qed
  then obtain opts where all: "set (ActivityWorker opts (worker_activity_queue (Load P)) #
      map (ActorWorker opts) (worker_actor_queues (Load P))) \<subseteq> set (concat (map polling evs))" by (rule exE)
  then have polls: "ActivityWorker opts (worker_activity_queue (Load P)) \<in> set (concat (map polling evs))"
    "q \<in> set (worker_actor_queues (Load P)) \<Longrightarrow> ActorWorker opts q \<in> set (concat (map polling evs))" for q
    by auto
  obtain cs where cs: "fst ctx' = fst ctx @ cs"
    "\<And>swo input err. CallStart swo input err \<in> set cs \<Longrightarrow> swo_TaskQueue swo \<in> set (worker_actor_queues (Load P)) \<and>
       (\<forall>d. input = StartDeploymentActor d \<longrightarrow> da_ActivityTaskQueue d = worker_activity_queue (Load P))"
    using actors_polled [OF assms(1,2)] by blast
  have "served_by (concat (map polling evs)) c" if c: "c \<in> set cs" for c
  proof (cases c)
    case (CallStart swo input err)
    from cs(2) [of swo input err] c CallStart polls show ?thesis
      unfolding CallStart by (intro start_served [of opts "worker_activity_queue (Load P)"]) auto
  qed simp_all
  with cs(1) show ?thesis by (auto simp: list_all_iff)
qed

subsection \<open>A worker that is interrupted\<close>

definition smooth_host :: "unit host" where
  "smooth_host =
     \<lparr>ho_Dial = \<lambda>d w. (None, w), ho_Start = \<lambda>v w. (None, w), ho_Run = \<lambda>v w. (None, w), ho_InCluster = \<lambda>w. (None, w),
      ho_HomeDir = ''/root'', ho_BuildConfig = \<lambda>path w. (None, w), ho_Backend = \<lambda>r c w. (None, w), ho_Sync = \<lambda>w. (None, w), ho_Listen = \<lambda>a w. (None, w), ho_Shutdown = \<lambda>w. (None, w)\<rparr>"

lemma smooth_start: "start_workers smooth_host vs next (evs, ()) = next (evs @ map Started vs, ())"
  by (induction vs arbitrary: evs) (simp_all add: or_fatal_def smooth_host_def)

lemma smooth_run:
  "\<exists>evs. worker_main smooth_host cfg () = (0, (evs, ())) \<and> Ran (ActorWorker no_options (hd (worker_actor_queues cfg))) \<in> set evs"
proof -
  have "or_fatal (ho_Dial smooth_host d) evs k (es, ()) = k (es @ evs, ())" for d evs k es
    by (simp add: or_fatal_def smooth_host_def)
  moreover have "ho_Run smooth_host v () = (None, ())" for v by (simp add: smooth_host_def)
  ultimately show ?thesis
    unfolding worker_main_def run_workers_def Let_def by (simp add: smooth_start del: start_workers.simps)
qed

definition wired :: "unit service_result \<times> unit cctx" where
  "wired = EnsureDeploymentActor (demo_server [] demo_page) (control_api_service (Load bare_env)) wiki None ([], ())"

theorem workers_poll_actors_witness:
  "\<exists>evs. worker_main smooth_host (Load bare_env) () = (0, (evs, ())) \<and>
     list_all (served_by (concat (map polling evs))) (fst (snd wired))"
proof -
  obtain evs where evs: "worker_main smooth_host (Load bare_env) () = (0, (evs, ()))"
    "Ran (ActorWorker no_options (hd (worker_actor_queues (Load bare_env)))) \<in> set evs"
    using smooth_run by blast
  have w: "EnsureDeploymentActor (demo_server [] demo_page) (control_api_service (Load bare_env)) wiki None ([], ()) =
      (fst wired, snd wired)"
    by (simp add: wired_def)
  have "sint (at_Shards (cg_Actor (Load bare_env))) < 2 ^ 32" by (simp add: bare_env_shards)
  from workers_poll_actors [OF w this disjI1 [OF evs(1)] evs(2)] evs(1) show ?thesis by auto
qed

end
