(* ===== verification/End_To_End.thy ===== *)
theory End_To_End
  imports Sdk_Examples Actor_Simulated
begin

text \<open>
  From the SDK to the runtime: what a caller of \<open>Deploy\<close> asks for is what the simulated runtime runs
  in the end. The SDK, the API, the control service, the actor, its rollout and the backend are
  composed as the code composes them: the signal the service sends is the command the actor takes
  from its channel.
\<close>

subsection \<open>An actor the service has just started\<close>

fun exit_state :: "actor_exit \<Rightarrow> DeploymentActorState" where
  "exit_state (Waiting st) = st"
| "exit_state (ContinueAsNew st) = st"

text \<open>Room for so many slots in a node pool, when the lease is asked for.\<close>

definition pool_room :: "sim_world \<Rightarrow> string \<Rightarrow> go_int \<Rightarrow> bool" where
  "pool_room w pool slots \<longleftrightarrow>
     \<not> go_lt simulatedSlotBudget
       (reservedSlots pool (drop_expired (sw_clock w + 2 * max 0 (sa_delay (sw_backend w)) + 1000000) (sa_leases (sw_backend w))) +
        slots)"

lemma room_iff: "sim_has_room w input \<longleftrightarrow> pool_room w (id_NodePool (ri_Identity input)) (Slots (spec_Resources (ri_Target input)))"
  by (simp add: sim_has_room_def pool_room_def Let_def)

text \<open>A specification a first deployment is admitted with.\<close>

definition deployable :: "string \<Rightarrow> DeploymentSpec \<Rightarrow> bool \<Rightarrow> bool" where
  "deployable environment spec approved \<longleftrightarrow>
     contains_str (spec_ImageDigest spec) ''@sha256:'' \<and> go_lt 0 (spec_Parallelism spec) \<and>
     go_le (spec_Parallelism spec) (spec_MaxParallelism spec) \<and> (environment = ''prod'' \<longrightarrow> approved)"

lemma first_admitted:
  assumes "deployable (id_Environment (st_Identity st)) target (cmd_Approved c)"
    and "st_Policy st = DefaultPolicy (id_Environment (st_Identity st))" and "deref st (st_CurrentVersion st) = None"
  shows "admitted (rollout_validate_input (rollout_input q c target st))"
  using assms contains_str_iff [of "spec_ImageDigest target" "''@sha256:''"]
  by (auto simp: admitted_def rollout_validate_input_def rollout_input_def ClassifyChange_def DefaultPolicy_def deployable_def)

lemma started_actor:
  fixes s i
  defines "st \<equiv> actor_init 1 (deployment_actor_input s i None)"
  shows "st_Pending st = []" "st_ProcessedKeys st = Some []" "st_Policy st = DefaultPolicy (id_Environment i)" "st_Identity st = i"
    "st_CurrentVersion st = None"
  by (auto simp: st_def actor_init_def deployment_actor_input_def reload_def normalizeState_def wire_map_def deref_def Let_def)

lemma compact_exit:
  "st_Status (compact (st\<lparr>st_ActiveOperation := x, st_ProcessedEventCount := n\<rparr>)) = st_Status st"
  "st_CurrentVersion (compact (st\<lparr>st_ActiveOperation := x, st_ProcessedEventCount := n\<rparr>)) = st_CurrentVersion st"
  "deref (compact (st\<lparr>st_ActiveOperation := x, st_ProcessedEventCount := n\<rparr>)) p = deref st p"
  by (simp_all add: compact_def deref_def Let_def)

lemma first_deploy_runs:
  assumes "cmd_Type c = CommandDeployVersion" "cmd_TargetSpec c = Some target" "wire_spec target = target"
    and "deployable (id_Environment i) target (cmd_Approved c)"
    and "\<not> contains_str (to_lower (spec_ImageDigest target)) ''deadbeef''"
    and "pool_room w (id_NodePool i) (Slots (spec_Resources target))"
    and "DeploymentActorWorkflow sim_services 1 (deployment_actor_input s i None) [c] ([], w) = (out, rest, (h, w'))"
  shows "rest = [] \<and> st_Status (exit_state out) = ActorIdle \<and>
    (\<exists>v. deref (exit_state out) (st_CurrentVersion (exit_state out)) = Some v \<and> ver_Spec v = target \<and> ver_VersionID v = 1) \<and>
    (\<exists>v. running_version w' i = Some v \<and> ver_Spec v = target)"
proof -
  let ?st = "actor_init 1 (deployment_actor_input s i None)" and ?q = "sv_ActivityTaskQueue s"
  note st = started_actor [of s i]
  have wire: "wire_command c = c" using assms(2,3) by (cases c) (simp add: wire_command_def)
  obtain st1 h1 w1 where p: "processCommand sim_services ?q c ?st ([], w) = (st1, (h1, w1))" by (metis prod_cases3)
  have adm: "admitted (rollout_validate_input (rollout_input ?q c target ?st))"
    by (rule first_admitted) (use assms(4) st in \<open>simp_all add: deref_def\<close>)
  have room: "sim_has_room w (rollout_input ?q c target ?st)"
    using assms(6) st by (simp add: room_iff rollout_input_def)
  have fresh: "\<not> map_has (st_ProcessedKeys ?st) (command_key c)" by (simp add: st no_keys)
  have "sim_passes (st_Policy ?st) target" using assms(5) st by (simp add: sim_passes_default failing_image_def)
  with sim_deploys [OF fresh assms(1,2) adm room p] st
  have done1: "st_Status st1 = ActorIdle"
    "\<exists>v. deref st1 (st_CurrentVersion st1) = Some v \<and> ver_Spec v = target \<and> ver_VersionID v = 1"
    "\<exists>v. running_version w1 i = Some v \<and> ver_Spec v = target"
    by (auto simp: next_version_id_def deref_def)
  let ?st2 = "st1\<lparr>st_ProcessedEventCount := st_ProcessedEventCount st1 + 1\<rparr>"
  have step: "loop_step sim_services ?q c (?st, ([], w)) = (?st2, (h1, w1))" by (simp add: loop_step_def wire p)
  have run: "DeploymentActorWorkflow sim_services 1 (deployment_actor_input s i None) [c] ([], w) =
      actor_run sim_services ?q ?st [c] ([], w)"
    by (simp add: DeploymentActorWorkflow_def deployment_actor_input_def)
  have count: "deref ?st2 p = deref st1 p" for p by (simp add: deref_def)
  show ?thesis
  proof (cases "run_over c ?st2")
    case True
    with run actor_run_step [OF st(1) step, of "[]"] assms(7)
    have "out = ContinueAsNew (compact (?st2\<lparr>st_ActiveOperation := None, st_ProcessedEventCount := 0\<rparr>))" "rest = []" "w' = w1"
      by simp_all
    with done1 show ?thesis by (simp add: compact_exit count)
  next
    case False
    with run actor_run_step [OF st(1) step, of "[]"] assms(7) have "out = Waiting ?st2" "rest = []" "w' = w1"
      by simp_all
    with done1 show ?thesis by (simp add: count)
  qed
qed

subsection \<open>From the SDK to the runtime\<close>

lemma wire_sent: "wire_spec (sent_spec spec) = sent_spec spec"
proof -
  have "sort ks = [] \<longleftrightarrow> ks = []" for ks :: "string list" by (metis length_0_conv length_sort)
  then have "wire_map (wire_strings m) = wire_strings m" for m
    by (auto simp: wire_map_def wire_strings_def sorted_keys_def)
  then show ?thesis by (simp add: wire_spec_def sent_spec_def)
qed

text \<open>C3. Deploying through the SDK works: when \<open>Deploy\<close> has returned a response, the actor that the service
  has started for the deployment, on the simulated runtime, takes the one signal that was sent and
  ends idle with the specification of the request as version 1, and the runtime runs it; the request
  has to be admissible for a first deployment, the node pool has to have room and the image has to be
  a healthy one.\<close>

theorem sdk_deploy_runs:
  assumes "Deploy (api_net rnd now render base A T s schedule clk de) d req (a, ctx) = (Inr resp, (a', ctx'))"
    and "cl_baseURL (dep_client d) = base" "plain_deployment d"
    and "sendable_spec (qd_Spec req)" "utf8 (qd_Requester req)" "utf8 (qd_Reason req)"
    and "length (json_print (the (json_DeployRequest req))) \<le> 1048576"
    and "id_Environment i = dep_Env d" "id_Namespace i = dep_Namespace d" "id_Name i = dep_Name d"
    and "deployable (dep_Env d) (qd_Spec req) (qd_Approved req)"
    and "\<not> contains_str (to_lower (spec_ImageDigest (qd_Spec req))) ''deadbeef''"
    and "pool_room w (id_NodePool i) (Slots (spec_Resources (qd_Spec req)))"
  shows "\<exists>c. signals_of ctx' = signals_of ctx @ [command_signal i c] \<and>
    (case DeploymentActorWorkflow sim_services 1 (deployment_actor_input s i None) [c] ([], w) of
       (out, rest, (h, w')) \<Rightarrow>
         rest = [] \<and> st_Status (exit_state out) = ActorIdle \<and>
         (\<exists>v. deref (exit_state out) (st_CurrentVersion (exit_state out)) = Some v \<and>
            ver_Spec v = sent_spec (qd_Spec req) \<and> ver_VersionID v = 1) \<and>
         (\<exists>v. running_version w' i = Some v \<and> ver_Spec v = sent_spec (qd_Spec req)))"
proof -
  obtain key now' where sent: "signals_of ctx' = signals_of ctx @
    [command_signal (bare_identity (dep_Env d) (dep_Namespace d) (dep_Name d)) (asked_command key req now')]"
    using deploy_sent [OF assms(1-7)] by blast
  let ?c = "asked_command key req now'"
  have c: "cmd_Type ?c = CommandDeployVersion" "cmd_TargetSpec ?c = Some (sent_spec (qd_Spec req))" "cmd_Approved ?c = qd_Approved req"
    by (simp_all add: asked_command_def api_command_def)
  have "deployable (id_Environment i) (sent_spec (qd_Spec req)) (cmd_Approved ?c)"
    using assms(8,11) by (simp add: c deployable_def sent_spec_def)
  note runs = first_deploy_runs [OF c(1,2) wire_sent this, of w s]
  have "command_signal (bare_identity (dep_Env d) (dep_Namespace d) (dep_Name d)) ?c = command_signal i ?c"
    using assms(8-10) by (simp add: command_signal_def WorkflowID_def bare_identity_def)
  with sent runs assms(12,13) show ?thesis by (intro exI [of _ ?c]) (auto simp: sent_spec_def split: prod.split)
qed

subsection \<open>The wiki deployment, from the request to the runtime\<close>

definition wiki_identity :: DeploymentIdentity where
  "wiki_identity = (bare_identity ''dev'' ''jobs'' ''wiki'')\<lparr>id_NodePool := ''default''\<rparr>"

definition wiki_run :: "DeploymentCommand \<Rightarrow> actor_exit \<times> DeploymentCommand list \<times> sim_world ctx" where
  "wiki_run c = DeploymentActorWorkflow sim_services 1 (deployment_actor_input demo_service wiki_identity None) [c] ([], demo_world)"

theorem sdk_deploy_runs_witness:
  "\<exists>c. signals_of (snd (snd (Deploy sdk_net sdk_wiki wiki_deploy (no_auth, ([], ()))))) = [command_signal wiki_identity c] \<and>
    (\<exists>v. running_version (snd (snd (snd (wiki_run c)))) wiki_identity = Some v \<and> ver_Spec v = sent_spec wiki_spec)"
proof -
  obtain resp ctx' where d: "Deploy sdk_net sdk_wiki wiki_deploy (no_auth, ([], ())) = (Inr resp, (no_auth, ctx'))"
    using sdk_deploys by blast
  have text_ok: "utf8 (qd_Requester wiki_deploy)" "utf8 (qd_Reason wiki_deploy)" "sendable_spec (qd_Spec wiki_deploy)"
    using wiki_sendable by (simp_all add: wiki_deploy_def utf8_ascii)
  have identity: "id_Environment wiki_identity = dep_Env sdk_wiki" "id_Namespace wiki_identity = dep_Namespace sdk_wiki"
    "id_Name wiki_identity = dep_Name sdk_wiki"
    by (simp_all add: wiki_identity_def bare_identity_def sdk_wiki_facts)
  have image_ok: "contains_str ''app@sha256:1'' ''@sha256:''" "\<not> contains_str (to_lower ''app@sha256:1'') ''deadbeef''"
    by code_simp+
  then have ok: "deployable (dep_Env sdk_wiki) (qd_Spec wiki_deploy) (qd_Approved wiki_deploy)"
    "\<not> contains_str (to_lower (spec_ImageDigest (qd_Spec wiki_deploy))) ''deadbeef''"
    by (simp_all add: deployable_def wiki_deploy_def wiki_spec_def)
  have room: "pool_room demo_world (id_NodePool wiki_identity) (Slots (spec_Resources (qd_Spec wiki_deploy)))"
    by (simp add: pool_room_def drop_expired_def reservedSlots_def simulatedSlotBudget_def demo_world_def NewSimulated_def
        wiki_deploy_def wiki_spec_def zero_DeploymentSpec_def Slots_def)
  have spec: "qd_Spec wiki_deploy = wiki_spec" by (simp add: wiki_deploy_def)
  have none: "signals_of (([], ()) :: unit cctx) = []" by (simp add: signals_of_def)
  obtain c where c: "signals_of ctx' = [command_signal wiki_identity c]"
    "case wiki_run c of (out, rest, (h, w')) \<Rightarrow>
       rest = [] \<and> st_Status (exit_state out) = ActorIdle \<and>
       (\<exists>v. deref (exit_state out) (st_CurrentVersion (exit_state out)) = Some v \<and>
          ver_Spec v = sent_spec wiki_spec \<and> ver_VersionID v = 1) \<and>
       (\<exists>v. running_version w' wiki_identity = Some v \<and> ver_Spec v = sent_spec wiki_spec)"
    using sdk_deploy_runs [OF d [unfolded sdk_net_def] sdk_wiki_facts(1,2) text_ok(3,1,2) wiki_body identity ok room]
    unfolding wiki_run_def spec none append_Nil by (elim exE conjE)
  obtain out rest h w' where "wiki_run c = (out, rest, (h, w'))" by (metis prod_cases4)
  with c(2) have "\<exists>v. running_version (snd (snd (snd (wiki_run c)))) wiki_identity = Some v \<and> ver_Spec v = sent_spec wiki_spec"
    by simp
  moreover have "signals_of (snd (snd (Deploy sdk_net sdk_wiki wiki_deploy (no_auth, ([], ()))))) = [command_signal wiki_identity c]"
    using c(1) d by simp
  ultimately show ?thesis by blast
qed

end
