(* ===== verification/Load_Generator.thy ===== *)
theory Load_Generator
  imports Api_Control Control_Examples
begin

text \<open>
  The load generator (cmd/loadgen/main.go): a producer that feeds job numbers into a channel, workers
  that register an actor for each job and send it a deploy command, and three counters. Producer and
  workers interleave; a list of moves says who goes next. The report on the terminal is not modelled.
\<close>

subsection \<open>Flags, identities and commands\<close>

record load_flags =
  lf_Count :: go_int
  lf_Concurrency :: go_int
  lf_Temporal :: string
  lf_Namespace :: string
  lf_ActorQueue :: string
  lf_ActivityQueue :: string
  lf_Shards :: go_int
  lf_Environment :: string
  lf_NsBuckets :: go_int
  lf_DoDeploy :: bool

definition load_defaults :: load_flags where
  "load_defaults =
     \<lparr>lf_Count = 10000, lf_Concurrency = 64, lf_Temporal = ''localhost:7233'', lf_Namespace = ''default'',
      lf_ActorQueue = ''flink-control-actors'', lf_ActivityQueue = ''flink-control-activities'', lf_Shards = 1,
      lf_Environment = ''loadtest'', lf_NsBuckets = 50, lf_DoDeploy = True\<rparr>"

definition load_service :: "load_flags \<Rightarrow> Service" where
  "load_service F = NewService (lf_ActorQueue F) (lf_ActivityQueue F) 500 (lf_Shards F)"

text \<open>The verbs \<open>%03d\<close>, \<open>%06d\<close> and \<open>%064x\<close>, of numbers that are not negative.\<close>

definition zero_padded :: "nat \<Rightarrow> string \<Rightarrow> string" where
  "zero_padded width s = replicate (width - length s) (CHR ''0'') @ s"

fun nat_hex :: "nat \<Rightarrow> string" where
  "nat_hex n = (if n < 16 then [hex_digit n] else nat_hex (n div 16) @ [hex_digit (n mod 16)])"

declare nat_hex.simps [simp del]

text \<open>The remainder by zero panics. Go's remainder has the sign of the dividend, a job number here.\<close>

definition load_identity :: "load_flags \<Rightarrow> nat \<Rightarrow> DeploymentIdentity option" where
  "load_identity F i =
     (if lf_NsBuckets F = 0 then None
      else Some \<lparr>id_Environment = lf_Environment F,
        id_Namespace = ''ns-'' @ zero_padded 3 (nat_dec (nat (int i mod \<bar>sint (lf_NsBuckets F)\<bar>))),
        id_Name = ''job-'' @ zero_padded 6 (nat_dec i), id_Owner = [], id_ServiceAccount = [], id_NodePool = ''default'',
        id_FlinkDashboardURL = []\<rparr>)"

definition load_spec :: "nat \<Rightarrow> DeploymentSpec" where
  "load_spec i =
     \<lparr>spec_ImageDigest = ''registry.local/loadgen@sha256:'' @ zero_padded 64 (nat_hex i), spec_GitRef = [],
      spec_FlinkVersion = ''2.2'', spec_JobArgs = None, spec_FlinkConfig = None, spec_Parallelism = 1, spec_MaxParallelism = 4,
      spec_Resources = \<lparr>rs_TaskManagerCPU = f_one, rs_TaskManagerMemory = 1024, rs_TaskManagerCount = 1, rs_SlotsPerManager = 1\<rparr>,
      spec_State = \<lparr>sc_JobGraphCompatible = True, sc_OperatorUIDsStable = True, sc_AllowNonRestored = False,
        sc_FreshStartApproved = False\<rparr>,
      spec_AutoscalerEnabled = False\<rparr>"

definition deployCommand :: "nat \<Rightarrow> go_time \<Rightarrow> DeploymentCommand" where
  "deployCommand i now =
     (let key = ''loadgen-deploy-'' @ zero_padded 6 (nat_dec i)
      in \<lparr>cmd_OperationID = key, cmd_IdempotencyKey = key, cmd_Type = CommandDeployVersion, cmd_Requester = ''loadgen'',
          cmd_RequestedAt = now, cmd_TargetSpec = Some (load_spec i), cmd_TargetVersion = 0, cmd_Parallelism = 0,
          cmd_Approved = True, cmd_Incident = False, cmd_Reason = []\<rparr>)"

subsection \<open>Producer and workers\<close>

text \<open>What a worker is about to do with its job.\<close>

datatype load_phase = Registering | Deploying

record 'w load_state =
  ld_next :: nat
  ld_jobs :: "nat list"
  ld_busy :: "(nat \<times> load_phase) list"
  ld_registered :: nat
  ld_deployed :: nat
  ld_failures :: nat
  ld_world :: 'w

text \<open>The producer puts the next number into the channel, a worker takes one out, or the worker with
  the given job takes its next step.\<close>

datatype generator_move = Feed | Take | Work nat

definition load_capacity :: "load_flags \<Rightarrow> nat" where
  "load_capacity F = nat (sint (lf_Concurrency F * 2))"

definition drop_job :: "nat \<Rightarrow> 'w load_state \<Rightarrow> 'w load_state" where
  "drop_job i st = st\<lparr>ld_busy := filter (\<lambda>(j, _). j \<noteq> i) (ld_busy st)\<rparr>"

text \<open>A panic in a worker ends the process, \<open>Inl\<close> here.\<close>

definition load_register :: "'w control \<Rightarrow> load_flags \<Rightarrow> nat \<Rightarrow> 'w load_state \<Rightarrow> go_error + 'w load_state" where
  "load_register C F i st =
     (case load_identity F i of
        None \<Rightarrow> Inl ''runtime error: integer divide by zero''
      | Some d \<Rightarrow>
          (case ctl_EnsureDeploymentActor C d None (ld_world st) of
             (Inl e, w) \<Rightarrow>
               if e = Panicked then Inl (error_text e)
               else Inr (drop_job i (st\<lparr>ld_failures := ld_failures st + 1, ld_world := w\<rparr>))
           | (Inr _, w) \<Rightarrow>
               let st1 = drop_job i (st\<lparr>ld_registered := ld_registered st + 1, ld_world := w\<rparr>)
               in Inr (if lf_DoDeploy F then st1\<lparr>ld_busy := (i, Deploying) # ld_busy st1\<rparr> else st1)))"

definition load_deploy :: "'w control \<Rightarrow> load_flags \<Rightarrow> nat \<Rightarrow> 'w load_state \<Rightarrow> go_error + 'w load_state" where
  "load_deploy C F i st =
     (case load_identity F i of
        None \<Rightarrow> Inl ''runtime error: integer divide by zero''
      | Some d \<Rightarrow>
          (case ctl_Now C (ld_world st) of
             (now, w1) \<Rightarrow>
               (case ctl_SendCommand C d (deployCommand i now) w1 of
                  (Inl e, w) \<Rightarrow>
                    if e = Panicked then Inl (error_text e)
                    else Inr (drop_job i (st\<lparr>ld_failures := ld_failures st + 1, ld_world := w\<rparr>))
                | (Inr _, w) \<Rightarrow> Inr (drop_job i (st\<lparr>ld_deployed := ld_deployed st + 1, ld_world := w\<rparr>)))))"

text \<open>A move that is not possible is \<open>None\<close>.\<close>

fun load_move :: "'w control \<Rightarrow> load_flags \<Rightarrow> generator_move \<Rightarrow> 'w load_state \<Rightarrow> (go_error + 'w load_state) option" where
  "load_move C F Feed st =
     (if int (ld_next st) < sint (lf_Count F) \<and> length (ld_jobs st) < load_capacity F
      then Some (Inr (st\<lparr>ld_next := ld_next st + 1, ld_jobs := ld_jobs st @ [ld_next st]\<rparr>)) else None)"
| "load_move C F Take st =
     (case ld_jobs st of
        [] \<Rightarrow> None
      | i # jobs \<Rightarrow>
          if int (length (ld_busy st)) < sint (lf_Concurrency F)
          then Some (Inr (st\<lparr>ld_jobs := jobs, ld_busy := (i, Registering) # ld_busy st\<rparr>)) else None)"
| "load_move C F (Work i) st =
     (case map_of (ld_busy st) i of
        None \<Rightarrow> None
      | Some Registering \<Rightarrow> Some (load_register C F i st)
      | Some Deploying \<Rightarrow> Some (load_deploy C F i st))"

definition load_init :: "'w \<Rightarrow> 'w load_state" where
  "load_init w = \<lparr>ld_next = 0, ld_jobs = [], ld_busy = [], ld_registered = 0, ld_deployed = 0, ld_failures = 0, ld_world = w\<rparr>"

text \<open>A run: the state after the moves if all were possible and none panicked.\<close>

fun load_run :: "'w control \<Rightarrow> load_flags \<Rightarrow> generator_move list \<Rightarrow> 'w load_state \<Rightarrow> 'w load_state option" where
  "load_run C F [] st = Some st"
| "load_run C F (m # ms) st =
     (case load_move C F m st of Some (Inr st1) \<Rightarrow> load_run C F ms st1 | _ \<Rightarrow> None)"

text \<open>The channel is closed and empty, and every worker has returned.\<close>

definition load_over :: "load_flags \<Rightarrow> 'w load_state \<Rightarrow> bool" where
  "load_over F st \<longleftrightarrow> sint (lf_Count F) \<le> int (ld_next st) \<and> ld_jobs st = [] \<and> ld_busy st = []"

text \<open>The report stops when this holds at one of its ticks.\<close>

definition progress_done :: "load_flags \<Rightarrow> 'w load_state \<Rightarrow> bool" where
  "progress_done F st \<longleftrightarrow> sint (lf_Count F) \<le> int (ld_registered st) + int (ld_failures st)"

subsection \<open>Every job is counted once\<close>

text \<open>The three ways a step of a worker ends, each with a new state of the world: the job is done, with
  one of the counters moved on, or the worker goes on to deploy.\<close>

lemma work_cases:
  assumes "load_move C F (Work i) st = Some (Inr st')"
  obtains (failed) p w where "map_of (ld_busy st) i = Some p"
      "st' = drop_job i (st\<lparr>ld_failures := ld_failures st + 1, ld_world := w\<rparr>)"
  | (registered) w where "map_of (ld_busy st) i = Some Registering" "\<not> lf_DoDeploy F"
      "st' = drop_job i (st\<lparr>ld_registered := ld_registered st + 1, ld_world := w\<rparr>)"
  | (deploying) w where "map_of (ld_busy st) i = Some Registering" "lf_DoDeploy F"
      "st' = (drop_job i (st\<lparr>ld_registered := ld_registered st + 1, ld_world := w\<rparr>))
         \<lparr>ld_busy := (i, Deploying) # ld_busy (drop_job i st)\<rparr>"
  | (deployed) w where "map_of (ld_busy st) i = Some Deploying"
      "st' = drop_job i (st\<lparr>ld_deployed := ld_deployed st + 1, ld_world := w\<rparr>)"
proof -
  obtain p where p: "map_of (ld_busy st) i = Some p" using assms by (simp split: option.splits)
  show thesis
  proof (cases p)
    case Registering
    with assms p show thesis
      by (auto simp: load_register_def drop_job_def Let_def split: option.splits prod.splits sum.splits if_splits
          intro: failed registered deploying)
  next
    case Deploying
    with assms p show thesis
      by (auto simp: load_deploy_def split: option.splits prod.splits sum.splits if_splits intro: failed deployed)
  qed
qed

lemma work_phase:
  assumes "load_move C F (Work i) st = Some x"
  obtains "map_of (ld_busy st) i = Some Registering" "load_register C F i st = x"
  | "map_of (ld_busy st) i = Some Deploying" "load_deploy C F i st = x"
  using assms by (auto split: option.splits load_phase.splits)

text \<open>Jobs are numbered in order, none is in two places, and each that has left is counted.\<close>

definition load_counts :: "load_flags \<Rightarrow> 'w load_state \<Rightarrow> bool" where
  "load_counts F st \<longleftrightarrow>
     (if lf_DoDeploy F then ld_deployed st else ld_registered st) + ld_failures st + length (ld_busy st) + length (ld_jobs st) = ld_next st \<and>
     distinct (map fst (ld_busy st) @ ld_jobs st) \<and> (\<forall>i \<in> set (map fst (ld_busy st) @ ld_jobs st). i < ld_next st) \<and>
     (Deploying \<in> snd ` set (ld_busy st) \<longrightarrow> lf_DoDeploy F) \<and> ld_next st \<le> nat (sint (lf_Count F))"

text \<open>How many moves are left at most.\<close>

fun phase_weight :: "nat \<times> load_phase \<Rightarrow> nat" where
  "phase_weight (i, Registering) = 2"
| "phase_weight (i, Deploying) = 1"

definition load_weight :: "load_flags \<Rightarrow> 'w load_state \<Rightarrow> nat" where
  "load_weight F st =
     4 * (nat (sint (lf_Count F)) - ld_next st) + 3 * length (ld_jobs st) + sum_list (map phase_weight (ld_busy st))"

lemma without_absent: "i \<notin> fst ` set b \<Longrightarrow> filter (\<lambda>(j, _). j \<noteq> i) b = b"
  by (induction b) auto

lemma dropped:
  assumes "map_of b i = Some p" and "distinct (map fst b)"
  shows "length (filter (\<lambda>(j, _). j \<noteq> i) b) + 1 = length b"
    "sum_list (map phase_weight (filter (\<lambda>(j, _). j \<noteq> i) b)) + phase_weight (i, p) = sum_list (map phase_weight b)"
  using assms by (induction b) (auto simp: without_absent split: if_splits)

lemma dropped_fst: "fst ` set (filter (\<lambda>(j, _). j \<noteq> i) b) = fst ` set b - {i}"
  by force

lemma dropped_distinct: "distinct (map fst b) \<Longrightarrow> distinct (map fst (filter (\<lambda>(j, _). j \<noteq> i) b))"
  by (induction b) auto

lemma phase_weight_pos: "0 < phase_weight (i, p)"
  by (cases p) simp_all

lemma load_counts_step:
  assumes "load_counts F st" and "load_move C F m st = Some (Inr st')"
  shows "load_counts F st' \<and> load_weight F st' < load_weight F st"
proof (cases m)
  case Feed
  have below: "\<forall>i \<in> fst ` set (ld_busy st) \<union> set (ld_jobs st). i < ld_next st" using assms(1) by (simp add: load_counts_def)
  then have new: "ld_next st \<notin> fst ` set (ld_busy st)" "ld_next st \<notin> set (ld_jobs st)" by blast+
  have later: "\<forall>i \<in> fst ` set (ld_busy st) \<union> insert (ld_next st) (set (ld_jobs st)). i < Suc (ld_next st)"
    using below by (auto simp: less_Suc_eq)
  have st': "int (ld_next st) < sint (lf_Count F)" "st' = st\<lparr>ld_next := ld_next st + 1, ld_jobs := ld_jobs st @ [ld_next st]\<rparr>"
    using Feed assms(2) by (simp_all split: if_splits)
  then have "ld_next st < nat (sint (lf_Count F))" by linarith
  then have room: "Suc (ld_next st) \<le> nat (sint (lf_Count F))"
    "4 * (nat (sint (lf_Count F)) - Suc (ld_next st)) + 3 < 4 * (nat (sint (lf_Count F)) - ld_next st)" by linarith+
  from st' assms(1) new later room show ?thesis
    by (cases "lf_DoDeploy F") (simp_all add: load_counts_def load_weight_def)
next
  case Take
  then obtain i jobs where t: "ld_jobs st = i # jobs" "st' = st\<lparr>ld_jobs := jobs, ld_busy := (i, Registering) # ld_busy st\<rparr>"
    using assms(2) by (auto split: list.splits if_splits)
  with assms(1) show ?thesis
    by (cases "lf_DoDeploy F") (simp_all add: load_counts_def load_weight_def)
next
  case (Work i)
  have dist: "distinct (map fst (ld_busy st))" using assms(1) by (simp add: load_counts_def)
  note W = load_counts_def load_weight_def drop_job_def dropped_fst dropped_distinct [OF dist]
  let ?B = "fst ` set (ld_busy st)"
  have sets: "?B \<inter> set (ld_jobs st) = {}" "\<forall>j \<in> ?B \<union> set (ld_jobs st). j < ld_next st"
    using assms(1) by (simp_all add: load_counts_def)
  then have fewer: "(?B - {i}) \<inter> set (ld_jobs st) = {}" "\<forall>j \<in> (?B - {i}) \<union> set (ld_jobs st). j < ld_next st" by blast+
  have phases: "Deploying \<in> snd ` set (filter (\<lambda>(j, _). j \<noteq> i) (ld_busy st)) \<longrightarrow> Deploying \<in> snd ` set (ld_busy st)"
    by force
  from assms(2) [unfolded Work] show ?thesis
  proof (cases rule: work_cases)
    case (failed p w)
    note d = dropped [OF failed(1) dist]
    from failed(2) assms(1) d fewer phases phase_weight_pos [of i p] show ?thesis
      by (cases "lf_DoDeploy F") (simp_all add: W del: set_filter)
  next
    case (registered w)
    note d = dropped [OF registered(1) dist]
    from registered assms(1) d fewer phases show ?thesis by (simp add: W del: set_filter)
  next
    case (deploying w)
    note d = dropped [OF deploying(1) dist]
    have "i \<in> ?B" using deploying(1) by (force dest: map_of_SomeD)
    with sets have "i \<notin> set (ld_jobs st)" "i < ld_next st" by blast+
    with deploying assms(1) d fewer show ?thesis by (simp add: W del: set_filter)
  next
    case (deployed w)
    note d = dropped [OF deployed(1) dist]
    have "lf_DoDeploy F" using assms(1) deployed(1) by (force simp: load_counts_def dest: map_of_SomeD)
    with deployed assms(1) d fewer show ?thesis by (simp add: W del: set_filter)
  qed
qed

subsection \<open>What is sent\<close>

definition load_signal :: "load_flags \<Rightarrow> nat \<times> go_time \<Rightarrow> signal" where
  "load_signal F = (\<lambda>(i, now). command_signal (the (load_identity F i)) (deployCommand i now))"

text \<open>The commands of some jobs have been signalled, each once, and no job still waits that is among
  them; \<open>sigs\<close> are the signals sent.\<close>

definition load_sent :: "load_flags \<Rightarrow> signal list \<Rightarrow> signal list \<Rightarrow> 'w load_state \<Rightarrow> bool" where
  "load_sent F before sigs st \<longleftrightarrow>
     (\<exists>ds. sigs = before @ map (load_signal F) ds \<and> distinct (map fst ds) \<and>
        fst ` set ds \<inter> (fst ` set (ld_busy st) \<union> set (ld_jobs st)) = {} \<and> (\<forall>i \<in> fst ` set ds. i < ld_next st) \<and>
        ld_deployed st \<le> length ds)"

context control_service
begin

lemma register_silent:
  assumes "load_register C F i st = Inr st'"
  shows "sent (ld_world st') = sent (ld_world st) \<and> ld_deployed st' = ld_deployed st"
  using assms ensure_silent
  by (auto simp: load_register_def drop_job_def Let_def split: option.splits prod.splits sum.splits if_splits)

lemma deploy_sends:
  assumes "load_deploy C F i st = Inr st'"
  shows "sent (ld_world st') = sent (ld_world st) \<and> ld_deployed st' = ld_deployed st \<or>
    i \<notin> fst ` set (ld_busy st') \<and> ld_deployed st' \<le> ld_deployed st + 1 \<and>
    (\<exists>now. sent (ld_world st') = sent (ld_world st) @ [load_signal F (i, now)])"
proof -
  obtain d where d: "load_identity F i = Some d" using assms by (auto simp: load_deploy_def split: option.splits)
  obtain now w1 where n: "ctl_Now C (ld_world st) = (now, w1)" by (cases "ctl_Now C (ld_world st)")
  obtain x w where x: "ctl_SendCommand C d (deployCommand i now) w1 = (x, w)" by (cases "ctl_SendCommand C d (deployCommand i now) w1")
  have w: "ld_world st' = w" "i \<notin> fst ` set (ld_busy st')" "ld_deployed st' \<le> ld_deployed st + 1"
    "x \<noteq> Inr () \<Longrightarrow> ld_deployed st' = ld_deployed st"
    using assms d n x by (auto simp: load_deploy_def drop_job_def split: sum.splits if_splits)
  from send_signals [OF x] show ?thesis
  proof
    assume "sent w = sent w1 @ [command_signal d (deployCommand i now)]"
    with w now_silent [OF n] d show ?thesis by (auto simp: load_signal_def)
  next
    assume "sent w = sent w1 \<and> x \<noteq> Inr ()"
    with w now_silent [OF n] show ?thesis by simp
  qed
qed

lemma load_sent_step:
  assumes "load_sent F before (sent (ld_world st)) st" and "load_counts F st" and "load_move C F m st = Some (Inr st')"
  shows "load_sent F before (sent (ld_world st')) st'"
proof -
  obtain ds where ds: "sent (ld_world st) = before @ map (load_signal F) ds" "distinct (map fst ds)"
    "fst ` set ds \<inter> (fst ` set (ld_busy st) \<union> set (ld_jobs st)) = {}" "\<forall>i \<in> fst ` set ds. i < ld_next st"
    "ld_deployed st \<le> length ds"
    using assms(1) unfolding load_sent_def by blast
  show ?thesis
  proof (cases m)
    case Feed
    with assms(3) have st': "st' = st\<lparr>ld_next := ld_next st + 1, ld_jobs := ld_jobs st @ [ld_next st]\<rparr>"
      by (simp split: if_splits)
    show ?thesis unfolding load_sent_def
      by (rule exI [of _ ds]) (use ds st' in \<open>auto simp: less_Suc_eq\<close>)
  next
    case Take
    with assms(3) obtain i jobs where st': "ld_jobs st = i # jobs" "st' = st\<lparr>ld_jobs := jobs, ld_busy := (i, Registering) # ld_busy st\<rparr>"
      by (auto split: list.splits if_splits)
    show ?thesis unfolding load_sent_def
      by (rule exI [of _ ds]) (use ds st' in auto)
  next
    case (Work i)
    have sub: "ld_next st' = ld_next st" "ld_jobs st' = ld_jobs st" "fst ` set (ld_busy st') \<subseteq> fst ` set (ld_busy st)"
      "i \<in> fst ` set (ld_busy st)"
      using assms(3) unfolding Work
      by (cases rule: work_cases; force simp: drop_job_def dest: map_of_SomeD)+
    have "sent (ld_world st') = sent (ld_world st) \<and> ld_deployed st' = ld_deployed st \<or>
      i \<notin> fst ` set (ld_busy st') \<and> ld_deployed st' \<le> ld_deployed st + 1 \<and>
      (\<exists>now. sent (ld_world st') = sent (ld_world st) @ [load_signal F (i, now)])"
      using assms(3) [unfolded Work]
    proof (cases rule: work_phase)
      case 1
      show ?thesis by (rule disjI1 [OF register_silent [OF 1(2)]])
    next
      case 2
      show ?thesis by (rule deploy_sends [OF 2(2)])
    qed
    then show ?thesis
    proof (elim disjE conjE exE)
      assume same: "sent (ld_world st') = sent (ld_world st)" "ld_deployed st' = ld_deployed st"
      have "fst ` set ds \<inter> (fst ` set (ld_busy st') \<union> set (ld_jobs st')) = {}" using ds(3) sub(3) unfolding sub(2) by blast
      then show ?thesis unfolding load_sent_def
        by (intro exI [of _ ds]) (simp add: ds(1,2,4,5) sub(1) same)
    next
      fix now
      assume one: "i \<notin> fst ` set (ld_busy st')" "ld_deployed st' \<le> ld_deployed st + 1"
        "sent (ld_world st') = sent (ld_world st) @ [load_signal F (i, now)]"
      have i: "i \<notin> set (ld_jobs st)" "i < ld_next st" "i \<notin> fst ` set ds"
        using assms(2) sub(4) ds(3) by (auto simp: load_counts_def)
      have ins: "fst ` set (ds @ [(i, now)]) = insert i (fst ` set ds)" by simp
      have "fst ` set (ds @ [(i, now)]) \<inter> (fst ` set (ld_busy st') \<union> set (ld_jobs st')) = {}"
        using ds(3) sub(3) one(1) i(1) unfolding sub(2) ins by blast
      moreover have "ld_deployed st' \<le> length (ds @ [(i, now)])" using one(2) ds(5) by simp
      moreover have "distinct (map fst (ds @ [(i, now)]))" using ds(2) i(3) by simp
      moreover have "\<forall>j \<in> fst ` set (ds @ [(i, now)]). j < ld_next st'" using ds(4) i(2) sub(1) by simp
      moreover have "sent (ld_world st') = before @ map (load_signal F) (ds @ [(i, now)])" using ds(1) one(3) by simp
      ultimately show ?thesis unfolding load_sent_def by blast
    qed
  qed
qed

lemma load_run_inv:
  assumes "load_run C F ms st = Some st'" and "load_counts F st" and "load_sent F before (sent (ld_world st)) st"
  shows "load_counts F st' \<and> load_sent F before (sent (ld_world st')) st' \<and> length ms + load_weight F st' \<le> load_weight F st"
  using assms
proof (induction ms arbitrary: st)
  case (Cons m ms)
  then obtain st1 where m: "load_move C F m st = Some (Inr st1)" "load_run C F ms st1 = Some st'"
    by (auto split: option.splits sum.splits)
  note c = load_counts_step [OF Cons.prems(2) m(1)]
  from Cons.IH [OF m(2)] c load_sent_step [OF Cons.prems(3,2) m(1)] show ?case by auto
qed simp

end

text \<open>As long as there is work left, somebody can move.\<close>

lemma load_not_stuck:
  assumes "\<not> load_over F st" and "0 < sint (lf_Concurrency F)" "sint (lf_Concurrency F) < 2 ^ 62"
  shows "\<exists>m. load_move C F m st \<noteq> None"
proof (cases "ld_busy st")
  case (Cons b bs)
  then show ?thesis by (intro exI [of _ "Work (fst b)"]) (cases b; cases "snd b"; simp)
next
  case free: Nil
  show ?thesis
  proof (cases "ld_jobs st")
    case (Cons i jobs)
    then show ?thesis using free assms(2) by (intro exI [of _ Take]) simp
  next
    case Nil
    have "sint (lf_Concurrency F * 2) = sint (lf_Concurrency F) * 2"
      using assms(2,3) by (simp add: sint_word_ariths signed_take_bit_int_eq_self)
    then have "0 < load_capacity F" using assms(2) by (simp add: load_capacity_def)
    then show ?thesis using Nil free assms(1) by (intro exI [of _ Feed]) (simp add: load_over_def)
  qed
qed

subsection \<open>Names\<close>

lemma padded_digits: "parse_digits 0 (zero_padded k s) = parse_digits 0 s"
proof -
  have "parse_digits 0 (replicate n (CHR ''0'') @ s) = parse_digits 0 s" for n
    by (induction n) (simp_all add: is_digit_def in_range_def)
  then show ?thesis by (simp add: zero_padded_def)
qed

lemma padded_dec_inj: "zero_padded k (nat_dec i) = zero_padded k (nat_dec j) \<longleftrightarrow> i = j"
proof
  assume "zero_padded k (nat_dec i) = zero_padded k (nat_dec j)"
  then have "parse_digits 0 (zero_padded k (nat_dec i)) = parse_digits 0 (zero_padded k (nat_dec j))" by simp
  then show "i = j" by (simp add: padded_digits parse_digits_nat_dec)
qed simp

lemma padded_no_slash: "CHR ''/'' \<notin> set (zero_padded k (nat_dec i))"
proof
  assume "CHR ''/'' \<in> set (zero_padded k (nat_dec i))"
  then obtain d where "d < 10" "CHR ''/'' = digit_char d"
    using nat_dec_digits [of "CHR ''/''" i] by (auto simp: zero_padded_def)
  then have "(of_char (CHR ''/'') :: nat) = 48 + d" by (simp only: of_char_digit)
  then show False by simp
qed

lemma cut_at:
  "c \<notin> set a \<Longrightarrow> c \<notin> set b \<Longrightarrow> a @ c # x = b @ c # y \<longleftrightarrow> a = b \<and> x = y"
proof (induction a arbitrary: b)
  case Nil
  then show ?case by (cases b) auto
next
  case (Cons d a)
  then show ?case by (cases b) auto
qed

text \<open>No two jobs share an actor.\<close>

lemma load_actors_differ:
  assumes "lf_NsBuckets F \<noteq> 0"
  shows "fst (load_signal F (i, t)) = fst (load_signal F (j, u)) \<longleftrightarrow> i = j"
proof -
  let ?ns = "\<lambda>i. ''ns-'' @ zero_padded 3 (nat_dec (nat (int i mod \<bar>sint (lf_NsBuckets F)\<bar>)))"
  have "CHR ''/'' \<notin> set (?ns i)" "CHR ''/'' \<notin> set (?ns j)" using padded_no_slash by simp_all
  note cut_at [OF this, of "''job-'' @ zero_padded 6 (nat_dec i)" "''job-'' @ zero_padded 6 (nat_dec j)"]
  then show ?thesis using assms
    by (auto simp: load_signal_def load_identity_def command_signal_def WorkflowID_def padded_dec_inj)
qed

text \<open>Every command is admissible as the first deployment of its actor, in every environment.\<close>

lemma load_commands_admitted:
  "admitted \<lparr>vi_Identity = d, vi_CurrentVersion = None, vi_Target = load_spec i,
     vi_Classification = ClassifyChange None (load_spec i) policy, vi_Approved = cmd_Approved (deployCommand i now),
     vi_Incident = cmd_Incident (deployCommand i now), vi_Policy = policy\<rparr>"
proof -
  have "spec_ImageDigest (load_spec i) = ''registry.local/loadgen'' @ ''@sha256:'' @ zero_padded 64 (nat_hex i)"
    by (simp add: load_spec_def)
  then have "\<exists>a b. spec_ImageDigest (load_spec i) = a @ ''@sha256:'' @ b" by blast
  then show ?thesis by (simp add: admitted_def ClassifyChange_def deployCommand_def Let_def) (simp add: load_spec_def)
qed

subsection \<open>The whole run\<close>


text \<open>The report can stop early: a job that is registered and then fails to deploy counts twice in it.\<close>

lemma progress_stops_early:
  "progress_done (load_defaults\<lparr>lf_Count := 2\<rparr>)
     ((load_init ())\<lparr>ld_next := 2, ld_jobs := [1], ld_registered := 1, ld_failures := 1\<rparr>)"
  "load_counts (load_defaults\<lparr>lf_Count := 2\<rparr>)
     ((load_init ())\<lparr>ld_next := 2, ld_jobs := [1], ld_registered := 1, ld_failures := 1\<rparr>)"
  "\<not> load_over (load_defaults\<lparr>lf_Count := 2\<rparr>)
     ((load_init ())\<lparr>ld_next := 2, ld_jobs := [1], ld_registered := 1, ld_failures := 1\<rparr>)"
  by (simp_all add: progress_done_def load_counts_def load_over_def load_init_def load_defaults_def)

subsection \<open>One job on the demo server\<close>

definition one_job :: load_flags where
  "one_job = load_defaults\<lparr>lf_Count := 1\<rparr>"

definition demo_load :: "unit cctx load_state option" where
  "demo_load =
     load_run (service_control (demo_server [] demo_page) (load_service one_job) (\<lambda>n. [0..<n]) (\<lambda>w. 100) (\<lambda>s. ''bad json'')) one_job
       [Feed, Take, Work 0, Work 0] (load_init ([], ()))"

lemma demo_load_ensures: "fst (EnsureDeploymentActor (demo_server [] demo_page) (load_service one_job) d p ctx) = Inr ()"
  by (cases ctx) (simp add: EnsureDeploymentActor_def EnsureClusterActor_def start_workflow_def call_def demo_server_def
      actorQueueFor_def ShardTaskQueue_def load_service_def NewService_def one_job_def load_defaults_def Let_def)

lemma demo_load_sends: "fst (SendCommand (demo_server [] demo_page) (load_service one_job) d c ctx) = Inr ()"
  using demo_load_ensures [of d None ctx]
  by (cases "EnsureDeploymentActor (demo_server [] demo_page) (load_service one_job) d None ctx")
    (simp add: SendCommand_def DescribeCluster_def query_def send_signal_def call_def demo_server_def ClusterActorWorkflow_def
      new_cluster_state_def Let_def split: prod.split)

lemma demo_load_ends: "\<exists>st. demo_load = Some st \<and> load_over one_job st"
proof -
  obtain d where d: "load_identity one_job 0 = Some d" by (simp add: load_identity_def one_job_def load_defaults_def)
  obtain ctx1 where e: "EnsureDeploymentActor (demo_server [] demo_page) (load_service one_job) d None ([], ()) = (Inr (), ctx1)"
    using demo_load_ensures by (metis prod.collapse)
  obtain ctx2 where s: "SendCommand (demo_server [] demo_page) (load_service one_job) d (deployCommand 0 100) ctx1 = (Inr (), ctx2)"
    using demo_load_sends by (metis prod.collapse)
  have F: "lf_DoDeploy one_job" "sint (lf_Count one_job) = 1" "sint (lf_Concurrency one_job) = 64" "load_capacity one_job = 128"
    by (simp_all add: one_job_def load_defaults_def load_capacity_def)
  show ?thesis
    unfolding demo_load_def
    by (simp add: load_init_def load_register_def load_deploy_def service_control_def drop_job_def load_over_def d e s F)
qed


end
