(* ===== verification/Event_Producer.thy ===== *)
theory Event_Producer
  imports Process_Wiring Json_Decode
begin

text \<open>
  The example producer (examples/wikimedia-producer/main.go): it reads a stream of server-sent events
  over HTTP, line by line, and publishes each event to Kafka under a key of the event; when the
  stream ends it connects again, after an error with a growing pause. The HTTP client, the Kafka
  writer and the clock are functions of a state of the world; what a computation carries is its trace:
  the messages it has handed to Kafka, what each stream ended with, the answers of the context it asked
  for and its pauses.
\<close>

subsection \<open>Lines\<close>

text \<open>\<open>bufio.ScanLines\<close>: raw lines end at a line feed, the last one may lack it; a carriage return at the end
  is dropped.\<close>

fun raw_lines :: "string \<Rightarrow> string list" where
  "raw_lines [] = []"
| "raw_lines (c # s) =
     (if c = CHR 0x0A then [] # raw_lines s
      else if CHR 0x0A \<in> set s then (case raw_lines s of [] \<Rightarrow> [[c]] | l # ls \<Rightarrow> (c # l) # ls)
      else [c # s])"

definition drop_cr :: "string \<Rightarrow> string" where
  "drop_cr l = (if l \<noteq> [] \<and> last l = CHR 0x0D then butlast l else l)"

text \<open>The scanner gives up on a line that fills its buffer of one mebibyte.\<close>

fun scan_tokens :: "string list \<Rightarrow> string list \<times> bool" where
  "scan_tokens [] = ([], False)"
| "scan_tokens (l # ls) =
     (if 1048576 \<le> length l then ([], True)
      else case scan_tokens ls of (tokens, long) \<Rightarrow> (drop_cr l # tokens, long))"

subsection \<open>Events\<close>

record recentChange =
  rc_Wiki :: string
  rc_ServerName :: string
  rc_Type :: string

definition recent_fields :: "recentChange field list" where
  "recent_fields =
     [(''wiki'', \<lambda>v e. map_option (\<lambda>x. e\<lparr>rc_Wiki := x\<rparr>) (into_string (rc_Wiki e) v)),
      (''server_name'', \<lambda>v e. map_option (\<lambda>x. e\<lparr>rc_ServerName := x\<rparr>) (into_string (rc_ServerName e) v)),
      (''type'', \<lambda>v e. map_option (\<lambda>x. e\<lparr>rc_Type := x\<rparr>) (into_string (rc_Type e) v))]"

definition event_key :: "recentChange \<Rightarrow> string" where
  "event_key event = (if rc_Wiki event = [] then rc_ServerName event else rc_Wiki event)"

text \<open>What a line is published as, if at all: key and value.\<close>

definition line_message :: "string \<Rightarrow> (string \<times> string) option" where
  "line_message line =
     (if \<not> has_prefix line ''data:'' then None
      else let payload = trim_space (trim_prefix line ''data:'')
           in if payload = [] then None
              else case Option.bind (json_parse payload)
                     (\<lambda>j. decode_struct False recent_fields j \<lparr>rc_Wiki = [], rc_ServerName = [], rc_Type = []\<rparr>) of
                None \<Rightarrow> None
              | Some event \<Rightarrow> Some (event_key event, payload))"

subsection \<open>The stream\<close>

text \<open>The response: its status, what its body gives until it ends, and the error it ends with, if any.\<close>

record event_response =
  er_Status :: nat
  er_Body :: string
  er_Error :: "go_error option"

record 'w producer_env =
  pd_BadURL :: "string \<Rightarrow> go_error option"
  pd_Get :: "string \<Rightarrow> (string \<times> string) list \<Rightarrow> 'w \<Rightarrow> event_response result \<times> 'w"
  pd_Write :: "string \<Rightarrow> string \<Rightarrow> 'w \<Rightarrow> go_error option \<times> 'w"
  pd_Done :: "'w \<Rightarrow> bool \<times> 'w"
  pd_Sleep :: "go_duration \<Rightarrow> 'w \<Rightarrow> 'w"

text \<open>What the trace holds: a message handed to Kafka, what a stream ended with, whether the context was
  found done when it was asked, and a pause.\<close>

datatype producer_event = Published string string | Ended "go_error option" | Asked bool | Slept go_duration

type_synonym 'w pctx = "producer_event list \<times> 'w"

fun publish_lines :: "'w producer_env \<Rightarrow> string list \<Rightarrow> 'w pctx \<Rightarrow> go_error option \<times> 'w pctx" where
  "publish_lines E [] ctx = (None, ctx)"
| "publish_lines E (line # lines) (es, w) =
     (case line_message line of
        None \<Rightarrow> publish_lines E lines (es, w)
      | Some (key, payload) \<Rightarrow>
          (case pd_Write E key payload w of
             (Some err, w1) \<Rightarrow> (Some err, (es @ [Published key payload], w1))
           | (None, w1) \<Rightarrow> publish_lines E lines (es @ [Published key payload], w1)))"

definition stream_headers :: "string \<Rightarrow> (string \<times> string) list" where
  "stream_headers userAgent = [(''Accept'', ''text/event-stream''), (''User-Agent'', userAgent)]"

definition stream :: "'w producer_env \<Rightarrow> string \<Rightarrow> string \<Rightarrow> 'w pctx \<Rightarrow> go_error option \<times> 'w pctx" where
  "stream E url userAgent ctx =
     (case pd_BadURL E url of
        Some err \<Rightarrow> (Some err, ctx)
      | None \<Rightarrow>
          (case pd_Get E url (stream_headers userAgent) (snd ctx) of
             (Inl err, w1) \<Rightarrow> (Some err, (fst ctx, w1))
           | (Inr resp, w1) \<Rightarrow>
               if er_Status resp \<noteq> 200
               then (Some (''stream returned HTTP '' @ nat_dec (er_Status resp)), (fst ctx, w1))
               else case scan_tokens (raw_lines (er_Body resp)) of
                  (tokens, long) \<Rightarrow>
                    (case publish_lines E tokens (fst ctx, w1) of
                       (Some err, ctx2) \<Rightarrow> (Some err, ctx2)
                     | (None, ctx2) \<Rightarrow>
                         (if long then Some ''bufio.Scanner: token too long'' else er_Error resp, ctx2))))"

subsection \<open>Connecting again\<close>

definition is_done :: "'w producer_env \<Rightarrow> 'w pctx \<Rightarrow> bool \<times> 'w pctx" where
  "is_done E ctx = (case pd_Done E (snd ctx) of (d, w) \<Rightarrow> (d, (fst ctx @ [Asked d], w)))"

definition ended :: "go_error option \<Rightarrow> 'w pctx \<Rightarrow> 'w pctx" where
  "ended err ctx = (fst ctx @ [Ended err], snd ctx)"

definition pause :: "'w producer_env \<Rightarrow> go_duration \<Rightarrow> 'w pctx \<Rightarrow> 'w pctx" where
  "pause E d ctx = (fst ctx @ [Slept d], pd_Sleep E d (snd ctx))"

text \<open>One turn of the loop: the backoff of the next one.\<close>

definition producer_turn ::
  "'w producer_env \<Rightarrow> string \<Rightarrow> string \<Rightarrow> go_duration \<Rightarrow> 'w pctx \<Rightarrow> go_duration \<times> 'w pctx" where
  "producer_turn E url userAgent backoff ctx =
     (case stream E url userAgent ctx of
        (None, ctx1) \<Rightarrow> (go_second, ended None ctx1)
      | (Some err, ctx1) \<Rightarrow>
          (case is_done E (ended (Some err) ctx1) of
             (True, ctx2) \<Rightarrow> (go_second, ctx2)
           | (False, ctx2) \<Rightarrow>
               (if backoff < 30 * go_second then backoff * 2 else backoff, pause E backoff ctx2)))"

partial_function (option) producer_loop ::
  "'w producer_env \<Rightarrow> string \<Rightarrow> string \<Rightarrow> go_duration \<Rightarrow> 'w pctx \<Rightarrow> 'w pctx option" where
  "producer_loop E url userAgent backoff ctx =
     (case is_done E ctx of
        (stopped, ctx1) \<Rightarrow>
          if stopped then Some ctx1
          else (case producer_turn E url userAgent backoff ctx1 of
                  (next, ctx2) \<Rightarrow> producer_loop E url userAgent next ctx2))"

text \<open>The loop cut off after \<open>n\<close> turns, so that a run that never stops can be spoken of.\<close>

fun producer_turns ::
  "nat \<Rightarrow> 'w producer_env \<Rightarrow> string \<Rightarrow> string \<Rightarrow> go_duration \<Rightarrow> 'w pctx \<Rightarrow> 'w pctx" where
  "producer_turns 0 E url userAgent backoff ctx = ctx"
| "producer_turns (Suc n) E url userAgent backoff ctx =
     (case is_done E ctx of
        (stopped, ctx1) \<Rightarrow>
          if stopped then ctx1
          else (case producer_turn E url userAgent backoff ctx1 of
                  (next, ctx2) \<Rightarrow> producer_turns n E url userAgent next ctx2))"

record producer_settings =
  ps_Brokers :: "string list"
  ps_Topic :: string
  ps_StreamURL :: string
  ps_UserAgent :: string

definition producer_config :: "process_env \<Rightarrow> producer_settings" where
  "producer_config P =
     \<lparr>ps_Brokers = split_all (CHR '','') (env_or P ''KAFKA_BROKERS'' ''localhost:9092''),
      ps_Topic = env_or P ''KAFKA_TOPIC'' ''wikimedia.recentchange'',
      ps_StreamURL = env_or P ''STREAM_URL'' ''https://stream.wikimedia.org/v2/stream/recentchange'',
      ps_UserAgent = env_or P ''USER_AGENT''
        ''cohestra-wikimedia-producer/1.0 (https://github.com/Cohestra/cohestra-control-plane)''\<rparr>"

definition producer_main :: "process_env \<Rightarrow> (string list \<Rightarrow> string \<Rightarrow> 'w producer_env) \<Rightarrow> 'w \<Rightarrow> 'w pctx option" where
  "producer_main P connect w =
     (let s = producer_config P
      in producer_loop (connect (ps_Brokers s) (ps_Topic s)) (ps_StreamURL s) (ps_UserAgent s) go_second ([], w))"

definition producer_run ::
  "nat \<Rightarrow> process_env \<Rightarrow> (string list \<Rightarrow> string \<Rightarrow> 'w producer_env) \<Rightarrow> 'w \<Rightarrow> 'w pctx" where
  "producer_run n P connect w =
     (let s = producer_config P
      in producer_turns n (connect (ps_Brokers s) (ps_Topic s)) (ps_StreamURL s) (ps_UserAgent s) go_second ([], w))"

subsection \<open>Every event once and in order\<close>

lemma raw_lines_joined:
  "list_all (\<lambda>l. CHR 0x0A \<notin> set l) ls \<Longrightarrow> raw_lines (concat (map (\<lambda>l. l @ [CHR 0x0A]) ls)) = ls"
proof (induction ls)
  case (Cons l ls)
  have "CHR 0x0A \<notin> set l \<Longrightarrow> raw_lines (l @ CHR 0x0A # t) = l # raw_lines t" for l t
    by (induction l) auto
  with Cons show ?case by simp
qed simp

lemma scan_short: "list_all (\<lambda>l. length l < 1048576) ls \<Longrightarrow> scan_tokens ls = (map drop_cr ls, False)"
  by (induction ls) auto

lemma published_in_order:
  assumes "publish_lines E lines (es, w) = (err, (es', w'))"
  shows "\<exists>n. es' = es @ map (\<lambda>(k, v). Published k v) (take n (List.map_filter line_message lines)) \<and>
    (err = None \<longrightarrow> length (List.map_filter line_message lines) \<le> n)"
  using assms
proof (induction lines arbitrary: es w)
  case Nil
  then show ?case by (auto simp: List.map_filter_def)
next
  case (Cons line lines)
  show ?case
  proof (cases "line_message line")
    case None
    with Cons show ?thesis by (simp add: List.map_filter_simps)
  next
    case (Some m)
    obtain k v where m: "m = (k, v)" by (cases m)
    obtain x w1 where x: "pd_Write E k v w = (x, w1)" by (cases "pd_Write E k v w")
    show ?thesis
    proof (cases x)
      case None
      with Cons.prems Some m x have "publish_lines E lines (es @ [Published k v], w1) = (err, (es', w'))" by simp
      from Cons.IH [OF this] obtain n where
        "es' = es @ [Published k v] @ map (\<lambda>(k, v). Published k v) (take n (List.map_filter line_message lines))"
        "err = None \<longrightarrow> length (List.map_filter line_message lines) \<le> n" by auto
      with Some m show ?thesis by (intro exI [of _ "Suc n"]) (simp add: List.map_filter_simps)
    next
      case refused: (Some e)
      with Cons.prems Some m x have "err = Some e" "es' = es @ [Published k v]" by auto
      with Some m show ?thesis by (intro exI [of _ 1]) (simp add: List.map_filter_simps)
    qed
  qed
qed

text \<open>C30. The producer forwards what it reads: from a body of lines that are short enough, each ended by a
  line feed, the messages handed to Kafka are those of the lines that are events, once each and in
  their order; all of them if the stream ends without an error, and otherwise the first ones, up to
  the one that Kafka refused.\<close>

theorem producer_forwards:
  assumes "stream E url userAgent (es, w) = (err, (es', w'))" and "pd_BadURL E url = None"
    and "pd_Get E url (stream_headers userAgent) w = (Inr \<lparr>er_Status = 200, er_Body = concat (map (\<lambda>l. l @ [CHR 0x0A]) ls), er_Error = e\<rparr>, w1)"
    and "list_all (\<lambda>l. CHR 0x0A \<notin> set l \<and> length l < 1048576) ls"
  shows "\<exists>n. es' = es @ map (\<lambda>(k, v). Published k v) (take n (List.map_filter line_message (map drop_cr ls))) \<and>
    (err = None \<longrightarrow> length (List.map_filter line_message (map drop_cr ls)) \<le> n)"
proof -
  have "list_all (\<lambda>l. CHR 0x0A \<notin> set l) ls" "list_all (\<lambda>l. length l < 1048576) ls"
    using assms(4) by (simp_all add: list_all_iff)
  then have tokens: "scan_tokens (raw_lines (concat (map (\<lambda>l. l @ [CHR 0x0A]) ls))) = (map drop_cr ls, False)"
    by (simp only: raw_lines_joined scan_short)
  obtain x es2 w2 where x: "publish_lines E (map drop_cr ls) (es, w1) = (x, (es2, w2))" by (metis prod_cases3)
  have "es' = es2" "err = None \<Longrightarrow> x = None"
    using assms(1-3) tokens x by (cases x; simp add: stream_def)+
  with published_in_order [OF x] show ?thesis by metis
qed

text \<open>A line \<open>data:\<close> with a JSON object that names its wiki is published under that name.\<close>

lemma event_line:
  assumes "trim_space (CHR '' '' # payload) = payload" and "json_parse payload = Some j"
    and "decode_struct False recent_fields j \<lparr>rc_Wiki = [], rc_ServerName = [], rc_Type = []\<rparr> = Some event"
  shows "line_message (''data: '' @ payload) = Some (event_key event, payload)"
proof -
  have "json_parse [] = None" by code_simp
  with assms(2) have "payload \<noteq> []" by auto
  with assms show ?thesis by (simp add: line_message_def trim_prefix_def has_prefix_def)
qed

subsection \<open>The pauses\<close>

text \<open>The trace without its messages.\<close>

definition marks :: "producer_event list \<Rightarrow> producer_event list" where
  "marks es = filter (\<lambda>e. case e of Published k v \<Rightarrow> False | _ \<Rightarrow> True) es"

lemma marks_simps [simp]:
  "marks [] = []" "marks (es @ fs) = marks es @ marks fs" "marks (Published k v # es) = marks es"
  "marks (Ended err # es) = Ended err # marks es" "marks (Asked stopped # es) = Asked stopped # marks es"
  "marks (Slept d # es) = Slept d # marks es"
  by (simp_all add: marks_def)

text \<open>How a run is to be paced after \<open>k\<close> failures in a row: the context is asked before each stream; a
  stream that ends without an error, or with the context done, is followed by no pause, and the count
  begins anew; a failure is followed by a pause of two to the number of failures before it, 32 at most,
  in seconds.\<close>

fun paced :: "nat \<Rightarrow> producer_event list \<Rightarrow> bool" where
  "paced k [] = True"
| "paced k (Asked True # es) = (es = [])"
| "paced k (Asked False # Ended None # es) = paced 0 es"
| "paced k (Asked False # Ended (Some err) # Asked True # es) = paced 0 es"
| "paced k (Asked False # Ended (Some err) # Asked False # Slept d # es) = (d = 2 ^ min 5 k * go_second \<and> paced (Suc k) es)"
| "paced k es = False"

lemma publish_silent:
  assumes "publish_lines E lines ctx = (err, ctx')"
  shows "marks (fst ctx') = marks (fst ctx)"
proof -
  obtain es w es' w' where c: "ctx = (es, w)" "ctx' = (es', w')" by (cases ctx; cases ctx')
  have "marks (map (\<lambda>(k, v). Published k v) ms) = []" for ms
    by (induction ms) (auto simp: marks_def)
  with published_in_order [OF assms [unfolded c]] c show ?thesis by auto
qed

lemma stream_silent: "stream E url userAgent ctx = (err, ctx') \<Longrightarrow> marks (fst ctx') = marks (fst ctx)"
  by (auto simp: stream_def split: option.splits prod.splits sum.splits if_splits dest: publish_silent)

text \<open>A stream that ends without an error is opened again at once.\<close>

lemma clean_end_without_pause:
  assumes "stream E url userAgent ctx = (None, ctx')"
  shows "producer_turn E url userAgent backoff ctx = (go_second, ended None ctx')"
  using assms by (simp add: producer_turn_def)

lemma is_done_asks: "\<exists>d w'. is_done E ctx = (d, (fst ctx @ [Asked d], w'))"
  by (cases "pd_Done E (snd ctx)") (simp add: is_done_def)

lemma backoff_doubles: "(if 2 ^ min 5 k * go_second < 30 * go_second then 2 ^ min 5 k * go_second * 2 else 2 ^ min 5 k * go_second) =
    2 ^ min 5 (Suc k) * go_second"
proof (cases "k < 5")
  case True
  then have "k \<in> {0, 1, 2, 3, 4}" by auto
  then show ?thesis by (auto simp: go_second_def)
qed (simp add: min_def go_second_def)

text \<open>What one turn leaves in the trace, and the backoff of the next one.\<close>

lemma turn_marks:
  assumes "producer_turn E url userAgent (2 ^ min 5 k * go_second) ctx = (b, ctx')"
  obtains "marks (fst ctx') = marks (fst ctx) @ [Ended None]" "b = 2 ^ min 5 0 * go_second"
  | err where "marks (fst ctx') = marks (fst ctx) @ [Ended (Some err), Asked True]" "b = 2 ^ min 5 0 * go_second"
  | err where "marks (fst ctx') = marks (fst ctx) @ [Ended (Some err), Asked False, Slept (2 ^ min 5 k * go_second)]"
      "b = 2 ^ min 5 (Suc k) * go_second"
proof -
  obtain err ctx1 where s: "stream E url userAgent ctx = (err, ctx1)" by (cases "stream E url userAgent ctx")
  note quiet = stream_silent [OF s]
  show ?thesis
  proof (cases err)
    case None
    with assms s quiet show ?thesis by (intro that(1)) (auto simp: producer_turn_def ended_def)
  next
    case (Some e)
    obtain d w2 where d: "is_done E (ended (Some e) ctx1) = (d, (fst (ended (Some e) ctx1) @ [Asked d], w2))"
      using is_done_asks [of E "ended (Some e) ctx1"] by blast
    show ?thesis
    proof (cases d)
      case True
      with assms s d Some quiet show ?thesis by (intro that(2)) (auto simp: producer_turn_def ended_def)
    next
      case False
      with assms s d Some quiet show ?thesis
        by (intro that(3)) (auto simp: producer_turn_def ended_def pause_def backoff_doubles)
    qed
  qed
qed

lemma turns_paced:
  "\<exists>es. marks (fst (producer_turns n E url userAgent (2 ^ min 5 k * go_second) ctx)) = marks (fst ctx) @ es \<and> paced k es"
proof (induction n arbitrary: k ctx)
  case 0
  show ?case by (intro exI [of _ "[]"]) simp
next
  case (Suc n)
  obtain d w1 where d: "is_done E ctx = (d, (fst ctx @ [Asked d], w1))" using is_done_asks [of E ctx] by blast
  obtain b ctx2 where t: "producer_turn E url userAgent (2 ^ min 5 k * go_second) (fst ctx @ [Asked d], w1) = (b, ctx2)"
    by (metis surj_pair)
  let ?out = "producer_turns (Suc n) E url userAgent (2 ^ min 5 k * go_second) ctx"
  show ?case
  proof (cases d)
    case True
    with d show ?thesis by (intro exI [of _ "[Asked True]"]) simp
  next
    case False
    with d t have out: "?out = producer_turns n E url userAgent b ctx2" by simp
    show ?thesis
    proof (rule turn_marks [OF t])
      assume m: "marks (fst ctx2) = marks (fst (fst ctx @ [Asked d], w1)) @ [Ended None]" and b: "b = 2 ^ min 5 0 * go_second"
      from Suc.IH [of 0 ctx2] obtain es where "marks (fst ?out) = marks (fst ctx2) @ es" "paced 0 es" unfolding out b by blast
      with m False show ?thesis by (intro exI [of _ "Asked False # Ended None # es"]) simp
    next
      fix err
      assume m: "marks (fst ctx2) = marks (fst (fst ctx @ [Asked d], w1)) @ [Ended (Some err), Asked True]"
        and b: "b = 2 ^ min 5 0 * go_second"
      from Suc.IH [of 0 ctx2] obtain es where "marks (fst ?out) = marks (fst ctx2) @ es" "paced 0 es" unfolding out b by blast
      with m False show ?thesis by (intro exI [of _ "Asked False # Ended (Some err) # Asked True # es"]) simp
    next
      fix err
      let ?p = "[Ended (Some err), Asked False, Slept (2 ^ min 5 k * go_second)]"
      assume m: "marks (fst ctx2) = marks (fst (fst ctx @ [Asked d], w1)) @ ?p" and b: "b = 2 ^ min 5 (Suc k) * go_second"
      from Suc.IH [of "Suc k" ctx2] obtain es where "marks (fst ?out) = marks (fst ctx2) @ es" "paced (Suc k) es"
        unfolding out b by blast
      with m False show ?thesis by (intro exI [of _ "Asked False # ?p @ es"]) simp
    qed
  qed
qed

text \<open>A run that stops is such a cut.\<close>

lemma loop_turns:
  fixes E :: "'w producer_env"
  assumes "producer_loop E url userAgent backoff ctx = Some out"
  shows "\<exists>n. out = producer_turns n E url userAgent backoff ctx"
proof (rule producer_loop.raw_induct
    [where P = "\<lambda>E url userAgent backoff ctx out. \<exists>n. out = producer_turns n E url userAgent backoff ctx", OF _ assms])
  fix loop and E :: "'w producer_env" and url userAgent backoff and ctx out :: "'w pctx"
  assume IH: "\<And>E url userAgent backoff ctx out. loop E url userAgent backoff ctx = Some out \<Longrightarrow>
      \<exists>n. out = producer_turns n E url userAgent backoff ctx"
    and step: "(case is_done E ctx of (stopped, ctx1) \<Rightarrow> if stopped then Some ctx1
      else (case producer_turn E url userAgent backoff ctx1 of (next, ctx2) \<Rightarrow> loop E url userAgent next ctx2)) = Some out"
  obtain stopped ctx1 where d: "is_done E ctx = (stopped, ctx1)" by (cases "is_done E ctx")
  obtain b ctx2 where t: "producer_turn E url userAgent backoff ctx1 = (b, ctx2)" by (cases "producer_turn E url userAgent backoff ctx1")
  show "\<exists>n. out = producer_turns n E url userAgent backoff ctx"
  proof (cases stopped)
    case True
    with step d show ?thesis by (intro exI [of _ 1]) simp
  next
    case False
    with step d t have "loop E url userAgent b ctx2 = Some out" by simp
    from IH [OF this] obtain n where "out = producer_turns n E url userAgent b ctx2" by blast
    with d t False show ?thesis by (intro exI [of _ "Suc n"]) simp
  qed
qed

text \<open>C31. The producer backs off and recovers: whatever the network and Kafka do, and however long it runs,
  it pauses after every stream that failed while it was not being stopped, and only then, for one
  second after the first failure in a row, twice as long after each further one and 32 seconds at most;
  a stream that ends without an error begins the count anew. A run that ends is one of those.\<close>

theorem producer_paces:
  "(\<forall>n. paced 0 (marks (fst (producer_run n P connect w)))) \<and>
   (\<forall>ctx'. producer_main P connect w = Some ctx' \<longrightarrow> (\<exists>n. ctx' = producer_run n P connect w))"
proof (intro conjI allI impI)
  let ?s = "producer_config P"
  show "paced 0 (marks (fst (producer_run n P connect w)))" for n
    using turns_paced [of n "connect (ps_Brokers ?s) (ps_Topic ?s)" "ps_StreamURL ?s" "ps_UserAgent ?s" 0 "([], w)"]
    by (auto simp: producer_run_def Let_def)
  show "\<exists>n. ctx' = producer_run n P connect w" if "producer_main P connect w = Some ctx'" for ctx'
    unfolding producer_run_def Let_def by (rule loop_turns [OF that [unfolded producer_main_def Let_def]])
qed

subsection \<open>Two streams\<close>

text \<open>A body of one event, and a server that is down. The world counts the questions after the end.\<close>

definition event_lines :: "string list" where
  "event_lines = [''event: message'', ''data: {\"wiki\":\"enwiki\"}'', []]"

definition event_env :: "event_response result \<Rightarrow> nat producer_env" where
  "event_env response =
     \<lparr>pd_BadURL = (\<lambda>url. None), pd_Get = (\<lambda>url headers w. (response, w)), pd_Write = (\<lambda>key payload w. (None, w)),
      pd_Done = (\<lambda>w. (3 \<le> w, w + 1)), pd_Sleep = (\<lambda>d w. w)\<rparr>"

definition one_stream :: "go_error option \<times> nat pctx" where
  "one_stream =
     stream (event_env (Inr \<lparr>er_Status = 200, er_Body = concat (map (\<lambda>l. l @ [CHR 0x0A]) event_lines), er_Error = None\<rparr>)) ''url'' ''agent'' ([], 0)"

theorem producer_forwards_witness:
  "\<exists>n. fst (snd one_stream) = take n [Published ''enwiki'' ''{\"wiki\":\"enwiki\"}'']"
proof -
  obtain err es' w' where o: "one_stream = (err, (es', w'))" by (metis prod_cases3)
  have messages: "List.map_filter line_message (map drop_cr event_lines) = [(''enwiki'', ''{\"wiki\":\"enwiki\"}'')]" by code_simp
  have short: "list_all (\<lambda>l. CHR 0x0A \<notin> set l \<and> length l < 1048576) event_lines" by (simp add: event_lines_def)
  have "\<exists>n. es' = [] @ map (\<lambda>(k, v). Published k v) (take n (List.map_filter line_message (map drop_cr event_lines))) \<and>
      (err = None \<longrightarrow> length (List.map_filter line_message (map drop_cr event_lines)) \<le> n)"
    by (rule producer_forwards [OF o [unfolded one_stream_def] _ _ short]) (simp_all add: event_env_def)
  then show ?thesis unfolding o messages by (auto simp flip: take_map)
qed

text \<open>Three streams fail in a row before the context is done.\<close>

theorem producer_paces_witness:
  "\<exists>ctx' n. producer_main bare_env (\<lambda>brokers topic. event_env (Inl ''refused'')) 0 = Some ctx' \<and>
     ctx' = producer_run n bare_env (\<lambda>brokers topic. event_env (Inl ''refused'')) 0 \<and> paced 0 (marks (fst ctx')) \<and>
     marks (fst ctx') = [Asked False, Ended (Some ''refused''), Asked False, Slept go_second,
       Asked False, Ended (Some ''refused''), Asked True, Asked True]"
proof -
  let ?E = "event_env (Inl ''refused'')"
  have turn: "producer_turn ?E url ua b (es, w) =
      (if 3 \<le> w then (go_second, (es @ [Ended (Some ''refused''), Asked True], w + 1))
       else (if b < 30 * go_second then b * 2 else b, (es @ [Ended (Some ''refused''), Asked False, Slept b], w + 1)))" for url ua b es w
    by (simp add: producer_turn_def stream_def event_env_def is_done_def pause_def ended_def)
  have loop: "producer_loop ?E url ua b (es, w) =
      (if 3 \<le> w then Some (es @ [Asked True], w + 1)
       else case producer_turn ?E url ua b (es @ [Asked False], w + 1) of (next, ctx2) \<Rightarrow> producer_loop ?E url ua next ctx2)"
    for url ua b es w
    by (subst producer_loop.simps) (simp add: is_done_def event_env_def)
  have pos: "0 < go_second" by (simp add: go_second_def)
  have c: "\<exists>ctx'. producer_main bare_env (\<lambda>brokers topic. ?E) 0 = Some ctx' \<and>
      marks (fst ctx') = [Asked False, Ended (Some ''refused''), Asked False, Slept go_second,
        Asked False, Ended (Some ''refused''), Asked True, Asked True]"
    by (simp add: producer_main_def Let_def) (subst loop, simp add: turn pos, subst loop, simp add: turn pos, subst loop, simp add: marks_def)
  with producer_paces [of bare_env "\<lambda>brokers topic. ?E" 0] show ?thesis by metis
qed

end
