(* ===== verification/Spec2Isabelle.thy ===== *)
theory Spec2Isabelle
  imports Control_Examples Lease_Refinement Answer_Examples Kubernetes_Examples Api_Types Process_Start End_To_End Load_Generator Event_Producer
begin

text \<open>
  Cohestra: a verification library for the control plane in src/.

  \<^bold>\<open>The program.\<close> Cohestra runs Flink jobs through Temporal workflows. A client (curl, the Go SDK, the
  user interface) talks to the HTTP API (internal/api), behind a login (internal/auth). The API turns
  a request into a command for the control service (control/service.go), which starts one deployment
  actor per deployment and one cluster actor per namespace, signals commands to them and queries
  them. A deployment actor (workflows/deployment_actor.go) takes commands one by one and runs child
  workflows (workflows/rollout.go, savepoint.go). These call the nine activities of a backend
  (activities/types.go): the simulated one in memory (activities/simulated.go) or the one on
  Kubernetes (backends/kubernetes). Versions, changes and health are judged by the pure functions of
  the package domain. Actors are spread over task queues (sharding.go) which the workers poll.

  \<^bold>\<open>Theories and code.\<close>

  \<^item> Foundations of Go: \<open>Go_Base\<close> (integers as 64-bit words, strings as bytes, maps, errors, the locale
    \<open>invariant_machine\<close>), \<open>Float64\<close> (float64 as its bits, rounding, printing), \<open>Float_Round\<close> (which
    reals round to a float64, and that the shortest decimal does), \<open>Digest\<close> (SHA-256 and FNV-1a), \<open>Base64\<close>,
    \<open>Json_Text\<close>, \<open>Json_Parse\<close> and \<open>Json_Decode\<close> (encoding/json), \<open>Float_Text\<close> (float64 as JSON numbers),
    \<open>Parse_Float\<close> (strconv.ParseFloat and float32),
    \<open>Lease_Text\<close> and \<open>Time_Text\<close> (the calendar and RFC 3339), \<open>Http\<close> (requests, responses and route
    patterns of net/http).
  \<^item> Domain: \<open>Domain_Model\<close> (domain/model.go, command.go, cluster.go, list.go), \<open>Change\<close>
    (domain/change.go: \<open>ClassifyChange\<close>, \<open>EvaluateHealth\<close>, \<open>BuildVersion\<close>).
  \<^item> Activities: \<open>Activity_Types\<close> (activities/types.go, validate.go, with the locale
    \<open>admitting_backend\<close>), \<open>Simulated\<close> (activities/simulated.go).
  \<^item> Workflows: \<open>Workflow_Env\<close> (what a workflow sees of Temporal, workflows/options.go), \<open>Rollout\<close>
    (workflows/rollout.go, savepoint.go; the locales \<open>body_frame\<close> and \<open>world_frame\<close>),
    \<open>Deployment_Actor\<close> (workflows/deployment_actor.go), \<open>Cluster_Actor\<close> (workflows/cluster_actor.go),
    \<open>Sharding\<close> (sharding.go), \<open>Registration\<close> (register.go).
  \<^item> Control service: \<open>Page_Cursor\<close>, \<open>Control_Service\<close>, \<open>Deployment_Listing\<close> (control/service.go).
  \<^item> API: \<open>Auth\<close> (internal/auth/auth.go), \<open>Api_Server\<close> (internal/api/server.go, ui.go), \<open>Api_Json\<close> (the
    text of its answers, from the tags in domain/), and what they promise together in \<open>Api_Control\<close>
    (the locale \<open>control_service\<close>), \<open>Api_Types\<close>, \<open>Api_Sessions\<close>, \<open>Api_Commands\<close>.
  \<^item> Kubernetes: \<open>Lease_Store\<close>, \<open>Lease_Codec\<close>, \<open>Lease_Pool\<close>, \<open>Lease_Refinement\<close>
    (backends/kubernetes/leases.go), \<open>Kube_Api\<close>, \<open>Flink_Render\<close> (flink.go), \<open>Kubernetes_Adapter\<close> (adapter.go), \<open>Kubernetes_Rollout\<close>.
  \<^item> Processes: \<open>Configuration\<close> (internal/config/config.go), \<open>Process_Wiring\<close> and
    \<open>Process_Start\<close> (cmd/control-api, cmd/worker, backends/kubernetes/cmd/worker, internal/api/web),
    \<open>Load_Generator\<close> (cmd/loadgen), \<open>Event_Producer\<close> (examples/wikimedia-producer).
  \<^item> SDK: \<open>Sdk_Types\<close>, \<open>Sdk_Client\<close> (sdk/go/cohestra), \<open>Sdk_Wire\<close> (the locale \<open>api_network\<close>),
    \<open>Sdk_Commands\<close>, \<open>Sdk_Loops\<close>, \<open>Json_Codec\<close> (encoders of the API against decoders of the SDK, struct by
    struct, as interpretations of the locale \<open>codec\<close>), \<open>Sdk_Answers\<close>. \<open>End_To_End\<close> composes the SDK,
    the API, the service, the actor, its rollout and the simulated backend.
  \<^item> The theories named \<open>Examples\<close>, and the second half of \<open>Actor_Simulated\<close>, apply the properties to
    concrete inputs.

  \<^bold>\<open>State and effects.\<close> Definitions have the names of the source where these are free; a prefix (\<open>Sim\<close>,
  \<open>Kube\<close>, \<open>sdk_\<close>) tells namesakes apart. Structs are records, enumerations datatypes, errors are values
  of a sum with their text, a panic is a value of its own where the code can reach one. Everything
  outside this repository (Temporal's client, activity execution, the Kubernetes API server and its
  caches, Google's token endpoint, clocks, random sources, the HTTP transport of the SDK, the YAML
  decoder) is a function argument, collected in the records \<open>services\<close>, \<open>temporal\<close>, \<open>kube\<close>,
  \<open>auth_env\<close>, \<open>net\<close>, \<open>process_env\<close>, \<open>host\<close> and \<open>producer_env\<close>. These functions act on a state \<open>'w\<close> of the world, so they may
  answer anything, differently at every call. Workflows and the service also carry the list of the
  calls they have made; safety properties speak of that list.

  \<^bold>\<open>What the lemmas show.\<close>

  \<^item> Rollouts: every run refines a trace specification (lease, savepoint, apply, gate, restore); leases
    are released, savepoints come before the apply, a job that fails the gate is restored; on the
    simulated runtime, how every rollout ends, under any policy.
  \<^item> Actor: processing a command refines a small specification; the invariant of its state over any
    number of runs; idempotence by key; the loop handles signals once and in order; nothing unapproved
    is applied on any backend that runs \<open>ValidateSpec\<close>, as both do.
  \<^item> Simulated backend and lease store: the slot budget as an invariant, for requests of at most 2^62 slots
    and none below zero (which the code does not check). For the lease store it holds over all
    interleavings of API calls by many workers, given as an inductive step relation with clocks that
    may be ahead by a bound; what is stored of a held lease holds without a bound on requests, and
    \<open>acquire\<close> and \<open>release\<close> are shown to run as activities of that relation.
  \<^item> Kubernetes: loops return, results were read from the cluster, precedence of settings.
  \<^item> Service and API: which signal a request sends and when, the type of every answer, the freeze,
    retries, sessions, paging.
  \<^item> SDK: a command that is reported as accepted arrived as it was asked for, and a view that is read is
    the one that was answered; the wait returns, but does not wait for the command before it; the
    autoscaler and the actor contradict each other; and from end to end, a first deployment made
    through the SDK ends with the runtime running what was asked for.
  \<^item> Processes: activities scheduled by name reach the backend's methods; every actor the API starts has
    workers for its workflows and activities; the load generator counts every job once in every
    interleaving of its workers; the producer forwards events in order and backs off after failures, however long it
    runs.
  \<^item> Encodings: round trips of JSON, page tokens, workflow identifiers, base64, durations, times and
    every finite float64; from these, of every struct the API answers and of the stored leases.

  \<^bold>\<open>Loops and fuel.\<close> Recursion on data is structural. The loops nothing bounds are partial functions
  (listing, the polling of \<open>ObserveDeployment\<close> and \<open>ObserveSavepoint\<close>, \<open>WaitHealthy\<close>, the producer); that
  polling and waiting return under a clock that moves on is proved, and that a client's paging ends; the
  producer, which need not stop, is also cut off after any number of turns. The JSON reader takes fuel, twice the length of the text plus
  two, and \<open>Json_Parse\<close> shows that more makes no difference; durations take the length of their text;
  a client that follows page tokens takes one unit per page, and the number of deployments plus one
  is shown to be enough. The cluster actor and the autoscaler run for ever in the code: here they are
  folds over the signals or ticks they get.

  \<^bold>\<open>Assumptions.\<close> Ints have 64 bits. Statements about the API behind the SDK assume that a request
  with plain path parts arrives unchanged (\<open>api_network\<close>). That the lease store's operations are those of
  \<open>Lease_Pool\<close> assumes an API server that reads atomically and compares versions on an update
  (\<open>lease_api\<close>, with a server that does). SHA-256 is computed and not assumed to be
  free of collisions. Sequential access to the session map and to the state of the simulated backend
  is that of \<open>sync.Map\<close> and the mutex.

  \<^bold>\<open>Not modelled.\<close> The embedded files of the user interface; logging, the request logger among it; the
  terminal report of the load generator; the clients in other languages.
  Temporal's replay and the JSON decoding of values that Temporal itself stored are taken as the
  identity up to what \<open>Deployment_Actor\<close> says of pointers and empty maps.
\<close>

end
